(* ===== verification/Prelude.thy ===== *)
theory Prelude
  imports Main "HOL-Library.Word" "HOL-Library.State_Monad"
begin

text \<open>
  Shared names, automation and generic lemmas.

  The machine integers of the C++ code are words of their own width.  The collections named
  here are filled by the later theories: \<open>host_wp\<close> holds the weakest-precondition
  equations of the control-flow combinators, \<open>op_wp\<close> the equations of single host
  operations, \<open>wp_intro\<close> the introduction rules that run an operation into a fresh world,
  \<open>emits_intro\<close> the rules that bound which events an operation can add to
  the history, and \<open>const_defs\<close> the constants of the program.
\<close>

unbundle bit_operations_syntax

named_theorems host_wp "weakest preconditions of the control-flow combinators"
named_theorems op_wp "weakest preconditions of the host operations"
named_theorems wp_intro "weakest preconditions, one fresh world per operation"
named_theorems emits_intro "event footprints of the combinators and operations"
named_theorems const_defs "the compile-time constants of the program"

type_synonym u8 = "8 word"
type_synonym u16 = "16 word"
type_synonym u32 = "32 word"
type_synonym u64 = "64 word"

section \<open>Lists\<close>

definition newest_first_fold :: "('e \<Rightarrow> 's \<Rightarrow> 's) \<Rightarrow> 'e list \<Rightarrow> 's \<Rightarrow> 's" where
  "newest_first_fold f es s = foldr f es s"

lemma newest_first_fold_Nil [simp]: "newest_first_fold f [] s = s"
  by (simp add: newest_first_fold_def)

lemma newest_first_fold_Cons [simp]:
  "newest_first_fold f (e # es) s = f e (newest_first_fold f es s)"
  by (simp add: newest_first_fold_def)

lemma newest_first_fold_append [simp]:
  "newest_first_fold f (es @ es') s = newest_first_fold f es (newest_first_fold f es' s)"
  by (simp add: newest_first_fold_def)

lemma sorted_wrt_snoc [simp]:
  "sorted_wrt P (xs @ [x]) \<longleftrightarrow> sorted_wrt P xs \<and> (\<forall>y \<in> set xs. P y x)"
  by (auto simp: sorted_wrt_append)

lemma set_tl_subset: "set (tl xs) \<subseteq> set xs"
  by (cases xs) auto

lemma sorted_wrt_tl: "sorted_wrt P xs \<Longrightarrow> sorted_wrt P (tl xs)"
  by (cases xs) auto

section \<open>Words\<close>

lemma unat_u8_less: "unat (x :: u8) < 256"
proof -
  have "unat x < 2 ^ LENGTH(8)" by (rule unsigned_less)
  then show ?thesis by simp
qed

lemma unat_u16_less: "unat (x :: u16) < 65536"
proof -
  have "unat x < 2 ^ LENGTH(16)" by (rule unsigned_less)
  then show ?thesis by simp
qed

lemma unat_u32_less: "unat (x :: u32) < 4294967296"
proof -
  have "unat x < 2 ^ LENGTH(32)" by (rule unsigned_less)
  then show ?thesis by simp
qed

lemma unat_u64_less: "unat (x :: u64) < 18446744073709551616"
proof -
  have "unat x < 2 ^ LENGTH(64)" by (rule unsigned_less)
  then show ?thesis by simp
qed

lemma unat_ucast_widen [simp]:
  "unat (ucast (x :: u8) :: u16) = unat x" "unat (ucast (x :: u8) :: u32) = unat x"
  "unat (ucast (y :: u16) :: u32) = unat y" "unat (ucast (x :: u8) :: u64) = unat x"
  "unat (ucast (y :: u16) :: u64) = unat y" "unat (ucast (z :: u32) :: u64) = unat z"
  using unat_u8_less [of x] unat_u16_less [of y] unat_u32_less [of z]
  by (simp_all add: unsigned_ucast_eq take_bit_eq_mod)

section \<open>Error codes\<close>

text \<open>An error code is clear, or a value of the SDO category or of some other one.\<close>

datatype ecode = NoError | SdoCategory u32 | OtherCategory int

definition failed :: "ecode \<Rightarrow> bool" where
  "failed e \<longleftrightarrow> e \<noteq> NoError"

lemma failed_simps [simp]:
  "\<not> failed NoError" "failed (SdoCategory c)" "failed (OtherCategory n)"
  by (simp_all add: failed_def)

section \<open>Words\<close>

lemma xor_cancel_right [simp]: "(a :: 'a::len word) XOR c = b XOR c \<longleftrightarrow> a = b"
  by (metis xor.assoc xor.right_neutral xor_self_eq)

end
