(* ===== verification/Emcy_Events.thy ===== *)
theory Emcy_Events
  imports Prelude
begin

text \<open>
  The shared EMCY observer of \<open>src/canopen_emcy.cpp\<close>: the bounded event history, the
  publication done by the Lely callback, and the two searches over the history.  The waits on
  the condition variable are in theory \<open>Observers\<close>, over the world of
  \<open>Host_World\<close>.
\<close>

section \<open>Data\<close>

record CanopenEmcyEvent =
  ev_sequence :: nat
  ev_node_id :: u8
  ev_error_code :: u16
  ev_error_register :: u8
  ev_manufacturer_data :: "u8 list"
  ev_timestamp :: nat

definition default_emcy_event :: CanopenEmcyEvent where
  "default_emcy_event = \<lparr>ev_sequence = 0, ev_node_id = 0, ev_error_code = 0,
     ev_error_register = 0, ev_manufacturer_data = [0, 0, 0, 0, 0], ev_timestamp = 0\<rparr>"

definition kEmcyEventCapacity :: nat where
  "kEmcyEventCapacity = 32"

record emcy_mem =
  g_emcy_events :: "CanopenEmcyEvent list"
  g_emcy_sequence :: nat

definition initial_emcy_mem :: emcy_mem where
  "initial_emcy_mem = \<lparr>g_emcy_events = [], g_emcy_sequence = 0\<rparr>"

section \<open>Operations\<close>

definition emcyCallback :: "u8 \<Rightarrow> u16 \<Rightarrow> u8 \<Rightarrow> u8 list \<Rightarrow> nat \<Rightarrow> emcy_mem \<Rightarrow> emcy_mem" where
  "emcyCallback node_id error_code error_register manufacturer_data now m =
     (let seq = g_emcy_sequence m + 1;
          event = \<lparr>ev_sequence = seq, ev_node_id = node_id, ev_error_code = error_code,
                   ev_error_register = error_register,
                   ev_manufacturer_data = manufacturer_data, ev_timestamp = now\<rparr>;
          kept = (if length (g_emcy_events m) \<ge> kEmcyEventCapacity
                  then tl (g_emcy_events m) else g_emcy_events m)
      in m\<lparr>g_emcy_events := kept @ [event], g_emcy_sequence := seq\<rparr>)"

fun findEmcyEventLocked ::
    "nat \<Rightarrow> u8 \<Rightarrow> u16 \<Rightarrow> CanopenEmcyEvent list \<Rightarrow> CanopenEmcyEvent option" where
  "findEmcyEventLocked after_sequence node_id error_code [] = None"
| "findEmcyEventLocked after_sequence node_id error_code (candidate # events) =
     (if ev_sequence candidate > after_sequence \<and> ev_node_id candidate = node_id
         \<and> ev_error_code candidate = error_code
      then Some candidate
      else findEmcyEventLocked after_sequence node_id error_code events)"

definition eventsAfter :: "nat \<Rightarrow> u8 \<Rightarrow> emcy_mem \<Rightarrow> CanopenEmcyEvent list" where
  "eventsAfter after_sequence node_id m =
     filter (\<lambda>event. ev_sequence event > after_sequence \<and> ev_node_id event = node_id)
       (g_emcy_events m)"

section \<open>The interface of a bounded publication log\<close>

text \<open>
  What a reader of the log relies on: every publication gets the next sequence number, the
  newest entry is always retained, and an entry is only dropped for capacity.  \<open>wf\<close> is
  the invariant the provider keeps.
\<close>

locale publication_log =
  fixes publish :: "'p \<Rightarrow> 'm \<Rightarrow> 'm"
    and entries :: "'m \<Rightarrow> 'e list"
    and seq_of :: "'e \<Rightarrow> nat"
    and last_seq :: "'m \<Rightarrow> nat"
    and capacity :: nat
    and wf :: "'m \<Rightarrow> bool"
  assumes capacity_pos: "0 < capacity"
    and publish_seq: "last_seq (publish p m) = Suc (last_seq m)"
    and publish_wf: "wf m \<Longrightarrow> wf (publish p m)"
    and wf_bounded: "wf m \<Longrightarrow> length (entries m) \<le> capacity"
    and wf_seqs: "wf m \<Longrightarrow>
          map seq_of (entries m) = [Suc (last_seq m) - length (entries m) ..< Suc (last_seq m)]"
    and wf_full: "wf m \<Longrightarrow> length (entries m) = min capacity (last_seq m)"
begin

lemma publish_all_seq: "last_seq (fold publish ps m) = last_seq m + length ps"
  by (induction ps arbitrary: m) (auto simp: publish_seq)

lemma publish_all_wf: "wf m \<Longrightarrow> wf (fold publish ps m)"
  by (induction ps arbitrary: m) (auto simp: publish_wf)

lemma entries_increasing: "wf m \<Longrightarrow> sorted_wrt (<) (map seq_of (entries m))"
  by (simp only: wf_seqs sorted_wrt_upt)

lemma entries_le_last:
  assumes "wf m" and "e \<in> set (entries m)"
  shows "seq_of e \<le> last_seq m"
proof -
  have "seq_of e \<in> set (map seq_of (entries m))"
    using assms(2) by simp
  then show ?thesis
    unfolding wf_seqs [OF assms(1)] by auto
qed

lemma no_entry_after_last:
  "wf m \<Longrightarrow> filter (\<lambda>e. last_seq m < seq_of e) (entries m) = []"
  by (auto simp: filter_empty_conv dest: entries_le_last)

text \<open>Every sequence number of the retained window is the number of exactly one entry.\<close>

lemma retained_window:
  assumes "wf m" and "last_seq m - capacity < k" and "k \<le> last_seq m"
  shows "\<exists>!e. e \<in> set (entries m) \<and> seq_of e = k"
proof -
  have len: "length (entries m) = min capacity (last_seq m)"
    using assms(1) by (rule wf_full)
  have "k \<in> set (map seq_of (entries m))"
    unfolding wf_seqs [OF assms(1)] using assms len by auto
  then obtain e where "e \<in> set (entries m)" and "seq_of e = k"
    by auto
  moreover have "distinct (map seq_of (entries m))"
    unfolding wf_seqs [OF assms(1)] by simp
  ultimately show ?thesis
    by (metis (no_types, lifting) distinct_map inj_on_eq_iff)
qed

end

section \<open>The EMCY history implements the interface\<close>

definition emcy_wf :: "emcy_mem \<Rightarrow> bool" where
  "emcy_wf m \<longleftrightarrow>
     length (g_emcy_events m) = min kEmcyEventCapacity (g_emcy_sequence m) \<and>
     map ev_sequence (g_emcy_events m)
       = [Suc (g_emcy_sequence m) - length (g_emcy_events m) ..< Suc (g_emcy_sequence m)]"

type_synonym emcy_report = "u8 \<times> u16 \<times> u8 \<times> u8 list \<times> nat"

fun publishEmcy :: "emcy_report \<Rightarrow> emcy_mem \<Rightarrow> emcy_mem" where
  "publishEmcy (node_id, code, reg, data, now) m = emcyCallback node_id code reg data now m"

lemma emcyCallback_sequence [simp]:
  "g_emcy_sequence (emcyCallback n c r d t m) = Suc (g_emcy_sequence m)"
  by (simp add: emcyCallback_def Let_def)

lemma emcyCallback_events:
  "g_emcy_events (emcyCallback n c r d t m) =
     (if length (g_emcy_events m) \<ge> kEmcyEventCapacity then tl (g_emcy_events m)
      else g_emcy_events m) @
     [\<lparr>ev_sequence = Suc (g_emcy_sequence m), ev_node_id = n, ev_error_code = c,
       ev_error_register = r, ev_manufacturer_data = d, ev_timestamp = t\<rparr>]"
  by (simp add: emcyCallback_def Let_def)

lemma tl_upt_Suc: "i < j \<Longrightarrow> tl [i..<j] = [Suc i..<j]"
  by (simp add: upt_rec)

lemma emcyCallback_wf:
  assumes "emcy_wf m"
  shows "emcy_wf (emcyCallback n c r d t m)"
proof -
  let ?n = "g_emcy_sequence m"
  have len: "length (g_emcy_events m) = min kEmcyEventCapacity ?n"
    and seqs: "map ev_sequence (g_emcy_events m)
                 = [Suc ?n - length (g_emcy_events m) ..< Suc ?n]"
    using assms by (auto simp: emcy_wf_def)
  have cap: "0 < kEmcyEventCapacity"
    by (simp add: kEmcyEventCapacity_def)
  show ?thesis
  proof (cases "length (g_emcy_events m) \<ge> kEmcyEventCapacity")
    case True
    then have full: "length (g_emcy_events m) = kEmcyEventCapacity" "kEmcyEventCapacity \<le> ?n"
      using len by auto
    have "map ev_sequence (tl (g_emcy_events m)) = [Suc (Suc ?n - kEmcyEventCapacity)..<Suc ?n]"
      using seqs full cap by (simp add: map_tl tl_upt_Suc del: upt_Suc)
    then show ?thesis
      using full cap True by (simp add: emcy_wf_def emcyCallback_events Suc_diff_le)
  next
    case False
    then have "length (g_emcy_events m) = ?n" "?n < kEmcyEventCapacity"
      using len by auto
    then show ?thesis
      using seqs False by (simp add: emcy_wf_def emcyCallback_events)
  qed
qed

interpretation emcy_log: publication_log publishEmcy g_emcy_events ev_sequence g_emcy_sequence
    kEmcyEventCapacity emcy_wf
proof (unfold_locales, goal_cases)
  case (2 p m) then show ?case by (cases p) simp
next
  case (3 m p) then show ?case by (cases p) (simp add: emcyCallback_wf)
qed (auto simp add: kEmcyEventCapacity_def emcy_wf_def simp del: upt_Suc)

lemma emcy_wf_initial [simp]: "emcy_wf initial_emcy_mem"
  by (simp add: emcy_wf_def initial_emcy_mem_def)

section \<open>The searches\<close>

lemma findEmcyEventLocked_SomeD:
  "findEmcyEventLocked after n c es = Some e \<Longrightarrow>
     e \<in> set es \<and> after < ev_sequence e \<and> ev_node_id e = n \<and> ev_error_code e = c"
  by (induction es) (auto split: if_splits)

lemma findEmcyEventLocked_None_iff:
  "findEmcyEventLocked after n c es = None \<longleftrightarrow>
     (\<forall>e \<in> set es. \<not> (after < ev_sequence e \<and> ev_node_id e = n \<and> ev_error_code e = c))"
  by (induction es) auto

lemma findEmcyEventLocked_first:
  assumes "sorted_wrt (<) (map ev_sequence es)"
    and "findEmcyEventLocked after n c es = Some e"
    and "x \<in> set es" "after < ev_sequence x" "ev_node_id x = n" "ev_error_code x = c"
  shows "ev_sequence e \<le> ev_sequence x"
  using assms by (induction es) (auto split: if_splits)

text \<open>Nothing before the event found matches.\<close>

definition first_match ::
    "nat \<Rightarrow> u8 \<Rightarrow> u16 \<Rightarrow> CanopenEmcyEvent \<Rightarrow> CanopenEmcyEvent list \<Rightarrow> bool" where
  "first_match after n c e es \<longleftrightarrow> (\<exists>xs ys. es = xs @ e # ys \<and>
     list_all (\<lambda>x. \<not> (after < ev_sequence x \<and> ev_node_id x = n \<and> ev_error_code x = c)) xs)"

lemma findEmcyEventLocked_first_match:
  "findEmcyEventLocked after n c es = Some e \<Longrightarrow> first_match after n c e es"
proof (induction es)
  case (Cons x es)
  show ?case
  proof (cases "after < ev_sequence x \<and> ev_node_id x = n \<and> ev_error_code x = c")
    case True
    then show ?thesis using Cons by (auto simp: first_match_def intro: exI [of _ "[]"])
  next
    case False
    then obtain xs ys where "es = xs @ e # ys"
      "list_all (\<lambda>x. \<not> (after < ev_sequence x \<and> ev_node_id x = n \<and> ev_error_code x = c)) xs"
      using Cons by (auto simp: first_match_def split: if_splits)
    then show ?thesis
      using False unfolding first_match_def by (intro exI [of _ "x # xs"] exI [of _ ys]) simp
  qed
qed simp

section \<open>The log as a window\<close>

text \<open>The abstract log: all reports ever published, numbered from one.\<close>

definition numberedEvent :: "nat \<Rightarrow> emcy_report \<Rightarrow> CanopenEmcyEvent" where
  "numberedEvent k p = (case p of (n, c, r, d, t) \<Rightarrow>
     \<lparr>ev_sequence = k, ev_node_id = n, ev_error_code = c, ev_error_register = r,
      ev_manufacturer_data = d, ev_timestamp = t\<rparr>)"

definition numbered :: "emcy_report list \<Rightarrow> CanopenEmcyEvent list" where
  "numbered ps = map (\<lambda>i. numberedEvent (Suc i) (ps ! i)) [0..<length ps]"

lemma numbered_snoc: "numbered (ps @ [p]) = numbered ps @ [numberedEvent (Suc (length ps)) p]"
  by (simp add: numbered_def nth_append)

lemma length_numbered [simp]: "length (numbered ps) = length ps"
  by (simp add: numbered_def)

lemma publishEmcy_window:
  "fold publishEmcy ps initial_emcy_mem =
     \<lparr>g_emcy_events = drop (length ps - kEmcyEventCapacity) (numbered ps), g_emcy_sequence = length ps\<rparr>"
proof (induction ps rule: rev_induct)
  case Nil
  then show ?case by (simp add: initial_emcy_mem_def numbered_def)
next
  case (snoc p ps)
  obtain n c r d t where p: "p = (n, c, r, d, t)" by (cases p)
  have tl: "tl (drop k xs) = drop (Suc k) xs" for k and xs :: "CanopenEmcyEvent list"
    by (simp add: drop_Suc tl_drop)
  have cap: "Suc 0 - kEmcyEventCapacity = 0" by (simp add: kEmcyEventCapacity_def)
  show ?case
  proof (cases "kEmcyEventCapacity \<le> length ps")
    case True
    then show ?thesis
      using snoc p by (simp add: emcyCallback_def Let_def numbered_snoc numberedEvent_def tl Suc_diff_le cap)
  next
    case False
    then show ?thesis
      using snoc p by (simp add: emcyCallback_def Let_def numbered_snoc numberedEvent_def)
  qed
qed

end
