(* ===== verification/Nmt_Observer.thy ===== *)
theory Nmt_Observer
  imports Prelude
begin

text \<open>
  The remote NMT state cache of \<open>src/canopen_nmt.cpp\<close> (table, callback, registration) and
  the Boot and Heartbeat flags of \<open>src/nmt_heartbeat.cpp\<close> (callbacks, preparation).  Each
  is a memory shared between the event-loop thread, which runs the callbacks, and the control
  thread, which waits on it; the waits themselves are in theory \<open>Observers\<close>.
\<close>

section \<open>NMT commands and states\<close>

datatype nmt_command = START | STOP | ENTER_PREOP | RESET_NODE | RESET_COMM

text \<open>
  \<open>lely::canopen::NmtState\<close> is an enumeration over one byte and
  \<open>readManagedNmtState\<close> casts an arbitrary byte to it, so a state is a byte.
\<close>

type_synonym nmt_state = u8

definition nmt_BOOTUP :: nmt_state where "nmt_BOOTUP = 0x00"
definition nmt_STOP :: nmt_state where "nmt_STOP = 0x04"
definition nmt_START :: nmt_state where "nmt_START = 0x05"
definition nmt_PREOP :: nmt_state where "nmt_PREOP = 0x7F"

section \<open>The per-node state cache\<close>

definition kNmtStateSlotCount :: nat where "kNmtStateSlotCount = 128"
definition kRequestNmtIndex :: u16 where "kRequestNmtIndex = 0x1F82"

record NmtStateObservation =
  obs_generation :: nat
  obs_state :: nmt_state
  obs_observed :: bool

definition initial_observation :: NmtStateObservation where
  "initial_observation = \<lparr>obs_generation = 0, obs_state = nmt_BOOTUP, obs_observed = False\<rparr>"

record nmt_mem =
  g_nmt_states :: "NmtStateObservation list"
  g_registered_master :: bool

definition initial_nmt_mem :: nmt_mem where
  "initial_nmt_mem = \<lparr>g_nmt_states = replicate kNmtStateSlotCount initial_observation,
                      g_registered_master = False\<rparr>"

definition observeState :: "nmt_state \<Rightarrow> NmtStateObservation \<Rightarrow> NmtStateObservation" where
  "observeState state observation =
     observation\<lparr>obs_generation := obs_generation observation + 1, obs_state := state,
                 obs_observed := True\<rparr>"

definition nmtStateCallback :: "u8 \<Rightarrow> nmt_state \<Rightarrow> nmt_mem \<Rightarrow> nmt_mem" where
  "nmtStateCallback node_id state m =
     (if node_id = 0 \<or> unat node_id \<ge> kNmtStateSlotCount then m
      else m\<lparr>g_nmt_states := (g_nmt_states m)
               [unat node_id := observeState state (g_nmt_states m ! unat node_id)]\<rparr>)"

definition registerNmtState :: "nmt_mem \<Rightarrow> nmt_mem" where
  "registerNmtState m =
     m\<lparr>g_nmt_states := replicate kNmtStateSlotCount initial_observation,
       g_registered_master := True\<rparr>"

definition slot :: "nmt_mem \<Rightarrow> u8 \<Rightarrow> NmtStateObservation" where
  "slot m node_id = g_nmt_states m ! unat node_id"

definition nmt_wf :: "nmt_mem \<Rightarrow> bool" where
  "nmt_wf m \<longleftrightarrow> length (g_nmt_states m) = kNmtStateSlotCount \<and>
     (\<forall>s \<in> set (g_nmt_states m). obs_observed s = (0 < obs_generation s))"

section \<open>The interface of a generation-counted cell\<close>

text \<open>
  A command wait relies on one law only: a cell's generation counts the publications it has
  received, and its value is the newest one.  Everything else about confirmed waits (a value
  published before the baseline never satisfies one; a satisfied wait exhibits a publication
  made after the baseline) follows from it.
\<close>

locale generation_cell =
  fixes publish :: "'v \<Rightarrow> 'c \<Rightarrow> 'c"
    and generation :: "'c \<Rightarrow> nat"
    and newest :: "'c \<Rightarrow> 'v"
  assumes publish_generation: "generation (publish v c) = Suc (generation c)"
    and publish_newest: "newest (publish v c) = v"
begin

lemma generation_fold: "generation (fold publish vs c) = generation c + length vs"
  by (induction vs arbitrary: c) (auto simp: publish_generation)

lemma newest_fold: "vs \<noteq> [] \<Longrightarrow> newest (fold publish vs c) = last vs"
  by (induction vs rule: rev_induct) (auto simp: publish_newest)

lemma fresh_iff_published:
  "generation c < generation (fold publish vs c) \<and> newest (fold publish vs c) = v
     \<longleftrightarrow> vs \<noteq> [] \<and> last vs = v"
  by (cases "vs = []") (auto simp: generation_fold newest_fold)

end

interpretation nmt_cell: generation_cell observeState obs_generation obs_state
  by unfold_locales (auto simp: observeState_def)

section \<open>Properties of the cache\<close>

lemma nmt_wf_initial [simp]: "nmt_wf initial_nmt_mem"
  by (auto simp: nmt_wf_def initial_nmt_mem_def initial_observation_def)

lemma registerNmtState_wf [simp]: "nmt_wf (registerNmtState m)"
  by (auto simp: nmt_wf_def registerNmtState_def initial_observation_def)

lemma registerNmtState_registered [simp]: "g_registered_master (registerNmtState m)"
  by (simp add: registerNmtState_def)

lemma nmtStateCallback_wf: "nmt_wf m \<Longrightarrow> nmt_wf (nmtStateCallback n s m)"
  by (auto simp: nmt_wf_def nmtStateCallback_def observeState_def
      dest!: set_update_subset_insert [THEN subsetD])

lemma nmtStateCallback_slot:
  assumes "nmt_wf m" and "k < 128"
  shows "slot (nmtStateCallback n s m) k
           = (if n = k \<and> k \<noteq> 0 then observeState s (slot m k) else slot m k)"
proof -
  have "unat k < kNmtStateSlotCount"
    using assms(2) by (simp add: kNmtStateSlotCount_def unat_arith_simps)
  moreover have "unat n = unat k \<longleftrightarrow> n = k"
    by (simp add: word_unat_eq_iff)
  ultimately show ?thesis
    using assms(1)
    by (auto simp: slot_def nmtStateCallback_def nmt_wf_def nth_list_update)
qed

lemma nmt_slot_fold:
  assumes "nmt_wf m" "k \<noteq> 0" "k < 128"
  shows "slot (fold (\<lambda>(n, s). nmtStateCallback n s) ps m) k =
     fold observeState (map snd (filter (\<lambda>p. fst p = k) ps)) (slot m k)"
  using assms(1)
proof (induction ps arbitrary: m)
  case (Cons p ps)
  obtain n s where p: "p = (n, s)" by (cases p)
  have "slot (nmtStateCallback n s m) k = (if n = k then observeState s (slot m k) else slot m k)"
    using nmtStateCallback_slot [OF Cons.prems assms(3), of n s] assms(2) by auto
  then show ?case using Cons p nmtStateCallback_wf [OF Cons.prems] by auto
qed simp

lemma nmtStateCallback_registered [simp]:
  "g_registered_master (nmtStateCallback n s m) = g_registered_master m"
  by (simp add: nmtStateCallback_def)

section \<open>Boot result\<close>

definition CANOPEN_SLAVE_NODE_ID :: u8 where "CANOPEN_SLAVE_NODE_ID = 1"
definition CANOPEN_MASTER_NODE_ID :: u8 where "CANOPEN_MASTER_NODE_ID = 127"

record boot_mem =
  g_boot_received :: bool
  g_boot_succeeded :: bool
  g_boot_state :: nmt_state

definition initial_boot_mem :: boot_mem where
  "initial_boot_mem =
     \<lparr>g_boot_received = False, g_boot_succeeded = False, g_boot_state = nmt_BOOTUP\<rparr>"

text \<open>\<open>status\<close> is the Boot status character: 0 is success, \<open>'L'\<close> is already operational.\<close>

definition bootCallback :: "u8 \<Rightarrow> nmt_state \<Rightarrow> char \<Rightarrow> boot_mem \<Rightarrow> boot_mem" where
  "bootCallback node_id state status m =
     (if node_id \<noteq> CANOPEN_SLAVE_NODE_ID then m
      else let succeeded = (status = CHR 0x00 \<or> status = CHR ''L'')
           in m\<lparr>g_boot_received := True, g_boot_succeeded := succeeded, g_boot_state := state\<rparr>)"

definition clearBoot :: "boot_mem \<Rightarrow> boot_mem" where
  "clearBoot m =
     m\<lparr>g_boot_received := False, g_boot_succeeded := False, g_boot_state := nmt_BOOTUP\<rparr>"

section \<open>Remote heartbeat supervision events\<close>

record heartbeat_mem =
  g_expected_heartbeat_occurred :: bool
  g_expected_heartbeat_received :: bool

definition initial_heartbeat_mem :: heartbeat_mem where
  "initial_heartbeat_mem =
     \<lparr>g_expected_heartbeat_occurred = False, g_expected_heartbeat_received = False\<rparr>"

definition heartbeatCallback :: "u8 \<Rightarrow> bool \<Rightarrow> heartbeat_mem \<Rightarrow> heartbeat_mem" where
  "heartbeatCallback node_id occurred m =
     (if node_id \<noteq> CANOPEN_SLAVE_NODE_ID then m
      else if occurred = g_expected_heartbeat_occurred m
      then m\<lparr>g_expected_heartbeat_received := True\<rparr> else m)"

definition expectHeartbeat :: "bool \<Rightarrow> heartbeat_mem \<Rightarrow> heartbeat_mem" where
  "expectHeartbeat occurred m =
     m\<lparr>g_expected_heartbeat_occurred := occurred, g_expected_heartbeat_received := False\<rparr>"

end
