(* ===== verification/Command_Queue.thy ===== *)
theory Command_Queue
  imports Nmt_Observer
begin

text \<open>
  The queue of NMT commands that a software slave observes, from \<open>src/nmt_master_process.cpp\<close>: a
  ring of sixteen slots filled by the command callback on the event-loop thread and consumed in
  arrival order by the control thread.  The waits are in theory \<open>Nmt_Master_Process\<close>.
\<close>

section \<open>The ring\<close>

definition kNmtCommandQueueCapacity :: nat where "kNmtCommandQueueCapacity = 16"

record NmtCommandObserverState =
  cq_queue :: "nmt_command list"
  cq_head :: nat
  cq_count :: nat
  cq_overflow :: bool
  cq_active :: bool

definition initial_commands :: NmtCommandObserverState where
  "initial_commands = \<lparr>cq_queue = replicate kNmtCommandQueueCapacity START, cq_head = 0, cq_count = 0,
     cq_overflow = False, cq_active = False\<rparr>"

definition nmtCommandCallback :: "nmt_command \<Rightarrow> NmtCommandObserverState \<Rightarrow> NmtCommandObserverState" where
  "nmtCommandCallback command st =
     (if \<not> cq_active st then st
      else if cq_count st \<ge> kNmtCommandQueueCapacity then st\<lparr>cq_overflow := True\<rparr>
      else let tail = (cq_head st + cq_count st) mod kNmtCommandQueueCapacity
           in st\<lparr>cq_queue := (cq_queue st)[tail := command], cq_count := cq_count st + 1\<rparr>)"

definition clearCommands :: "bool \<Rightarrow> NmtCommandObserverState \<Rightarrow> NmtCommandObserverState" where
  "clearCommands active st =
     st\<lparr>cq_head := 0, cq_count := 0, cq_overflow := False, cq_active := active\<rparr>"

text \<open>The last three lines of a wait that found a command: the slot at the head, and the ring
  without it.\<close>

definition headCommand :: "NmtCommandObserverState \<Rightarrow> nmt_command" where
  "headCommand st = cq_queue st ! cq_head st"

definition dropCommand :: "NmtCommandObserverState \<Rightarrow> NmtCommandObserverState" where
  "dropCommand st = st\<lparr>cq_head := (cq_head st + 1) mod kNmtCommandQueueCapacity,
     cq_count := cq_count st - 1\<rparr>"

definition commands_wf :: "NmtCommandObserverState \<Rightarrow> bool" where
  "commands_wf st \<longleftrightarrow> length (cq_queue st) = kNmtCommandQueueCapacity \<and>
     cq_head st < kNmtCommandQueueCapacity \<and> cq_count st \<le> kNmtCommandQueueCapacity"

text \<open>The commands waiting, oldest first.\<close>

definition waiting :: "NmtCommandObserverState \<Rightarrow> nmt_command list" where
  "waiting st = map (\<lambda>i. cq_queue st ! ((cq_head st + i) mod kNmtCommandQueueCapacity)) [0..<cq_count st]"

section \<open>The interface of a bounded first-in first-out queue\<close>

text \<open>
  What a consumer of arrivals relies on: an arrival is appended while there is room, otherwise
  the loss is recorded and the contents stay; taking removes the oldest.
\<close>

locale bounded_fifo =
  fixes arrive :: "'v \<Rightarrow> 'q \<Rightarrow> 'q" and front :: "'q \<Rightarrow> 'v" and take_out :: "'q \<Rightarrow> 'q"
    and contents :: "'q \<Rightarrow> 'v list" and lost :: "'q \<Rightarrow> bool" and invar :: "'q \<Rightarrow> bool"
    and capacity :: nat
  assumes arrive_room: "invar q \<Longrightarrow> length (contents q) < capacity \<Longrightarrow>
      contents (arrive v q) = contents q @ [v] \<and> lost (arrive v q) = lost q"
    and arrive_full: "invar q \<Longrightarrow> capacity \<le> length (contents q) \<Longrightarrow>
      contents (arrive v q) = contents q \<and> lost (arrive v q)"
    and front_oldest: "invar q \<Longrightarrow> contents q \<noteq> [] \<Longrightarrow> front q = hd (contents q)"
    and take_out_oldest: "invar q \<Longrightarrow> contents q \<noteq> [] \<Longrightarrow>
      contents (take_out q) = tl (contents q) \<and> lost (take_out q) = lost q"
    and bounded: "invar q \<Longrightarrow> length (contents q) \<le> capacity"
    and invar_arrive: "invar q \<Longrightarrow> invar (arrive v q)"
    and invar_take_out: "invar q \<Longrightarrow> contents q \<noteq> [] \<Longrightarrow> invar (take_out q)"
begin

lemma invar_arrivals: "invar q \<Longrightarrow> invar (fold arrive vs q)"
  by (induction vs arbitrary: q) (auto simp: invar_arrive)

lemma lost_stays: "invar q \<Longrightarrow> lost q \<Longrightarrow> lost (arrive v q)"
  using arrive_room [of q v] arrive_full [of q v] by (cases "length (contents q) < capacity") auto

lemma lost_arrivals: "invar q \<Longrightarrow> lost q \<Longrightarrow> lost (fold arrive vs q)"
  by (induction vs arbitrary: q) (auto simp: invar_arrive lost_stays)

text \<open>As long as no loss is recorded, what a consumer finds is everything that arrived.\<close>

lemma arrivals_complete:
  assumes "invar q" and "\<not> lost (fold arrive vs q)"
  shows "contents (fold arrive vs q) = contents q @ vs"
  using assms
proof (induction vs arbitrary: q)
  case (Cons v vs)
  have "\<not> lost (arrive v q)"
    using Cons.prems lost_arrivals [OF invar_arrive [OF Cons.prems(1)], of v vs] by auto
  then have "contents (arrive v q) = contents q @ [v]"
    using Cons.prems(1) arrive_room [of q v] arrive_full [of q v]
    by (cases "length (contents q) < capacity") auto
  then show ?case using Cons.IH [OF invar_arrive [OF Cons.prems(1)], of v] Cons.prems(2) by simp
qed simp

lemma arrivals_lost_iff:
  assumes "invar q" and "\<not> lost q"
  shows "lost (fold arrive vs q) \<longleftrightarrow> capacity < length (contents q) + length vs"
  using assms
proof (induction vs arbitrary: q)
  case (Cons v vs)
  have inv: "invar (arrive v q)" using Cons.prems(1) by (rule invar_arrive)
  show ?case
  proof (cases "length (contents q) < capacity")
    case True
    then have "contents (arrive v q) = contents q @ [v]" "\<not> lost (arrive v q)"
      using arrive_room [of q v] Cons.prems by auto
    then show ?thesis using Cons.IH [OF inv] by simp
  next
    case False
    then have "lost (arrive v q)" using arrive_full [of q v] Cons.prems(1) by simp
    then show ?thesis using lost_arrivals [OF inv] False by simp
  qed
qed (use bounded in \<open>auto simp: not_less\<close>)

end

text \<open>The ring is such a queue while the observer is active.\<close>

abbreviation observing :: "NmtCommandObserverState \<Rightarrow> bool" where
  "observing st \<equiv> commands_wf st \<and> cq_active st"

lemma length_waiting [simp]: "length (waiting st) = cq_count st"
  by (simp add: waiting_def)

lemma ring_index_inj:
  assumes "i < n" "j < n" "(h + i) mod n = (h + j) mod (n :: nat)"
  shows "i = j"
proof -
  have "int i mod int n = int j mod int n"
    using assms(3) by (metis add_diff_cancel_left' mod_diff_left_eq of_nat_add of_nat_mod)
  then show ?thesis using assms(1,2) by simp
qed

lemma waiting_arrive:
  assumes "observing st" and "cq_count st < kNmtCommandQueueCapacity"
  shows "waiting (nmtCommandCallback c st) = waiting st @ [c]"
proof -
  have "(cq_queue st)[(cq_head st + cq_count st) mod kNmtCommandQueueCapacity := c] !
      ((cq_head st + i) mod kNmtCommandQueueCapacity)
     = cq_queue st ! ((cq_head st + i) mod kNmtCommandQueueCapacity)" if "i < cq_count st" for i
    using ring_index_inj [of i kNmtCommandQueueCapacity "cq_count st" "cq_head st"] that assms(2)
    by (metis less_irrefl less_trans nth_list_update_neq)
  moreover have "(cq_head st + cq_count st) mod kNmtCommandQueueCapacity < length (cq_queue st)"
    using assms(1) by (simp add: commands_wf_def kNmtCommandQueueCapacity_def)
  ultimately show ?thesis
    using assms by (simp add: waiting_def nmtCommandCallback_def Let_def)
qed

lemma waiting_drop:
  assumes "waiting st \<noteq> []"
  shows "waiting (dropCommand st) = tl (waiting st)"
proof -
  obtain n where n: "cq_count st = Suc n"
    using assms by (cases "cq_count st") (auto simp: waiting_def)
  have "[0..<Suc n] = 0 # map Suc [0..<n]" by (simp add: upt_conv_Cons map_Suc_upt)
  then show ?thesis by (simp add: waiting_def dropCommand_def n mod_simps comp_def)
qed

lemma headCommand_waiting:
  assumes "commands_wf st" and "waiting st \<noteq> []"
  shows "headCommand st = hd (waiting st)"
proof -
  have "0 < cq_count st" using assms(2) by (cases "cq_count st") (auto simp: waiting_def)
  then show ?thesis
    using assms(1) by (simp add: headCommand_def waiting_def hd_map commands_wf_def)
qed

lemma commands_wf_initial [simp]: "commands_wf initial_commands"
  by (simp add: commands_wf_def initial_commands_def kNmtCommandQueueCapacity_def)

lemma commands_wf_callback: "commands_wf st \<Longrightarrow> commands_wf (nmtCommandCallback c st)"
  by (auto simp: commands_wf_def nmtCommandCallback_def Let_def)

lemma cq_active_simps [simp]:
  "cq_active (nmtCommandCallback c st) = cq_active st" "cq_active (dropCommand st) = cq_active st"
  by (simp_all add: nmtCommandCallback_def dropCommand_def Let_def)

lemma commands_wf_clear: "commands_wf st \<Longrightarrow> commands_wf (clearCommands a st)"
  by (simp add: commands_wf_def clearCommands_def kNmtCommandQueueCapacity_def)

lemma commands_wf_drop: "commands_wf st \<Longrightarrow> commands_wf (dropCommand st)"
  by (auto simp: commands_wf_def dropCommand_def kNmtCommandQueueCapacity_def)

interpretation ring: bounded_fifo nmtCommandCallback headCommand dropCommand waiting cq_overflow
  observing kNmtCommandQueueCapacity
proof (unfold_locales, goal_cases)
  case (1 q v)
  then have "cq_overflow (nmtCommandCallback v q) = cq_overflow q"
    by (simp add: nmtCommandCallback_def Let_def)
  then show ?case using 1 waiting_arrive by simp
next
  case (2 q v)
  then show ?case by (simp add: nmtCommandCallback_def waiting_def)
next
  case (3 q)
  then show ?case using headCommand_waiting by blast
next
  case (4 q)
  then have "cq_overflow (dropCommand q) = cq_overflow q" by (simp add: dropCommand_def)
  then show ?case using 4 waiting_drop by simp
next
  case (5 q)
  then show ?case by (simp add: commands_wf_def)
next
  case (6 q v)
  then show ?case using commands_wf_callback by simp
next
  case (7 q)
  then show ?case using commands_wf_drop by simp
qed

end
