(* ===== verification/Wire_Workers.thy ===== *)
theory Wire_Workers
  imports Prelude
begin

text \<open>
  Frames and answers of the dedicated CAN channel, and the state two helper threads of
  \<open>src/srdo_process.cpp\<close> share with the control thread: the keepalive worker that sends receive
  pairs and the observer that watches for transmitted frames.  One step of a worker is one pass
  of its loop.
\<close>

section \<open>Frames\<close>

text \<open>A classic CAN frame as \<open>struct can_msg\<close> holds it; the bus carries \<open>can_len\<close> bytes of it.\<close>

record can_frame =
  can_id :: u32
  can_flags :: u8
  can_len :: u8
  can_data :: "u8 list"

text \<open>
  One \<open>CanChannel::read\<close>: a frame with its receive timestamp in nanoseconds (a positive result),
  no frame (zero), or an error with its value (negative).
\<close>

datatype wire_answer = WireFrame can_frame nat | WireNone | WireFault int

definition EAGAIN :: int where "EAGAIN = 11"

text \<open>\<open>EWOULDBLOCK\<close> is the same number on Linux.\<close>

definition isWouldBlock :: "int \<Rightarrow> bool" where
  "isWouldBlock error \<longleftrightarrow> error = EAGAIN"

datatype WireWaitResult = FRAME | TIMEOUT | ERROR

section \<open>Worker state\<close>

record worker_mem =
  wk_running :: bool
  wk_ok :: bool
  wk_returned :: bool
  ob_running :: bool
  ob_ok :: bool
  ob_unexpected :: u32
  ob_returned :: bool

definition initial_workers :: worker_mem where
  "initial_workers = \<lparr>wk_running = False, wk_ok = True, wk_returned = False, ob_running = False,
     ob_ok = True, ob_unexpected = 0, ob_returned = False\<rparr>"

definition startKeepalive :: "worker_mem \<Rightarrow> worker_mem" where
  "startKeepalive m = m\<lparr>wk_running := True, wk_ok := True, wk_returned := False\<rparr>"

definition stopKeepalive :: "worker_mem \<Rightarrow> worker_mem" where
  "stopKeepalive m = m\<lparr>wk_running := False\<rparr>"

definition startObserver :: "worker_mem \<Rightarrow> worker_mem" where
  "startObserver m = m\<lparr>ob_running := True, ob_ok := True, ob_unexpected := 0, ob_returned := False\<rparr>"

definition stopObserver :: "worker_mem \<Rightarrow> worker_mem" where
  "stopObserver m = m\<lparr>ob_running := False\<rparr>"

text \<open>One pass of \<open>ScopedRxPairWorker::run\<close>, given whether its pair could be sent.\<close>

definition keepaliveStep :: "bool \<Rightarrow> worker_mem \<Rightarrow> worker_mem" where
  "keepaliveStep sent m =
     (if wk_running m \<and> \<not> wk_returned m
      then if sent then m else m\<lparr>wk_ok := False, wk_returned := True\<rparr>
      else m)"

text \<open>One pass of \<open>ScopedTxSilenceObserver::run\<close>, given the outcome of its wait and the
  identifier of the frame it captured.  The wait delivers the two transmit identifiers only.\<close>

definition txIdentifier :: "u32 \<Rightarrow> bool" where
  "txIdentifier captured \<longleftrightarrow> captured = 0x103 \<or> captured = 0x104"

definition observerStep :: "WireWaitResult \<Rightarrow> u32 \<Rightarrow> worker_mem \<Rightarrow> worker_mem" where
  "observerStep waited captured m =
     (if ob_running m \<and> \<not> ob_returned m
      then case waited of
          ERROR \<Rightarrow> m\<lparr>ob_ok := False, ob_returned := True\<rparr>
        | FRAME \<Rightarrow> if txIdentifier captured then m\<lparr>ob_unexpected := captured, ob_returned := True\<rparr> else m
        | TIMEOUT \<Rightarrow> m
      else m)"

text \<open>A worker reports trouble exactly by returning, and never takes a report back.\<close>

definition workers_wf :: "worker_mem \<Rightarrow> bool" where
  "workers_wf m \<longleftrightarrow> (wk_ok m \<longleftrightarrow> \<not> wk_returned m) \<and>
     (ob_ok m \<and> ob_unexpected m = 0 \<longleftrightarrow> \<not> ob_returned m)"

lemma workers_wf_initial [simp]: "workers_wf initial_workers"
  by (simp add: workers_wf_def initial_workers_def)

lemma workers_wf_steps:
  "workers_wf m \<Longrightarrow> workers_wf (keepaliveStep s m)" "workers_wf m \<Longrightarrow> workers_wf (observerStep r c m)"
  "workers_wf m \<Longrightarrow> workers_wf (startKeepalive m)" "workers_wf m \<Longrightarrow> workers_wf (stopKeepalive m)"
  "workers_wf m \<Longrightarrow> workers_wf (startObserver m)" "workers_wf m \<Longrightarrow> workers_wf (stopObserver m)"
  by (auto simp: workers_wf_def keepaliveStep_def observerStep_def startKeepalive_def
      stopKeepalive_def startObserver_def stopObserver_def txIdentifier_def split: WireWaitResult.splits)

end
