(* ===== verification/Pdo_Observers.thy ===== *)
theory Pdo_Observers
  imports Nmt_Observer
begin

text \<open>
  What the PDO and SYNC callbacks publish: the receive and transmit states of
  \<open>src/pdo_process.cpp\<close> and the observation state of \<open>src/sync_pdo_process.cpp\<close>, with the callbacks that
  the event-loop thread runs on them.  The waits and checks of the control thread are in
  \<open>Pdo_Process\<close> and \<open>Sync_Pdo_Process\<close>.  Times are those of the host's steady clock.
\<close>

section \<open>PDO receive and transmit states\<close>

definition kPdoNumber :: nat where "kPdoNumber = 1"
definition kTpdoSampleCount :: nat where "kTpdoSampleCount = 5"
definition kTpdoPayloadLength :: nat where "kTpdoPayloadLength = 8"

record TpdoSample =
  ts_payload :: "u8 list"
  ts_length :: nat
  ts_timestamp :: nat

definition empty_sample :: TpdoSample where
  "empty_sample = \<lparr>ts_payload = replicate kTpdoPayloadLength 0, ts_length = 0, ts_timestamp = 0\<rparr>"

record TpdoReceiveState =
  tr_samples :: "TpdoSample list"
  tr_sample_count :: nat
  tr_generation :: nat
  tr_latest :: TpdoSample
  tr_failed :: bool
  tr_null_payload :: bool
  tr_invalid_length :: nat
  tr_error :: ecode

definition initial_receive :: TpdoReceiveState where
  "initial_receive = \<lparr>tr_samples = replicate kTpdoSampleCount empty_sample, tr_sample_count = 0,
     tr_generation = 0, tr_latest = empty_sample, tr_failed = False, tr_null_payload = False,
     tr_invalid_length = 0, tr_error = NoError\<rparr>"

record RpdoTransmitState =
  rt_completed :: bool
  rt_pdo_number :: nat
  rt_error :: ecode
  rt_payload :: "u8 list"
  rt_length :: nat

definition initial_transmit :: RpdoTransmitState where
  "initial_transmit = \<lparr>rt_completed = False, rt_pdo_number = 0, rt_error = NoError,
     rt_payload = replicate kTpdoPayloadLength 0, rt_length = 0\<rparr>"

text \<open>The zeroed buffer with the received bytes copied in, at most eight of them; \<open>None\<close> is the null
  pointer.\<close>

definition copyPayload :: "u8 list option \<Rightarrow> nat \<Rightarrow> u8 list" where
  "copyPayload payload len = (case payload of
     None \<Rightarrow> replicate kTpdoPayloadLength 0
   | Some bytes \<Rightarrow> take kTpdoPayloadLength (take (min len kTpdoPayloadLength) bytes @ replicate kTpdoPayloadLength 0))"

definition badPdo :: "ecode \<Rightarrow> u8 list option \<Rightarrow> nat \<Rightarrow> bool" where
  "badPdo error payload len \<longleftrightarrow> failed error \<or> len \<noteq> kTpdoPayloadLength \<or> (payload = None \<and> len \<noteq> 0)"

definition storeSample :: "TpdoSample \<Rightarrow> TpdoReceiveState \<Rightarrow> TpdoReceiveState" where
  "storeSample sample st =
     (let st = st\<lparr>tr_latest := sample, tr_generation := tr_generation st + 1\<rparr>
      in if tr_sample_count st < length (tr_samples st)
         then st\<lparr>tr_samples := (tr_samples st)[tr_sample_count st := sample],
                 tr_sample_count := tr_sample_count st + 1\<rparr>
         else st)"

definition rpdoCallback ::
    "nat \<Rightarrow> ecode \<Rightarrow> u8 list option \<Rightarrow> nat \<Rightarrow> nat \<Rightarrow> TpdoReceiveState \<Rightarrow> TpdoReceiveState" where
  "rpdoCallback num error payload len now st =
     (if num \<noteq> kPdoNumber then st
      else let sample = \<lparr>ts_payload = copyPayload payload len, ts_length = len, ts_timestamp = now\<rparr>
      in if badPdo error payload len
         then st\<lparr>tr_failed := True, tr_error := error, tr_invalid_length := len,
                 tr_null_payload := (payload = None \<and> len \<noteq> 0)\<rparr>
         else storeSample sample st)"

definition tpdoCallback ::
    "nat \<Rightarrow> ecode \<Rightarrow> u8 list option \<Rightarrow> nat \<Rightarrow> RpdoTransmitState \<Rightarrow> RpdoTransmitState" where
  "tpdoCallback num error payload len st =
     (if num \<noteq> kPdoNumber then st
      else \<lparr>rt_completed = True, rt_pdo_number = num, rt_error = error,
            rt_payload = copyPayload payload len, rt_length = len\<rparr>)"

section \<open>SYNC observation\<close>

definition kSyncSampleCount :: nat where "kSyncSampleCount = 5"
definition kObservationCapacity :: nat where "kObservationCapacity = kSyncSampleCount + 2"

record SyncPdoObservation =
  so_sync_timestamps :: "nat list"
  so_tpdo_timestamps :: "nat list"
  so_sync_count :: nat
  so_tpdo_count :: nat
  so_failed :: bool
  so_tpdo_error :: ecode
  so_sync_stop_error :: ecode
  so_invalid_length :: nat
  so_invalid_tpdo :: bool
  so_null_payload :: bool
  so_sync_error :: bool
  so_sync_error_code :: u16
  so_sync_error_register :: u8

definition initial_observation_sync :: SyncPdoObservation where
  "initial_observation_sync = \<lparr>so_sync_timestamps = replicate kObservationCapacity 0,
     so_tpdo_timestamps = replicate kObservationCapacity 0, so_sync_count = 0, so_tpdo_count = 0,
     so_failed = False, so_tpdo_error = NoError, so_sync_stop_error = NoError, so_invalid_length = 0,
     so_invalid_tpdo = False, so_null_payload = False, so_sync_error = False,
     so_sync_error_code = 0, so_sync_error_register = 0\<rparr>"

definition clearObservation :: "SyncPdoObservation \<Rightarrow> SyncPdoObservation" where
  "clearObservation st = st\<lparr>so_sync_count := 0, so_tpdo_count := 0, so_failed := False,
     so_tpdo_error := NoError, so_sync_stop_error := NoError, so_invalid_length := 0,
     so_invalid_tpdo := False, so_null_payload := False, so_sync_error := False,
     so_sync_error_code := 0, so_sync_error_register := 0\<rparr>"

definition syncRpdoCallback ::
    "nat \<Rightarrow> ecode \<Rightarrow> u8 list option \<Rightarrow> nat \<Rightarrow> nat \<Rightarrow> SyncPdoObservation \<Rightarrow> SyncPdoObservation" where
  "syncRpdoCallback num error payload len now st =
     (if num \<noteq> kPdoNumber then st
      else if badPdo error payload len
      then st\<lparr>so_failed := True, so_tpdo_error := error, so_invalid_length := len,
              so_invalid_tpdo := True, so_null_payload := (payload = None \<and> len \<noteq> 0)\<rparr>
      else let st = (if so_tpdo_count st < length (so_tpdo_timestamps st)
                     then st\<lparr>so_tpdo_timestamps := (so_tpdo_timestamps st)[so_tpdo_count st := now]\<rparr>
                     else st)
           in st\<lparr>so_tpdo_count := so_tpdo_count st + 1\<rparr>)"

text \<open>The fifth SYNC writes zero to the master's own SYNC period; \<open>stop\<close> is the answer to that write.\<close>

definition syncCallback :: "nat \<Rightarrow> ecode \<Rightarrow> SyncPdoObservation \<Rightarrow> SyncPdoObservation" where
  "syncCallback now stop st =
     (let st = (if so_sync_count st < length (so_sync_timestamps st)
                then st\<lparr>so_sync_timestamps := (so_sync_timestamps st)[so_sync_count st := now]\<rparr> else st);
          st = st\<lparr>so_sync_count := so_sync_count st + 1\<rparr>
      in if so_sync_count st = kSyncSampleCount \<and> failed stop
         then st\<lparr>so_failed := True, so_sync_stop_error := stop\<rparr> else st)"

definition syncErrorCallback :: "u16 \<Rightarrow> u8 \<Rightarrow> SyncPdoObservation \<Rightarrow> SyncPdoObservation" where
  "syncErrorCallback code reg st = st\<lparr>so_failed := True, so_sync_error := True,
     so_sync_error_code := code, so_sync_error_register := reg\<rparr>"

section \<open>The shared memory of both\<close>

text \<open>\<open>OnRpdo\<close> has one handler at a time: that of the PDO validation, that of the SYNC validation, or
  none.\<close>

datatype rpdo_handler = NoHandler | PdoReceive | SyncReceive

record pdo_mem =
  pdo_receive :: TpdoReceiveState
  pdo_transmit :: RpdoTransmitState
  pdo_observation :: SyncPdoObservation
  on_rpdo :: rpdo_handler
  on_tpdo :: bool
  on_sync :: bool

definition initial_pdo :: pdo_mem where
  "initial_pdo = \<lparr>pdo_receive = initial_receive, pdo_transmit = initial_transmit,
     pdo_observation = initial_observation_sync, on_rpdo = NoHandler, on_tpdo = False, on_sync = False\<rparr>"

definition pdoReceived :: "nat \<Rightarrow> ecode \<Rightarrow> u8 list option \<Rightarrow> nat \<Rightarrow> nat \<Rightarrow> pdo_mem \<Rightarrow> pdo_mem" where
  "pdoReceived num error payload len now p = (case on_rpdo p of
     NoHandler \<Rightarrow> p
   | PdoReceive \<Rightarrow> p\<lparr>pdo_receive := rpdoCallback num error payload len now (pdo_receive p)\<rparr>
   | SyncReceive \<Rightarrow> p\<lparr>pdo_observation := syncRpdoCallback num error payload len now (pdo_observation p)\<rparr>)"

definition pdoSent :: "nat \<Rightarrow> ecode \<Rightarrow> u8 list option \<Rightarrow> nat \<Rightarrow> pdo_mem \<Rightarrow> pdo_mem" where
  "pdoSent num error payload len p =
     (if on_tpdo p then p\<lparr>pdo_transmit := tpdoCallback num error payload len (pdo_transmit p)\<rparr> else p)"

definition syncSeen :: "nat \<Rightarrow> ecode \<Rightarrow> pdo_mem \<Rightarrow> pdo_mem" where
  "syncSeen now stop p = (if on_sync p then p\<lparr>pdo_observation := syncCallback now stop (pdo_observation p)\<rparr> else p)"

definition syncFault :: "u16 \<Rightarrow> u8 \<Rightarrow> pdo_mem \<Rightarrow> pdo_mem" where
  "syncFault code reg p = (if on_sync p then p\<lparr>pdo_observation := syncErrorCallback code reg (pdo_observation p)\<rparr> else p)"

section \<open>Well-formedness\<close>

definition sample_wf :: "TpdoSample \<Rightarrow> bool" where
  "sample_wf s \<longleftrightarrow> length (ts_payload s) = kTpdoPayloadLength"

definition receive_wf :: "TpdoReceiveState \<Rightarrow> bool" where
  "receive_wf st \<longleftrightarrow> length (tr_samples st) = kTpdoSampleCount \<and> tr_sample_count st \<le> kTpdoSampleCount \<and>
     list_all sample_wf (tr_samples st) \<and> sample_wf (tr_latest st) \<and>
     min (tr_generation st) kTpdoSampleCount = tr_sample_count st"

definition observation_wf :: "SyncPdoObservation \<Rightarrow> bool" where
  "observation_wf st \<longleftrightarrow> length (so_sync_timestamps st) = kObservationCapacity \<and>
     length (so_tpdo_timestamps st) = kObservationCapacity"

definition pdo_wf :: "pdo_mem \<Rightarrow> bool" where
  "pdo_wf p \<longleftrightarrow> receive_wf (pdo_receive p) \<and> length (rt_payload (pdo_transmit p)) = kTpdoPayloadLength \<and>
     observation_wf (pdo_observation p)"

lemma length_copyPayload [simp]: "length (copyPayload payload len) = kTpdoPayloadLength"
  by (simp add: copyPayload_def kTpdoPayloadLength_def split: option.split)

lemma receive_wf_initial [simp]: "receive_wf initial_receive"
  by (simp add: receive_wf_def initial_receive_def sample_wf_def empty_sample_def list_all_length)

lemma pdo_wf_initial [simp]: "pdo_wf initial_pdo"
  by (simp add: pdo_wf_def initial_pdo_def initial_transmit_def observation_wf_def
      initial_observation_sync_def)

lemma receive_wf_callback:
  assumes "receive_wf st"
  shows "receive_wf (rpdoCallback num error payload len now st)"
  using assms
  by (auto simp: receive_wf_def rpdoCallback_def storeSample_def Let_def sample_wf_def list_all_length nth_list_update
      min_def
      split: if_splits)

lemma observation_wf_steps:
  assumes "observation_wf st"
  shows "observation_wf (syncRpdoCallback num error payload len now st)"
    and "observation_wf (syncCallback now stop st)" and "observation_wf (syncErrorCallback code reg st)"
    and "observation_wf (clearObservation st)"
  using assms
  by (simp_all add: observation_wf_def syncRpdoCallback_def syncCallback_def syncErrorCallback_def
      clearObservation_def Let_def)

lemma pdo_wf_steps:
  assumes "pdo_wf p"
  shows "pdo_wf (pdoReceived num error payload len now p)" and "pdo_wf (pdoSent num error payload len p)"
    and "pdo_wf (syncSeen now stop p)" and "pdo_wf (syncFault code reg p)"
  using assms
  by (simp_all add: pdo_wf_def pdoReceived_def pdoSent_def syncSeen_def syncFault_def receive_wf_callback
      observation_wf_steps tpdoCallback_def split: rpdo_handler.split)


section \<open>The window of received samples\<close>

interpretation pdo_cell: generation_cell storeSample tr_generation tr_latest
  by unfold_locales (auto simp: storeSample_def Let_def)

text \<open>After any sequence of valid frames the window holds the first five of them in order, the newest
  one is the last, and the generation counts them all.\<close>

definition windows :: "TpdoSample list \<Rightarrow> TpdoReceiveState \<Rightarrow> bool" where
  "windows ss st \<longleftrightarrow> tr_generation st = length ss \<and> (ss \<noteq> [] \<longrightarrow> tr_latest st = last ss) \<and>
     length (tr_samples st) = kTpdoSampleCount \<and> tr_sample_count st = min (length ss) kTpdoSampleCount \<and>
     take (tr_sample_count st) (tr_samples st) = take kTpdoSampleCount ss"

lemma windows_initial: "windows [] initial_receive"
  by (simp add: windows_def initial_receive_def)

lemma windows_store:
  assumes "windows ss st"
  shows "windows (ss @ [s]) (storeSample s st)"
  using assms by (auto simp: windows_def storeSample_def Let_def take_Suc_conv_app_nth min_def)

lemma storeSample_fold: "windows ss (fold storeSample ss initial_receive)"
  by (induction ss rule: rev_induct) (auto simp: windows_initial windows_store)

end
