(* ===== verification/Host_World.thy ===== *)
theory Host_World
  imports Emcy_Events Nmt_Observer Command_Queue Wire_Workers Pdo_Observers
begin

text \<open>
  The world the validation processes run in.  Lely, the C++ threading and clock primitives and
  the device on the bus are not part of the repository: their answers are the fields of the
  record \<open>lely\<close>, functions of the history of everything that has happened so far, so a
  theorem for every \<open>lely\<close> covers every behaviour of the library, of the bus and of the
  device under test.  An operation of the program is a state transformer over \<open>world\<close>; each
  call it makes to the outside adds one event to the history.

  Time is a natural number of nanoseconds.  Every call takes at least one, so the steady clock
  strictly advances from one call to the next; a sleep or an expired wait takes at least its
  duration.  Callbacks of the event-loop thread run during any call, in the order and number
  the environment chooses; they touch only the memory the observers share with the control
  thread.
\<close>

section \<open>Values, requests and answers\<close>

text \<open>The signed objects carry the same bits; \<open>sint\<close> reads them.\<close>

datatype sdo_value =
  V8 u8 | V16 u16 | V32 u32 | V64 u64 | VI8 u8 | VI32 u32 | VOctets "u8 list"

datatype sdo_mode = Normal | Block

record sdo_request =
  rq_mode :: sdo_mode
  rq_node :: u8
  rq_index :: u16
  rq_sub :: u8
  rq_timeout :: nat

text \<open>
  The answer to one asynchronous submission: an immediate error, or acceptance, with the
  arguments of the completion callback when it runs within the caller's wait.
\<close>

datatype 'a submission = Rejected ecode | Accepted "(ecode \<times> 'a) option"

datatype callback =
    CbEmcy u8 u16 u8 "u8 list" nat
  | CbState u8 nmt_state
  | CbBoot u8 nmt_state char
  | CbHeartbeat u8 bool
  | CbCommand nmt_command
  | CbKeepalive bool
  | CbObserver WireWaitResult u32
  | CbRpdo nat ecode "u8 list option" nat nat
  | CbTpdo nat ecode "u8 list option" nat
  | CbSync nat ecode
  | CbSyncError u16 u8

text \<open>The calls on the objects of the master's own dictionary: an object is named by its index.\<close>

datatype od_type = UNSIGNED32 | OCTET_STRING

datatype od_access = ACCESS_RW | ACCESS_RO

datatype od_call =
    OdCreate u16
  | OdCreateSub u16 u8 od_type
  | OdSetAccess u16 od_access
  | OdInsertSub u16
  | OdInsert u16
  | OdDestroySub u16
  | OdDestroy u16

datatype od_query = OdDevice | OdServer | OdFind u16 | OdFindSub u16 u8 | OdAttached u16

text \<open>The calls of the program around the processes: the event loop started, the flags read, the loop stopped.\<close>

datatype session_call = LoopStart bool | StopFlag bool | LoopFlag bool | LoopStop

datatype event =
    EvUpload sdo_request "sdo_value submission"
  | EvDownload sdo_request sdo_value "unit submission"
  | EvLocalRead u16 u8 sdo_value ecode
  | EvLocalWrite u16 u8 sdo_value ecode
  | EvCommand nmt_command u8 bool
  | EvCanLock bool
  | EvCanSend can_frame bool
  | EvCanUnlock bool
  | EvWireWrite can_frame ecode
  | EvWireRead nat wire_answer
  | EvMappedRead u16 u8 u32 ecode
  | EvMappedWrite u16 u8 u32 ecode
  | EvMappedEvent u16 u8 ecode
  | EvCancel u8 u32 bool
  | EvEmcyPeek u16 u8
  | EvEmcyCount "u8 option"
  | EvEmcyPush u16 u8 "u8 list" bool
  | EvEmcyClear bool
  | EvOdCall od_call bool
  | EvOdQuery od_query bool
  | EvOdSet u16 sdo_value nat
  | EvOdRead u16 sdo_value
  | EvNodeReset
  | EvSession session_call
  | EvNow nat
  | EvSleep nat
  | EvWait nat bool

type_synonym history = "event list"

section \<open>The environment\<close>

record lely =
  up8 :: "history \<Rightarrow> sdo_request \<Rightarrow> u8 submission"
  up16 :: "history \<Rightarrow> sdo_request \<Rightarrow> u16 submission"
  up32 :: "history \<Rightarrow> sdo_request \<Rightarrow> u32 submission"
  up64 :: "history \<Rightarrow> sdo_request \<Rightarrow> u64 submission"
  upI8 :: "history \<Rightarrow> sdo_request \<Rightarrow> u8 submission"
  upI32 :: "history \<Rightarrow> sdo_request \<Rightarrow> u32 submission"
  upOctets :: "history \<Rightarrow> sdo_request \<Rightarrow> u8 list submission"
  down :: "history \<Rightarrow> sdo_request \<Rightarrow> sdo_value \<Rightarrow> unit submission"
  loc8 :: "history \<Rightarrow> u16 \<Rightarrow> u8 \<Rightarrow> u8 \<times> ecode"
  loc16 :: "history \<Rightarrow> u16 \<Rightarrow> u8 \<Rightarrow> u16 \<times> ecode"
  loc32 :: "history \<Rightarrow> u16 \<Rightarrow> u8 \<Rightarrow> u32 \<times> ecode"
  loc_write :: "history \<Rightarrow> u16 \<Rightarrow> u8 \<Rightarrow> sdo_value \<Rightarrow> ecode"
  command :: "history \<Rightarrow> nmt_command \<Rightarrow> u8 \<Rightarrow> bool"
  can_lock :: "history \<Rightarrow> bool"
  can_net :: "history \<Rightarrow> bool"
  can_send :: "history \<Rightarrow> can_frame \<Rightarrow> bool"
  can_unlock :: "history \<Rightarrow> bool"
  wire_write :: "history \<Rightarrow> can_frame \<Rightarrow> ecode"
  wire_read :: "history \<Rightarrow> nat \<Rightarrow> wire_answer"
  wire_pending :: "history \<Rightarrow> wire_answer list"
  mapped_value :: "history \<Rightarrow> u16 \<Rightarrow> u8 \<Rightarrow> u32 \<times> ecode"
  mapped_set :: "history \<Rightarrow> u16 \<Rightarrow> u8 \<Rightarrow> u32 \<Rightarrow> ecode"
  mapped_trigger :: "history \<Rightarrow> u16 \<Rightarrow> u8 \<Rightarrow> ecode"
  sdo_client :: "history \<Rightarrow> u8 \<Rightarrow> bool"
  emcy_service :: "history \<Rightarrow> bool"
  emcy_top :: "history \<Rightarrow> u16 \<times> u8"
  emcy_depth :: "history \<Rightarrow> u8 option"
  emcy_push :: "history \<Rightarrow> u16 \<Rightarrow> u8 \<Rightarrow> u8 list \<Rightarrow> bool"
  emcy_clear :: "history \<Rightarrow> bool"
  od_done :: "history \<Rightarrow> od_call \<Rightarrow> bool"
  od_holds :: "history \<Rightarrow> od_query \<Rightarrow> bool"
  od_written :: "history \<Rightarrow> u16 \<Rightarrow> sdo_value \<Rightarrow> nat \<times> bool"
  od_number :: "history \<Rightarrow> u16 \<Rightarrow> u32"
  od_octets :: "history \<Rightarrow> u16 \<Rightarrow> nat \<times> u8 list option"
  sdo_errc :: "ecode \<Rightarrow> u32"
  elapsed :: "history \<Rightarrow> nat"
  callbacks :: "history \<Rightarrow> callback list"

text \<open>The template instances \<open><std::uint8_t>\<close> to \<open><std::vector<std::uint8_t>>\<close>.\<close>

record 'a sdo_type =
  t_upload :: "lely \<Rightarrow> history \<Rightarrow> sdo_request \<Rightarrow> 'a submission"
  t_value :: "'a \<Rightarrow> sdo_value"

definition tU8 :: "u8 sdo_type" where "tU8 = \<lparr>t_upload = up8, t_value = V8\<rparr>"
definition tU16 :: "u16 sdo_type" where "tU16 = \<lparr>t_upload = up16, t_value = V16\<rparr>"
definition tU32 :: "u32 sdo_type" where "tU32 = \<lparr>t_upload = up32, t_value = V32\<rparr>"
definition tU64 :: "u64 sdo_type" where "tU64 = \<lparr>t_upload = up64, t_value = V64\<rparr>"
definition tI8 :: "u8 sdo_type" where "tI8 = \<lparr>t_upload = upI8, t_value = VI8\<rparr>"
definition tI32 :: "u32 sdo_type" where "tI32 = \<lparr>t_upload = upI32, t_value = VI32\<rparr>"
definition tOctets :: "u8 list sdo_type" where
  "tOctets = \<lparr>t_upload = upOctets, t_value = VOctets\<rparr>"

lemma t_value_simps [simp]:
  "t_value tU8 = V8" "t_value tU16 = V16" "t_value tU32 = V32" "t_value tU64 = V64"
  "t_value tI8 = VI8" "t_value tI32 = VI32" "t_value tOctets = VOctets"
  by (simp_all add: tU8_def tU16_def tU32_def tU64_def tI8_def tI32_def tOctets_def)

record 'a local_type =
  l_read :: "lely \<Rightarrow> history \<Rightarrow> u16 \<Rightarrow> u8 \<Rightarrow> 'a \<times> ecode"
  l_value :: "'a \<Rightarrow> sdo_value"

definition lU8 :: "u8 local_type" where "lU8 = \<lparr>l_read = loc8, l_value = V8\<rparr>"
definition lU16 :: "u16 local_type" where "lU16 = \<lparr>l_read = loc16, l_value = V16\<rparr>"
definition lU32 :: "u32 local_type" where "lU32 = \<lparr>l_read = loc32, l_value = V32\<rparr>"

lemma l_value_simps [simp]: "l_value lU8 = V8" "l_value lU16 = V16" "l_value lU32 = V32"
  by (simp_all add: lU8_def lU16_def lU32_def)

section \<open>Memory and world\<close>

record memory =
  emcy :: emcy_mem
  nmt :: nmt_mem
  boot :: boot_mem
  heartbeat :: heartbeat_mem
  commands :: NmtCommandObserverState
  workers :: worker_mem
  pdo :: pdo_mem
  on_emcy :: bool
  on_state :: bool
  on_boot :: bool
  on_heartbeat :: bool
  on_command :: bool

record world =
  clock :: nat
  hist :: history
  mem :: memory

definition initial_memory :: memory where
  "initial_memory = \<lparr>emcy = initial_emcy_mem, nmt = initial_nmt_mem, boot = initial_boot_mem,
     heartbeat = initial_heartbeat_mem, commands = initial_commands, workers = initial_workers,
     pdo = initial_pdo,      on_emcy = False, on_state = False, on_boot = False, on_heartbeat = False,
     on_command = False\<rparr>"

definition initial_world :: world where
  "initial_world = \<lparr>clock = 0, hist = [], mem = initial_memory\<rparr>"

text \<open>A callback acts only while its slot on the master is registered; a step of a worker thread is
  treated like a callback.\<close>

fun dispatch :: "nat \<Rightarrow> callback \<Rightarrow> memory \<Rightarrow> memory" where
  "dispatch now (CbEmcy node code reg data offset) m =
     (if on_emcy m then m\<lparr>emcy := emcyCallback node code reg data (now + offset) (emcy m)\<rparr> else m)"
| "dispatch now (CbState node state) m =
     (if on_state m then m\<lparr>nmt := nmtStateCallback node state (nmt m)\<rparr> else m)"
| "dispatch now (CbBoot node state status) m =
     (if on_boot m then m\<lparr>boot := bootCallback node state status (boot m)\<rparr> else m)"
| "dispatch now (CbHeartbeat node occurred) m =
     (if on_heartbeat m then m\<lparr>heartbeat := heartbeatCallback node occurred (heartbeat m)\<rparr> else m)"
| "dispatch now (CbCommand cmd) m =
     (if on_command m then m\<lparr>commands := nmtCommandCallback cmd (commands m)\<rparr> else m)"
| "dispatch now (CbKeepalive sent) m = m\<lparr>workers := keepaliveStep sent (workers m)\<rparr>"
| "dispatch now (CbObserver waited captured) m =
     m\<lparr>workers := observerStep waited captured (workers m)\<rparr>"
| "dispatch now (CbRpdo num error payload len offset) m =
     m\<lparr>pdo := pdoReceived num error payload len (now + offset) (pdo m)\<rparr>"
| "dispatch now (CbTpdo num error payload len) m = m\<lparr>pdo := pdoSent num error payload len (pdo m)\<rparr>"
| "dispatch now (CbSync offset stop) m = m\<lparr>pdo := syncSeen (now + offset) stop (pdo m)\<rparr>"
| "dispatch now (CbSyncError code reg) m = m\<lparr>pdo := syncFault code reg (pdo m)\<rparr>"

section \<open>Operations\<close>

type_synonym 'a host = "(world, 'a) state"

definition ms :: "nat \<Rightarrow> nat" where
  "ms n = n * 1000000"

text \<open>
  \<open>duration_cast<milliseconds>\<close> of the difference of two time points: truncation towards
  zero, also of a negative difference.
\<close>

definition intervalMs :: "nat \<Rightarrow> nat \<Rightarrow> int" where
  "intervalMs t1 t0 = (if t0 \<le> t1 then int ((t1 - t0) div 1000000)
                       else - int ((t0 - t1) div 1000000))"

text \<open>One call to the outside: it takes time, callbacks run, and it is recorded.\<close>

definition occur :: "lely \<Rightarrow> event \<Rightarrow> nat \<Rightarrow> world \<Rightarrow> world" where
  "occur M ev duration w =
     w\<lparr>clock := clock w + duration + elapsed M (hist w) + 1,
       hist := ev # hist w,
       mem := fold (dispatch (clock w)) (callbacks M (hist w)) (mem w)\<rparr>"

definition submit_upload :: "'a sdo_type \<Rightarrow> lely \<Rightarrow> sdo_request \<Rightarrow> nat \<Rightarrow> 'a submission host" where
  "submit_upload T M rq wait = State (\<lambda>w.
     let r = t_upload T M (hist w) rq
     in (r, occur M (EvUpload rq (map_submission (t_value T) r))
              (if r = Accepted None then wait else 0) w))"

definition submit_download :: "lely \<Rightarrow> sdo_request \<Rightarrow> sdo_value \<Rightarrow> nat \<Rightarrow> unit submission host" where
  "submit_download M rq v wait = State (\<lambda>w.
     let r = down M (hist w) rq v
     in (r, occur M (EvDownload rq v r) (if r = Accepted None then wait else 0) w))"

definition local_read :: "'a local_type \<Rightarrow> lely \<Rightarrow> u16 \<Rightarrow> u8 \<Rightarrow> ('a \<times> ecode) host" where
  "local_read T M index sub = State (\<lambda>w.
     let (v, e) = l_read T M (hist w) index sub
     in ((v, e), occur M (EvLocalRead index sub (l_value T v) e) 0 w))"

definition local_write :: "lely \<Rightarrow> u16 \<Rightarrow> u8 \<Rightarrow> sdo_value \<Rightarrow> ecode host" where
  "local_write M index sub v = State (\<lambda>w.
     let e = loc_write M (hist w) index sub v
     in (e, occur M (EvLocalWrite index sub v e) 0 w))"

text \<open>\<open>False\<close> when \<open>AsyncMaster::Command()\<close> throws.\<close>

definition submit_command :: "lely \<Rightarrow> nmt_command \<Rightarrow> u8 \<Rightarrow> bool host" where
  "submit_command M cmd node = State (\<lambda>w.
     let ok = command M (hist w) cmd node in (ok, occur M (EvCommand cmd node ok) 0 w))"

text \<open>The locked raw access to Lely's CAN network: \<open>io_can_net_lock\<close>, a null test of
  \<open>io_can_net_get_net\<close>, \<open>can_net_send\<close>, \<open>io_can_net_unlock\<close>; \<open>False\<close> is -1.\<close>

definition io_can_net_lock :: "lely \<Rightarrow> bool host" where
  "io_can_net_lock M = State (\<lambda>w.
     let ok = can_lock M (hist w) in (ok, occur M (EvCanLock ok) 0 w))"

definition io_can_net_get_net :: "lely \<Rightarrow> bool host" where
  "io_can_net_get_net M = State (\<lambda>w. (can_net M (hist w), w))"

definition can_net_send :: "lely \<Rightarrow> can_frame \<Rightarrow> bool host" where
  "can_net_send M message = State (\<lambda>w.
     let ok = can_send M (hist w) message in (ok, occur M (EvCanSend message ok) 0 w))"

definition io_can_net_unlock :: "lely \<Rightarrow> bool host" where
  "io_can_net_unlock M = State (\<lambda>w.
     let ok = can_unlock M (hist w) in (ok, occur M (EvCanUnlock ok) 0 w))"

text \<open>
  The dedicated CAN channel.  A read gives up after its timeout, in milliseconds.  \<open>wire_pending\<close>
  is what reads with timeout zero deliver one after the other until one of them would block:
  the bus is slower than the reader, so these are finitely many.
\<close>

definition channel_write :: "lely \<Rightarrow> can_frame \<Rightarrow> ecode host" where
  "channel_write M message = State (\<lambda>w.
     let e = wire_write M (hist w) message in (e, occur M (EvWireWrite message e) 0 w))"

definition channel_read :: "lely \<Rightarrow> nat \<Rightarrow> wire_answer host" where
  "channel_read M timeout = State (\<lambda>w.
     let a = wire_read M (hist w) timeout
     in (a, occur M (EvWireRead timeout a) (if a = WireFault EAGAIN then ms timeout else 0) w))"

definition channel_pending :: "lely \<Rightarrow> wire_answer list host" where
  "channel_pending M = State (\<lambda>w. (wire_pending M (hist w), w))"

definition channel_take :: "lely \<Rightarrow> wire_answer \<Rightarrow> unit host" where
  "channel_take M a = State (\<lambda>w. ((), occur M (EvWireRead 0 a) 0 w))"

text \<open>The local views of mapped PDO objects: \<open>RpdoMapped(...).Read\<close>, \<open>TpdoMapped(...).Write\<close> and
  \<open>WriteEvent\<close>.\<close>

definition mapped_read :: "lely \<Rightarrow> u16 \<Rightarrow> u8 \<Rightarrow> (u32 \<times> ecode) host" where
  "mapped_read M index sub = State (\<lambda>w.
     let (v, e) = mapped_value M (hist w) index sub
     in ((v, e), occur M (EvMappedRead index sub v e) 0 w))"

definition mapped_write :: "lely \<Rightarrow> u16 \<Rightarrow> u8 \<Rightarrow> u32 \<Rightarrow> ecode host" where
  "mapped_write M index sub v = State (\<lambda>w.
     let e = mapped_set M (hist w) index sub v in (e, occur M (EvMappedWrite index sub v e) 0 w))"

definition mapped_event :: "lely \<Rightarrow> u16 \<Rightarrow> u8 \<Rightarrow> ecode host" where
  "mapped_event M index sub = State (\<lambda>w.
     let e = mapped_trigger M (hist w) index sub in (e, occur M (EvMappedEvent index sub e) 0 w))"

text \<open>\<open>Sdo::CancelAll\<close> of the client for a node; \<open>False\<close> when there is no such client.\<close>

definition cancel_all :: "lely \<Rightarrow> u8 \<Rightarrow> u32 \<Rightarrow> bool host" where
  "cancel_all M node code = State (\<lambda>w.
     let ok = sdo_client M (hist w) node in (ok, occur M (EvCancel node code ok) 0 w))"

text \<open>The stack's own EMCY producer: whether there is one, the newest error and the combined register
  (\<open>COEmcy::peek\<close>), the count in object 0x1003 if it exists, \<open>COEmcy::push\<close> and \<open>COEmcy::clear\<close>;
  \<open>False\<close> is -1.\<close>

definition emcy_available :: "lely \<Rightarrow> bool host" where
  "emcy_available M = State (\<lambda>w. (emcy_service M (hist w), w))"

definition emcy_peek :: "lely \<Rightarrow> (u16 \<times> u8) host" where
  "emcy_peek M = State (\<lambda>w.
     let (code, reg) = emcy_top M (hist w) in ((code, reg), occur M (EvEmcyPeek code reg) 0 w))"

definition emcy_count :: "lely \<Rightarrow> u8 option host" where
  "emcy_count M = State (\<lambda>w.
     let n = emcy_depth M (hist w) in (n, occur M (EvEmcyCount n) 0 w))"

definition submit_push :: "lely \<Rightarrow> u16 \<Rightarrow> u8 \<Rightarrow> u8 list \<Rightarrow> bool host" where
  "submit_push M code reg msef = State (\<lambda>w.
     let ok = emcy_push M (hist w) code reg msef in (ok, occur M (EvEmcyPush code reg msef ok) 0 w))"

definition submit_clear :: "lely \<Rightarrow> bool host" where
  "submit_clear M = State (\<lambda>w.
     let ok = emcy_clear M (hist w) in (ok, occur M (EvEmcyClear ok) 0 w))"

text \<open>The object calls of \<open>lely/co/dev.h\<close> and \<open>lely/co/obj.h\<close>: a call that can fail with its success, a
  query for a pointer that may be null, \<open>co_sub_set_val\<close> with the bytes written and whether the error number
  is still zero, and the value of an object, an octet string with its size and the bytes at its address
  (nothing for a null address).\<close>

definition od_do :: "lely \<Rightarrow> od_call \<Rightarrow> bool host" where
  "od_do M c = State (\<lambda>w. let ok = od_done M (hist w) c in (ok, occur M (EvOdCall c ok) 0 w))"

definition od_ask :: "lely \<Rightarrow> od_query \<Rightarrow> bool host" where
  "od_ask M q = State (\<lambda>w. let ok = od_holds M (hist w) q in (ok, occur M (EvOdQuery q ok) 0 w))"

definition od_set :: "lely \<Rightarrow> u16 \<Rightarrow> sdo_value \<Rightarrow> (nat \<times> bool) host" where
  "od_set M index v = State (\<lambda>w.
     let (n, clear) = od_written M (hist w) index v in ((n, clear), occur M (EvOdSet index v n) 0 w))"

definition od_get_u32 :: "lely \<Rightarrow> u16 \<Rightarrow> u32 host" where
  "od_get_u32 M index = State (\<lambda>w.
     let v = od_number M (hist w) index in (v, occur M (EvOdRead index (V32 v)) 0 w))"

definition od_get_octets :: "lely \<Rightarrow> u16 \<Rightarrow> (nat \<times> u8 list option) host" where
  "od_get_octets M index = State (\<lambda>w.
     let (n, bytes) = od_octets M (hist w) index
     in ((n, bytes), occur M (EvOdRead index (VOctets (case bytes of None \<Rightarrow> [] | Some bs \<Rightarrow> take n bs))) 0 w))"

text \<open>The start of the node itself (\<open>Reset\<close> of the master or the peer), and the calls around the processes.\<close>

definition node_reset :: "lely \<Rightarrow> unit host" where
  "node_reset M = State (\<lambda>w. ((), occur M EvNodeReset 0 w))"

definition session_call :: "lely \<Rightarrow> session_call \<Rightarrow> nat \<Rightarrow> unit host" where
  "session_call M c duration = State (\<lambda>w. ((), occur M (EvSession c) duration w))"

definition steady_now :: "lely \<Rightarrow> nat host" where
  "steady_now M = State (\<lambda>w.
     let t = clock w + elapsed M (hist w) + 1 in (t, occur M (EvNow t) 0 w))"

definition sleep_for :: "lely \<Rightarrow> nat \<Rightarrow> unit host" where
  "sleep_for M duration = State (\<lambda>w. ((), occur M (EvSleep duration) duration w))"

text \<open>
  \<open>condition_variable::wait_for\<close> with a predicate: the predicate is tested before the
  first callback and after each of the callbacks that run before the timeout.
\<close>

fun wait_run :: "nat \<Rightarrow> (memory \<Rightarrow> bool) \<Rightarrow> callback list \<Rightarrow> memory \<Rightarrow> bool \<times> memory" where
  "wait_run now pred [] m = (pred m, m)"
| "wait_run now pred (c # cs) m = (if pred m then (True, m) else wait_run now pred cs (dispatch now c m))"

definition wait_for :: "lely \<Rightarrow> nat \<Rightarrow> (memory \<Rightarrow> bool) \<Rightarrow> bool host" where
  "wait_for M timeout pred = State (\<lambda>w.
     let (ok, m) = wait_run (clock w) pred (callbacks M (hist w)) (mem w)
     in (ok, (occur M (EvWait timeout ok) (if ok then 0 else timeout) w)\<lparr>mem := m\<rparr>))"

text \<open>A wait for the completion of one asynchronous request whose answer is known to come, or not to
  come, within it.\<close>

definition await :: "lely \<Rightarrow> nat \<Rightarrow> 'c option \<Rightarrow> unit host" where
  "await M timeout completion = State (\<lambda>w.
     let ok = completion \<noteq> None in ((), occur M (EvWait timeout ok) (if ok then 0 else timeout) w))"

definition read_mem :: "(memory \<Rightarrow> 'a) \<Rightarrow> 'a host" where
  "read_mem f = State (\<lambda>w. (f (mem w), w))"

definition update_mem :: "(memory \<Rightarrow> memory) \<Rightarrow> unit host" where
  "update_mem f = State (\<lambda>w. ((), w\<lparr>mem := f (mem w)\<rparr>))"

abbreviation return :: "'a \<Rightarrow> 'a host" where
  "return \<equiv> State_Monad.return"

text \<open>\<open>a && b\<close> over operations: the second runs only when the first gave true.\<close>

definition andM :: "bool host \<Rightarrow> bool host \<Rightarrow> bool host" where
  "andM a b = do { ok \<leftarrow> a; if ok then b else return False }"

section \<open>Deadline loops\<close>

text \<open>
  \<open>while (now() < deadline) body\<close>: the body gives \<open>Inr\<close> to leave the loop with a result
  and \<open>Inl\<close> to go round again.  The guard on the clock stops a body that would turn time
  back; no operation of the program does (\<open>emits\<close> below contains \<open>clock w \<le> clock w'\<close>), so
  for them it never fires and the loop is the loop of the code.
\<close>

function deadline_run ::
    "lely \<Rightarrow> nat \<Rightarrow> ('s \<Rightarrow> ('s + 'a) host) \<Rightarrow> 's \<Rightarrow> world \<Rightarrow> ('s + 'a) \<times> world" where
  "deadline_run M deadline body s w =
     (let (t, w1) = run_state (steady_now M) w in
      if t < deadline then
        (case run_state (body s) w1 of
           (Inr a, w2) \<Rightarrow> (Inr a, w2)
         | (Inl s', w2) \<Rightarrow>
             if clock w1 \<le> clock w2 then deadline_run M deadline body s' w2 else (Inl s', w2))
      else (Inl s, w1))"
  by pat_completeness auto
termination
  by (relation "measure (\<lambda>(M, deadline, body, s, w). deadline - clock w)")
     (auto simp: steady_now_def occur_def Let_def)

declare deadline_run.simps [simp del]

definition deadline_loop ::
    "lely \<Rightarrow> nat \<Rightarrow> ('s \<Rightarrow> ('s + 'a) host) \<Rightarrow> 's \<Rightarrow> ('s + 'a) host" where
  "deadline_loop M deadline body s = State (deadline_run M deadline body s)"

text \<open>\<open>do body while (now() < deadline)\<close>: one pass before the first test.\<close>

definition deadline_do_while ::
    "lely \<Rightarrow> nat \<Rightarrow> ('s \<Rightarrow> ('s + 'a) host) \<Rightarrow> 's \<Rightarrow> ('s + 'a) host" where
  "deadline_do_while M deadline body s = do {
     r \<leftarrow> body s;
     case r of Inr a \<Rightarrow> return (Inr a) | Inl s' \<Rightarrow> deadline_loop M deadline body s' }"

end
