(* ===== verification/World_Logic.thy ===== *)
theory World_Logic
  imports Host_World
begin

text \<open>
  Reasoning about host operations: weakest preconditions, event footprints (\<open>emits\<close>) and
  mutation footprints (\<open>touches\<close>), with one rule per combinator and per primitive
  operation, and the invariant rule of deadline loops.
\<close>

section \<open>Weakest preconditions\<close>

definition wp :: "'a host \<Rightarrow> ('a \<Rightarrow> world \<Rightarrow> bool) \<Rightarrow> world \<Rightarrow> bool" where
  "wp m Q w = (case run_state m w of (a, w') \<Rightarrow> Q a w')"

lemma wp_return [host_wp]: "wp (return a) Q w = Q a w"
  by (simp add: wp_def)

lemma wp_bind [host_wp]: "wp (State_Monad.bind m f) Q w = wp m (\<lambda>a. wp (f a) Q) w"
  by (simp add: wp_def split: prod.splits)

lemma wp_if [host_wp]: "wp (if c then m else n) Q w = (if c then wp m Q w else wp n Q w)"
  by simp

lemma wp_andM [host_wp]:
  "wp (andM a b) Q w = wp a (\<lambda>ok w'. if ok then wp b Q w' else Q False w') w"
  by (auto simp: wp_def andM_def split: prod.splits)

lemma wp_read_mem [host_wp]: "wp (read_mem f) Q w = Q (f (mem w)) w"
  by (simp add: wp_def read_mem_def)

lemma wp_update_mem [host_wp]: "wp (update_mem f) Q w = Q () (w\<lparr>mem := f (mem w)\<rparr>)"
  by (simp add: wp_def update_mem_def)

lemma wp_mono: "wp m Q w \<Longrightarrow> (\<And>a w'. Q a w' \<Longrightarrow> R a w') \<Longrightarrow> wp m R w"
  by (auto simp: wp_def split: prod.splits)

lemma wp_conj: "wp m (\<lambda>a w'. Q a w' \<and> R a w') w = (wp m Q w \<and> wp m R w)"
  by (auto simp: wp_def split: prod.splits)

lemma wp_run: "wp m (\<lambda>a w'. run_state m w = (a, w')) w"
  by (simp add: wp_def split: prod.splits)

lemma wpD: "wp m Q w \<Longrightarrow> run_state m w = (a, w') \<Longrightarrow> Q a w'"
  by (simp add: wp_def)

lemma wpI: "(\<And>a w'. run_state m w = (a, w') \<Longrightarrow> Q a w') \<Longrightarrow> wp m Q w"
  by (simp add: wp_def split: prod.splits)

section \<open>Primitive operations\<close>

lemma occur_simps [simp]:
  "hist (occur M ev d w) = ev # hist w"
  "clock (occur M ev d w) = clock w + d + elapsed M (hist w) + 1"
  by (simp_all add: occur_def)

lemma clock_occur_le [simp]: "clock w \<le> clock (occur M ev d w)"
  by simp

lemma run_submit_upload:
  "run_state (submit_upload T M rq wait) w =
     (t_upload T M (hist w) rq,
      occur M (EvUpload rq (map_submission (t_value T) (t_upload T M (hist w) rq)))
        (if t_upload T M (hist w) rq = Accepted None then wait else 0) w)"
  by (simp add: submit_upload_def Let_def)

lemma run_submit_download:
  "run_state (submit_download M rq v wait) w =
     (down M (hist w) rq v,
      occur M (EvDownload rq v (down M (hist w) rq v))
        (if down M (hist w) rq v = Accepted None then wait else 0) w)"
  by (simp add: submit_download_def Let_def)

lemma run_local_read:
  "run_state (local_read T M index sub) w =
     (l_read T M (hist w) index sub,
      occur M (EvLocalRead index sub (l_value T (fst (l_read T M (hist w) index sub)))
        (snd (l_read T M (hist w) index sub))) 0 w)"
  by (simp add: local_read_def Let_def split: prod.splits)

lemma run_local_write:
  "run_state (local_write M index sub v) w =
     (loc_write M (hist w) index sub v,
      occur M (EvLocalWrite index sub v (loc_write M (hist w) index sub v)) 0 w)"
  by (simp add: local_write_def Let_def)

lemma run_submit_command:
  "run_state (submit_command M cmd node) w =
     (command M (hist w) cmd node, occur M (EvCommand cmd node (command M (hist w) cmd node)) 0 w)"
  by (simp add: submit_command_def Let_def)

lemma run_can_net:
  "run_state (io_can_net_lock M) w = (can_lock M (hist w), occur M (EvCanLock (can_lock M (hist w))) 0 w)"
  "run_state (io_can_net_get_net M) w = (can_net M (hist w), w)"
  "run_state (can_net_send M message) w =
     (can_send M (hist w) message, occur M (EvCanSend message (can_send M (hist w) message)) 0 w)"
  "run_state (io_can_net_unlock M) w =
     (can_unlock M (hist w), occur M (EvCanUnlock (can_unlock M (hist w))) 0 w)"
  by (simp_all add: io_can_net_lock_def io_can_net_get_net_def can_net_send_def
        io_can_net_unlock_def Let_def)

lemma run_channel:
  "run_state (channel_write M message) w =
     (wire_write M (hist w) message, occur M (EvWireWrite message (wire_write M (hist w) message)) 0 w)"
  "run_state (channel_read M timeout) w =
     (wire_read M (hist w) timeout, occur M (EvWireRead timeout (wire_read M (hist w) timeout))
        (if wire_read M (hist w) timeout = WireFault EAGAIN then ms timeout else 0) w)"
  "run_state (channel_pending M) w = (wire_pending M (hist w), w)"
  "run_state (channel_take M a) w = ((), occur M (EvWireRead 0 a) 0 w)"
  by (simp_all add: channel_write_def channel_read_def channel_pending_def channel_take_def Let_def)

lemma run_mapped:
  "run_state (mapped_read M index sub) w =
     (mapped_value M (hist w) index sub,
      occur M (EvMappedRead index sub (fst (mapped_value M (hist w) index sub))
        (snd (mapped_value M (hist w) index sub))) 0 w)"
  "run_state (mapped_write M index sub v) w =
     (mapped_set M (hist w) index sub v, occur M (EvMappedWrite index sub v (mapped_set M (hist w) index sub v)) 0 w)"
  "run_state (mapped_event M index sub) w =
     (mapped_trigger M (hist w) index sub, occur M (EvMappedEvent index sub (mapped_trigger M (hist w) index sub)) 0 w)"
  by (simp_all add: mapped_read_def mapped_write_def mapped_event_def Let_def split: prod.splits)

lemma run_local_services:
  "run_state (cancel_all M node code) w =
     (sdo_client M (hist w) node, occur M (EvCancel node code (sdo_client M (hist w) node)) 0 w)"
  "run_state (emcy_available M) w = (emcy_service M (hist w), w)"
  "run_state (emcy_peek M) w = (emcy_top M (hist w),
     occur M (EvEmcyPeek (fst (emcy_top M (hist w))) (snd (emcy_top M (hist w)))) 0 w)"
  "run_state (emcy_count M) w = (emcy_depth M (hist w), occur M (EvEmcyCount (emcy_depth M (hist w))) 0 w)"
  "run_state (submit_push M c r msef) w = (emcy_push M (hist w) c r msef,
     occur M (EvEmcyPush c r msef (emcy_push M (hist w) c r msef)) 0 w)"
  "run_state (submit_clear M) w = (emcy_clear M (hist w), occur M (EvEmcyClear (emcy_clear M (hist w))) 0 w)"
  "run_state (await M t completion) w =
     ((), occur M (EvWait t (completion \<noteq> None)) (if completion \<noteq> None then 0 else t) w)"
  by (simp_all add: cancel_all_def emcy_available_def emcy_peek_def emcy_count_def submit_push_def
      submit_clear_def await_def Let_def split: prod.splits)

lemma run_objects:
  "run_state (od_do M c) w = (od_done M (hist w) c, occur M (EvOdCall c (od_done M (hist w) c)) 0 w)"
  "run_state (od_ask M q) w = (od_holds M (hist w) q, occur M (EvOdQuery q (od_holds M (hist w) q)) 0 w)"
  "run_state (od_set M index v) w = (od_written M (hist w) index v,
     occur M (EvOdSet index v (fst (od_written M (hist w) index v))) 0 w)"
  "run_state (od_get_u32 M index) w = (od_number M (hist w) index,
     occur M (EvOdRead index (V32 (od_number M (hist w) index))) 0 w)"
  "run_state (od_get_octets M index) w = (od_octets M (hist w) index,
     occur M (EvOdRead index (VOctets (case snd (od_octets M (hist w) index) of None \<Rightarrow> []
       | Some bs \<Rightarrow> take (fst (od_octets M (hist w) index)) bs))) 0 w)"
  by (simp_all add: od_do_def od_ask_def od_set_def od_get_u32_def od_get_octets_def Let_def split: prod.splits option.splits)

lemma run_session:
  "run_state (node_reset M) w = ((), occur M EvNodeReset 0 w)"
  "run_state (session_call M c d) w = ((), occur M (EvSession c) d w)"
  by (simp_all add: node_reset_def session_call_def)

lemma run_steady_now:
  "run_state (steady_now M) w =
     (clock w + elapsed M (hist w) + 1, occur M (EvNow (clock w + elapsed M (hist w) + 1)) 0 w)"
  by (simp add: steady_now_def Let_def)

lemma run_sleep_for: "run_state (sleep_for M d) w = ((), occur M (EvSleep d) d w)"
  by (simp add: sleep_for_def)

lemma hist_wait_for:
  "run_state (wait_for M timeout pred) w = (ok, w') \<Longrightarrow>
     hist w' = EvWait timeout ok # hist w \<and> clock w \<le> clock w' \<and> (ok \<longleftrightarrow> pred (mem w'))"
proof -
  have run: "wait_run now pred cs m = (ok, m') \<Longrightarrow> ok \<longleftrightarrow> pred m'" for now cs m m'
    by (induction now pred cs m rule: wait_run.induct) (auto split: if_splits)
  show "run_state (wait_for M timeout pred) w = (ok, w') \<Longrightarrow> ?thesis"
    by (auto simp: wait_for_def Let_def dest: run split: prod.splits)
qed

lemma wait_run_fold:
  "wait_run now pred cs m = (ok, m') \<Longrightarrow> \<exists>cs1 cs2. cs = cs1 @ cs2 \<and> m' = fold (dispatch now) cs1 m
     \<and> (\<not> ok \<longrightarrow> cs2 = [])"
proof (induction now pred cs m rule: wait_run.induct)
  case (1 now pred m)
  then show ?case by auto
next
  case (2 now pred c cs m)
  show ?case
  proof (cases "pred m")
    case True
    with 2 show ?thesis by (intro exI [of _ "[]"] exI [of _ "c # cs"]) simp
  next
    case False
    with 2 obtain cs1 cs2 where "cs = cs1 @ cs2" "m' = fold (dispatch now) cs1 (dispatch now c m)"
      "\<not> ok \<longrightarrow> cs2 = []" by auto
    then show ?thesis by (intro exI [of _ "c # cs1"] exI [of _ cs2]) simp
  qed
qed

section \<open>Introduction rules\<close>

text \<open>
  The equations above substitute the answers of the environment into the rest of the program,
  which multiplies terms on long code.  The introduction rules name each answer and each world
  instead and keep of the world what proofs about histories use.
\<close>

lemma wpi_return [wp_intro]: "Q a w \<Longrightarrow> wp (return a) Q w"
  by (simp add: host_wp)

lemma wpi_bind [wp_intro]: "wp m (\<lambda>a. wp (f a) Q) w \<Longrightarrow> wp (State_Monad.bind m f) Q w"
  by (simp add: host_wp)

lemma wpi_if [wp_intro]:
  "(c \<Longrightarrow> wp m Q w) \<Longrightarrow> (\<not> c \<Longrightarrow> wp n Q w) \<Longrightarrow> wp (if c then m else n) Q w"
  by simp

lemma wpi_case_prod [wp_intro]:
  "(\<And>a b. p = (a, b) \<Longrightarrow> wp (f a b) Q w) \<Longrightarrow> wp (case p of (a, b) \<Rightarrow> f a b) Q w"
  by (cases p) simp

lemma wpi_case_option [wp_intro]:
  "(x = None \<Longrightarrow> wp m Q w) \<Longrightarrow> (\<And>a. x = Some a \<Longrightarrow> wp (f a) Q w) \<Longrightarrow>
     wp (case x of None \<Rightarrow> m | Some a \<Rightarrow> f a) Q w"
  by (cases x) simp_all

lemma wpi_case_sum [wp_intro]:
  "(\<And>a. x = Inl a \<Longrightarrow> wp (f a) Q w) \<Longrightarrow> (\<And>b. x = Inr b \<Longrightarrow> wp (g b) Q w) \<Longrightarrow>
     wp (case x of Inl a \<Rightarrow> f a | Inr b \<Rightarrow> g b) Q w"
  by (cases x) simp_all

lemma wpi_Let [wp_intro]: "(\<And>x. x = v \<Longrightarrow> wp (f x) Q w) \<Longrightarrow> wp (Let v f) Q w"
  by simp

lemma wpi_andM [wp_intro]:
  "wp a (\<lambda>ok w'. if ok then wp b Q w' else Q False w') w \<Longrightarrow> wp (andM a b) Q w"
  by (simp add: host_wp)

lemma wpi_read_mem [wp_intro]: "(\<And>x. x = f (mem w) \<Longrightarrow> Q x w) \<Longrightarrow> wp (read_mem f) Q w"
  by (simp add: host_wp)

lemma wpi_update_mem [wp_intro]:
  "(\<And>w'. hist w' = hist w \<Longrightarrow> clock w' = clock w \<Longrightarrow> mem w' = f (mem w) \<Longrightarrow> Q () w') \<Longrightarrow>
     wp (update_mem f) Q w"
  by (simp add: host_wp)

lemma wpi_local_read [wp_intro]:
  "(\<And>v e w'. l_read T M (hist w) index sub = (v, e) \<Longrightarrow>
      hist w' = EvLocalRead index sub (l_value T v) e # hist w \<Longrightarrow> Q (v, e) w') \<Longrightarrow>
     wp (local_read T M index sub) Q w"
  by (cases "l_read T M (hist w) index sub") (simp add: wp_def run_local_read)

lemma wpi_local_write [wp_intro]:
  "(\<And>e w'. e = loc_write M (hist w) index sub v \<Longrightarrow>
      hist w' = EvLocalWrite index sub v e # hist w \<Longrightarrow> Q e w') \<Longrightarrow>
     wp (local_write M index sub v) Q w"
  by (simp add: wp_def run_local_write)

lemma wpi_submit_command [wp_intro]:
  "(\<And>ok w'. ok = command M (hist w) cmd node \<Longrightarrow>
      hist w' = EvCommand cmd node ok # hist w \<Longrightarrow> Q ok w') \<Longrightarrow>
     wp (submit_command M cmd node) Q w"
  by (simp add: wp_def run_submit_command)

lemma wpi_can_net [wp_intro]:
  "(\<And>ok w'. hist w' = EvCanLock ok # hist w \<Longrightarrow> Q ok w') \<Longrightarrow> wp (io_can_net_lock M) Q w"
  "(\<And>ok. Q ok w) \<Longrightarrow> wp (io_can_net_get_net M) Q w"
  "(\<And>ok w'. hist w' = EvCanSend message ok # hist w \<Longrightarrow> Q ok w') \<Longrightarrow>
     wp (can_net_send M message) Q w"
  "(\<And>ok w'. hist w' = EvCanUnlock ok # hist w \<Longrightarrow> Q ok w') \<Longrightarrow> wp (io_can_net_unlock M) Q w"
  by (simp_all add: wp_def run_can_net)

lemma wpi_channel [wp_intro]:
  "(\<And>e w'. hist w' = EvWireWrite message e # hist w \<Longrightarrow> Q1 e w') \<Longrightarrow> wp (channel_write M message) Q1 w"
  "(\<And>a w'. hist w' = EvWireRead timeout a # hist w \<Longrightarrow> Q2 a w') \<Longrightarrow> wp (channel_read M timeout) Q2 w"
  "(\<And>as. Q3 as w) \<Longrightarrow> wp (channel_pending M) Q3 w"
  "(\<And>w'. hist w' = EvWireRead 0 a # hist w \<Longrightarrow> Q4 () w') \<Longrightarrow> wp (channel_take M a) Q4 w"
  by (simp_all add: wp_def run_channel)

lemma wpi_mapped [wp_intro]:
  "(\<And>v e w'. hist w' = EvMappedRead index sub v e # hist w \<Longrightarrow> Q1 (v, e) w') \<Longrightarrow>
     wp (mapped_read M index sub) Q1 w"
  "(\<And>e w'. hist w' = EvMappedWrite index sub v e # hist w \<Longrightarrow> Q2 e w') \<Longrightarrow>
     wp (mapped_write M index sub v) Q2 w"
  "(\<And>e w'. hist w' = EvMappedEvent index sub e # hist w \<Longrightarrow> Q3 e w') \<Longrightarrow>
     wp (mapped_event M index sub) Q3 w"
  by (cases "mapped_value M (hist w) index sub", simp add: wp_def run_mapped)
     (simp_all add: wp_def run_mapped)

lemma wpi_local_services [wp_intro]:
  "(\<And>ok w'. hist w' = EvCancel node code ok # hist w \<Longrightarrow> Q1 ok w') \<Longrightarrow> wp (cancel_all M node code) Q1 w"
  "(\<And>ok. Q2 ok w) \<Longrightarrow> wp (emcy_available M) Q2 w"
  "(\<And>c r w'. hist w' = EvEmcyPeek c r # hist w \<Longrightarrow> Q3 (c, r) w') \<Longrightarrow> wp (emcy_peek M) Q3 w"
  "(\<And>n w'. hist w' = EvEmcyCount n # hist w \<Longrightarrow> Q4 n w') \<Longrightarrow> wp (emcy_count M) Q4 w"
  "(\<And>ok w'. hist w' = EvEmcyPush c r msef ok # hist w \<Longrightarrow> Q5 ok w') \<Longrightarrow> wp (submit_push M c r msef) Q5 w"
  "(\<And>ok w'. hist w' = EvEmcyClear ok # hist w \<Longrightarrow> Q6 ok w') \<Longrightarrow> wp (submit_clear M) Q6 w"
  "(\<And>w'. hist w' = EvWait t (completion \<noteq> None) # hist w \<Longrightarrow> Q7 () w') \<Longrightarrow> wp (await M t completion) Q7 w"
        apply (simp add: wp_def run_local_services)
       apply (simp add: wp_def run_local_services)
      apply (cases "emcy_top M (hist w)", simp add: wp_def run_local_services)
     apply (simp_all add: wp_def run_local_services)
  done

lemma wpi_objects [wp_intro]:
  "(\<And>ok w'. hist w' = EvOdCall c ok # hist w \<Longrightarrow> Q1 ok w') \<Longrightarrow> wp (od_do M c) Q1 w"
  "(\<And>ok w'. hist w' = EvOdQuery q ok # hist w \<Longrightarrow> Q1 ok w') \<Longrightarrow> wp (od_ask M q) Q1 w"
  "(\<And>n clear w'. hist w' = EvOdSet index v n # hist w \<Longrightarrow> Q2 (n, clear) w') \<Longrightarrow> wp (od_set M index v) Q2 w"
  "(\<And>x w'. hist w' = EvOdRead index (V32 x) # hist w \<Longrightarrow> Q3 x w') \<Longrightarrow> wp (od_get_u32 M index) Q3 w"
  "(\<And>n bytes w'. hist w' = EvOdRead index (VOctets (case bytes of None \<Rightarrow> [] | Some bs \<Rightarrow> take n bs)) # hist w \<Longrightarrow>
     Q4 (n, bytes) w') \<Longrightarrow> wp (od_get_octets M index) Q4 w"
      apply (simp_all add: wp_def run_objects)
   apply (cases "od_written M (hist w) index v", simp)
  apply (cases "od_octets M (hist w) index", simp cong: option.case_cong)
  done

lemma wpi_session [wp_intro]:
  "(\<And>w'. hist w' = EvNodeReset # hist w \<Longrightarrow> Q () w') \<Longrightarrow> wp (node_reset M) Q w"
  "(\<And>w'. hist w' = EvSession c # hist w \<Longrightarrow> Q () w') \<Longrightarrow> wp (session_call M c d) Q w"
  by (simp_all add: wp_def run_session)

lemma wpi_steady_now [wp_intro]:
  "(\<And>t w'. clock w < t \<Longrightarrow> clock w' = t \<Longrightarrow> hist w' = EvNow t # hist w \<Longrightarrow> Q t w') \<Longrightarrow>
     wp (steady_now M) Q w"
  by (simp add: wp_def run_steady_now)

lemma wpi_sleep_for [wp_intro]:
  "(\<And>w'. clock w + d < clock w' \<Longrightarrow> hist w' = EvSleep d # hist w \<Longrightarrow> Q () w') \<Longrightarrow>
     wp (sleep_for M d) Q w"
  by (simp add: wp_def run_sleep_for)

lemma wpi_wait_for [wp_intro]:
  "(\<And>ok w'. hist w' = EvWait t ok # hist w \<Longrightarrow> ok = pred (mem w') \<Longrightarrow> Q ok w') \<Longrightarrow>
     wp (wait_for M t pred) Q w"
  by (rule wpI) (auto dest!: hist_wait_for)

section \<open>The shared memory stays well-formed\<close>

definition memory_wf :: "memory \<Rightarrow> bool" where
  "memory_wf m \<longleftrightarrow> emcy_wf (emcy m) \<and> nmt_wf (nmt m) \<and> commands_wf (commands m) \<and>
     workers_wf (workers m) \<and> pdo_wf (pdo m) \<and> (g_boot_succeeded (boot m) \<longrightarrow> g_boot_received (boot m))"

lemma initial_memory_wf [simp]: "memory_wf initial_memory"
  by (simp add: memory_wf_def initial_memory_def initial_boot_mem_def)

lemma dispatch_wf: "memory_wf m \<Longrightarrow> memory_wf (dispatch t c m)"
  by (cases c) (auto simp: memory_wf_def emcyCallback_wf nmtStateCallback_wf bootCallback_def Let_def
      commands_wf_callback workers_wf_steps pdo_wf_steps)

lemma callbacks_wf: "memory_wf m \<Longrightarrow> memory_wf (fold (dispatch t) cs m)"
  by (induction cs arbitrary: m) (auto simp: dispatch_wf)

lemma wait_run_wf: "wait_run t pred cs m = (ok, m') \<Longrightarrow> memory_wf m \<Longrightarrow> memory_wf m'"
  by (auto dest!: wait_run_fold simp: callbacks_wf)

lemma occur_wf: "memory_wf (mem w) \<Longrightarrow> memory_wf (mem (occur M e d w))"
  by (simp add: occur_def callbacks_wf)

section \<open>Event footprints\<close>

text \<open>
  \<open>steps_to P w w'\<close>: the clock did not go back, only events that satisfy \<open>P\<close> were added and the
  invariant of the shared memory was kept.  \<open>emits P m\<close>: every run of \<open>m\<close> is such a step.
\<close>

definition steps_to :: "(event \<Rightarrow> bool) \<Rightarrow> world \<Rightarrow> world \<Rightarrow> bool" where
  "steps_to P w w' \<longleftrightarrow> clock w \<le> clock w' \<and> (\<exists>es. hist w' = es @ hist w \<and> list_all P es) \<and>
     (memory_wf (mem w) \<longrightarrow> memory_wf (mem w'))"

lemma steps_to_refl [simp, intro]: "steps_to P w w"
  by (simp add: steps_to_def)

lemma steps_to_trans [trans]:
  assumes "steps_to P u v" "steps_to P v w"
  shows "steps_to P u w"
proof -
  obtain es es' where "hist v = es @ hist u" "hist w = es' @ hist v" "list_all P es" "list_all P es'"
    using assms by (auto simp: steps_to_def)
  then have "hist w = (es' @ es) @ hist u \<and> list_all P (es' @ es)" by simp
  with assms show ?thesis unfolding steps_to_def by (metis order_trans)
qed

lemma steps_to_occur: "P e \<Longrightarrow> steps_to P w (occur M e d w)"
  by (simp add: steps_to_def occur_wf)

definition emits :: "(event \<Rightarrow> bool) \<Rightarrow> 'a host \<Rightarrow> bool" where
  "emits P m \<longleftrightarrow> (\<forall>w a w'. run_state m w = (a, w') \<longrightarrow> steps_to P w w')"

lemma emitsI: "(\<And>w a w'. run_state m w = (a, w') \<Longrightarrow> steps_to P w w') \<Longrightarrow> emits P m"
  by (simp add: emits_def)

lemma emits_steps: "emits P m \<Longrightarrow> run_state m w = (a, w') \<Longrightarrow> steps_to P w w'"
  by (simp add: emits_def)

lemma emitsD:
  "emits P m \<Longrightarrow> run_state m w = (a, w') \<Longrightarrow> \<exists>es. hist w' = es @ hist w \<and> list_all P es"
  by (auto simp: emits_def steps_to_def)

lemma emits_clock: "emits P m \<Longrightarrow> run_state m w = (a, w') \<Longrightarrow> clock w \<le> clock w'"
  by (auto simp: emits_def steps_to_def)

lemma emits_weaken: "emits P m \<Longrightarrow> (\<And>e. P e \<Longrightarrow> R e) \<Longrightarrow> emits R m"
  unfolding emits_def steps_to_def by (meson list.pred_mono_strong)

lemma emits_return [emits_intro]: "emits P (return a)"
  by (auto simp: emits_def)

lemma emits_bind [emits_intro]:
  assumes "emits P m" and "\<And>a. emits P (f a)"
  shows "emits P (State_Monad.bind m f)"
proof (rule emitsI)
  fix w b w'
  assume "run_state (State_Monad.bind m f) w = (b, w')"
  then obtain a w1 where "run_state m w = (a, w1)" and "run_state (f a) w1 = (b, w')"
    by (auto split: prod.splits)
  then show "steps_to P w w'"
    using emits_steps [OF assms(1)] emits_steps [OF assms(2)] steps_to_trans by blast
qed

lemma emits_if [emits_intro]: "emits P m \<Longrightarrow> emits P n \<Longrightarrow> emits P (if c then m else n)"
  by simp

lemma emits_case_prod [emits_intro]:
  "(\<And>a b. emits P (f a b)) \<Longrightarrow> emits P (case p of (a, b) \<Rightarrow> f a b)"
  by (cases p) simp

lemma emits_case_option [emits_intro]:
  "emits P m \<Longrightarrow> (\<And>a. emits P (f a)) \<Longrightarrow> emits P (case x of None \<Rightarrow> m | Some a \<Rightarrow> f a)"
  by (cases x) simp_all

lemma emits_case_sum [emits_intro]:
  "(\<And>a. emits P (f a)) \<Longrightarrow> (\<And>b. emits P (g b)) \<Longrightarrow>
     emits P (case x of Inl a \<Rightarrow> f a | Inr b \<Rightarrow> g b)"
  by (cases x) simp_all

lemma emits_case_submission [emits_intro]:
  "(\<And>e. emits P (f e)) \<Longrightarrow> (\<And>r. emits P (g r)) \<Longrightarrow>
     emits P (case x of Rejected e \<Rightarrow> f e | Accepted r \<Rightarrow> g r)"
  by (cases x) simp_all

lemma emits_Let [emits_intro]: "emits P (f v) \<Longrightarrow> emits P (Let v f)"
  by simp

lemma emits_andM [emits_intro]: "emits P a \<Longrightarrow> emits P b \<Longrightarrow> emits P (andM a b)"
  by (auto simp: andM_def intro!: emits_intro)

lemma emits_read_mem [emits_intro]: "emits P (read_mem f)"
  by (auto simp: emits_def read_mem_def)

lemma emits_update_mem [emits_intro]:
  "(\<And>m. memory_wf m \<Longrightarrow> memory_wf (f m)) \<Longrightarrow> emits P (update_mem f)"
  by (auto simp: emits_def steps_to_def update_mem_def)

lemma emits_submit_upload:
  "(\<And>r. P (EvUpload rq r)) \<Longrightarrow> emits P (submit_upload T M rq wait)"
  by (auto simp: emits_def run_submit_upload intro: steps_to_occur)

lemma emits_submit_download:
  "(\<And>r. P (EvDownload rq v r)) \<Longrightarrow> emits P (submit_download M rq v wait)"
  by (auto simp: emits_def run_submit_download intro: steps_to_occur)

lemma emits_local_read:
  "(\<And>v e. P (EvLocalRead index sub v e)) \<Longrightarrow> emits P (local_read T M index sub)"
  by (auto simp: emits_def run_local_read intro: steps_to_occur)

lemma emits_local_write:
  "(\<And>e. P (EvLocalWrite index sub v e)) \<Longrightarrow> emits P (local_write M index sub v)"
  by (auto simp: emits_def run_local_write intro: steps_to_occur)

lemma emits_submit_command:
  "(\<And>ok. P (EvCommand cmd node ok)) \<Longrightarrow> emits P (submit_command M cmd node)"
  by (auto simp: emits_def run_submit_command intro: steps_to_occur)

lemma emits_can_net:
  "(\<And>ok. P (EvCanLock ok)) \<Longrightarrow> emits P (io_can_net_lock M)"
  "emits P (io_can_net_get_net M)"
  "(\<And>ok. P (EvCanSend message ok)) \<Longrightarrow> emits P (can_net_send M message)"
  "(\<And>ok. P (EvCanUnlock ok)) \<Longrightarrow> emits P (io_can_net_unlock M)"
  by (auto simp: emits_def run_can_net intro: steps_to_occur)

lemma emits_channel:
  "(\<And>e. P (EvWireWrite message e)) \<Longrightarrow> emits P (channel_write M message)"
  "(\<And>a. P (EvWireRead timeout a)) \<Longrightarrow> emits P (channel_read M timeout)"
  "emits P (channel_pending M)"
  "P (EvWireRead 0 a) \<Longrightarrow> emits P (channel_take M a)"
  by (auto simp: emits_def run_channel intro: steps_to_occur)

lemma emits_mapped:
  "(\<And>v e. P (EvMappedRead index sub v e)) \<Longrightarrow> emits P (mapped_read M index sub)"
  "(\<And>e. P (EvMappedWrite index sub v e)) \<Longrightarrow> emits P (mapped_write M index sub v)"
  "(\<And>e. P (EvMappedEvent index sub e)) \<Longrightarrow> emits P (mapped_event M index sub)"
  by (auto simp: emits_def run_mapped intro: steps_to_occur)

lemma emits_local_services:
  "(\<And>ok. P (EvCancel node code ok)) \<Longrightarrow> emits P (cancel_all M node code)"
  "emits P (emcy_available M)"
  "(\<And>c r. P (EvEmcyPeek c r)) \<Longrightarrow> emits P (emcy_peek M)"
  "(\<And>n. P (EvEmcyCount n)) \<Longrightarrow> emits P (emcy_count M)"
  "(\<And>ok. P (EvEmcyPush c r msef ok)) \<Longrightarrow> emits P (submit_push M c r msef)"
  "(\<And>ok. P (EvEmcyClear ok)) \<Longrightarrow> emits P (submit_clear M)"
  "(\<And>ok. P (EvWait t ok)) \<Longrightarrow> emits P (await M t completion)"
  by (auto simp: emits_def run_local_services intro: steps_to_occur)

lemma emits_objects:
  "(\<And>ok. P (EvOdCall c ok)) \<Longrightarrow> emits P (od_do M c)"
  "(\<And>ok. P (EvOdQuery q ok)) \<Longrightarrow> emits P (od_ask M q)"
  "(\<And>n. P (EvOdSet index v n)) \<Longrightarrow> emits P (od_set M index v)"
  "(\<And>x. P (EvOdRead index x)) \<Longrightarrow> emits P (od_get_u32 M index)"
  "(\<And>x. P (EvOdRead index x)) \<Longrightarrow> emits P (od_get_octets M index)"
  by (auto simp: emits_def run_objects intro: steps_to_occur)

lemma emits_session:
  "P EvNodeReset \<Longrightarrow> emits P (node_reset M)" "P (EvSession c) \<Longrightarrow> emits P (session_call M c d)"
  by (auto simp: emits_def run_session intro: steps_to_occur)

lemma emits_steady_now: "(\<And>t. P (EvNow t)) \<Longrightarrow> emits P (steady_now M)"
  by (auto simp: emits_def run_steady_now intro: steps_to_occur)

lemma emits_sleep_for: "P (EvSleep d) \<Longrightarrow> emits P (sleep_for M d)"
  by (auto simp: emits_def run_sleep_for intro: steps_to_occur)

lemma emits_wait_for: "(\<And>ok. P (EvWait t ok)) \<Longrightarrow> emits P (wait_for M t pred)"
proof (rule emitsI)
  fix w ok w'
  assume P: "\<And>ok. P (EvWait t ok)" and run: "run_state (wait_for M t pred) w = (ok, w')"
  have "memory_wf (mem w) \<longrightarrow> memory_wf (mem w')"
    using run by (auto simp: wait_for_def Let_def split: prod.splits dest: wait_run_wf)
  with P hist_wait_for [OF run] show "steps_to P w w'" by (simp add: steps_to_def)
qed

section \<open>Deadline loops\<close>

lemma deadline_run_expired:
  "run_state (steady_now M) w = (t, w1) \<Longrightarrow> \<not> t < deadline \<Longrightarrow>
     deadline_run M deadline body s w = (Inl s, w1)"
  by (subst deadline_run.simps) simp

lemma deadline_run_done:
  "run_state (steady_now M) w = (t, w1) \<Longrightarrow> t < deadline \<Longrightarrow>
     run_state (body s) w1 = (Inr a, w2) \<Longrightarrow>
     deadline_run M deadline body s w = (Inr a, w2)"
  by (subst deadline_run.simps) simp

lemma deadline_run_again:
  "run_state (steady_now M) w = (t, w1) \<Longrightarrow> t < deadline \<Longrightarrow>
     run_state (body s) w1 = (Inl s', w2) \<Longrightarrow>
     deadline_run M deadline body s w
       = (if clock w1 \<le> clock w2 then deadline_run M deadline body s' w2 else (Inl s', w2))"
  by (subst deadline_run.simps) simp

lemma deadline_run_emits:
  assumes now: "\<And>t. P (EvNow t)" and body: "\<And>s. emits P (body s)"
  shows "run_state (State (deadline_run M deadline body s)) w = (r, w') \<Longrightarrow> steps_to P w w'"
  using body
proof (induction M deadline body s w arbitrary: r w' rule: deadline_run.induct)
  case (1 M deadline body s w)
  obtain t w1 where n: "run_state (steady_now M) w = (t, w1)" by fastforce
  then have t: "steps_to P w w1"
    by (auto simp: run_steady_now intro: steps_to_occur now)
  show ?case
  proof (cases "t < deadline")
    case False
    then show ?thesis using "1.prems"(1) t by (simp add: deadline_run_expired [OF n False])
  next
    case True
    obtain x w2 where b: "run_state (body s) w1 = (x, w2)" by fastforce
    have s: "steps_to P w1 w2" using "1.prems"(2) b by (rule emits_steps)
    then have c: "clock w1 \<le> clock w2" by (simp add: steps_to_def)
    show ?thesis
    proof (cases x)
      case (Inr a)
      then show ?thesis
        using "1.prems"(1) b t s steps_to_trans by (auto simp: deadline_run_done [OF n True])
    next
      case (Inl s')
      then have "run_state (State (deadline_run M deadline body s')) w2 = (r, w')"
        using "1.prems"(1) b c by (simp add: deadline_run_again [OF n True])
      then have "steps_to P w2 w'"
        using "1.IH" [OF refl n [symmetric] True b [symmetric] Inl c] "1.prems"(2) by blast
      then show ?thesis using t s steps_to_trans by blast
    qed
  qed
qed

lemma emits_deadline_loop:
  "(\<And>t. P (EvNow t)) \<Longrightarrow> (\<And>s. emits P (body s)) \<Longrightarrow> emits P (deadline_loop M deadline body s)"
  unfolding deadline_loop_def by (rule emitsI) (rule deadline_run_emits)

text \<open>The loop gives up only at its deadline.\<close>

lemma deadline_loop_expired:
  assumes "\<And>s. emits P (body s)"
  shows "run_state (deadline_loop M deadline body s) w = (Inl s', w') \<Longrightarrow> deadline \<le> clock w'"
  using assms unfolding deadline_loop_def
proof (induction M deadline body s w arbitrary: w' rule: deadline_run.induct)
  case (1 M deadline body s w)
  obtain t w1 where n: "run_state (steady_now M) w = (t, w1)" by fastforce
  then have t: "clock w1 = t" by (auto simp: run_steady_now)
  show ?case
  proof (cases "t < deadline")
    case False
    then show ?thesis using "1.prems"(1) t by (simp add: deadline_run_expired [OF n False])
  next
    case True
    obtain x w2 where b: "run_state (body s) w1 = (x, w2)" by fastforce
    have c: "clock w1 \<le> clock w2" using "1.prems"(2) b by (rule emits_clock)
    show ?thesis
    proof (cases x)
      case (Inr a)
      then show ?thesis using "1.prems"(1) b by (simp add: deadline_run_done [OF n True])
    next
      case (Inl s1)
      then have "run_state (State (deadline_run M deadline body s1)) w2 = (Inl s', w')"
        using "1.prems"(1) b c by (simp add: deadline_run_again [OF n True])
      then show ?thesis
        using "1.IH" [OF refl n [symmetric] True b [symmetric] Inl c] "1.prems"(2) by blast
    qed
  qed
qed

lemma wpi_deadline_loop_clock:
  assumes "\<And>s. emits P (body s)"
    and "\<And>r w'. (\<And>s'. r = Inl s' \<Longrightarrow> deadline \<le> clock w') \<Longrightarrow>
       run_state (deadline_loop M deadline body s) w = (r, w') \<Longrightarrow> Q r w'"
  shows "wp (deadline_loop M deadline body s) Q w"
proof (rule wpI)
  fix r w'
  assume run: "run_state (deadline_loop M deadline body s) w = (r, w')"
  show "Q r w'"
  proof (rule assms(2) [OF _ run])
    fix s' assume "r = Inl s'"
    with run show "deadline \<le> clock w'" using deadline_loop_expired [of P body, OF assms(1)] by simp
  qed
qed

text \<open>The loop is the loop of the code: one unfolding, with no guard, for every body that
  does not turn time back.\<close>

lemma deadline_loop_unfold:
  assumes "\<And>s. emits P (body s)"
  shows "deadline_loop M deadline body s = do {
     t \<leftarrow> steady_now M;
     if t < deadline then do {
       r \<leftarrow> body s;
       case r of Inr a \<Rightarrow> return (Inr a) | Inl s' \<Rightarrow> deadline_loop M deadline body s'
     } else return (Inl s) }"
proof (rule state_ext)
  fix w
  obtain t w1 where n: "run_state (steady_now M) w = (t, w1)" by fastforce
  obtain x w2 where b: "run_state (body s) w1 = (x, w2)" by fastforce
  have "clock w1 \<le> clock w2" using assms b by (rule emits_clock)
  then show "run_state (deadline_loop M deadline body s) w = run_state (do {
     t \<leftarrow> steady_now M;
     if t < deadline then do {
       r \<leftarrow> body s;
       case r of Inr a \<Rightarrow> return (Inr a) | Inl s' \<Rightarrow> deadline_loop M deadline body s'
     } else return (Inl s) }) w"
    using n b
    by (cases "t < deadline"; cases x)
       (simp_all add: deadline_loop_def deadline_run_expired [OF n] deadline_run_done [OF n]
          deadline_run_again [OF n, where body = body and s = s])
qed

text \<open>The invariant rule.  The invariant survives reading the clock; the loop ends either
  through the body or, still under the invariant, at the deadline.\<close>

lemma wp_deadline_run:
  assumes now: "\<And>s w t d. I s w \<Longrightarrow> I s (occur M (EvNow t) d w)"
    and body: "\<And>s w. I s w \<Longrightarrow> wp (body s) (\<lambda>r w'. case r of
                 Inl s' \<Rightarrow> I s' w' | Inr a \<Rightarrow> Q (Inr a) w') w"
    and expired: "\<And>s w. I s w \<Longrightarrow> Q (Inl s) w"
  shows "I s w \<Longrightarrow> case deadline_run M deadline body s w of (r, w') \<Rightarrow> Q r w'"
  using now body expired
proof (induction M deadline body s w rule: deadline_run.induct)
  case (1 M deadline body s w)
  obtain t w1 where n: "run_state (steady_now M) w = (t, w1)" by fastforce
  then have "w1 = occur M (EvNow t) 0 w"
    by (auto simp: run_steady_now)
  with "1.prems"(1,2) have I1: "I s w1" by simp
  show ?case
  proof (cases "t < deadline")
    case False
    with I1 "1.prems"(4) show ?thesis
      by (simp add: deadline_run_expired [OF n])
  next
    case True
    obtain x w2 where b: "run_state (body s) w1 = (x, w2)" by fastforce
    have x: "case x of Inl s' \<Rightarrow> I s' w2 | Inr a \<Rightarrow> Q (Inr a) w2"
      using wpD [OF "1.prems"(3) [OF I1] b] .
    show ?thesis
    proof (cases x)
      case (Inr a)
      with x b show ?thesis
        by (simp add: deadline_run_done [OF n True])
    next
      case (Inl s')
      with x have I2: "I s' w2" by simp
      show ?thesis
      proof (cases "clock w1 \<le> clock w2")
        case True
        have "case deadline_run M deadline body s' w2 of (r, w') \<Rightarrow> Q r w'"
          by (rule "1.IH" [OF refl n [symmetric] \<open>t < deadline\<close> b [symmetric] Inl True I2
                "1.prems"(2-4)])
        then show ?thesis
          using b Inl True by (simp add: deadline_run_again [OF n \<open>t < deadline\<close>])
      next
        case False
        with b Inl "1.prems"(4) [OF I2] show ?thesis
          by (simp add: deadline_run_again [OF n \<open>t < deadline\<close>])
      qed
    qed
  qed
qed

lemma wp_deadline_loop:
  assumes "I s w"
    and "\<And>s w t d. I s w \<Longrightarrow> I s (occur M (EvNow t) d w)"
    and "\<And>s w. I s w \<Longrightarrow> wp (body s) (\<lambda>r w'. case r of
                 Inl s' \<Rightarrow> I s' w' | Inr a \<Rightarrow> Q (Inr a) w') w"
    and "\<And>s w. I s w \<Longrightarrow> Q (Inl s) w"
  shows "wp (deadline_loop M deadline body s) Q w"
  using wp_deadline_run [of I, OF assms(2,3,4,1)]
  by (simp add: wp_def deadline_loop_def)

lemma wp_deadline_do_while:
  assumes "\<And>s w t d. I s w \<Longrightarrow> I s (occur M (EvNow t) d w)"
    and body: "\<And>s w. I s w \<Longrightarrow> wp (body s) (\<lambda>r w'. case r of
                 Inl s' \<Rightarrow> I s' w' | Inr a \<Rightarrow> Q (Inr a) w') w"
    and "\<And>s w. I s w \<Longrightarrow> Q (Inl s) w" and start: "I s w"
  shows "wp (deadline_do_while M deadline body s) Q w"
  unfolding deadline_do_while_def
proof (intro wpi_bind wp_mono [OF body [OF start]])
  fix r w'
  assume "case r of Inl s' \<Rightarrow> I s' w' | Inr a \<Rightarrow> Q (Inr a) w'"
  then show "wp (case r of Inl s' \<Rightarrow> deadline_loop M deadline body s' | Inr a \<Rightarrow> return (Inr a)) Q w'"
    by (cases r) (auto simp: host_wp intro: wp_deadline_loop [of I, OF _ assms(1-3)])
qed

lemma emits_deadline_do_while:
  "(\<And>t. P (EvNow t)) \<Longrightarrow> (\<And>s. emits P (body s)) \<Longrightarrow> emits P (deadline_do_while M deadline body s)"
  unfolding deadline_do_while_def
  by (intro emits_bind) (auto split: sum.split intro: emits_return emits_deadline_loop)

text \<open>A bind whose second part depends on what is known of the first one's value.\<close>

lemma emits_bind_wp:
  assumes "emits P m" and "\<And>w. wp m (\<lambda>a w'. R a) w" and "\<And>a. R a \<Longrightarrow> emits P (f a)"
  shows "emits P (State_Monad.bind m f)"
proof (rule emitsI)
  fix w b w2
  assume run: "run_state (State_Monad.bind m f) w = (b, w2)"
  obtain a w1 where m: "run_state m w = (a, w1)" by fastforce
  with run have "run_state (f a) w1 = (b, w2)" by simp
  moreover have "R a" using wpD [OF assms(2) m] .
  ultimately show "steps_to P w w2"
    using emits_steps [OF assms(1) m] emits_steps [OF assms(3)] steps_to_trans by blast
qed


section \<open>Mutation footprints\<close>

text \<open>
  The events that change something outside the control thread: a download to the device, a
  write to the master's own dictionary, an NMT command, a raw CAN frame, a PDO sent or prepared, an
  aborted transaction, a change of the master's own EMCY stack, an object of its own dictionary created, set or
  destroyed, the start of the node.  \<open>mutations\<close> lists
  those of a history, newest first, as \<open>hist\<close> does.
\<close>

datatype mutation =
    RemoteWrite u8 u16 u8 sdo_value
  | LocalWrite u16 u8 sdo_value
  | Nmt nmt_command u8
  | Frame can_frame
  | Wire can_frame
  | MappedWrite u16 u8 u32
  | MappedSend u16 u8
  | Cancel u8 u32
  | EmcyPush u16 u8 "u8 list"
  | EmcyClear
  | Od od_call
  | OdSet u16 sdo_value
  | NodeReset

fun mutation_of :: "event \<Rightarrow> mutation option" where
  "mutation_of (EvDownload rq v r) = Some (RemoteWrite (rq_node rq) (rq_index rq) (rq_sub rq) v)"
| "mutation_of (EvLocalWrite index sub v e) = Some (LocalWrite index sub v)"
| "mutation_of (EvCommand cmd node ok) = Some (Nmt cmd node)"
| "mutation_of (EvCanSend message ok) = Some (Frame message)"
| "mutation_of (EvWireWrite message e) = Some (Wire message)"
| "mutation_of (EvMappedWrite index sub v e) = Some (MappedWrite index sub v)"
| "mutation_of (EvMappedEvent index sub e) = Some (MappedSend index sub)"
| "mutation_of (EvCancel node code ok) = Some (Cancel node code)"
| "mutation_of (EvEmcyPush code reg msef ok) = Some (EmcyPush code reg msef)"
| "mutation_of (EvEmcyClear ok) = Some EmcyClear"
| "mutation_of (EvOdCall c ok) = Some (Od c)"
| "mutation_of (EvOdSet index v n) = Some (OdSet index v)"
| "mutation_of EvNodeReset = Some NodeReset"
| "mutation_of _ = None"

definition mutations :: "history \<Rightarrow> mutation list" where
  "mutations es = List.map_filter mutation_of es"

lemma mutations_simps [simp]:
  "mutations [] = []"
  "mutations (e # es) = (case mutation_of e of None \<Rightarrow> mutations es | Some x \<Rightarrow> x # mutations es)"
  "mutations (es @ es') = mutations es @ mutations es'"
  by (simp_all add: mutations_def map_filter_def split: option.splits)

definition allowed :: "(mutation \<Rightarrow> bool) \<Rightarrow> event \<Rightarrow> bool" where
  "allowed S e = (case mutation_of e of None \<Rightarrow> True | Some x \<Rightarrow> S x)"

lemma allowed_simps [simp]:
  "allowed S (EvUpload rq r)" "allowed S (EvLocalRead i s v e)" "allowed S (EvNow t)"
  "allowed S (EvSleep d)" "allowed S (EvWait t ok)"
  "allowed S (EvDownload rq v r') = S (RemoteWrite (rq_node rq) (rq_index rq) (rq_sub rq) v)"
  "allowed S (EvLocalWrite i s v e) = S (LocalWrite i s v)"
  "allowed S (EvCommand cmd node ok) = S (Nmt cmd node)"
  "allowed S (EvCanLock ok)" "allowed S (EvCanUnlock ok)"
  "allowed S (EvCanSend message ok) = S (Frame message)"
  "allowed S (EvWireWrite message err) = S (Wire message)" "allowed S (EvWireRead t a)"
  "allowed S (EvMappedRead i s v32 e)" "allowed S (EvMappedWrite i s v32 e) = S (MappedWrite i s v32)"
  "allowed S (EvMappedEvent i s e) = S (MappedSend i s)" "allowed S (EvCancel node code ok) = S (Cancel node code)"
  "allowed S (EvEmcyPeek c reg)" "allowed S (EvEmcyCount n)"
  "allowed S (EvEmcyPush c reg msef ok) = S (EmcyPush c reg msef)" "allowed S (EvEmcyClear ok) = S EmcyClear"
  "allowed S (EvOdCall oc ok) = S (Od oc)" "allowed S (EvOdSet i v nw) = S (OdSet i v)"
  "allowed S (EvOdQuery q ok)" "allowed S (EvOdRead i v)"
  "allowed S EvNodeReset = S NodeReset" "allowed S (EvSession sc)"
  by (simp_all add: allowed_def)

lemma list_all_allowed: "list_all (allowed S) es \<longleftrightarrow> list_all S (mutations es)"
  by (induction es) (auto simp: allowed_def split: option.splits)

abbreviation touches :: "(mutation \<Rightarrow> bool) \<Rightarrow> 'a host \<Rightarrow> bool" where
  "touches S m \<equiv> emits (allowed S) m"

abbreviation read_only :: "'a host \<Rightarrow> bool" where
  "read_only m \<equiv> touches (\<lambda>_. False) m"

lemma touchesD:
  "touches S m \<Longrightarrow> run_state m w = (a, w') \<Longrightarrow>
     \<exists>es. hist w' = es @ hist w \<and> list_all S (mutations es)"
  by (auto dest!: emitsD simp: list_all_allowed)

lemma read_only_touches: "read_only m \<Longrightarrow> touches S m"
  by (erule emits_weaken) (auto simp: allowed_def split: option.splits)

lemmas allowed_intro [emits_intro] =
  emits_submit_upload [where P = "allowed S" for S, OF allowed_simps(1)]
  emits_local_read [where P = "allowed S" for S, OF allowed_simps(2)]
  emits_steady_now [where P = "allowed S" for S, OF allowed_simps(3)]
  emits_sleep_for [where P = "allowed S" for S, OF allowed_simps(4)]
  emits_wait_for [where P = "allowed S" for S, OF allowed_simps(5)]
  emits_deadline_loop [where P = "allowed S" for S, OF allowed_simps(3)]
  emits_deadline_do_while [where P = "allowed S" for S, OF allowed_simps(3)]
  emits_can_net(1) [where P = "allowed S" for S, OF allowed_simps(9)]
  emits_can_net(2) [where P = "allowed S" for S]
  emits_can_net(4) [where P = "allowed S" for S, OF allowed_simps(10)]
  emits_channel(2) [where P = "allowed S" for S, OF allowed_simps(13)]
  emits_channel(3) [where P = "allowed S" for S]
  emits_channel(4) [where P = "allowed S" for S, OF allowed_simps(13)]
  emits_mapped(1) [where P = "allowed S" for S, OF allowed_simps(14)]
  emits_local_services(2) [where P = "allowed S" for S]
  emits_local_services(3) [where P = "allowed S" for S, OF allowed_simps(18)]
  emits_local_services(4) [where P = "allowed S" for S, OF allowed_simps(19)]
  emits_local_services(7) [where P = "allowed S" for S, OF allowed_simps(5)]

lemma touches_submit_download [emits_intro]:
  "S (RemoteWrite (rq_node rq) (rq_index rq) (rq_sub rq) v) \<Longrightarrow> touches S (submit_download M rq v t)"
  by (rule emits_submit_download) simp

lemma touches_local_write [emits_intro]:
  "S (LocalWrite index sub v) \<Longrightarrow> touches S (local_write M index sub v)"
  by (rule emits_local_write) simp

lemma touches_submit_command [emits_intro]:
  "S (Nmt cmd node) \<Longrightarrow> touches S (submit_command M cmd node)"
  by (rule emits_submit_command) simp

lemma touches_can_net_send [emits_intro]:
  "S (Frame message) \<Longrightarrow> touches S (can_net_send M message)"
  by (rule emits_can_net) simp

lemma touches_channel_write [emits_intro]:
  "S (Wire message) \<Longrightarrow> touches S (channel_write M message)"
  by (rule emits_channel) simp

lemma touches_services [emits_intro]:
  "S (MappedWrite index sub v) \<Longrightarrow> touches S (mapped_write M index sub v)"
  "S (MappedSend index sub) \<Longrightarrow> touches S (mapped_event M index sub)"
  "S (Cancel node code) \<Longrightarrow> touches S (cancel_all M node code)"
  "S (EmcyPush c r msef) \<Longrightarrow> touches S (submit_push M c r msef)"
  "S EmcyClear \<Longrightarrow> touches S (submit_clear M)"
  "S (Od oc) \<Longrightarrow> touches S (od_do M oc)" "S (OdSet index v') \<Longrightarrow> touches S (od_set M index v')"
  "touches S (od_ask M q)" "touches S (od_get_u32 M index)" "touches S (od_get_octets M index)"
  by (rule emits_mapped emits_local_services emits_objects, simp)+

lemma touches_session [emits_intro]:
  "S NodeReset \<Longrightarrow> touches S (node_reset M)" "touches S (session_call M c d)"
  by (rule emits_session; simp)+

text \<open>Running an operation of which only the footprint matters.\<close>

lemma wp_touches:
  "touches S m \<Longrightarrow>
     (\<And>a w' es. hist w' = es @ hist w \<Longrightarrow> list_all S (mutations es) \<Longrightarrow> Q a w') \<Longrightarrow> wp m Q w"
  by (rule wpI) (blast dest: touchesD)

lemma touches_weaken: "touches S m \<Longrightarrow> (\<And>x. S x \<Longrightarrow> S' x) \<Longrightarrow> touches S' m"
  by (erule emits_weaken) (auto simp: allowed_def split: option.splits)

lemma touches_any: "touches S m \<Longrightarrow> touches (\<lambda>_. True) m"
  by (erule emits_weaken) (auto simp: allowed_def split: option.splits)

lemma list_all_False [simp]: "list_all (\<lambda>_. False) xs \<longleftrightarrow> xs = []"
  by (cases xs) auto

section \<open>Comparing worlds by their histories\<close>

text \<open>\<open>later w w'\<close>: the history of \<open>w'\<close> extends that of \<open>w\<close>; \<open>quiet w w'\<close>: it does so without a
  mutation.  Both are kept opaque in proofs about long programs, which chain them.\<close>

definition later :: "world \<Rightarrow> world \<Rightarrow> bool" where
  "later w w' \<longleftrightarrow> (\<exists>es. hist w' = es @ hist w)"

definition quiet :: "world \<Rightarrow> world \<Rightarrow> bool" where
  "quiet w w' \<longleftrightarrow> (\<exists>es. hist w' = es @ hist w \<and> mutations es = [])"

lemma later_refl [simp, intro]: "later w w" and quiet_refl [simp, intro]: "quiet w w"
  by (auto simp: later_def quiet_def)

lemma quiet_later: "quiet v w \<Longrightarrow> later v w"
  by (auto simp: later_def quiet_def)

lemma later_trans [trans]: "later u v \<Longrightarrow> later v w \<Longrightarrow> later u w"
  unfolding later_def by (metis append_assoc)

lemma quiet_trans [trans]: "quiet u v \<Longrightarrow> quiet v w \<Longrightarrow> quiet u w"
  unfolding quiet_def by (metis append_assoc append_Nil mutations_simps(3))

text \<open>
  Used backwards with \<open>erule\<close> these three walk from a world to the one it came from: each
  world of a straight-line proof has one predecessor, so the search is deterministic.
\<close>

lemma later_back: "later x v \<Longrightarrow> later u x \<Longrightarrow> later u v"
  by (rule later_trans)

lemma later_back_quiet: "quiet x v \<Longrightarrow> later u x \<Longrightarrow> later u v"
  by (blast intro: later_trans quiet_later)

lemma later_back_Cons: "hist v = e # hist x \<Longrightarrow> later u x \<Longrightarrow> later u v"
  by (auto simp: later_def)

lemma quiet_back: "quiet x v \<Longrightarrow> quiet u x \<Longrightarrow> quiet u v"
  by (rule quiet_trans)

lemma later_append: "hist w' = es @ hist w \<Longrightarrow> later w w'"
  by (auto simp: later_def)

lemma later_Cons: "hist w' = e # hist w \<Longrightarrow> later w w'"
  by (rule later_append [of _ "[e]"]) simp

lemma wp_later:
  assumes "touches S m" and "\<And>a w'. run_state m w = (a, w') \<Longrightarrow> later w w' \<Longrightarrow> Q a w'"
  shows "wp m Q w"
  by (rule wpI) (use assms in \<open>auto simp: later_def dest: touchesD\<close>)

lemma wp_quiet:
  assumes "read_only m" and "\<And>a w'. run_state m w = (a, w') \<Longrightarrow> quiet w w' \<Longrightarrow> Q a w'"
  shows "wp m Q w"
  by (rule wpI) (use assms in \<open>auto simp: quiet_def dest: touchesD\<close>)

text \<open>\<open>keeps S u w\<close>: from \<open>u\<close> to \<open>w\<close> only changes of \<open>S\<close>.\<close>

definition keeps :: "(mutation \<Rightarrow> bool) \<Rightarrow> world \<Rightarrow> world \<Rightarrow> bool" where
  "keeps S u w \<longleftrightarrow> (\<exists>es. hist w = es @ hist u \<and> list_all S (mutations es))"

lemma keeps_refl [simp]: "keeps S w w"
  by (simp add: keeps_def)

lemma keeps_trans: "keeps S u v \<Longrightarrow> keeps S v w \<Longrightarrow> keeps S u w"
  unfolding keeps_def by (metis append_assoc list_all_append mutations_simps(3))

lemma wp_keeps:
  assumes "touches S m" and "wp m P w" and "\<And>a w'. keeps S w w' \<Longrightarrow> P a w' \<Longrightarrow> Q a w'"
  shows "wp m Q w"
  by (rule wpI) (use assms in \<open>auto simp: keeps_def wp_def dest: touchesD\<close>)

lemma keeps_later: "keeps S u w \<Longrightarrow> later u w"
  by (auto simp: keeps_def later_def)

lemma wp_read_only:
  assumes "read_only m" and "wp m P w" and "\<And>a w'. quiet w w' \<Longrightarrow> P a w' \<Longrightarrow> Q a w'"
  shows "wp m Q w"
  by (rule wp_quiet [OF assms(1)]) (use assms(2,3) in \<open>auto simp: wp_def\<close>)

section \<open>The changes of a run, in order\<close>

text \<open>\<open>does u xs w\<close>: from \<open>u\<close> to \<open>w\<close> exactly the changes \<open>xs\<close> were made, oldest first.\<close>

definition does :: "world \<Rightarrow> mutation list \<Rightarrow> world \<Rightarrow> bool" where
  "does u xs w \<longleftrightarrow> (\<exists>es. hist w = es @ hist u \<and> rev (mutations es) = xs)"

lemma does_refl [simp, intro]: "does w [] w"
  by (auto simp: does_def)

lemma does_quiet: "quiet u w \<longleftrightarrow> does u [] w"
  by (auto simp: does_def quiet_def)

lemma does_trans: "does u xs v \<Longrightarrow> does v ys w \<Longrightarrow> does u (xs @ ys) w"
  unfolding does_def by (metis append_assoc mutations_simps(3) rev_append)

lemma does_later: "does u xs w \<Longrightarrow> later u w"
  by (auto simp: does_def later_def)

lemma does_event:
  "hist w = e # hist v \<Longrightarrow> mutation_of e = Some x \<Longrightarrow> does v [x] w"
  "hist w = e # hist v \<Longrightarrow> mutation_of e = None \<Longrightarrow> does v [] w"
  unfolding does_def by (rule exI [of _ "[e]"], simp)+

lemma does_add:
  "does u xs v \<Longrightarrow> hist w = e # hist v \<Longrightarrow> mutation_of e = Some x \<Longrightarrow> does u (xs @ [x]) w"
  "does u xs v \<Longrightarrow> hist w = e # hist v \<Longrightarrow> mutation_of e = None \<Longrightarrow> does u xs w"
  using does_trans does_event by fastforce+

lemma does_short:
  "hist w = e # hist u \<Longrightarrow> rev (mutations [e]) = xs \<Longrightarrow> does u xs w"
  "hist w = e # f # hist u \<Longrightarrow> rev (mutations [e, f]) = xs \<Longrightarrow> does u xs w"
  "hist w = e # f # g # hist u \<Longrightarrow> rev (mutations [e, f, g]) = xs \<Longrightarrow> does u xs w"
  "hist w = e # f # g # k # hist u \<Longrightarrow> rev (mutations [e, f, g, k]) = xs \<Longrightarrow> does u xs w"
  unfolding does_def by (metis append.simps)+

text \<open>Extending a known list of changes: by an operation of known changes, and by one that makes
  none.\<close>

lemma wp_does:
  assumes "does u xs w" and "wp m (\<lambda>ok w'. ok \<longrightarrow> does w ys w') w"
    and "\<And>w'. does u (xs @ ys) w' \<Longrightarrow> Q True w'" and "\<And>w'. Q False w'"
  shows "wp m Q w"
proof (rule wp_mono [OF assms(2)])
  fix ok w' assume "ok \<longrightarrow> does w ys w'"
  with assms(1,3,4) show "Q ok w'" by (cases ok) (auto intro: does_trans)
qed

lemma wp_does_quiet:
  assumes "does u xs w" and "read_only m" and "\<And>a w'. does u xs w' \<Longrightarrow> Q a w'"
  shows "wp m Q w"
  using assms(2)
proof (rule wp_quiet)
  fix a w' assume "quiet w w'"
  with assms(1) have "does u (xs @ []) w'" unfolding does_quiet by (rule does_trans)
  then show "Q a w'" by (intro assms(3)) simp
qed

end
