(* ===== verification/Sdo_Access.thy ===== *)
theory Sdo_Access
  imports World_Logic
begin

text \<open>
  The remote SDO helpers of \<open>include/canopen_sdo.h\<close>: the shared completion state, the
  completion callbacks, the four synchronous helpers and their result classification.  An
  output parameter that the code writes only on success is passed in and returned.
\<close>

definition CANOPEN_SDO_TIMEOUT_MS :: nat where "CANOPEN_SDO_TIMEOUT_MS = 5000"
definition CANOPEN_SDO_COMPLETION_MARGIN_MS :: nat where
  "CANOPEN_SDO_COMPLETION_MARGIN_MS = 500"

text \<open>The value of \<open>lely::canopen::SdoErrc::TIMEOUT\<close>: SDO abort code 0504 0000h of CiA 301.\<close>

definition sdoErrc_TIMEOUT :: u32 where "sdoErrc_TIMEOUT = 0x05040000"

datatype SdoOperationResult = SUCCESS | FAILED | SDO_TIMEOUT | WAIT_TIMEOUT

record 'a ReadState =
  rs_completed :: bool
  rs_error :: ecode
  rs_value :: 'a

record WriteState =
  ws_completed :: bool
  ws_error :: ecode

definition readCompletion :: "ecode \<times> 'a \<Rightarrow> 'a ReadState \<Rightarrow> 'a ReadState" where
  "readCompletion c st =
     st\<lparr>rs_completed := True, rs_error := fst c, rs_value := snd c\<rparr>"

definition writeCompletion :: "ecode \<times> unit \<Rightarrow> WriteState \<Rightarrow> WriteState" where
  "writeCompletion c st = st\<lparr>ws_completed := True, ws_error := fst c\<rparr>"

definition runCompletion :: "('c \<Rightarrow> 's \<Rightarrow> 's) \<Rightarrow> 'c option \<Rightarrow> 's \<Rightarrow> 's" where
  "runCompletion f c st = (case c of None \<Rightarrow> st | Some x \<Rightarrow> f x st)"

text \<open>
  The part after the submission: wait for completion, then classify.  The value is the
  caller's own unless the transaction succeeded.
\<close>

definition classifyRead ::
    "lely \<Rightarrow> (ecode \<times> 'a) option \<Rightarrow> 'a \<Rightarrow> SdoOperationResult \<times> 'a \<times> ecode" where
  "classifyRead M completion value =
     (let state = runCompletion readCompletion completion
                    \<lparr>rs_completed = False, rs_error = NoError, rs_value = value\<rparr>
      in if \<not> rs_completed state then (WAIT_TIMEOUT, value, NoError)
         else if failed (rs_error state) then
           (if sdo_errc M (rs_error state) = sdoErrc_TIMEOUT then SDO_TIMEOUT else FAILED,
            value, rs_error state)
         else (SUCCESS, rs_value state, rs_error state))"

definition classifyWrite ::
    "lely \<Rightarrow> (ecode \<times> unit) option \<Rightarrow> SdoOperationResult \<times> ecode" where
  "classifyWrite M completion =
     (let state = runCompletion writeCompletion completion
                    \<lparr>ws_completed = False, ws_error = NoError\<rparr>
      in if \<not> ws_completed state then (WAIT_TIMEOUT, NoError)
         else if failed (ws_error state) then
           (if sdo_errc M (ws_error state) = sdoErrc_TIMEOUT then SDO_TIMEOUT else FAILED,
            ws_error state)
         else (SUCCESS, ws_error state))"

definition sdoRequest :: "sdo_mode \<Rightarrow> u8 \<Rightarrow> u16 \<Rightarrow> u8 \<Rightarrow> nat \<Rightarrow> sdo_request" where
  "sdoRequest mode node_id index subindex sdo_timeout =
     \<lparr>rq_mode = mode, rq_node = node_id, rq_index = index, rq_sub = subindex,
      rq_timeout = sdo_timeout\<rparr>"

definition readRemoteSdoFor ::
    "'a sdo_type \<Rightarrow> lely \<Rightarrow> u8 \<Rightarrow> u16 \<Rightarrow> u8 \<Rightarrow> 'a \<Rightarrow> nat \<Rightarrow> nat \<Rightarrow>
       (SdoOperationResult \<times> 'a) host" where
  "readRemoteSdoFor T M node_id index subindex value sdo_timeout completion_margin = do {
     submitted \<leftarrow> submit_upload T M (sdoRequest Normal node_id index subindex sdo_timeout)
                    (ms (sdo_timeout + completion_margin));
     case submitted of
       Rejected e \<Rightarrow> return (FAILED, value)
     | Accepted completion \<Rightarrow>
         (case classifyRead M completion value of (result, value', e) \<Rightarrow> return (result, value'))
   }"

definition writeRemoteSdoFor ::
    "lely \<Rightarrow> u8 \<Rightarrow> u16 \<Rightarrow> u8 \<Rightarrow> sdo_value \<Rightarrow> nat \<Rightarrow> nat \<Rightarrow> SdoOperationResult host" where
  "writeRemoteSdoFor M node_id index subindex value sdo_timeout completion_margin = do {
     submitted \<leftarrow> submit_download M (sdoRequest Normal node_id index subindex sdo_timeout) value
                    (ms (sdo_timeout + completion_margin));
     case submitted of
       Rejected e \<Rightarrow> return FAILED
     | Accepted completion \<Rightarrow>
         (case classifyWrite M completion of (result, e) \<Rightarrow> return result)
   }"

text \<open>
  The block helpers also report the error they saw: the submission error, the completion
  error, or a clear code for a local wait timeout.
\<close>

definition readRemoteBlockSdoFor ::
    "'a sdo_type \<Rightarrow> lely \<Rightarrow> u8 \<Rightarrow> u16 \<Rightarrow> u8 \<Rightarrow> 'a \<Rightarrow> nat \<Rightarrow> nat \<Rightarrow>
       (SdoOperationResult \<times> 'a \<times> ecode) host" where
  "readRemoteBlockSdoFor T M node_id index subindex value sdo_timeout completion_margin = do {
     submitted \<leftarrow> submit_upload T M (sdoRequest Block node_id index subindex sdo_timeout)
                    (ms (sdo_timeout + completion_margin));
     case submitted of
       Rejected e \<Rightarrow> return (FAILED, value, e)
     | Accepted completion \<Rightarrow> return (classifyRead M completion value)
   }"

definition writeRemoteBlockSdoFor ::
    "lely \<Rightarrow> u8 \<Rightarrow> u16 \<Rightarrow> u8 \<Rightarrow> sdo_value \<Rightarrow> nat \<Rightarrow> nat \<Rightarrow>
       (SdoOperationResult \<times> ecode) host" where
  "writeRemoteBlockSdoFor M node_id index subindex value sdo_timeout completion_margin = do {
     submitted \<leftarrow> submit_download M (sdoRequest Block node_id index subindex sdo_timeout) value
                    (ms (sdo_timeout + completion_margin));
     case submitted of
       Rejected e \<Rightarrow> return (FAILED, e)
     | Accepted completion \<Rightarrow> return (classifyWrite M completion)
   }"

lemma sdoRequest_sel [simp]:
  "rq_node (sdoRequest m n i s t) = n" "rq_index (sdoRequest m n i s t) = i"
  "rq_sub (sdoRequest m n i s t) = s" "rq_mode (sdoRequest m n i s t) = m"
  "rq_timeout (sdoRequest m n i s t) = t"
  by (simp_all add: sdoRequest_def)

text \<open>The calls that leave both timeouts at their defaults.\<close>

abbreviation readRemoteSdo ::
    "'a sdo_type \<Rightarrow> lely \<Rightarrow> u8 \<Rightarrow> u16 \<Rightarrow> u8 \<Rightarrow> 'a \<Rightarrow> (SdoOperationResult \<times> 'a) host" where
  "readRemoteSdo T M node_id index subindex value \<equiv>
     readRemoteSdoFor T M node_id index subindex value CANOPEN_SDO_TIMEOUT_MS
       CANOPEN_SDO_COMPLETION_MARGIN_MS"

abbreviation writeRemoteSdo ::
    "lely \<Rightarrow> u8 \<Rightarrow> u16 \<Rightarrow> u8 \<Rightarrow> sdo_value \<Rightarrow> SdoOperationResult host" where
  "writeRemoteSdo M node_id index subindex value \<equiv>
     writeRemoteSdoFor M node_id index subindex value CANOPEN_SDO_TIMEOUT_MS
       CANOPEN_SDO_COMPLETION_MARGIN_MS"

section \<open>What one transaction records\<close>

text \<open>The outcome of a transaction, read back from the answer its event records.\<close>

fun outcome :: "lely \<Rightarrow> 'a submission \<Rightarrow> SdoOperationResult" where
  "outcome M (Rejected e) = FAILED"
| "outcome M (Accepted None) = WAIT_TIMEOUT"
| "outcome M (Accepted (Some (e, v))) =
     (if \<not> failed e then SUCCESS
      else if sdo_errc M e = sdoErrc_TIMEOUT then SDO_TIMEOUT else FAILED)"

fun answer_value :: "'a \<Rightarrow> 'a submission \<Rightarrow> 'a" where
  "answer_value v0 (Accepted (Some (e, v))) = (if failed e then v0 else v)"
| "answer_value v0 _ = v0"

lemma classifyRead_simps:
  "classifyRead M None v0 = (WAIT_TIMEOUT, v0, NoError)"
  "classifyRead M (Some (e, v)) v0 =
     (if failed e then (if sdo_errc M e = sdoErrc_TIMEOUT then SDO_TIMEOUT else FAILED, v0, e)
      else (SUCCESS, v, e))"
  by (simp_all add: classifyRead_def runCompletion_def readCompletion_def)

lemma classifyWrite_simps:
  "classifyWrite M None = (WAIT_TIMEOUT, NoError)"
  "classifyWrite M (Some (e, u)) =
     (if failed e then (if sdo_errc M e = sdoErrc_TIMEOUT then SDO_TIMEOUT else FAILED, e)
      else (SUCCESS, e))"
  by (simp_all add: classifyWrite_def runCompletion_def writeCompletion_def)

lemma run_readRemoteSdoFor:
  "run_state (readRemoteSdoFor T M node index sub v0 t m) w =
     (let rq = sdoRequest Normal node index sub t; r = t_upload T M (hist w) rq
      in ((outcome M r, answer_value v0 r),
          occur M (EvUpload rq (map_submission (t_value T) r))
            (if r = Accepted None then ms (t + m) else 0) w))"
  by (cases "t_upload T M (hist w) (sdoRequest Normal node index sub t)"
        rule: outcome.cases [where x = "(M, r)" for r, simplified])
     (auto simp: readRemoteSdoFor_def run_submit_upload classifyRead_simps Let_def
        split: submission.splits option.splits)

lemma run_writeRemoteSdoFor:
  "run_state (writeRemoteSdoFor M node index sub v t m) w =
     (let rq = sdoRequest Normal node index sub t; r = down M (hist w) rq v
      in (outcome M r,
          occur M (EvDownload rq v r) (if r = Accepted None then ms (t + m) else 0) w))"
  by (auto simp: writeRemoteSdoFor_def run_submit_download classifyWrite_simps Let_def
        split: submission.splits option.splits)

text \<open>A download the device confirmed, an upload it confirmed with a value.\<close>

definition confirmed :: "'a submission \<Rightarrow> bool" where
  "confirmed r \<longleftrightarrow> (\<exists>v. r = Accepted (Some (NoError, v)))"

lemma confirmed_code [code]:
  "confirmed r = (case r of Accepted (Some (e, v)) \<Rightarrow> e = NoError | _ \<Rightarrow> False)"
  by (auto simp: confirmed_def split: submission.splits option.splits)

lemma outcome_SUCCESS_iff: "outcome M r = SUCCESS \<longleftrightarrow> confirmed r"
  by (cases "(M, r)" rule: outcome.cases) (auto simp: confirmed_def failed_def)

lemma outcome_WAIT_TIMEOUT_iff: "outcome M r = WAIT_TIMEOUT \<longleftrightarrow> r = Accepted None"
  by (cases "(M, r)" rule: outcome.cases) auto

lemma answer_value_confirmed: "r = Accepted (Some (NoError, v)) \<Longrightarrow> answer_value v0 r = v"
  by simp

section \<open>Rules\<close>

lemma wp_readRemoteSdoFor [op_wp]:
  "wp (readRemoteSdoFor T M node index sub v0 t m) Q w \<longleftrightarrow>
     (let rq = sdoRequest Normal node index sub t; r = t_upload T M (hist w) rq
      in Q (outcome M r, answer_value v0 r)
          (occur M (EvUpload rq (map_submission (t_value T) r))
            (if r = Accepted None then ms (t + m) else 0) w))"
  by (simp add: wp_def run_readRemoteSdoFor Let_def)

lemma wp_writeRemoteSdoFor [op_wp]:
  "wp (writeRemoteSdoFor M node index sub v t m) Q w \<longleftrightarrow>
     (let rq = sdoRequest Normal node index sub t; r = down M (hist w) rq v
      in Q (outcome M r)
          (occur M (EvDownload rq v r) (if r = Accepted None then ms (t + m) else 0) w))"
  by (simp add: wp_def run_writeRemoteSdoFor Let_def)

lemma wpi_readRemoteSdoFor [wp_intro]:
  "(\<And>r w'. r = t_upload T M (hist w) (sdoRequest Normal node index sub t) \<Longrightarrow>
      hist w' = EvUpload (sdoRequest Normal node index sub t) (map_submission (t_value T) r) # hist w \<Longrightarrow>
      Q (outcome M r, answer_value v0 r) w') \<Longrightarrow>
     wp (readRemoteSdoFor T M node index sub v0 t m) Q w"
  by (simp add: op_wp Let_def)

lemma wpi_writeRemoteSdoFor [wp_intro]:
  "(\<And>r w'. r = down M (hist w) (sdoRequest Normal node index sub t) v \<Longrightarrow>
      hist w' = EvDownload (sdoRequest Normal node index sub t) v r # hist w \<Longrightarrow>
      Q (outcome M r) w') \<Longrightarrow>
     wp (writeRemoteSdoFor M node index sub v t m) Q w"
  by (simp add: op_wp Let_def)

lemma touches_readRemoteSdoFor [emits_intro]:
  "touches S (readRemoteSdoFor T M node index sub v0 t m)"
  unfolding readRemoteSdoFor_def by (intro emits_intro)

lemma touches_readRemoteBlockSdoFor [emits_intro]:
  "touches S (readRemoteBlockSdoFor T M node index sub v0 t m)"
  unfolding readRemoteBlockSdoFor_def by (intro emits_intro)

lemma touches_writeRemoteSdoFor [emits_intro]:
  "S (RemoteWrite node index sub v) \<Longrightarrow> touches S (writeRemoteSdoFor M node index sub v t m)"
  unfolding writeRemoteSdoFor_def by (intro emits_intro) (simp add: sdoRequest_def)

lemma touches_writeRemoteBlockSdoFor [emits_intro]:
  "S (RemoteWrite node index sub v) \<Longrightarrow>
     touches S (writeRemoteBlockSdoFor M node index sub v t m)"
  unfolding writeRemoteBlockSdoFor_def by (intro emits_intro) (simp add: sdoRequest_def)

section \<open>An SDO server\<close>

text \<open>
  Documented behaviour of an SDO server for plain objects, a hypothesis of the properties that
  speak of the device's state.  \<open>plain\<close> selects the objects whose value only SDO downloads change
  (parameters, not counters or status words); \<open>dev h\<close> is their dictionary after the history \<open>h\<close>.
  A confirmed upload of a plain object reports its current value, a confirmed download
  replaces the value of its object, a download with any other outcome (aborted, timed out,
  unknown) either did so or did nothing, and no other SDO or local traffic changes the
  dictionary.  NMT commands, PDOs and raw CAN frames are left unconstrained.
\<close>

type_synonym dictionary = "u8 \<times> u16 \<times> u8 \<Rightarrow> sdo_value"

definition address :: "sdo_request \<Rightarrow> u8 \<times> u16 \<times> u8" where
  "address rq = (rq_node rq, rq_index rq, rq_sub rq)"

fun server_step :: "event \<Rightarrow> dictionary \<Rightarrow> dictionary \<Rightarrow> bool" where
  "server_step (EvDownload rq v r) od od' =
     (od' = od(address rq := v) \<or> (\<not> confirmed r \<and> od' = od))"
| "server_step (EvCommand cmd node ok) od od' = True"
| "server_step (EvCanSend message ok) od od' = True"
| "server_step (EvWireWrite message e) od od' = True"
| "server_step (EvMappedEvent i s e) od od' = True"
| "server_step _ od od' = (od' = od)"

definition reports :: "'a submission \<Rightarrow> ('a \<Rightarrow> sdo_value) \<Rightarrow> sdo_value \<Rightarrow> bool" where
  "reports r con v \<longleftrightarrow> (\<forall>x. r = Accepted (Some (NoError, x)) \<longrightarrow> v = con x)"

definition sdo_server ::
    "(u8 \<times> u16 \<times> u8 \<Rightarrow> bool) \<Rightarrow> lely \<Rightarrow> (history \<Rightarrow> dictionary) \<Rightarrow> bool" where
  "sdo_server plain M dev \<longleftrightarrow>
     (\<forall>e h. server_step e (dev h) (dev (e # h))) \<and>
     (\<forall>h rq. plain (address rq) \<longrightarrow> reports (up8 M h rq) V8 (dev h (address rq)) \<and>
             reports (up16 M h rq) V16 (dev h (address rq)) \<and>
             reports (up32 M h rq) V32 (dev h (address rq)) \<and>
             reports (upI32 M h rq) VI32 (dev h (address rq)))"

lemma sdo_serverD:
  assumes "sdo_server plain M dev"
  shows "dev (EvUpload rq r # h) = dev h"
    and "confirmed r' \<Longrightarrow> dev (EvDownload rq v r' # h) = (dev h)(address rq := v)"
    and "dev (EvDownload rq v r' # h) = dev h \<or>
         dev (EvDownload rq v r' # h) = (dev h)(address rq := v)"
    and "plain (address rq) \<Longrightarrow> up8 M h rq = Accepted (Some (NoError, v8)) \<Longrightarrow>
           dev h (address rq) = V8 v8"
    and "plain (address rq) \<Longrightarrow> up16 M h rq = Accepted (Some (NoError, v16)) \<Longrightarrow>
           dev h (address rq) = V16 v16"
    and "plain (address rq) \<Longrightarrow> up32 M h rq = Accepted (Some (NoError, v32)) \<Longrightarrow>
           dev h (address rq) = V32 v32"
    and "dev (EvLocalRead i s lv e # h) = dev h"
    and "dev (EvLocalWrite i s lv e # h) = dev h"
    and "dev (EvNow t # h) = dev h" "dev (EvSleep d # h) = dev h" "dev (EvWait t ok # h) = dev h"
proof -
  have step: "\<And>e h. server_step e (dev h) (dev (e # h))"
    using assms by (simp add: sdo_server_def)
  show "dev (EvUpload rq r # h) = dev h" using step [of "EvUpload rq r" h] by simp
  show "confirmed r' \<Longrightarrow> dev (EvDownload rq v r' # h) = (dev h)(address rq := v)"
    using step [of "EvDownload rq v r'" h] by simp
  show "dev (EvDownload rq v r' # h) = dev h \<or>
         dev (EvDownload rq v r' # h) = (dev h)(address rq := v)"
    using step [of "EvDownload rq v r'" h] by auto
  show "dev (EvLocalRead i s lv e # h) = dev h" using step [of "EvLocalRead i s lv e" h] by simp
  show "dev (EvLocalWrite i s lv e # h) = dev h" using step [of "EvLocalWrite i s lv e" h] by simp
  show "dev (EvNow t # h) = dev h" using step [of "EvNow t" h] by simp
  show "dev (EvSleep d # h) = dev h" using step [of "EvSleep d" h] by simp
  show "dev (EvWait t ok # h) = dev h" using step [of "EvWait t ok" h] by simp
qed (use assms in \<open>auto simp: sdo_server_def reports_def\<close>)

lemma sdo_server_upload:
  assumes "sdo_server plain M dev" and "plain (address rq)"
  shows "outcome M (up8 M h rq) = SUCCESS \<Longrightarrow> dev h (address rq) = V8 (answer_value v8 (up8 M h rq))"
    and "outcome M (up16 M h rq) = SUCCESS \<Longrightarrow>
           dev h (address rq) = V16 (answer_value v16 (up16 M h rq))"
    and "outcome M (up32 M h rq) = SUCCESS \<Longrightarrow>
           dev h (address rq) = V32 (answer_value v32 (up32 M h rq))"
  using assms(2) by (auto simp: outcome_SUCCESS_iff confirmed_def sdo_serverD [OF assms(1)])

lemma completion_cases:
  obtains e where "r = Rejected e" | "r = Accepted None" | e v where "r = Accepted (Some (e, v))"
  by (cases r) (auto, metis option.exhaust prod.exhaust)

section \<open>Unknown transaction states\<close>

text \<open>
  After a local wait timeout the transaction is still open: its state on the device is not
  known.  \<open>stops_when_unknown\<close> holds of a history (newest first) in which no SDO transaction
  follows such a timeout.
\<close>

fun sdo_traffic :: "event \<Rightarrow> bool" where
  "sdo_traffic (EvUpload rq r) = True"
| "sdo_traffic (EvDownload rq v r) = True"
| "sdo_traffic _ = False"

fun unknown_state :: "event \<Rightarrow> bool" where
  "unknown_state (EvUpload rq r) = (r = Accepted None)"
| "unknown_state (EvDownload rq v r) = (r = Accepted None)"
| "unknown_state _ = False"

definition stops_when_unknown :: "history \<Rightarrow> bool" where
  "stops_when_unknown es \<longleftrightarrow>
     sorted_wrt (\<lambda>later earlier. sdo_traffic later \<longrightarrow> \<not> unknown_state earlier) es"

lemma stops_when_unknown_simps [simp]:
  "stops_when_unknown []"
  "stops_when_unknown (e # es) \<longleftrightarrow>
     (sdo_traffic e \<longrightarrow> list_all (\<lambda>x. \<not> unknown_state x) es) \<and> stops_when_unknown es"
  by (auto simp: stops_when_unknown_def list_all_iff)

lemma stops_when_unknown_append [simp]:
  "stops_when_unknown (es @ es') \<longleftrightarrow> stops_when_unknown es \<and> stops_when_unknown es' \<and>
     (list_ex sdo_traffic es \<longrightarrow> \<not> list_ex unknown_state es')"
  by (auto simp: stops_when_unknown_def sorted_wrt_append list_ex_iff list_all_iff)

lemma map_submission_unknown [simp]: "map_submission f r = Accepted None \<longleftrightarrow> r = Accepted None"
  by (cases r) auto

lemma map_submission_confirmed [simp]: "confirmed (map_submission f r) = confirmed r"
  by (cases r) (auto simp: confirmed_def)

end
