(* ===== verification/Observers.thy ===== *)
theory Observers
  imports Sdo_Access
begin

text \<open>
  The control-thread side of the observers: EMCY snapshots and waits
  (\<open>src/canopen_emcy.cpp\<close>), NMT commands and confirmed commands
  (\<open>src/canopen_nmt.cpp\<close>), Boot and Heartbeat waits (\<open>src/nmt_heartbeat.cpp\<close>) and the
  final reset process (\<open>src/shutdown_process.cpp\<close>).
\<close>

definition CANOPEN_WAIT_TIMEOUT_MS :: nat where "CANOPEN_WAIT_TIMEOUT_MS = 5000"

section \<open>EMCY\<close>

definition registerCanopenEmcyCallback :: "unit host" where
  "registerCanopenEmcyCallback = update_mem (\<lambda>m. m\<lparr>on_emcy := True\<rparr>)"

definition snapshotCanopenEmcySequence :: "nat host" where
  "snapshotCanopenEmcySequence = read_mem (\<lambda>m. g_emcy_sequence (emcy m))"

text \<open>\<open>None\<close> is the result false; \<open>Some\<close> the result true with the event written.\<close>

definition waitForCanopenEmcyEvent ::
    "lely \<Rightarrow> nat \<Rightarrow> u8 \<Rightarrow> u16 \<Rightarrow> nat \<Rightarrow> CanopenEmcyEvent option host" where
  "waitForCanopenEmcyEvent M after_sequence node_id error_code timeout = do {
     found \<leftarrow> wait_for M (ms timeout) (\<lambda>m.
       findEmcyEventLocked after_sequence node_id error_code (g_emcy_events (emcy m)) \<noteq> None);
     if \<not> found then return None
     else read_mem (\<lambda>m.
       findEmcyEventLocked after_sequence node_id error_code (g_emcy_events (emcy m)))
   }"

definition getCanopenEmcyEventsAfter :: "nat \<Rightarrow> u8 \<Rightarrow> CanopenEmcyEvent list host" where
  "getCanopenEmcyEventsAfter after_sequence node_id =
     read_mem (\<lambda>m. eventsAfter after_sequence node_id (emcy m))"

section \<open>NMT\<close>

definition readManagedNmtState :: "lely \<Rightarrow> u8 \<Rightarrow> nmt_state \<Rightarrow> (bool \<times> nmt_state) host" where
  "readManagedNmtState M node_id state = do {
     (raw_state, error) \<leftarrow> local_read lU8 M kRequestNmtIndex node_id;
     if failed error then return (False, state) else return (True, raw_state)
   }"

definition issueNmtCommand :: "lely \<Rightarrow> nmt_command \<Rightarrow> u8 \<Rightarrow> bool host" where
  "issueNmtCommand M cmd node_id = submit_command M cmd node_id"

definition registerNmtStateCallback :: "unit host" where
  "registerNmtStateCallback = update_mem (\<lambda>m. m\<lparr>on_state := True, nmt := registerNmtState (nmt m)\<rparr>)"

definition freshState :: "u8 \<Rightarrow> nmt_state \<Rightarrow> nat \<Rightarrow> memory \<Rightarrow> bool" where
  "freshState node_id expected_state baseline_generation m =
     (let observation = slot (nmt m) node_id
      in obs_generation observation > baseline_generation \<and> obs_state observation = expected_state)"

definition issueNmtCommandAndWaitForState ::
    "lely \<Rightarrow> nmt_command \<Rightarrow> u8 \<Rightarrow> nmt_state \<Rightarrow> nat \<Rightarrow> bool host" where
  "issueNmtCommandAndWaitForState M cmd node_id expected_state timeout = (
     if node_id = 0 \<or> unat node_id \<ge> kNmtStateSlotCount then return False
     else do {
       (read_before, managed_state_before) \<leftarrow> readManagedNmtState M node_id nmt_BOOTUP;
       let already_expected_before = (read_before \<and> managed_state_before = expected_state);
       registered \<leftarrow> read_mem (\<lambda>m. g_registered_master (nmt m));
       if \<not> registered then return False
       else do {
         baseline_generation \<leftarrow> read_mem (\<lambda>m. obs_generation (slot (nmt m) node_id));
         accepted \<leftarrow> issueNmtCommand M cmd node_id;
         if \<not> accepted then return False
         else do {
           idempotent \<leftarrow> (if already_expected_before then do {
               (read_after, managed_state_after) \<leftarrow> readManagedNmtState M node_id nmt_BOOTUP;
               return (read_after \<and> managed_state_after = expected_state)
             } else return False);
           if idempotent then return True
           else wait_for M (ms timeout) (freshState node_id expected_state baseline_generation)
         }
       }
     })"

section \<open>Boot and Heartbeat\<close>

definition registerNmtHeartbeatCallbacks :: "unit host" where
  "registerNmtHeartbeatCallbacks = update_mem (\<lambda>m. m\<lparr>on_boot := True, on_heartbeat := True\<rparr>)"

definition prepareBootWait :: "unit host" where
  "prepareBootWait = update_mem (\<lambda>m. m\<lparr>boot := clearBoot (boot m)\<rparr>)"

text \<open>
  \<open>state\<close> is the optional out-parameter: the state to start from when the caller passed
  one.  The result is the return value and what the parameter holds afterwards.
\<close>

definition waitForBootResult ::
    "lely \<Rightarrow> nat \<Rightarrow> nmt_state option \<Rightarrow> (bool \<times> nmt_state option) host" where
  "waitForBootResult M timeout state = do {
     received \<leftarrow> wait_for M (ms timeout) (\<lambda>m. g_boot_received (boot m));
     if \<not> received then return (False, state)
     else do {
       succeeded \<leftarrow> read_mem (\<lambda>m. g_boot_succeeded (boot m));
       if \<not> succeeded then return (False, state)
       else do {
         boot_state \<leftarrow> read_mem (\<lambda>m. g_boot_state (boot m));
         return (True, map_option (\<lambda>_. boot_state) state)
       }
     }
   }"

definition waitForBootCompletion :: "lely \<Rightarrow> nat \<Rightarrow> bool host" where
  "waitForBootCompletion M timeout = do {
     (ok, st) \<leftarrow> waitForBootResult M timeout None; return ok }"

definition waitForBootCompletionState :: "lely \<Rightarrow> nat \<Rightarrow> nmt_state \<Rightarrow> (bool \<times> nmt_state) host" where
  "waitForBootCompletionState M timeout state = do {
     (ok, st) \<leftarrow> waitForBootResult M timeout (Some state);
     return (ok, case st of None \<Rightarrow> state | Some s \<Rightarrow> s) }"

definition prepareHeartbeatWait :: "bool \<Rightarrow> unit host" where
  "prepareHeartbeatWait occurred =
     update_mem (\<lambda>m. m\<lparr>heartbeat := expectHeartbeat occurred (heartbeat m)\<rparr>)"

definition waitForHeartbeat :: "lely \<Rightarrow> nat \<Rightarrow> bool host" where
  "waitForHeartbeat M timeout =
     wait_for M (ms timeout) (\<lambda>m. g_expected_heartbeat_received (heartbeat m))"

section \<open>Final reset\<close>

definition finalResetProcess :: "lely \<Rightarrow> int host" where
  "finalResetProcess M = do {
     prepareBootWait;
     issued \<leftarrow> issueNmtCommand M RESET_COMM CANOPEN_SLAVE_NODE_ID;
     if \<not> issued then return 1
     else do {
       booted \<leftarrow> waitForBootCompletion M CANOPEN_WAIT_TIMEOUT_MS;
       if \<not> booted then return 1 else return 0
     }
   }"

section \<open>Footprints\<close>

lemma observer_footprints [emits_intro]:
  "touches S registerCanopenEmcyCallback" "touches S snapshotCanopenEmcySequence"
  "touches S (waitForCanopenEmcyEvent M a n c t)" "touches S (getCanopenEmcyEventsAfter a n)"
  "touches S (readManagedNmtState M n s)" "touches S registerNmtStateCallback"
  "touches S registerNmtHeartbeatCallbacks" "touches S prepareBootWait"
  "touches S (prepareHeartbeatWait b)" "touches S (waitForHeartbeat M t)"
  unfolding registerCanopenEmcyCallback_def snapshotCanopenEmcySequence_def
    waitForCanopenEmcyEvent_def getCanopenEmcyEventsAfter_def readManagedNmtState_def
    registerNmtStateCallback_def registerNmtHeartbeatCallbacks_def prepareBootWait_def
    prepareHeartbeatWait_def waitForHeartbeat_def
  by ((intro emits_intro; simp add: memory_wf_def clearBoot_def))+

lemma waitForBootResult_touches [emits_intro]: "touches S (waitForBootResult M t s)"
  unfolding waitForBootResult_def by (intro emits_intro)

lemma waitForBootCompletion_touches [emits_intro]: "touches S (waitForBootCompletion M t)"
  "touches S (waitForBootCompletionState M t s)"
  unfolding waitForBootCompletion_def waitForBootCompletionState_def by (intro emits_intro)+

lemma issueNmtCommand_touches [emits_intro]:
  "S (Nmt cmd node) \<Longrightarrow> touches S (issueNmtCommand M cmd node)"
  unfolding issueNmtCommand_def by (intro emits_intro)

lemma issueNmtCommandAndWaitForState_touches [emits_intro]:
  "S (Nmt cmd node) \<Longrightarrow> touches S (issueNmtCommandAndWaitForState M cmd node st t)"
  unfolding issueNmtCommandAndWaitForState_def by (intro emits_intro)

lemma issueNmtCommand_does:
  "wp (issueNmtCommand M cmd node) (\<lambda>ok w'. ok \<longrightarrow> does w [Nmt cmd node] w') w"
  unfolding issueNmtCommand_def by (intro wp_intro) (auto intro: does_short)

lemma issueNmtCommandAndWaitForState_does:
  "wp (issueNmtCommandAndWaitForState M cmd node st t) (\<lambda>ok w'. ok \<longrightarrow> does w [Nmt cmd node] w') w"
  unfolding issueNmtCommandAndWaitForState_def issueNmtCommand_def readManagedNmtState_def Let_def
  by (intro wp_intro) (auto intro: does_short)

section \<open>What the callbacks can have done\<close>

text \<open>\<open>ran M w w'\<close>: from \<open>w\<close> to \<open>w'\<close> only callbacks that the environment delivers at \<open>w\<close> have
  acted on the memory.  Kept opaque, it lets a proof walk back through the worlds of a run.\<close>

definition ran :: "lely \<Rightarrow> world \<Rightarrow> world \<Rightarrow> bool" where
  "ran M w w' \<longleftrightarrow> (\<exists>t cs cs'. callbacks M (hist w) = cs @ cs' \<and> mem w' = fold (dispatch t) cs (mem w))"

lemma ran_all: "mem w' = fold (dispatch t) (callbacks M (hist w)) (mem w) \<Longrightarrow> ran M w w'"
  unfolding ran_def by (metis append_Nil2)

lemma wpi_submit_command_mem:
  "(\<And>ok w'. hist w' = EvCommand cmd node ok # hist w \<Longrightarrow> ran M w w' \<Longrightarrow> Q ok w') \<Longrightarrow>
     wp (submit_command M cmd node) Q w"
  using ran_all [of "occur M (EvCommand cmd node (command M (hist w) cmd node)) 0 w" "clock w" M w]
  by (simp add: wp_def run_submit_command occur_def)

lemma wpi_local_read_mem:
  "(\<And>v e w'. hist w' = EvLocalRead index sub (l_value T v) e # hist w \<Longrightarrow> ran M w w' \<Longrightarrow>
      Q (v, e) w') \<Longrightarrow>
     wp (local_read T M index sub) Q w"
  by (cases "l_read T M (hist w) index sub")
     (simp add: wp_def run_local_read ran_all [of _ "clock w"] occur_def)

lemma wpi_wait_for_mem:
  assumes "\<And>ok w'. hist w' = EvWait t ok # hist w \<Longrightarrow> ok = pred (mem w') \<Longrightarrow> ran M w w' \<Longrightarrow> Q ok w'"
  shows "wp (wait_for M t pred) Q w"
proof (rule wpI)
  fix ok w'
  assume run: "run_state (wait_for M t pred) w = (ok, w')"
  obtain ok' m where wr: "wait_run (clock w) pred (callbacks M (hist w)) (mem w) = (ok', m)"
    by fastforce
  with run have "mem w' = m" by (auto simp: wait_for_def Let_def)
  with wait_run_fold [OF wr] have "ran M w w'" unfolding ran_def by metis
  with hist_wait_for [OF run] show "Q ok w'" by (blast intro: assms)
qed

text \<open>A Boot result: the callback of the slave with an accepted status.\<close>

definition accepted_boot :: "callback list \<Rightarrow> nmt_state \<Rightarrow> bool" where
  "accepted_boot cs state \<longleftrightarrow>
     (\<exists>status. CbBoot CANOPEN_SLAVE_NODE_ID state status \<in> set cs \<and>
        (status = CHR 0x00 \<or> status = CHR ''L''))"

definition boot_ok :: "memory \<Rightarrow> bool" where
  "boot_ok m \<longleftrightarrow> g_boot_received (boot m) \<and> g_boot_succeeded (boot m)"

lemma boot_fold:
  assumes "\<not> boot_ok m" and "boot_ok (fold (dispatch t) cs m)"
  shows "accepted_boot cs (g_boot_state (boot (fold (dispatch t) cs m)))"
  using assms(2)
proof (induction cs rule: rev_induct)
  case Nil
  with assms(1) show ?case by simp
next
  case (snoc c cs)
  let ?m = "fold (dispatch t) cs m"
  have keep: "accepted_boot cs s \<Longrightarrow> accepted_boot (cs @ [c]) s" for s
    by (auto simp: accepted_boot_def)
  show ?case
    using snoc keep
    by (cases c) (auto simp: boot_ok_def bootCallback_def accepted_boot_def Let_def split: if_splits)
qed

text \<open>The states published for one node.\<close>

lemma slot_fold:
  "slot (nmt (fold (dispatch t) cs m)) n = slot (nmt m) n \<or>
   CbState n (obs_state (slot (nmt (fold (dispatch t) cs m)) n)) \<in> set cs"
proof (induction cs rule: rev_induct)
  case (snoc c cs)
  let ?m = "fold (dispatch t) cs m"
  have step: "slot (nmtStateCallback k s x) n = slot x n \<or>
     k = n \<and> obs_state (slot (nmtStateCallback k s x) n) = s" for k s x
  proof (cases "k = n")
    case True
    then show ?thesis
      by (cases "unat n < length (g_nmt_states x)")
         (auto simp: slot_def nmtStateCallback_def observeState_def list_update_beyond)
  next
    case False
    then have "unat k \<noteq> unat n" by (simp add: word_unat_eq_iff)
    then show ?thesis by (simp add: slot_def nmtStateCallback_def)
  qed
  show ?case
  proof (cases c)
    case (CbState k s)
    with snoc.IH step [of k s "nmt ?m"] show ?thesis by (cases "on_state ?m") auto
  qed (use snoc.IH in auto)
qed simp

section \<open>Fresh results\<close>

lemma boot_ok_back:
  "boot_ok (mem w') \<Longrightarrow> ran M w w' \<Longrightarrow>
     boot_ok (mem w) \<or> (\<exists>state. accepted_boot (callbacks M (hist w)) state)"
proof (rule disjCI)
  assume ok: "boot_ok (mem w')" and "ran M w w'"
    and none: "\<nexists>state. accepted_boot (callbacks M (hist w)) state"
  then obtain t cs cs' where cs: "callbacks M (hist w) = cs @ cs'"
    and m: "mem w' = fold (dispatch t) cs (mem w)" by (auto simp: ran_def)
  show "boot_ok (mem w)"
  proof (rule ccontr)
    assume "\<not> boot_ok (mem w)"
    from boot_fold [OF this, of t cs] ok m have "accepted_boot cs (g_boot_state (boot (mem w')))" by simp
    with cs none show False by (auto simp: accepted_boot_def)
  qed
qed

lemma boot_fresh:
  "boot_ok (mem w2) \<Longrightarrow> ran M w1 w2 \<Longrightarrow> ran M w0 w1 \<Longrightarrow> \<not> boot_ok (mem w0) \<Longrightarrow>
     \<exists>state. accepted_boot (callbacks M (hist w0)) state \<or> accepted_boot (callbacks M (hist w1)) state"
  using boot_ok_back by blast

text \<open>The final reset succeeds only on a Boot result that arrived after its own command.\<close>

lemma finalResetProcess_boot:
  "wp (finalResetProcess M) (\<lambda>r w'. r = 1 \<or> r = 0 \<and>
     hist w' = [EvWait (ms CANOPEN_WAIT_TIMEOUT_MS) True,
                EvCommand RESET_COMM CANOPEN_SLAVE_NODE_ID True] @ hist w \<and>
     (\<exists>state. accepted_boot (callbacks M (hist w)) state \<or>
        accepted_boot (callbacks M (EvCommand RESET_COMM CANOPEN_SLAVE_NODE_ID True # hist w)) state)) w"
proof -
  have ok: "\<exists>state. accepted_boot (callbacks M (hist w0)) state \<or>
      accepted_boot (callbacks M (hist w1)) state"
    if "g_boot_received (boot (mem w2))" "g_boot_succeeded (boot (mem w2))"
      "ran M w1 w2" "ran M w0 w1" "mem w0 = (mem w)\<lparr>boot := clearBoot (boot (mem w))\<rparr>" for w0 w1 w2
    by (rule boot_fresh [of w2]) (use that in \<open>auto simp: boot_ok_def clearBoot_def\<close>)
  show ?thesis
    unfolding finalResetProcess_def prepareBootWait_def issueNmtCommand_def
      waitForBootCompletion_def waitForBootResult_def
    by (intro wpi_bind wpi_update_mem wpi_submit_command_mem wpi_if wpi_return wpi_case_prod
          wpi_wait_for_mem wpi_read_mem)
       (auto, drule (4) ok, simp)
qed

text \<open>The callbacks that can run during a sequence of calls, newest call first.\<close>

fun delivered :: "lely \<Rightarrow> history \<Rightarrow> history \<Rightarrow> callback list" where
  "delivered M [] h = []"
| "delivered M (e # es) h = delivered M es h @ callbacks M (es @ h)"

definition newer :: "u8 \<Rightarrow> nat \<Rightarrow> nmt_state \<Rightarrow> memory \<Rightarrow> bool" where
  "newer n g st m \<longleftrightarrow> g < obs_generation (slot (nmt m) n) \<and> obs_state (slot (nmt m) n) = st"

lemma newer_back:
  "newer n g st (mem w') \<Longrightarrow> ran M w w' \<Longrightarrow>
     newer n g st (mem w) \<or> CbState n st \<in> set (callbacks M (hist w))"
proof -
  assume "newer n g st (mem w')" "ran M w w'"
  then obtain t cs cs' where "callbacks M (hist w) = cs @ cs'" "newer n g st (fold (dispatch t) cs (mem w))"
    by (auto simp: ran_def)
  then show ?thesis using slot_fold [of t cs "mem w" n] by (auto simp: newer_def)
qed

lemma newer_now: "\<not> newer n (obs_generation (slot (nmt m) n)) st m"
  by (simp add: newer_def)

lemma newer_published:
  assumes "newer n (obs_generation (slot (nmt (mem w1)) n)) st (mem w3)" and "ran M w1 w2"
  shows "ran M w2 w3 \<Longrightarrow> CbState n st \<in> set (callbacks M (hist w1)) \<union> set (callbacks M (hist w2))"
    and "ran M w2 w4 \<Longrightarrow> ran M w4 w3 \<Longrightarrow> CbState n st \<in> set (callbacks M (hist w1)) \<union>
           set (callbacks M (hist w2)) \<union> set (callbacks M (hist w4))"
  using assms newer_back newer_now by blast+

text \<open>
  A confirmed command: accepted by the master, and then either the managed state was the
  expected one both before and after it, or the expected state was published during or after it.
\<close>

lemma issueNmtCommandAndWaitForState_confirmed:
  "wp (issueNmtCommandAndWaitForState M cmd n st t) (\<lambda>ok w'. ok \<longrightarrow> n \<noteq> 0 \<and> unat n < 128 \<and>
     (\<exists>e1 es. hist w' = es @ [EvCommand cmd n True, e1] @ hist w \<and>
        ((\<exists>e2. es = [e2] \<and> e1 = EvLocalRead kRequestNmtIndex n (V8 st) NoError \<and>
            e2 = EvLocalRead kRequestNmtIndex n (V8 st) NoError) \<or>
         CbState n st \<in> set (delivered M (es @ [EvCommand cmd n True]) (e1 # hist w))))) w"
proof -
  have fresh: "freshState n st g m \<longleftrightarrow> newer n g st m" for g m
    by (simp add: freshState_def newer_def Let_def)
  show ?thesis
    unfolding issueNmtCommandAndWaitForState_def readManagedNmtState_def issueNmtCommand_def
      Let_def fresh
    by (intro wpi_bind wpi_if wpi_return wpi_case_prod wpi_local_read_mem wpi_submit_command_mem
          wpi_read_mem wpi_wait_for_mem)
       (auto simp: failed_def kNmtStateSlotCount_def dest: newer_published)
qed

text \<open>An EMCY wait that succeeds returns the oldest retained event that matches and is newer than
  the snapshot.\<close>

lemma waitForCanopenEmcyEvent_first:
  "wp (waitForCanopenEmcyEvent M a n c t) (\<lambda>r w'. case r of
     None \<Rightarrow> findEmcyEventLocked a n c (g_emcy_events (emcy (mem w'))) = None
   | Some e \<Rightarrow> e \<in> set (g_emcy_events (emcy (mem w'))) \<and> a < ev_sequence e \<and> ev_node_id e = n \<and>
       ev_error_code e = c \<and> hist w' = EvWait (ms t) True # hist w \<and>
       first_match a n c e (g_emcy_events (emcy (mem w')))) w"
  unfolding waitForCanopenEmcyEvent_def
  by (intro wp_intro) (auto dest: findEmcyEventLocked_SomeD findEmcyEventLocked_first_match split: option.splits)

end
