(* ===== verification/Process_Runner.thy ===== *)
theory Process_Runner
  imports Observers
begin

text \<open>
  Ordered execution of the registered validation processes, \<open>src/canopen_process.cpp\<close>.  The
  table is a pointer with a count; a null pointer is \<open>None\<close>, and an entry may have a null name
  or an empty handler.  The count never exceeds the table (the caller passes its size).
\<close>

record CanopenProcessEntry =
  pe_name :: "string option"
  pe_handler :: "int host option"

fun runEntries :: "CanopenProcessEntry list \<Rightarrow> int host" where
  "runEntries [] = return 0"
| "runEntries (process # rest) =
     (case (pe_name process, pe_handler process) of
        (Some name, Some handler) \<Rightarrow> do {
          result \<leftarrow> handler;
          if result \<noteq> 0 then return 1 else runEntries rest
        }
      | _ \<Rightarrow> return 1)"

definition canopenRunProcesses :: "CanopenProcessEntry list option \<Rightarrow> nat \<Rightarrow> int host" where
  "canopenRunProcesses processes process_count =
     (if process_count = 0 then return 0
      else case processes of
        None \<Rightarrow> return 1
      | Some table \<Rightarrow> runEntries (take process_count table))"

text \<open>The abstract contract: a list of handlers run in order up to the first failure.\<close>

inductive passes :: "CanopenProcessEntry list \<Rightarrow> world \<Rightarrow> world \<Rightarrow> bool" where
  passes_Nil: "passes [] w w"
| passes_Cons: "pe_name p = Some name \<Longrightarrow> pe_handler p = Some handler \<Longrightarrow>
     run_state handler w = (0, w1) \<Longrightarrow> passes ps w1 w2 \<Longrightarrow> passes (p # ps) w w2"

inductive_simps passes_Nil_iff [simp]: "passes [] w w'"
inductive_simps passes_Cons_iff: "passes (p # ps) w w'"

lemma runEntries_values:
  "run_state (runEntries ps) w = (r, w') \<Longrightarrow> r = 0 \<or> r = 1"
proof (induction ps arbitrary: w)
  case Nil
  then show ?case by simp
next
  case (Cons p ps)
  then show ?case
    by (fastforce split: option.splits prod.splits if_splits)
qed

lemma runEntries_zero_iff:
  "run_state (runEntries ps) w = (0, w') \<longleftrightarrow> passes ps w w'"
proof (induction ps arbitrary: w)
  case Nil
  then show ?case by (auto simp: eq_commute)
next
  case (Cons p ps)
  then show ?case
    by (fastforce simp: passes_Cons_iff split: option.splits prod.splits if_splits)
qed

lemma runEntries_append:
  "passes ps w w1 \<Longrightarrow> run_state (runEntries (ps @ qs)) w = run_state (runEntries qs) w1"
  by (induction rule: passes.induct) (auto split: prod.splits)

end
