(* ===== verification/Object_Access.thy ===== *)
theory Object_Access
  imports Observers
begin

text \<open>
  Boolean accessors of dictionary objects, as every validation process wraps them: a read that
  gives true and the value or false and the caller's own value, a write that gives true on
  success.  The interface \<open>verified_object\<close> states what the processes rely on, whichever
  dictionary is behind it, and proves the write-then-read-back idiom once; it is interpreted on
  the device's objects (over SDO) and on the master's own objects.
\<close>

section \<open>What an event shows\<close>

fun saw :: "u8 \<Rightarrow> u16 \<Rightarrow> u8 \<Rightarrow> sdo_value \<Rightarrow> event \<Rightarrow> bool" where
  "saw node index sub v (EvUpload rq a) =
     (rq_node rq = node \<and> rq_index rq = index \<and> rq_sub rq = sub \<and>
      a = Accepted (Some (NoError, v)))"
| "saw node index sub v _ = False"

fun wrote :: "u8 \<Rightarrow> u16 \<Rightarrow> u8 \<Rightarrow> sdo_value \<Rightarrow> event \<Rightarrow> bool" where
  "wrote node index sub v (EvDownload rq v' a) =
     (rq_node rq = node \<and> rq_index rq = index \<and> rq_sub rq = sub \<and> v' = v \<and> confirmed a)"
| "wrote node index sub v _ = False"

fun local_saw :: "u16 \<Rightarrow> u8 \<Rightarrow> sdo_value \<Rightarrow> event \<Rightarrow> bool" where
  "local_saw index sub v (EvLocalRead i s v' e) = (i = index \<and> s = sub \<and> v' = v \<and> \<not> failed e)"
| "local_saw index sub v _ = False"

fun local_wrote :: "u16 \<Rightarrow> u8 \<Rightarrow> sdo_value \<Rightarrow> event \<Rightarrow> bool" where
  "local_wrote index sub v (EvLocalWrite i s v' e) = (i = index \<and> s = sub \<and> v' = v \<and> \<not> failed e)"
| "local_wrote index sub v _ = False"

section \<open>Accessors\<close>

definition readRemoteObject ::
    "'a sdo_type \<Rightarrow> lely \<Rightarrow> u16 \<Rightarrow> u8 \<Rightarrow> 'a \<Rightarrow> (bool \<times> 'a) host" where
  "readRemoteObject T M index subindex value = do {
     (result, value') \<leftarrow> readRemoteSdo T M CANOPEN_SLAVE_NODE_ID index subindex value;
     return (result = SUCCESS, value') }"

definition writeRemoteObject :: "'a sdo_type \<Rightarrow> lely \<Rightarrow> u16 \<Rightarrow> u8 \<Rightarrow> 'a \<Rightarrow> bool host" where
  "writeRemoteObject T M index subindex value = do {
     result \<leftarrow> writeRemoteSdo M CANOPEN_SLAVE_NODE_ID index subindex (t_value T value);
     return (result = SUCCESS) }"

definition readLocalObject ::
    "'a local_type \<Rightarrow> lely \<Rightarrow> u16 \<Rightarrow> u8 \<Rightarrow> 'a \<Rightarrow> (bool \<times> 'a) host" where
  "readLocalObject T M index subindex value = do {
     (read_value, error) \<leftarrow> local_read T M index subindex;
     if failed error then return (False, value) else return (True, read_value) }"

definition writeLocalObject :: "'a local_type \<Rightarrow> lely \<Rightarrow> u16 \<Rightarrow> u8 \<Rightarrow> 'a \<Rightarrow> bool host" where
  "writeLocalObject T M index subindex value = do {
     error \<leftarrow> local_write M index subindex (l_value T value);
     return (\<not> failed error) }"

lemma outcome_SUCCESS_answer:
  "outcome M r = SUCCESS \<Longrightarrow> r = Accepted (Some (NoError, answer_value v0 r))"
  by (auto simp: outcome_SUCCESS_iff confirmed_def)

lemma outcome_not_SUCCESS_answer: "outcome M r \<noteq> SUCCESS \<Longrightarrow> answer_value v0 r = v0"
  by (cases "(M, r)" rule: outcome.cases) auto

lemma wpi_readRemoteObject [wp_intro]:
  assumes "\<And>ok v e w'. hist w' = e # hist w \<Longrightarrow> mutation_of e = None \<Longrightarrow>
     (ok \<Longrightarrow> saw CANOPEN_SLAVE_NODE_ID index sub (t_value T v) e) \<Longrightarrow> (\<not> ok \<Longrightarrow> v = v0) \<Longrightarrow>
     Q (ok, v) w'"
  shows "wp (readRemoteObject T M index sub v0) Q w"
  unfolding readRemoteObject_def
proof (intro wp_intro, clarsimp)
  fix w' :: world and r
  assume w': "hist w' = EvUpload (sdoRequest Normal CANOPEN_SLAVE_NODE_ID index sub
    CANOPEN_SDO_TIMEOUT_MS) (map_submission (t_value T) r) # hist w"
  show "Q (outcome M r = SUCCESS, answer_value v0 r) w'"
  proof (rule assms [OF w'])
    assume "outcome M r = SUCCESS"
    then obtain v where "r = Accepted (Some (NoError, v))"
      by (auto simp: outcome_SUCCESS_iff confirmed_def)
    then show "saw CANOPEN_SLAVE_NODE_ID index sub (t_value T (answer_value v0 r))
       (EvUpload (sdoRequest Normal CANOPEN_SLAVE_NODE_ID index sub CANOPEN_SDO_TIMEOUT_MS)
         (map_submission (t_value T) r))" by simp
  qed (auto dest: outcome_not_SUCCESS_answer)
qed

lemma wpi_writeRemoteObject [wp_intro]:
  assumes "\<And>ok e w'. hist w' = e # hist w \<Longrightarrow>
     mutation_of e = Some (RemoteWrite CANOPEN_SLAVE_NODE_ID index sub (t_value T v)) \<Longrightarrow>
     ok = wrote CANOPEN_SLAVE_NODE_ID index sub (t_value T v) e \<Longrightarrow> Q ok w'"
  shows "wp (writeRemoteObject T M index sub v) Q w"
  unfolding writeRemoteObject_def
  by (intro wp_intro) (rule assms, assumption, auto simp: outcome_SUCCESS_iff)

lemma wpi_readLocalObject [wp_intro]:
  assumes "\<And>ok v e w'. hist w' = e # hist w \<Longrightarrow> mutation_of e = None \<Longrightarrow>
     (ok \<Longrightarrow> local_saw index sub (l_value T v) e) \<Longrightarrow> (\<not> ok \<Longrightarrow> v = v0) \<Longrightarrow> Q (ok, v) w'"
  shows "wp (readLocalObject T M index sub v0) Q w"
  unfolding readLocalObject_def by (intro wp_intro) (auto intro!: assms)

lemma wpi_writeLocalObject [wp_intro]:
  assumes "\<And>ok e w'. hist w' = e # hist w \<Longrightarrow>
     mutation_of e = Some (LocalWrite index sub (l_value T v)) \<Longrightarrow>
     ok = local_wrote index sub (l_value T v) e \<Longrightarrow> Q ok w'"
  shows "wp (writeLocalObject T M index sub v) Q w"
  unfolding writeLocalObject_def by (intro wp_intro) (auto intro!: assms)

lemma outcome_upload_saw:
  "outcome M r = SUCCESS \<Longrightarrow>
     saw n i s (f (answer_value v0 r)) (EvUpload (sdoRequest Normal n i s t) (map_submission f r))"
  by (auto dest: outcome_SUCCESS_answer [of M r v0] simp: outcome_SUCCESS_iff confirmed_def)

lemma wpi_saw_upload:
  assumes "\<And>r v e w'. hist w' = e # hist w \<Longrightarrow> mutation_of e = None \<Longrightarrow>
     (r = SUCCESS \<Longrightarrow> saw n i s (t_value T v) e) \<Longrightarrow> Q (r, v) w'"
  shows "wp (readRemoteSdoFor T M n i s v0 t m) Q w"
  by (intro wpi_readRemoteSdoFor assms) (auto intro: outcome_upload_saw)

lemma touches_readRemoteObject [emits_intro]: "touches S (readRemoteObject T M index sub v)"
  unfolding readRemoteObject_def by (intro emits_intro)

lemma touches_writeRemoteObject [emits_intro]:
  "S (RemoteWrite CANOPEN_SLAVE_NODE_ID index sub (t_value T v)) \<Longrightarrow>
     touches S (writeRemoteObject T M index sub v)"
  unfolding writeRemoteObject_def by (intro emits_intro)

lemma touches_readLocalObject [emits_intro]: "touches S (readLocalObject T M index sub v)"
  unfolding readLocalObject_def by (intro emits_intro)

lemma touches_writeLocalObject [emits_intro]:
  "S (LocalWrite index sub (l_value T v)) \<Longrightarrow> touches S (writeLocalObject T M index sub v)"
  unfolding writeLocalObject_def by (intro emits_intro)

section \<open>The interface\<close>

definition writeVerified ::
    "('v \<Rightarrow> bool host) \<Rightarrow> ('v \<Rightarrow> (bool \<times> 'v) host) \<Rightarrow> 'v \<Rightarrow> 'v \<Rightarrow> bool host" where
  "writeVerified wr rd v v0 = do {
     written \<leftarrow> wr v;
     if \<not> written then return False
     else do {
       (ok, readback) \<leftarrow> rd v0;
       if \<not> ok then return False else return (readback = v)
     } }"

locale verified_object =
  fixes rd :: "'v \<Rightarrow> (bool \<times> 'v) host"
    and wr :: "'v \<Rightarrow> bool host"
    and shows_value :: "'v \<Rightarrow> event \<Rightarrow> bool"
    and stores_value :: "'v \<Rightarrow> event \<Rightarrow> bool"
  assumes rd_spec: "wp (rd v0) (\<lambda>r w'. \<exists>e. hist w' = e # hist w \<and>
            (fst r \<longrightarrow> shows_value (snd r) e) \<and> (\<not> fst r \<longrightarrow> snd r = v0)) w"
    and wr_spec: "wp (wr v) (\<lambda>ok w'. \<exists>e. hist w' = e # hist w \<and> (ok \<longrightarrow> stores_value v e)) w"
begin

lemma write_verified:
  "wp (writeVerified wr rd v v0) (\<lambda>ok w'. ok \<longrightarrow>
     (\<exists>e1 e2. hist w' = e2 # e1 # hist w \<and> stores_value v e1 \<and> shows_value v e2)) w"
  unfolding writeVerified_def
  by (intro wp_intro wp_mono [OF rd_spec] wp_mono [OF wr_spec]) (auto intro!: wp_mono [OF rd_spec])

end

interpretation device_u8: verified_object
    "readRemoteObject tU8 M index sub" "writeRemoteObject tU8 M index sub"
    "\<lambda>v. saw CANOPEN_SLAVE_NODE_ID index sub (V8 v)"
    "\<lambda>v. wrote CANOPEN_SLAVE_NODE_ID index sub (V8 v)" for M index sub
  by unfold_locales (intro wp_intro, auto)+

interpretation device_u16: verified_object
    "readRemoteObject tU16 M index sub" "writeRemoteObject tU16 M index sub"
    "\<lambda>v. saw CANOPEN_SLAVE_NODE_ID index sub (V16 v)"
    "\<lambda>v. wrote CANOPEN_SLAVE_NODE_ID index sub (V16 v)" for M index sub
  by unfold_locales (intro wp_intro, auto)+

interpretation device_u32: verified_object
    "readRemoteObject tU32 M index sub" "writeRemoteObject tU32 M index sub"
    "\<lambda>v. saw CANOPEN_SLAVE_NODE_ID index sub (V32 v)"
    "\<lambda>v. wrote CANOPEN_SLAVE_NODE_ID index sub (V32 v)" for M index sub
  by unfold_locales (intro wp_intro, auto)+

interpretation master_u32: verified_object
    "readLocalObject lU32 M index sub" "writeLocalObject lU32 M index sub"
    "\<lambda>v. local_saw index sub (V32 v)" "\<lambda>v. local_wrote index sub (V32 v)" for M index sub
  by unfold_locales (intro wp_intro, auto)+

section \<open>Against an SDO server\<close>

lemma server_readRemoteObject:
  assumes "sdo_server plain M dev" and "plain (CANOPEN_SLAVE_NODE_ID, index, sub)"
  shows
    "wp (readRemoteObject tU8 M index sub v0) (\<lambda>(ok, v) w'. dev (hist w') = dev (hist w) \<and>
       (ok \<longrightarrow> dev (hist w) (CANOPEN_SLAVE_NODE_ID, index, sub) = V8 v)) w"
    "wp (readRemoteObject tU16 M index sub v0') (\<lambda>(ok, v) w'. dev (hist w') = dev (hist w) \<and>
       (ok \<longrightarrow> dev (hist w) (CANOPEN_SLAVE_NODE_ID, index, sub) = V16 v)) w"
    "wp (readRemoteObject tU32 M index sub v0'') (\<lambda>(ok, v) w'. dev (hist w') = dev (hist w) \<and>
       (ok \<longrightarrow> dev (hist w) (CANOPEN_SLAVE_NODE_ID, index, sub) = V32 v)) w"
  using assms(2) sdo_server_upload [OF assms(1),
      where h = "hist w" and rq = "sdoRequest Normal CANOPEN_SLAVE_NODE_ID index sub CANOPEN_SDO_TIMEOUT_MS"]
  unfolding readRemoteObject_def
  by (intro wp_intro; simp add: sdo_serverD(1) [OF assms(1)] address_def tU8_def tU16_def tU32_def)+

lemma server_writeRemoteObject:
  assumes "sdo_server plain M dev"
  shows "wp (writeRemoteObject T M index sub v) (\<lambda>ok w'.
       (ok \<longrightarrow> dev (hist w') = (dev (hist w))((CANOPEN_SLAVE_NODE_ID, index, sub) := t_value T v)) \<and>
       (dev (hist w') = dev (hist w) \<or>
        dev (hist w') = (dev (hist w))((CANOPEN_SLAVE_NODE_ID, index, sub) := t_value T v))) w"
  using sdo_serverD(2,3) [OF assms, where h = "hist w" and v = "t_value T v"
      and rq = "sdoRequest Normal CANOPEN_SLAVE_NODE_ID index sub CANOPEN_SDO_TIMEOUT_MS"]
  unfolding writeRemoteObject_def
  by (intro wp_intro) (simp add: address_def outcome_SUCCESS_iff)

end
