(* ===== verification/Storage_Process.thy ===== *)
theory Storage_Process
  imports Object_Access
begin

text \<open>
  EEPROM storage persistence validation, \<open>src/storage_process.cpp\<close>: the diagnostic command
  handshake with the target, the chunked transfer of the raw region with its CRC, the capture of
  a complete baseline, the destructive modes and the cleanup that restores the baseline.
\<close>

section \<open>Constants\<close>

definition kStoreIndex :: u16 where [const_defs]: "kStoreIndex = 0x1010"
definition kRestoreIndex :: u16 where [const_defs]: "kRestoreIndex = 0x1011"
definition kProbeIndex :: u16 where [const_defs]: "kProbeIndex = 0x1017"
definition kHeartbeatConsumerIndex :: u16 where [const_defs]: "kHeartbeatConsumerIndex = 0x1016"
definition kHeartbeatConsumerSubindex :: u8 where [const_defs]: "kHeartbeatConsumerSubindex = 0x01"
definition kDiagnosticIndex :: u16 where [const_defs]: "kDiagnosticIndex = 0x2305"
definition kCommStorageSubindex :: u8 where [const_defs]: "kCommStorageSubindex = 0x02"
definition kSaveMagic :: u32 where [const_defs]: "kSaveMagic = 0x65766173"
definition kRestoreMagic :: u32 where [const_defs]: "kRestoreMagic = 0x64616F6C"
definition kExpectedEepromSize :: u32 where [const_defs]: "kExpectedEepromSize = 16384"
definition kExpectedPageSize :: u16 where [const_defs]: "kExpectedPageSize = 64"
definition kExpectedAddrInput :: u8 where [const_defs]: "kExpectedAddrInput = 1"
definition kFactoryProbe :: u16 where [const_defs]: "kFactoryProbe = 0"
definition kCommCorruptionBit :: u32 where
  [const_defs]: "kCommCorruptionBit = push_bit (unat kCommStorageSubindex) 1"
definition kDiagnosticTimeout :: nat where [const_defs]: "kDiagnosticTimeout = 10000"
definition kDiagnosticPoll :: nat where [const_defs]: "kDiagnosticPoll = 20"
definition CANOPEN_STORAGE_OPERATOR_TIMEOUT_MS :: nat where
  [const_defs]: "CANOPEN_STORAGE_OPERATOR_TIMEOUT_MS = 60000"

section \<open>Data\<close>

datatype DiagnosticSubindex =
    REQUEST_SEQ | COMMAND | ENTRY_SUB_INDEX | RAW_OFFSET | RAW_SIZE | RAW_VALUE | ACTIVE_SEQ
  | COMPLETE_SEQ | RESULT | STARTUP_STATE | STARTUP_RESULT | STARTUP_ERROR | STORAGE_OFFSET
  | EEPROM_SIZE | PAGE_SIZE | ADDR_INPUT | SIGNATURE_ADDRESS | DATA_ADDRESS | DATA_LENGTH
  | RAW_START | RAW_LENGTH | SIGNATURE_VALUE | BACKUP_VALID | BACKUP_CRC | STARTUP_SEQ
  | STARTUP_PROBE

fun diagnosticSub :: "DiagnosticSubindex \<Rightarrow> u8" where
  "diagnosticSub REQUEST_SEQ = 0x01" | "diagnosticSub COMMAND = 0x02" | "diagnosticSub ENTRY_SUB_INDEX = 0x03"
| "diagnosticSub RAW_OFFSET = 0x04" | "diagnosticSub RAW_SIZE = 0x05" | "diagnosticSub RAW_VALUE = 0x06"
| "diagnosticSub ACTIVE_SEQ = 0x07" | "diagnosticSub COMPLETE_SEQ = 0x08" | "diagnosticSub RESULT = 0x09"
| "diagnosticSub STARTUP_STATE = 0x0A" | "diagnosticSub STARTUP_RESULT = 0x0B" | "diagnosticSub STARTUP_ERROR = 0x0C"
| "diagnosticSub STORAGE_OFFSET = 0x0D" | "diagnosticSub EEPROM_SIZE = 0x0E" | "diagnosticSub PAGE_SIZE = 0x0F"
| "diagnosticSub ADDR_INPUT = 0x10" | "diagnosticSub SIGNATURE_ADDRESS = 0x11" | "diagnosticSub DATA_ADDRESS = 0x12"
| "diagnosticSub DATA_LENGTH = 0x13" | "diagnosticSub RAW_START = 0x14" | "diagnosticSub RAW_LENGTH = 0x15"
| "diagnosticSub SIGNATURE_VALUE = 0x16" | "diagnosticSub BACKUP_VALID = 0x17" | "diagnosticSub BACKUP_CRC = 0x18"
| "diagnosticSub STARTUP_SEQ = 0x19" | "diagnosticSub STARTUP_PROBE = 0x1A"

declare diagnosticSub.simps [simp del]

datatype DiagnosticCommand =
  REFRESH | BACKUP | RESTORE | CORRUPT_SIGNATURE | CORRUPT_DATA | RAW_READ | RAW_WRITE

fun diagnosticCommandCode :: "DiagnosticCommand \<Rightarrow> u8" where
  "diagnosticCommandCode REFRESH = 1" | "diagnosticCommandCode BACKUP = 2"
| "diagnosticCommandCode RESTORE = 3" | "diagnosticCommandCode CORRUPT_SIGNATURE = 4"
| "diagnosticCommandCode CORRUPT_DATA = 5" | "diagnosticCommandCode RAW_READ = 6"
| "diagnosticCommandCode RAW_WRITE = 7"

text \<open>\<open>DiagnosticResult::SUCCESS\<close>, a signed 32-bit value.\<close>

definition diagnosticSuccess :: u32 where "diagnosticSuccess = 1"

text \<open>
  \<open>StartupState\<close> is an enumeration over one byte and \<open>readStartup\<close> casts the byte read from
  the target to it, so a state is a byte; the named values are constants.
\<close>

type_synonym StartupState = u8

definition startup_UNKNOWN :: StartupState where [const_defs]: "startup_UNKNOWN = 0"
definition startup_OK :: StartupState where [const_defs]: "startup_OK = 1"
definition startup_DATA_CORRUPT :: StartupState where [const_defs]: "startup_DATA_CORRUPT = 2"
definition startup_ERROR :: StartupState where [const_defs]: "startup_ERROR = 3"

record StorageLayout =
  storage_offset :: u32
  eeprom_size :: u32
  page_size :: u16
  addr_input :: u8
  signature_address :: u32
  data_address :: u32
  data_length :: u32
  raw_start :: u32
  raw_length :: u32
  signature_value :: u32

definition default_layout :: StorageLayout where
  "default_layout = \<lparr>storage_offset = 0, eeprom_size = 0, page_size = 0, addr_input = 0,
     signature_address = 0, data_address = 0, data_length = 0, raw_start = 0, raw_length = 0,
     signature_value = 0\<rparr>"

record StartupSnapshot =
  startup_state :: StartupState
  startup_result :: u32
  startup_error :: u32
  startup_sequence :: u32
  startup_probe :: u16

definition default_startup :: StartupSnapshot where
  "default_startup = \<lparr>startup_state = startup_UNKNOWN, startup_result = 0, startup_error = 0,
     startup_sequence = 0, startup_probe = 0\<rparr>"

record StorageBaseline =
  sb_layout :: StorageLayout
  sb_startup :: StartupSnapshot
  sb_raw :: "u8 list"
  sb_runtime_probe :: u16
  sb_raw_crc :: u16
  sb_captured :: bool

definition default_baseline :: StorageBaseline where
  "default_baseline = \<lparr>sb_layout = default_layout, sb_startup = default_startup, sb_raw = [],
     sb_runtime_probe = 0, sb_raw_crc = 0, sb_captured = False\<rparr>"

section \<open>CRC\<close>

definition crcBit :: "u16 \<Rightarrow> u16" where
  "crcBit crc = (if crc AND 0x8000 \<noteq> 0 then push_bit 1 crc XOR 0x1021 else push_bit 1 crc)"

definition crcByte :: "u16 \<Rightarrow> u8 \<Rightarrow> u16" where
  "crcByte crc byte = (crcBit ^^ 8) (crc XOR push_bit 8 (ucast byte))"

definition crc16Ccitt :: "u8 list \<Rightarrow> u16" where
  "crc16Ccitt data = foldl crcByte 0 data"

section \<open>Diagnostic commands\<close>

definition readDiagnostic ::
    "'a sdo_type \<Rightarrow> lely \<Rightarrow> DiagnosticSubindex \<Rightarrow> 'a \<Rightarrow> (bool \<times> 'a) host" where
  "readDiagnostic T M field value = do {
     (result, value') \<leftarrow> readRemoteSdo T M CANOPEN_SLAVE_NODE_ID kDiagnosticIndex (diagnosticSub field) value;
     return (result = SUCCESS, value') }"

definition writeDiagnostic ::
    "'a sdo_type \<Rightarrow> lely \<Rightarrow> DiagnosticSubindex \<Rightarrow> 'a \<Rightarrow> bool host" where
  "writeDiagnostic T M field value = do {
     result \<leftarrow> writeRemoteSdo M CANOPEN_SLAVE_NODE_ID kDiagnosticIndex (diagnosticSub field) (t_value T value);
     return (result = SUCCESS) }"

text \<open>The body of the polling loop.  \<open>returned\<close> is the optional out-parameter: \<open>None\<close> for a
  null pointer, otherwise the value it points to.\<close>

definition pollCommand ::
    "lely \<Rightarrow> u32 \<Rightarrow> u32 option \<Rightarrow> unit \<Rightarrow> (unit + bool \<times> u32 option) host" where
  "pollCommand M request_seq returned u = do {
     (ok, complete_seq) \<leftarrow> readDiagnostic tU32 M COMPLETE_SEQ 0;
     if \<not> ok then return (Inr (False, returned))
     else if complete_seq = request_seq then do {
       (ok, result) \<leftarrow> readDiagnostic tI32 M RESULT 0;
       if \<not> ok then return (Inr (False, returned))
       else if result \<noteq> diagnosticSuccess then return (Inr (False, returned))
       else case returned of
         None \<Rightarrow> return (Inr (True, None))
       | Some v \<Rightarrow> do {
           (ok, v') \<leftarrow> readDiagnostic tU32 M RAW_VALUE v;
           return (Inr (ok, Some v'))
         }
     }
     else do {
       sleep_for M (ms kDiagnosticPoll);
       return (Inl ())
     } }"

definition nextRequestSeq :: "u32 \<Rightarrow> u32" where
  "nextRequestSeq s = (if s + 1 = 0 then s + 1 + 1 else s + 1)"

definition runDiagnosticCommand ::
    "lely \<Rightarrow> DiagnosticCommand \<Rightarrow> u32 \<Rightarrow> u8 \<Rightarrow> u32 \<Rightarrow> u32 option \<Rightarrow> (bool \<times> u32 option) host" where
  "runDiagnosticCommand M cmd raw_offset raw_size raw_value returned = do {
     (ok, seq) \<leftarrow> readDiagnostic tU32 M REQUEST_SEQ 0;
     if \<not> ok then return (False, returned)
     else do {
       let request_seq = nextRequestSeq seq;
       committed \<leftarrow>
         andM (writeDiagnostic tU8 M ENTRY_SUB_INDEX kCommStorageSubindex)
        (andM (writeDiagnostic tU32 M RAW_OFFSET raw_offset)
        (andM (writeDiagnostic tU8 M RAW_SIZE raw_size)
        (andM (writeDiagnostic tU32 M RAW_VALUE raw_value)
        (andM (writeDiagnostic tU8 M COMMAND (diagnosticCommandCode cmd))
              (writeDiagnostic tU32 M REQUEST_SEQ request_seq)))));
       if \<not> committed then return (False, returned)
       else do {
         start \<leftarrow> steady_now M;
         let deadline = start + ms kDiagnosticTimeout;
         r \<leftarrow> deadline_loop M deadline (pollCommand M request_seq returned) ();
         case r of Inr x \<Rightarrow> return x | Inl _ \<Rightarrow> return (False, returned)
       }
     } }"

text \<open>The calls that leave the trailing arguments at their defaults.\<close>

definition runPlainCommand :: "lely \<Rightarrow> DiagnosticCommand \<Rightarrow> bool host" where
  "runPlainCommand M cmd = do {
     (ok, returned) \<leftarrow> runDiagnosticCommand M cmd 0 4 0 None; return ok }"

section \<open>Layout and startup snapshots\<close>

text \<open>One link of an \<open>&&\<close> chain of reads into the fields of a structure.\<close>

definition readInto ::
    "'a sdo_type \<Rightarrow> lely \<Rightarrow> DiagnosticSubindex \<Rightarrow> ('s \<Rightarrow> 'a) \<Rightarrow> ('a \<Rightarrow> 's \<Rightarrow> 's) \<Rightarrow>
       bool \<times> 's \<Rightarrow> (bool \<times> 's) host" where
  "readInto T M field get put r = (case r of (ok, st) \<Rightarrow>
     if \<not> ok then return (False, st)
     else do {
       (ok, v) \<leftarrow> readDiagnostic T M field (get st);
       return (ok, put v st) })"

definition readLayout :: "lely \<Rightarrow> StorageLayout \<Rightarrow> (bool \<times> StorageLayout) host" where
  "readLayout M l = do {
     ok \<leftarrow> runPlainCommand M REFRESH;
     r \<leftarrow> readInto tU32 M STORAGE_OFFSET storage_offset (\<lambda>v l. l\<lparr>storage_offset := v\<rparr>) (ok, l);
     r \<leftarrow> readInto tU32 M EEPROM_SIZE eeprom_size (\<lambda>v l. l\<lparr>eeprom_size := v\<rparr>) r;
     r \<leftarrow> readInto tU16 M PAGE_SIZE page_size (\<lambda>v l. l\<lparr>page_size := v\<rparr>) r;
     r \<leftarrow> readInto tU8 M ADDR_INPUT addr_input (\<lambda>v l. l\<lparr>addr_input := v\<rparr>) r;
     r \<leftarrow> readInto tU32 M SIGNATURE_ADDRESS signature_address (\<lambda>v l. l\<lparr>signature_address := v\<rparr>) r;
     r \<leftarrow> readInto tU32 M DATA_ADDRESS data_address (\<lambda>v l. l\<lparr>data_address := v\<rparr>) r;
     r \<leftarrow> readInto tU32 M DATA_LENGTH data_length (\<lambda>v l. l\<lparr>data_length := v\<rparr>) r;
     r \<leftarrow> readInto tU32 M RAW_START raw_start (\<lambda>v l. l\<lparr>raw_start := v\<rparr>) r;
     r \<leftarrow> readInto tU32 M RAW_LENGTH raw_length (\<lambda>v l. l\<lparr>raw_length := v\<rparr>) r;
     readInto tU32 M SIGNATURE_VALUE signature_value (\<lambda>v l. l\<lparr>signature_value := v\<rparr>) r }"

definition readStartup :: "lely \<Rightarrow> StartupSnapshot \<Rightarrow> (bool \<times> StartupSnapshot) host" where
  "readStartup M st = do {
     (ok, state) \<leftarrow> readDiagnostic tU8 M STARTUP_STATE 0;
     r \<leftarrow> readInto tI32 M STARTUP_RESULT startup_result (\<lambda>v s. s\<lparr>startup_result := v\<rparr>) (ok, st);
     r \<leftarrow> readInto tU32 M STARTUP_ERROR startup_error (\<lambda>v s. s\<lparr>startup_error := v\<rparr>) r;
     r \<leftarrow> readInto tU32 M STARTUP_SEQ startup_sequence (\<lambda>v s. s\<lparr>startup_sequence := v\<rparr>) r;
     (ok, st) \<leftarrow> readInto tU16 M STARTUP_PROBE startup_probe (\<lambda>v s. s\<lparr>startup_probe := v\<rparr>) r;
     if \<not> ok then return (False, st) else return (True, st\<lparr>startup_state := state\<rparr>) }"

definition validateLayout :: "StorageLayout \<Rightarrow> bool" where
  "validateLayout l =
     (let raw_end = (ucast (raw_start l) :: u64) + ucast (raw_length l);
          data_end = (ucast (data_address l) :: u64) + ucast (data_length l)
      in \<not> (eeprom_size l \<noteq> kExpectedEepromSize \<or> page_size l \<noteq> kExpectedPageSize
            \<or> addr_input l \<noteq> kExpectedAddrInput \<or> raw_length l = 0
            \<or> storage_offset l \<noteq> signature_address l \<or> raw_start l \<noteq> storage_offset l
            \<or> data_address l < signature_address l \<or> data_end \<noteq> raw_end
            \<or> raw_end > ucast (eeprom_size l) \<or> data_length l > 0xFFFF))"

section \<open>Raw region\<close>

definition chunkSize :: "u32 \<Rightarrow> u32 \<Rightarrow> u8" where
  "chunkSize len offset = ucast (min 4 (len - offset))"

definition unpackChunk :: "u32 \<Rightarrow> u8 \<Rightarrow> u32 \<Rightarrow> u8 list \<Rightarrow> u8 list" where
  "unpackChunk offset chunk word bytes =
     fold (\<lambda>i bs. bs[unat offset + i := ucast (drop_bit (8 * i) word)]) [0..<unat chunk] bytes"

definition packChunk :: "u32 \<Rightarrow> u8 \<Rightarrow> u8 list \<Rightarrow> u32" where
  "packChunk offset chunk bytes =
     fold (\<lambda>i word. word OR push_bit (8 * i) (ucast (bytes ! (unat offset + i)))) [0..<unat chunk] 0"

lemma chunk_unat: "unat (chunkSize len offset) = min 4 (unat (len - offset))"
proof -
  have "min 4 (len - offset) \<le> 4" by simp
  then have le: "unat (min 4 (len - offset)) \<le> 4" by (simp add: word_le_nat_alt)
  have "unat (chunkSize len offset) = unat (min 4 (len - offset))"
    using le by (simp add: chunkSize_def unsigned_ucast_eq take_bit_eq_mod)
  also have "\<dots> = min 4 (unat (len - offset))"
    by (simp add: min_def word_le_nat_alt)
  finally show ?thesis .
qed

lemma chunk_progress:
  assumes "offset < (len :: u32)"
  shows "unat (len - (offset + ucast (chunkSize len offset))) < unat (len - offset)"
    and "offset + ucast (chunkSize len offset) \<le> len"
    and "unat (offset + ucast (chunkSize len offset)) = unat offset + unat (chunkSize len offset)"
proof -
  let ?c = "ucast (chunkSize len offset) :: u32"
  have c: "unat ?c = min 4 (unat (len - offset))" by (simp add: chunk_unat)
  have d: "unat (len - offset) = unat len - unat offset" "unat offset < unat len"
    using assms unat_sub [OF order.strict_implies_order, of offset len]
    by (auto simp: word_less_nat_alt)
  have sum: "unat (offset + ?c) = unat offset + unat ?c"
    using c d unat_u32_less [of len] by (intro unat_add_lem [THEN iffD1]) simp
  then show "unat (offset + ?c) = unat offset + unat (chunkSize len offset)" by simp
  show le: "offset + ?c \<le> len" using sum c d by (simp add: word_le_nat_alt)
  show "unat (len - (offset + ?c)) < unat (len - offset)"
    using sum c d le by (simp add: unat_sub)
qed

function readRawLoop ::
    "lely \<Rightarrow> u32 \<Rightarrow> u32 \<Rightarrow> u8 list \<Rightarrow> (bool \<times> u8 list) host" where
  "readRawLoop M len offset bytes =
     (if offset < len then do {
        let chunk = chunkSize len offset;
        (ok, word) \<leftarrow> runDiagnosticCommand M RAW_READ offset chunk 0 (Some 0);
        if \<not> ok then return (False, bytes)
        else readRawLoop M len (offset + ucast (chunkSize len offset))
               (unpackChunk offset chunk (the word) bytes)
      } else return (True, bytes))"
  by pat_completeness auto
termination
  by (relation "measure (\<lambda>(M, len, offset, bytes). unat (len - offset))")
     (auto intro: chunk_progress)

declare readRawLoop.simps [simp del]

definition readRawRegion :: "lely \<Rightarrow> StorageLayout \<Rightarrow> u8 list \<Rightarrow> (bool \<times> u8 list) host" where
  "readRawRegion M l bytes = readRawLoop M (raw_length l) 0 (replicate (unat (raw_length l)) 0)"

function writeRawLoop :: "lely \<Rightarrow> u32 \<Rightarrow> u8 list \<Rightarrow> u32 \<Rightarrow> bool host" where
  "writeRawLoop M len bytes offset =
     (if offset < len then do {
        let chunk = chunkSize len offset;
        let word = packChunk offset chunk bytes;
        (ok, _) \<leftarrow> runDiagnosticCommand M RAW_WRITE offset chunk word None;
        if \<not> ok then return False
        else writeRawLoop M len bytes (offset + ucast (chunkSize len offset))
      } else return True)"
  by pat_completeness auto
termination
  by (relation "measure (\<lambda>(M, len, bytes, offset). unat (len - offset))")
     (auto intro: chunk_progress)

declare writeRawLoop.simps [simp del]

definition restoreRawRegion :: "lely \<Rightarrow> StorageBaseline \<Rightarrow> bool host" where
  "restoreRawRegion M baseline = do {
     written \<leftarrow> writeRawLoop M (raw_length (sb_layout baseline)) (sb_raw baseline) 0;
     if \<not> written then return False
     else do {
       (ok, verify) \<leftarrow> readRawRegion M (sb_layout baseline) [];
       return (ok \<and> verify = sb_raw baseline)
     } }"

section \<open>Baseline, outage windows and checks\<close>

definition captureBaseline :: "lely \<Rightarrow> StorageBaseline \<Rightarrow> (bool \<times> StorageBaseline) host" where
  "captureBaseline M b = do {
     (ok, l) \<leftarrow> readLayout M (sb_layout b);
     let b = b\<lparr>sb_layout := l\<rparr>;
     if \<not> ok \<or> \<not> validateLayout (sb_layout b) then return (False, b)
     else do {
       (ok, st) \<leftarrow> readStartup M (sb_startup b);
       let b = b\<lparr>sb_startup := st\<rparr>;
       if \<not> ok then return (False, b)
       else do {
         (result, v) \<leftarrow> readRemoteSdo tU16 M CANOPEN_SLAVE_NODE_ID kProbeIndex 0x00
                          (sb_runtime_probe b);
         let b = b\<lparr>sb_runtime_probe := v\<rparr>;
         if result \<noteq> SUCCESS then return (False, b)
         else do {
           backed_up \<leftarrow> runPlainCommand M BACKUP;
           if \<not> backed_up then return (False, b)
           else do {
             (ok, target_backup_valid) \<leftarrow> readDiagnostic tU8 M BACKUP_VALID 0;
             if \<not> ok then return (False, b)
             else do {
               (ok, target_backup_crc) \<leftarrow> readDiagnostic tU16 M BACKUP_CRC 0;
               if \<not> ok then return (False, b)
               else if target_backup_valid = 0 then return (False, b)
               else do {
                 (ok, bytes) \<leftarrow> readRawRegion M (sb_layout b) (sb_raw b);
                 let b = b\<lparr>sb_raw := bytes\<rparr>;
                 if \<not> ok then return (False, b)
                 else do {
                   let b = b\<lparr>sb_raw_crc := crc16Ccitt (sb_raw b)\<rparr>;
                   if sb_raw_crc b \<noteq> target_backup_crc then return (False, b)
                   else return (True, b\<lparr>sb_captured := True\<rparr>)
                 } } } } } } } }"

definition suspendHeartbeatConsumer :: "lely \<Rightarrow> (bool \<times> u32) host" where
  "suspendHeartbeatConsumer M = do {
     (saved_consumer, error) \<leftarrow> local_read lU32 M kHeartbeatConsumerIndex kHeartbeatConsumerSubindex;
     if failed error then return (False, saved_consumer)
     else do {
       error \<leftarrow> local_write M kHeartbeatConsumerIndex kHeartbeatConsumerSubindex (V32 0);
       if failed error then return (False, saved_consumer) else return (True, saved_consumer)
     } }"

definition restoreHeartbeatConsumer :: "lely \<Rightarrow> u32 \<Rightarrow> bool host" where
  "restoreHeartbeatConsumer M saved_consumer = do {
     error \<leftarrow> local_write M kHeartbeatConsumerIndex kHeartbeatConsumerSubindex (V32 saved_consumer);
     if failed error then return False else return True }"

definition resetNodeAndWait :: "lely \<Rightarrow> bool host" where
  "resetNodeAndWait M = do {
     (suspended, saved_consumer) \<leftarrow> suspendHeartbeatConsumer M;
     if \<not> suspended then return False
     else do {
       prepareBootWait;
       reset_completed \<leftarrow> andM (issueNmtCommand M RESET_NODE CANOPEN_SLAVE_NODE_ID)
                                (waitForBootCompletion M CANOPEN_WAIT_TIMEOUT_MS);
       supervision_restored \<leftarrow> restoreHeartbeatConsumer M saved_consumer;
       return (reset_completed \<and> supervision_restored)
     } }"

definition validateStorageObjects :: "lely \<Rightarrow> bool host" where
  "validateStorageObjects M = do {
     (result, save_capability) \<leftarrow> readRemoteSdo tU32 M CANOPEN_SLAVE_NODE_ID kStoreIndex
                                   kCommStorageSubindex 0;
     if result \<noteq> SUCCESS then return False
     else do {
       (result, restore_capability) \<leftarrow> readRemoteSdo tU32 M CANOPEN_SLAVE_NODE_ID kRestoreIndex
                                        kCommStorageSubindex 0;
       if result \<noteq> SUCCESS then return False
       else return (\<not> (save_capability AND 1 = 0 \<or> restore_capability AND 1 = 0))
     } }"

definition chooseProbe :: "u16 \<Rightarrow> u16 \<Rightarrow> u16" where
  "chooseProbe baseline preferred =
     (if baseline = preferred then preferred XOR 0x0111 else preferred)"

definition saveProbe :: "lely \<Rightarrow> u16 \<Rightarrow> bool host" where
  "saveProbe M probe = do {
     result \<leftarrow> writeRemoteSdo M CANOPEN_SLAVE_NODE_ID kProbeIndex 0x00 (V16 probe);
     if result \<noteq> SUCCESS then return False
     else do {
       result \<leftarrow> writeRemoteSdo M CANOPEN_SLAVE_NODE_ID kStoreIndex kCommStorageSubindex
                   (V32 kSaveMagic);
       return (result = SUCCESS)
     } }"

definition expectStartup :: "lely \<Rightarrow> StartupState \<Rightarrow> u16 \<Rightarrow> bool \<Rightarrow> bool host" where
  "expectStartup M state probe require_comm_corruption = do {
     (ok, st) \<leftarrow> readStartup M default_startup;
     return (\<not> (\<not> ok \<or> startup_state st \<noteq> state \<or> startup_probe st \<noteq> probe
        \<or> (require_comm_corruption \<and> startup_error st AND kCommCorruptionBit = 0))) }"

definition expectBaselineStartup :: "lely \<Rightarrow> StartupSnapshot \<Rightarrow> bool host" where
  "expectBaselineStartup M baseline = do {
     (ok, current) \<leftarrow> readStartup M default_startup;
     return (\<not> (\<not> ok \<or> startup_state current \<noteq> startup_state baseline
        \<or> startup_result current \<noteq> startup_result baseline
        \<or> startup_error current \<noteq> startup_error baseline
        \<or> startup_probe current \<noteq> startup_probe baseline)) }"

definition cleanupBaseline :: "lely \<Rightarrow> StorageBaseline \<Rightarrow> bool host" where
  "cleanupBaseline M baseline =
     (if \<not> sb_captured baseline then return False
      else do {
        ok \<leftarrow> andM (restoreRawRegion M baseline)
             (andM (resetNodeAndWait M) (expectBaselineStartup M (sb_startup baseline)));
        if \<not> ok then return False
        else do {
          result \<leftarrow> writeRemoteSdo M CANOPEN_SLAVE_NODE_ID kProbeIndex 0x00
                      (V16 (sb_runtime_probe baseline));
          if result \<noteq> SUCCESS then return False else return True
        } })"

section \<open>Modes\<close>

text \<open>
  \<open>passed\<close> is threaded as the code does; a step guarded by \<open>if (passed)\<close> is
  \<open>andM (return passed)\<close>.  In \<open>runCoreMode\<close> the code evaluates the save only if the backup check
  passed (\<open>passed && saveProbe\<close>).
\<close>

definition dataOffset :: "StorageLayout \<Rightarrow> u32" where
  "dataOffset l = data_address l - raw_start l"

definition runCoreMode :: "lely \<Rightarrow> int host" where
  "runCoreMode M = do {
     (ok, l) \<leftarrow> readLayout M default_layout;
     valid \<leftarrow> andM (return (ok \<and> validateLayout l)) (validateStorageObjects M);
     if \<not> valid then return 1
     else do {
       (captured, baseline) \<leftarrow> captureBaseline M default_baseline;
       if \<not> captured then return 1
       else do {
         let data_offset = dataOffset (sb_layout baseline);
         let mutated = (sb_raw baseline ! unat data_offset) XOR 0x01;
         (ok, returned) \<leftarrow> runDiagnosticCommand M RAW_WRITE data_offset 1 (ucast mutated) None;
         restored_ok \<leftarrow> andM (return ok) (runPlainCommand M RESTORE);
         passed \<leftarrow> (if \<not> restored_ok then return False
           else do {
             (ok, restored) \<leftarrow> readRawRegion M (sb_layout baseline) [];
             return (ok \<and> restored = sb_raw baseline)
           });
         let probe1 = chooseProbe (sb_runtime_probe baseline) 0x0555;
         let probe2 = chooseProbe probe1 0x0666;
         saved \<leftarrow> andM (return passed) (saveProbe M probe1);
         passed \<leftarrow> (if saved then do {
             (ok, saved_layout) \<leftarrow> readLayout M default_layout;
             return (ok \<and> signature_value saved_layout AND 0xFFFF = data_length saved_layout)
           } else return False);
         passed \<leftarrow> andM (return passed)
           (andM (resetNodeAndWait M) (expectStartup M startup_OK probe1 False));
         passed \<leftarrow> andM (return passed)
           (andM (saveProbe M probe2)
           (andM (resetNodeAndWait M) (expectStartup M startup_OK probe2 False)));
         cleaned \<leftarrow> cleanupBaseline M baseline;
         return (if passed \<and> cleaned then 0 else 1)
       } } }"

definition runRestoreMode :: "lely \<Rightarrow> int host" where
  "runRestoreMode M = do {
     (captured, baseline) \<leftarrow> captureBaseline M default_baseline;
     if \<not> captured then return 1
     else do {
       let probe = chooseProbe (sb_runtime_probe baseline) 0x0777;
       saved \<leftarrow> saveProbe M probe;
       loaded \<leftarrow> (if \<not> saved then return False
         else do {
           result \<leftarrow> writeRemoteSdo M CANOPEN_SLAVE_NODE_ID kRestoreIndex kCommStorageSubindex
                       (V32 kRestoreMagic);
           return (result = SUCCESS)
         });
       passed \<leftarrow> (if \<not> loaded then return False
         else do {
           (ok, l) \<leftarrow> readLayout M default_layout;
           return (ok \<and> signature_value l = 0xFFFFFFFF)
         });
       passed \<leftarrow> andM (return passed)
         (andM (resetNodeAndWait M) (expectStartup M startup_DATA_CORRUPT kFactoryProbe True));
       cleaned \<leftarrow> cleanupBaseline M baseline;
       return (if passed \<and> cleaned then 0 else 1)
     } }"

definition stageValidImage :: "lely \<Rightarrow> u16 \<Rightarrow> bool host" where
  "stageValidImage M probe = saveProbe M probe"

definition runCorruptionMode :: "lely \<Rightarrow> int host" where
  "runCorruptionMode M = do {
     (captured, baseline) \<leftarrow> captureBaseline M default_baseline;
     if \<not> captured then return 1
     else do {
       let signature_probe = chooseProbe (sb_runtime_probe baseline) 0x0888;
       let data_probe = chooseProbe signature_probe 0x0999;
       passed \<leftarrow> andM (stageValidImage M signature_probe)
         (andM (runPlainCommand M CORRUPT_SIGNATURE)
         (andM (resetNodeAndWait M) (expectStartup M startup_DATA_CORRUPT kFactoryProbe True)));
       passed \<leftarrow> andM (return passed)
         (andM (restoreRawRegion M baseline) (stageValidImage M data_probe));
       passed \<leftarrow> (if passed then do {
           (ok, l) \<leftarrow> readLayout M default_layout;
           if ok then do {
             (ok, returned) \<leftarrow> runDiagnosticCommand M CORRUPT_DATA (dataOffset l) 1 0 None;
             andM (return ok)
               (andM (resetNodeAndWait M) (expectStartup M startup_DATA_CORRUPT data_probe True))
           } else return False
         } else return False);
       cleaned \<leftarrow> cleanupBaseline M baseline;
       return (if passed \<and> cleaned then 0 else 1)
     } }"

definition waitForOperatorPowerCycle :: "lely \<Rightarrow> bool host" where
  "waitForOperatorPowerCycle M = do {
     (suspended, saved_consumer) \<leftarrow> suspendHeartbeatConsumer M;
     if \<not> suspended then return False
     else do {
       prepareBootWait;
       boot_completed \<leftarrow> waitForBootCompletion M CANOPEN_STORAGE_OPERATOR_TIMEOUT_MS;
       supervision_restored \<leftarrow> restoreHeartbeatConsumer M saved_consumer;
       return (boot_completed \<and> supervision_restored)
     } }"

definition runPowerCycleMode :: "lely \<Rightarrow> int host" where
  "runPowerCycleMode M = do {
     (captured, baseline) \<leftarrow> captureBaseline M default_baseline;
     if \<not> captured then return 1
     else do {
       let probe = chooseProbe (sb_runtime_probe baseline) 0x0AAA;
       saved \<leftarrow> saveProbe M probe;
       passed \<leftarrow> (if \<not> saved then return False
         else andM (waitForOperatorPowerCycle M) (expectStartup M startup_OK probe False));
       passed \<leftarrow> andM (return passed) (restoreRawRegion M baseline);
       passed \<leftarrow> andM (return passed) (andM (waitForOperatorPowerCycle M)
         (expectStartup M (startup_state (sb_startup baseline))
            (startup_probe (sb_startup baseline))
            (startup_state (sb_startup baseline) = startup_DATA_CORRUPT)));
       cleaned \<leftarrow> cleanupBaseline M baseline;
       return (if passed \<and> cleaned then 0 else 1)
     } }"

text \<open>The classification of the image found after the interrupted save.\<close>

definition classifyInterrupted :: "bool \<Rightarrow> StartupSnapshot \<Rightarrow> u16 \<Rightarrow> u16 \<Rightarrow> bool" where
  "classifyInterrupted ok st old_probe new_probe =
     (if ok \<and> startup_state st = startup_DATA_CORRUPT then startup_error st AND kCommCorruptionBit \<noteq> 0
      else if ok \<and> startup_state st = startup_OK
        then startup_probe st = old_probe \<or> startup_probe st = new_probe
      else False)"

definition interruptedSave :: "lely \<Rightarrow> bool host" where
  "interruptedSave M = do {
     (suspended, saved_consumer) \<leftarrow> suspendHeartbeatConsumer M;
     if \<not> suspended then return False
     else do {
       prepareBootWait;
       save_result \<leftarrow> writeRemoteSdo M CANOPEN_SLAVE_NODE_ID kStoreIndex kCommStorageSubindex
                        (V32 kSaveMagic);
       booted \<leftarrow> (if save_result = SUCCESS then return False
                  else waitForBootCompletion M CANOPEN_STORAGE_OPERATOR_TIMEOUT_MS);
       restored \<leftarrow> restoreHeartbeatConsumer M saved_consumer;
       return (booted \<and> restored)
     } }"

definition runPowerInterruptionMode :: "lely \<Rightarrow> int host" where
  "runPowerInterruptionMode M = do {
     (captured, baseline) \<leftarrow> captureBaseline M default_baseline;
     if \<not> captured then return 1
     else do {
       let old_probe = chooseProbe (sb_runtime_probe baseline) 0x0BBB;
       let new_probe = chooseProbe old_probe 0x0CCC;
       passed \<leftarrow> stageValidImage M old_probe;
       passed \<leftarrow> (if passed then do {
           result \<leftarrow> writeRemoteSdo M CANOPEN_SLAVE_NODE_ID kProbeIndex 0x00 (V16 new_probe);
           return (result = SUCCESS)
         } else return False);
       passed \<leftarrow> (if passed then interruptedSave M else return False);
       passed \<leftarrow> (if passed then do {
           (ok, st) \<leftarrow> readStartup M default_startup;
           return (classifyInterrupted ok st old_probe new_probe)
         } else return False);
       cleaned \<leftarrow> cleanupBaseline M baseline;
       return (if passed \<and> cleaned then 0 else 1)
     } }"

text \<open>\<open>mode_env\<close> is the value of \<open>CANOPEN_STORAGE_MODE\<close> in the environment of the process.\<close>

definition storageProcess :: "lely \<Rightarrow> string option \<Rightarrow> int host" where
  "storageProcess M mode_env =
     (let mode = (case mode_env of None \<Rightarrow> ''core'' | Some m \<Rightarrow> m) in
      if mode = ''core'' then runCoreMode M
      else if mode = ''restore'' then runRestoreMode M
      else if mode = ''corruption'' then runCorruptionMode M
      else if mode = ''power-cycle'' then runPowerCycleMode M
      else if mode = ''power-interruption'' then runPowerInterruptionMode M
      else return 1)"

section \<open>The CRC detects every single corrupted byte\<close>

lemma top_bit: "(c :: u16) AND 0x8000 \<noteq> 0 \<longleftrightarrow> bit c 15"
proof -
  have "(0x8000 :: u16) = push_bit 15 1" by (simp add: push_bit_eq_mult)
  then show ?thesis by (simp add: bit_iff_and_push_bit_not_eq_0)
qed

lemma crcBit_bits:
  "bit (crcBit c) n \<longleftrightarrow> n < 16 \<and> ((0 < n \<and> bit c (n - 1)) \<noteq> (bit c 15 \<and> (n = 0 \<or> n = 5 \<or> n = 12)))"
proof -
  have poly: "bit (0x1021 :: u16) n \<longleftrightarrow> n = 0 \<or> n = 5 \<or> n = 12"
  proof -
    have "(0x1021 :: u16) = push_bit 12 1 OR push_bit 5 1 OR 1" by simp
    then show ?thesis by (simp only: bit_or_iff bit_push_bit_iff bit_1_iff) auto
  qed
  show ?thesis
    unfolding crcBit_def top_bit if_distrib [where f = "\<lambda>x. bit x n"]
    by (simp only: bit_xor_iff bit_push_bit_iff poly) (auto dest: bit_imp_le_length)
qed

lemma crcBit_inj [simp]: "crcBit a = crcBit b \<longleftrightarrow> a = b"
proof
  assume eq: "crcBit a = crcBit b"
  have top: "bit a 15 = bit b 15"
    using crcBit_bits [of a 0] crcBit_bits [of b 0] eq by simp
  have low: "bit a n = bit b n" if "n < 15" for n
    using crcBit_bits [of a "Suc n"] crcBit_bits [of b "Suc n"] eq that top by auto
  show "a = b"
  proof (rule bit_word_eqI)
    fix n assume "n < LENGTH(16)"
    then show "bit a n = bit b n" using top low by (cases "n = 15") auto
  qed
qed simp

lemma crcBits_inj: "(crcBit ^^ k) a = (crcBit ^^ k) b \<longleftrightarrow> a = b"
  by (induction k) auto

lemma xor_right_inj [simp]: "(a :: 'a::len word) XOR c = b XOR c \<longleftrightarrow> a = b"
  "c XOR (a :: 'a::len word) = c XOR b \<longleftrightarrow> a = b"
  by (metis xor.assoc xor.commute xor_self_eq xor.left_neutral)+

lemma high_byte_inj: "push_bit 8 (ucast a :: u16) = push_bit 8 (ucast b) \<longleftrightarrow> (a :: u8) = b"
proof
  assume eq: "push_bit 8 (ucast a :: u16) = push_bit 8 (ucast b)"
  show "a = b"
  proof (rule bit_word_eqI)
    fix n assume n: "n < LENGTH(8)"
    have "bit (push_bit 8 (ucast x :: u16)) (n + 8) = bit x n" for x :: u8
      using n by (simp add: bit_simps)
    then show "bit a n = bit b n" using eq by metis
  qed
qed simp

lemma crcByte_inj: "crcByte c x = crcByte c y \<longleftrightarrow> x = y" "crcByte c x = crcByte d x \<longleftrightarrow> c = d"
  by (simp_all add: crcByte_def crcBits_inj high_byte_inj)

lemma foldl_crcByte_inj: "foldl crcByte c xs = foldl crcByte d xs \<longleftrightarrow> c = d"
  by (induction xs arbitrary: c d) (auto simp: crcByte_inj)

lemma crc16_one_byte:
  "crc16Ccitt (xs @ x # ys) = crc16Ccitt (xs @ y # ys) \<longleftrightarrow> x = y"
  by (simp add: crc16Ccitt_def foldl_crcByte_inj crcByte_inj)

section \<open>Chunks\<close>

lemma fold_update_length [simp]:
  "length (fold (\<lambda>i bs. bs[f i := g i]) is bs) = length bs"
  by (induction "is" arbitrary: bs) auto

lemma unpackChunk_nth:
  assumes "unat off + unat c \<le> length bs" and "k < length bs"
  shows "unpackChunk off c word bs ! k =
     (if unat off \<le> k \<and> k < unat off + unat c
      then ucast (drop_bit (8 * (k - unat off)) word) else bs ! k)"
proof -
  have "fold (\<lambda>i bs. bs[unat off + i := ucast (drop_bit (8 * i) word)]) [0..<n] bs ! k =
     (if unat off \<le> k \<and> k < unat off + n
      then ucast (drop_bit (8 * (k - unat off)) word) else bs ! k)" if "unat off + n \<le> length bs" for n
    using that by (induction n) (auto simp: nth_list_update)
  then show ?thesis using assms by (simp add: unpackChunk_def)
qed

lemma packChunk_bit:
  assumes "unat c \<le> 4"
  shows "bit (packChunk off c bs) k \<longleftrightarrow> k < 8 * unat c \<and> bit (bs ! (unat off + k div 8)) (k mod 8)"
proof -
  have step: "bit (fold (\<lambda>i word :: u32. word OR push_bit (8 * i) (ucast (bs ! (unat off + i)))) [0..<n] 0) k
     \<longleftrightarrow> k < 8 * n \<and> bit (bs ! (unat off + k div 8)) (k mod 8)" if "n \<le> 4" for n
    using that
  proof (induction n)
    case (Suc n)
    have "bit (push_bit (8 * n) (ucast (bs ! (unat off + n)) :: u32)) k
        \<longleftrightarrow> 8 * n \<le> k \<and> k < 32 \<and> bit (bs ! (unat off + n)) (k - 8 * n)"
      by (auto simp: bit_simps)
    moreover have "bit (bs ! (unat off + n)) (k - 8 * n) \<Longrightarrow> k - 8 * n < 8"
      using bit_imp_le_length [of "bs ! (unat off + n)" "k - 8 * n"] by simp
    moreover have "8 * n \<le> k \<Longrightarrow> k - 8 * n < 8 \<Longrightarrow> k div 8 = n \<and> k mod 8 = k - 8 * n"
      by (metis div_nat_eqI le_add_diff_inverse less_diff_conv2 mult.commute mod_div_mult_eq add_diff_cancel_right' minus_mod_eq_mult_div mult_Suc_right add.commute)
    ultimately show ?case using Suc by (auto simp: bit_or_iff)
  qed simp
  then show ?thesis using assms by (simp add: packChunk_def)
qed

lemma packChunk_byte:
  assumes "unat c \<le> 4" and "i < unat c"
  shows "ucast (drop_bit (8 * i) (packChunk off c bs)) = bs ! (unat off + i)"
proof (rule bit_word_eqI)
  fix n assume "n < LENGTH(8)"
  then show "bit (ucast (drop_bit (8 * i) (packChunk off c bs)) :: u8) n = bit (bs ! (unat off + i)) n"
    using assms by (auto simp: bit_simps packChunk_bit)
qed

lemma unpack_pack:
  assumes "unat c \<le> 4" and "unat off + unat c \<le> length bs" and "length bs = length xs"
    and "k < length bs"
  shows "unpackChunk off c (packChunk off c xs) bs ! k =
     (if unat off \<le> k \<and> k < unat off + unat c then xs ! k else bs ! k)"
  using assms by (auto simp: unpackChunk_nth packChunk_byte)

section \<open>Footprints\<close>

text \<open>The mutations that leave the stored image alone: the arguments and the sequence number of a
  diagnostic command, and the three commands that only read the image or copy it to target RAM.\<close>

abbreviation diagnostic_write :: "DiagnosticSubindex \<Rightarrow> sdo_value \<Rightarrow> mutation" where
  "diagnostic_write field v \<equiv>
     RemoteWrite CANOPEN_SLAVE_NODE_ID kDiagnosticIndex (diagnosticSub field) v"

definition argument_write :: "mutation \<Rightarrow> bool" where
  "argument_write m \<longleftrightarrow> (\<exists>v. m = diagnostic_write ENTRY_SUB_INDEX v \<or> m = diagnostic_write RAW_OFFSET v \<or>
     m = diagnostic_write RAW_SIZE v \<or> m = diagnostic_write RAW_VALUE v \<or>
     m = diagnostic_write REQUEST_SEQ v)"

definition command_write :: "DiagnosticCommand \<Rightarrow> mutation" where
  "command_write cmd = diagnostic_write COMMAND (V8 (diagnosticCommandCode cmd))"

definition harmless :: "mutation \<Rightarrow> bool" where
  "harmless m \<longleftrightarrow> argument_write m \<or> m = command_write REFRESH \<or> m = command_write BACKUP \<or>
     m = command_write RAW_READ"

definition storage_objects :: "mutation \<Rightarrow> bool" where
  "storage_objects m \<longleftrightarrow> argument_write m \<or> (\<exists>cmd. m = command_write cmd) \<or>
     (\<exists>p. m = RemoteWrite CANOPEN_SLAVE_NODE_ID kProbeIndex 0 (V16 p)) \<or>
     m = RemoteWrite CANOPEN_SLAVE_NODE_ID kStoreIndex kCommStorageSubindex (V32 kSaveMagic) \<or>
     m = RemoteWrite CANOPEN_SLAVE_NODE_ID kRestoreIndex kCommStorageSubindex (V32 kRestoreMagic) \<or>
     (\<exists>v. m = LocalWrite kHeartbeatConsumerIndex kHeartbeatConsumerSubindex (V32 v)) \<or>
     m = Nmt RESET_NODE CANOPEN_SLAVE_NODE_ID"

lemma argument_write_simps [simp]:
  "argument_write (diagnostic_write ENTRY_SUB_INDEX v)" "argument_write (diagnostic_write RAW_OFFSET v)"
  "argument_write (diagnostic_write RAW_SIZE v)" "argument_write (diagnostic_write RAW_VALUE v)"
  "argument_write (diagnostic_write REQUEST_SEQ v)"
  unfolding argument_write_def by blast+

lemma harmless_storage_objects: "harmless m \<Longrightarrow> storage_objects m"
  by (auto simp: harmless_def storage_objects_def)

lemma readDiagnostic_touches [emits_intro]: "touches S (readDiagnostic T M field v)"
  unfolding readDiagnostic_def by (intro emits_intro)

lemma writeDiagnostic_touches [emits_intro]:
  "S (diagnostic_write field (t_value T v)) \<Longrightarrow> touches S (writeDiagnostic T M field v)"
  unfolding writeDiagnostic_def by (intro emits_intro)

lemma readInto_touches [emits_intro]: "touches S (readInto T M field g p r)"
  unfolding readInto_def by (intro emits_intro)

lemma pollCommand_touches [emits_intro]: "touches S (pollCommand M s r u)"
  unfolding pollCommand_def by (intro emits_intro)

lemma runDiagnosticCommand_touches [emits_intro]:
  assumes "S (command_write cmd)" and "\<And>m. argument_write m \<Longrightarrow> S m"
  shows "touches S (runDiagnosticCommand M cmd off n v r)"
  unfolding runDiagnosticCommand_def Let_def
  by (intro emits_intro) (use assms in \<open>auto simp: command_write_def\<close>)

lemma runPlainCommand_touches [emits_intro]:
  assumes "S (command_write cmd)" and "\<And>m. argument_write m \<Longrightarrow> S m"
  shows "touches S (runPlainCommand M cmd)"
  unfolding runPlainCommand_def by (intro emits_intro assms)

lemma readRawLoop_touches:
  assumes "S (command_write RAW_READ)" and "\<And>m. argument_write m \<Longrightarrow> S m"
  shows "touches S (readRawLoop M len off bs)"
proof (induction M len off bs rule: readRawLoop.induct)
  case (1 M len off bs)
  show ?case
  proof (cases "off < len")
    case True
    with "1.IH" [OF True refl] show ?thesis
      by (subst readRawLoop.simps) (simp add: Let_def, intro emits_intro assms; simp)
  qed (subst readRawLoop.simps, simp add: emits_intro)
qed

lemma writeRawLoop_touches:
  assumes "S (command_write RAW_WRITE)" and "\<And>m. argument_write m \<Longrightarrow> S m"
  shows "touches S (writeRawLoop M len bs off)"
proof (induction M len bs off rule: writeRawLoop.induct)
  case (1 M len bs off)
  show ?case
  proof (cases "off < len")
    case True
    with "1.IH" [OF True refl refl] show ?thesis
      by (subst writeRawLoop.simps) (simp add: Let_def, intro emits_intro assms; simp)
  qed (subst writeRawLoop.simps, simp add: emits_intro)
qed

lemma harmless_intro [simp]:
  "harmless (command_write REFRESH)" "harmless (command_write BACKUP)"
  "harmless (command_write RAW_READ)" "argument_write m \<Longrightarrow> harmless m"
  by (simp_all add: harmless_def)

lemma storage_objects_intro [simp]:
  "storage_objects (command_write cmd)" "argument_write m \<Longrightarrow> storage_objects m"
  "storage_objects (RemoteWrite CANOPEN_SLAVE_NODE_ID kProbeIndex 0 (V16 p))"
  "storage_objects (RemoteWrite CANOPEN_SLAVE_NODE_ID kStoreIndex kCommStorageSubindex (V32 kSaveMagic))"
  "storage_objects (RemoteWrite CANOPEN_SLAVE_NODE_ID kRestoreIndex kCommStorageSubindex (V32 kRestoreMagic))"
  "storage_objects (LocalWrite kHeartbeatConsumerIndex kHeartbeatConsumerSubindex (V32 v))"
  "storage_objects (Nmt RESET_NODE CANOPEN_SLAVE_NODE_ID)"
  by (auto simp: storage_objects_def)

lemma storage_reads_harmless:
  "touches harmless (readLayout M l)" "touches harmless (readStartup M st)"
  "touches harmless (readRawRegion M l bs)" "touches harmless (validateStorageObjects M)"
  unfolding readLayout_def readStartup_def readRawRegion_def validateStorageObjects_def
  by ((intro emits_intro readRawLoop_touches; simp))+

lemma captureBaseline_harmless: "touches harmless (captureBaseline M b)"
  unfolding captureBaseline_def Let_def
  by (intro emits_intro storage_reads_harmless) simp_all

lemma storage_reads_touch [emits_intro]:
  "touches storage_objects (readLayout M l)" "touches storage_objects (readStartup M st)"
  "touches storage_objects (readRawRegion M l bs)"
  "touches storage_objects (validateStorageObjects M)"
  "touches storage_objects (captureBaseline M b)"
  by (rule touches_weaken [OF _ harmless_storage_objects],
      (rule storage_reads_harmless captureBaseline_harmless)+, assumption)+

lemma storage_steps_touch [emits_intro]:
  "touches storage_objects (suspendHeartbeatConsumer M)"
  "touches storage_objects (restoreHeartbeatConsumer M v)"
  "touches storage_objects (saveProbe M p)" "touches storage_objects (stageValidImage M p)"
  "touches storage_objects (expectStartup M s p c)"
  "touches storage_objects (expectBaselineStartup M st)"
  "touches storage_objects (restoreRawRegion M b)"
  unfolding suspendHeartbeatConsumer_def restoreHeartbeatConsumer_def saveProbe_def
    stageValidImage_def expectStartup_def expectBaselineStartup_def restoreRawRegion_def
  by ((intro emits_intro writeRawLoop_touches; simp))+

lemma storage_windows_touch [emits_intro]:
  "touches storage_objects (resetNodeAndWait M)"
  "touches storage_objects (waitForOperatorPowerCycle M)"
  "touches storage_objects (interruptedSave M)"
  unfolding resetNodeAndWait_def waitForOperatorPowerCycle_def interruptedSave_def
  by ((intro emits_intro; simp))+

lemma cleanupBaseline_touches [emits_intro]: "touches storage_objects (cleanupBaseline M b)"
  unfolding cleanupBaseline_def by (intro emits_intro) simp

lemma storageProcess_touches: "touches storage_objects (storageProcess M mode)"
  unfolding storageProcess_def runCoreMode_def runRestoreMode_def runCorruptionMode_def
    runPowerCycleMode_def runPowerInterruptionMode_def Let_def
  by (intro emits_intro; simp)

section \<open>Capturing a baseline\<close>

lemma readRawLoop_length:
  "wp (readRawLoop M len off bs) (\<lambda>(ok, bs') w'. length bs' = length bs) w"
proof (induction M len off bs arbitrary: w rule: readRawLoop.induct)
  case (1 M len off bs)
  show ?case
  proof (cases "off < len")
    case True
    have cmd: "touches storage_objects (runDiagnosticCommand M RAW_READ off c 0 (Some 0))" for c
      by (intro emits_intro) simp_all
    have len: "length (unpackChunk off c word bs) = length bs" for c word
      by (simp add: unpackChunk_def)
    show ?thesis
      using True
      by (subst readRawLoop.simps, simp add: Let_def)
         (intro wpi_bind wp_later [OF cmd] wpi_case_prod wpi_if wpi_return
           wp_mono [OF "1.IH" [OF True refl]]; (simp add: len split: prod.splits)?)
  qed (subst readRawLoop.simps, simp add: wp_intro)
qed

definition complete_baseline :: "StorageBaseline \<Rightarrow> bool" where
  "complete_baseline b \<longleftrightarrow> sb_captured b \<and> validateLayout (sb_layout b) \<and>
     length (sb_raw b) = unat (raw_length (sb_layout b)) \<and> sb_raw_crc b = crc16Ccitt (sb_raw b)"

section \<open>Every mode cleans up\<close>

definition harmlessly :: "world \<Rightarrow> world \<Rightarrow> bool" where
  "harmlessly w w' \<longleftrightarrow> (\<exists>es. hist w' = es @ hist w \<and> list_all harmless (mutations es))"

lemma harmlessly_refl [simp, intro]: "harmlessly w w"
  by (auto simp: harmlessly_def)

lemma harmlessly_trans: "harmlessly u v \<Longrightarrow> harmlessly v w \<Longrightarrow> harmlessly u w"
  unfolding harmlessly_def by (metis append_assoc list_all_append mutations_simps(3))

lemma wp_harmlessly:
  assumes "touches harmless m"
    and "\<And>a w'. run_state m w = (a, w') \<Longrightarrow> harmlessly w w' \<Longrightarrow> Q a w'"
  shows "wp m Q w"
  by (rule wpI) (use assms in \<open>auto simp: harmlessly_def dest: touchesD\<close>)

text \<open>
  What a captured baseline stands for: the layout, the startup snapshot, the runtime value, the
  target's CRC of its own backup and the whole raw region, each read from the target in this
  order, with no change in between but the backup command and its arguments.
\<close>

definition captured_from :: "lely \<Rightarrow> world \<Rightarrow> StorageBaseline \<Rightarrow> world \<Rightarrow> bool" where
  "captured_from M w b u \<longleftrightarrow> complete_baseline b \<and> harmlessly w u \<and> (\<exists>x y p v r e1 e2 e3.
     run_state (readLayout M default_layout) w = ((True, sb_layout b), x) \<and>
     run_state (readStartup M default_startup) x = ((True, sb_startup b), y) \<and>
     hist p = e1 # hist y \<and>
     saw CANOPEN_SLAVE_NODE_ID kProbeIndex 0 (V16 (sb_runtime_probe b)) e1 \<and>
     run_state (runPlainCommand M BACKUP) p = (True, v) \<and> hist r = e3 # e2 # hist v \<and>
     saw CANOPEN_SLAVE_NODE_ID kDiagnosticIndex (diagnosticSub BACKUP_CRC) (V16 (sb_raw_crc b)) e3 \<and>
     run_state (readRawRegion M (sb_layout b) []) r = ((True, sb_raw b), u))"

lemma readRawRegion_length:
  "wp (readRawRegion M l bs) (\<lambda>(ok, bs') w'. length bs' = unat (raw_length l)) w"
  unfolding readRawRegion_def by (rule wp_mono [OF readRawLoop_length]) auto

lemma wpi_run:
  assumes "\<And>a w'. run_state m w = (a, w') \<Longrightarrow> Q a w'"
  shows "wp m Q w"
  by (rule wpI) (rule assms)

lemma captured_fromI:
  assumes "run_state (readLayout M default_layout) w = ((True, l), x)" "validateLayout l"
    "run_state (readStartup M default_startup) x = ((True, st), y)" "hist p = e1 # hist y"
    "saw CANOPEN_SLAVE_NODE_ID kProbeIndex 0 (V16 v) e1"
    "run_state (runPlainCommand M BACKUP) p = (True, c)" "hist r = e3 # e2 # hist c"
    "saw CANOPEN_SLAVE_NODE_ID kDiagnosticIndex (diagnosticSub BACKUP_CRC) (V16 (crc16Ccitt bs)) e3"
    "run_state (readRawRegion M l []) r = ((True, bs), u)" "harmlessly w u"
  shows "captured_from M w \<lparr>sb_layout = l, sb_startup = st, sb_raw = bs, sb_runtime_probe = v,
     sb_raw_crc = crc16Ccitt bs, sb_captured = True\<rparr> u"
  unfolding captured_from_def complete_baseline_def
  using assms wpD [OF readRawRegion_length assms(9)] by simp blast

lemma captureBaseline_reads:
  "wp (captureBaseline M default_baseline) (\<lambda>(ok, b) u. ok \<longrightarrow> harmlessly w u \<longrightarrow> captured_from M w b u) w"
  unfolding captureBaseline_def Let_def readDiagnostic_def
  by (intro wpi_return wpi_bind wpi_if wpi_case_prod wpi_saw_upload
      wpi_run [of "readLayout M l" for l] wpi_run [of "readStartup M st" for st]
      wpi_run [of "runPlainCommand M BACKUP"] wpi_run [of "readRawRegion M l bs" for l bs])
     (auto simp: default_baseline_def intro!: captured_fromI)

text \<open>
  A run that changes the stored image captured a complete baseline first, without changing
  anything, ends with the cleanup of that baseline and succeeds only if the cleanup did.
\<close>

definition guarded :: "lely \<Rightarrow> world \<Rightarrow> int \<Rightarrow> world \<Rightarrow> bool" where
  "guarded M w r w' \<longleftrightarrow> (r = 1 \<and> harmlessly w w') \<or>
     (\<exists>b x u v ok. harmlessly w x \<and> captured_from M x b u \<and> later u v \<and>
        run_state (cleanupBaseline M b) v = (ok, w') \<and> (r = 0 \<longrightarrow> ok) \<and> (r = 0 \<or> r = 1))"

lemma wpi_captureBaseline:
  assumes "\<And>ok b w'. harmlessly w w' \<Longrightarrow> (ok \<Longrightarrow> captured_from M w b w') \<Longrightarrow> Q (ok, b) w'"
  shows "wp (captureBaseline M default_baseline) Q w"
proof (rule wp_harmlessly [OF captureBaseline_harmless])
  fix r w'
  assume run: "run_state (captureBaseline M default_baseline) w = (r, w')" and h: "harmlessly w w'"
  show "Q r w'" using wpD [OF captureBaseline_reads run] assms [OF h] h by (cases r) simp
qed

lemma wp_andM_later:
  assumes "touches S a" "touches S b" "\<And>ok w'. later w w' \<Longrightarrow> Q ok w'"
  shows "wp (andM a b) Q w"
proof -
  have "touches S (andM a b)" using assms(1,2) by (intro emits_intro)
  then show ?thesis by (rule wp_later) (rule assms(3))
qed

lemma command_later:
  "touches storage_objects (runDiagnosticCommand M cmd off n v r)"
  "touches storage_objects (writeRemoteSdoFor M CANOPEN_SLAVE_NODE_ID kRestoreIndex
     kCommStorageSubindex (V32 kRestoreMagic) t1 t2)"
  "touches storage_objects (writeRemoteSdoFor M CANOPEN_SLAVE_NODE_ID kProbeIndex 0 (V16 p) t1 t2)"
  by ((intro emits_intro; simp))+

lemmas storage_stage_wps = wpi_return wpi_bind wpi_if wpi_case_prod wpi_captureBaseline
  wpi_run [of "cleanupBaseline M b" for M b] command_later [THEN wp_later]
  storage_reads_touch(1,2,3) [THEN wp_later]
  storage_steps_touch(3,4,7) [THEN wp_later]
  storage_windows_touch(3) [THEN wp_later]

lemma guardedI1: "harmlessly w w' \<Longrightarrow> guarded M w 1 w'"
  by (simp add: guarded_def)

lemma guardedI2:
  "run_state (cleanupBaseline M b) v = (ok, w') \<Longrightarrow> captured_from M x b u \<Longrightarrow> harmlessly w x \<Longrightarrow>
   later u v \<Longrightarrow> (r = 0 \<longrightarrow> ok) \<and> (r = 0 \<or> r = 1) \<Longrightarrow> guarded M w r w'"
  unfolding guarded_def by blast

lemma runRestoreMode_guarded: "wp (runRestoreMode M) (guarded M w) w"
  unfolding runRestoreMode_def Let_def
  by (intro storage_stage_wps wp_andM_later [of storage_objects] emits_intro)
     ((simp; fail) | (rule guardedI1, assumption) |
      (clarsimp split del: if_split, rule guardedI2, assumption, assumption, rule harmlessly_refl,
         (rule later_refl | erule later_back)+, simp))+

lemma runCorruptionMode_guarded: "wp (runCorruptionMode M) (guarded M w) w"
  unfolding runCorruptionMode_def Let_def
  by (intro storage_stage_wps wp_andM_later [of storage_objects] emits_intro)
     ((simp; fail) | (rule guardedI1, assumption) |
      (clarsimp split del: if_split, rule guardedI2, assumption, assumption, rule harmlessly_refl,
         (rule later_refl | erule later_back)+, simp))+

lemma runPowerCycleMode_guarded: "wp (runPowerCycleMode M) (guarded M w) w"
  unfolding runPowerCycleMode_def Let_def
  by (intro storage_stage_wps wp_andM_later [of storage_objects] emits_intro)
     ((simp; fail) | (rule guardedI1, assumption) |
      (clarsimp split del: if_split, rule guardedI2, assumption, assumption, rule harmlessly_refl,
         (rule later_refl | erule later_back)+, simp))+

lemma runPowerInterruptionMode_guarded: "wp (runPowerInterruptionMode M) (guarded M w) w"
  unfolding runPowerInterruptionMode_def Let_def
  by (intro storage_stage_wps wp_andM_later [of storage_objects] emits_intro)
     ((simp; fail) | (rule guardedI1, assumption) |
      (clarsimp split del: if_split, rule guardedI2, assumption, assumption, rule harmlessly_refl,
         (rule later_refl | erule later_back)+, simp))+

lemma harmlessly_back: "harmlessly x v \<Longrightarrow> harmlessly u x \<Longrightarrow> harmlessly u v"
  by (rule harmlessly_trans)

lemma validated_harmless: "touches harmless (andM (return b) (validateStorageObjects M))"
  by (intro emits_intro storage_reads_harmless)

lemma runCoreMode_guarded: "wp (runCoreMode M) (guarded M w) w"
  unfolding runCoreMode_def Let_def
  apply (rule wpi_bind, rule wp_harmlessly [OF storage_reads_harmless(1)], rule wpi_case_prod,
      rule wpi_bind, rule wp_harmlessly [OF validated_harmless])
  apply (intro storage_stage_wps wp_andM_later [of storage_objects] emits_intro)
  by ((simp; fail) |
      (rule guardedI1, (assumption | rule harmlessly_refl | erule harmlessly_back)+; fail) |
      (clarsimp split del: if_split, rule guardedI2, assumption, assumption,
         (erule harmlessly_back)+, rule harmlessly_refl,
         (rule later_refl | erule later_back)+, simp))+

lemma storageProcess_guarded: "wp (storageProcess M mode) (guarded M w) w"
  unfolding storageProcess_def Let_def
  by (intro wpi_if runCoreMode_guarded runRestoreMode_guarded runCorruptionMode_guarded
      runPowerCycleMode_guarded runPowerInterruptionMode_guarded wpi_return guardedI1 harmlessly_refl)

section \<open>What a successful cleanup has shown\<close>

text \<open>
  The whole raw region read back byte for byte, a reset confirmed by a fresh Boot, a startup
  snapshot equal to the captured one, and the runtime value written back last.
\<close>

lemma readStartup_fields:
  "wp (readStartup M st0) (\<lambda>(ok, st) w'. ok \<longrightarrow> (\<exists>s e1 e2 e3 e4 e5.
     hist w' = [e5, e4, e3, e2, e1] @ hist w \<and> s = startup_sequence st \<and>
     saw CANOPEN_SLAVE_NODE_ID kDiagnosticIndex (diagnosticSub STARTUP_STATE) (V8 (startup_state st)) e1 \<and>
     saw CANOPEN_SLAVE_NODE_ID kDiagnosticIndex (diagnosticSub STARTUP_RESULT) (VI32 (startup_result st)) e2 \<and>
     saw CANOPEN_SLAVE_NODE_ID kDiagnosticIndex (diagnosticSub STARTUP_ERROR) (V32 (startup_error st)) e3 \<and>
     saw CANOPEN_SLAVE_NODE_ID kDiagnosticIndex (diagnosticSub STARTUP_SEQ) (V32 s) e4 \<and>
     saw CANOPEN_SLAVE_NODE_ID kDiagnosticIndex (diagnosticSub STARTUP_PROBE) (V16 (startup_probe st)) e5)) w"
proof -
  have rd: "readDiagnostic T M f v = readRemoteObject T M kDiagnosticIndex (diagnosticSub f) v"
    for T :: "'x sdo_type" and f v
    by (simp add: readDiagnostic_def readRemoteObject_def)
  show ?thesis
    unfolding readStartup_def readInto_def rd
    by (intro wp_intro) (auto)
qed

text \<open>The supervision of the slave is off only between two writes of the same run, and the value
  written back is the one read before.\<close>

definition supervision_window :: "bool \<Rightarrow> history \<Rightarrow> bool" where
  "supervision_window ok es \<longleftrightarrow>
     (\<not> ok \<and> mutations es = [] \<or>
      \<not> ok \<and> mutations es = [LocalWrite kHeartbeatConsumerIndex kHeartbeatConsumerSubindex (V32 0)] \<or>
      (\<exists>saved. mutations es =
          [LocalWrite kHeartbeatConsumerIndex kHeartbeatConsumerSubindex (V32 saved),
           Nmt RESET_NODE CANOPEN_SLAVE_NODE_ID,
           LocalWrite kHeartbeatConsumerIndex kHeartbeatConsumerSubindex (V32 0)] \<and>
         local_saw kHeartbeatConsumerIndex kHeartbeatConsumerSubindex (V32 saved) (last es)))"

lemma resetNodeAndWait_window:
  "wp (resetNodeAndWait M) (\<lambda>ok w'. \<exists>es. hist w' = es @ hist w \<and> supervision_window ok es) w"
  unfolding supervision_window_def
  unfolding resetNodeAndWait_def suspendHeartbeatConsumer_def restoreHeartbeatConsumer_def
    prepareBootWait_def issueNmtCommand_def waitForBootCompletion_def waitForBootResult_def
  by (intro wp_intro) (auto split: option.splits intro!: wp_intro)

lemma cleanupBaseline_success:
  "wp (cleanupBaseline M b) (\<lambda>ok w'. ok \<longrightarrow> sb_captured b \<and>
     (\<exists>u v e x y st. later w u \<and> run_state (readRawRegion M (sb_layout b) []) u = ((True, sb_raw b), v) \<and>
        later v x \<and> run_state (readStartup M default_startup) x = ((True, st), y) \<and>
        startup_state st = startup_state (sb_startup b) \<and> startup_result st = startup_result (sb_startup b) \<and>
        startup_error st = startup_error (sb_startup b) \<and> startup_probe st = startup_probe (sb_startup b) \<and>
        hist w' = e # hist y \<and>
        wrote CANOPEN_SLAVE_NODE_ID kProbeIndex 0 (V16 (sb_runtime_probe b)) e)) w"
proof -
  have wl: "touches storage_objects (writeRawLoop M (raw_length (sb_layout b)) (sb_raw b) 0)"
    by (rule writeRawLoop_touches) simp_all
  have rs: "wp (resetNodeAndWait M) Q u" if "\<And>ok w'. later u w' \<Longrightarrow> Q ok w'" for Q u
    by (rule wp_later [OF storage_windows_touch(1)]) (rule that)
  have rr: "wp (readRawRegion M l bs) Q u"
    if "\<And>r w'. later u w' \<Longrightarrow> run_state (readRawRegion M l bs) u = (r, w') \<Longrightarrow> Q r w'" for Q u l bs
    by (rule wp_later [OF storage_reads_touch(3)]) (rule that)
  have st: "wp (readStartup M s) Q u"
    if "\<And>r w'. later u w' \<Longrightarrow> run_state (readStartup M s) u = (r, w') \<Longrightarrow> Q r w'" for Q u s
    by (rule wp_later [OF storage_reads_touch(2)]) (rule that)
  show ?thesis
    unfolding cleanupBaseline_def restoreRawRegion_def expectBaselineStartup_def andM_def
    by (intro wpi_bind wpi_if wpi_return wpi_case_prod wp_later [OF wl] rs rr st wpi_writeRemoteSdoFor)
       ((clarsimp; fail) |
        (clarsimp simp: outcome_SUCCESS_iff, intro exI conjI, (assumption | rule refl | simp add: sdoRequest_def)+; fail))+
qed

section \<open>Geometry\<close>

text \<open>What an accepted layout means over the natural numbers, with no sum that could wrap.\<close>

definition sound_layout :: "StorageLayout \<Rightarrow> bool" where
  "sound_layout l \<longleftrightarrow> unat (eeprom_size l) = 16384 \<and> unat (page_size l) = 64 \<and>
     unat (addr_input l) = 1 \<and> 0 < unat (raw_length l) \<and>
     storage_offset l = raw_start l \<and> signature_address l = raw_start l \<and>
     unat (raw_start l) \<le> unat (data_address l) \<and>
     unat (data_address l) + unat (data_length l) = unat (raw_start l) + unat (raw_length l) \<and>
     unat (raw_start l) + unat (raw_length l) \<le> 16384"

lemma unat_u64_sum: "unat ((ucast (a :: u32) :: u64) + ucast (b :: u32)) = unat a + unat b"
  using unat_u32_less [of a] unat_u32_less [of b] by (simp add: unat_word_ariths)

lemma validateLayout_sound: "validateLayout l \<longleftrightarrow> sound_layout l"
proof -
  have ends: "(ucast (data_address l) :: u64) + ucast (data_length l) = ucast (raw_start l) + ucast (raw_length l)
      \<longleftrightarrow> unat (data_address l) + unat (data_length l) = unat (raw_start l) + unat (raw_length l)"
    by (simp add: word_unat_eq_iff unat_u64_sum)
  have lim: "(ucast (eeprom_size l) :: u64) < ucast (raw_start l) + ucast (raw_length l)
      \<longleftrightarrow> unat (eeprom_size l) < unat (raw_start l) + unat (raw_length l)"
    by (simp add: word_less_nat_alt unat_u64_sum)
  have eqs: "eeprom_size l = 16384 \<longleftrightarrow> unat (eeprom_size l) = 16384"
    "page_size l = 64 \<longleftrightarrow> unat (page_size l) = 64" "addr_input l = 1 \<longleftrightarrow> unat (addr_input l) = 1"
    "raw_length l = 0 \<longleftrightarrow> unat (raw_length l) = 0"
    by (simp_all add: word_unat_eq_iff)
  have big: "(0xFFFF :: u32) < data_length l \<longleftrightarrow> 65535 < unat (data_length l)"
    by (simp add: word_less_nat_alt)
  have lt: "data_address l < signature_address l \<longleftrightarrow> unat (data_address l) < unat (signature_address l)"
    by (simp add: word_less_nat_alt)
  show ?thesis
    unfolding validateLayout_def sound_layout_def Let_def const_defs ends lim eqs big lt
    by auto
qed

text \<open>The offset the corruption tests use lies inside the raw region, provided the payload is not
  empty; for an empty payload it is one past its end.\<close>

lemma dataOffset_in_region:
  assumes "sound_layout l"
  shows "unat (dataOffset l) + unat (data_length l) = unat (raw_length l)"
proof -
  have "unat (dataOffset l) = unat (data_address l) - unat (raw_start l)"
    using assms by (simp add: dataOffset_def sound_layout_def unat_sub word_le_nat_alt)
  then show ?thesis using assms by (simp add: sound_layout_def)
qed

section \<open>Success\<close>

text \<open>The evidence a successful run has collected: a complete baseline captured before any change,
  the raw region read back equal to it after all changes, the captured startup snapshot seen
  again, the runtime value written back last.\<close>

definition storage_evidence :: "lely \<Rightarrow> world \<Rightarrow> world \<Rightarrow> bool" where
  "storage_evidence M w w' \<longleftrightarrow> (\<exists>b s u v v' x y st e. harmlessly w s \<and> captured_from M s b u \<and> later u v \<and>
     run_state (readRawRegion M (sb_layout b) []) v = ((True, sb_raw b), v') \<and> later v' x \<and>
     run_state (readStartup M default_startup) x = ((True, st), y) \<and>
     startup_state st = startup_state (sb_startup b) \<and> startup_result st = startup_result (sb_startup b) \<and>
     startup_error st = startup_error (sb_startup b) \<and> startup_probe st = startup_probe (sb_startup b) \<and>
     hist w' = e # hist y \<and>
     wrote CANOPEN_SLAVE_NODE_ID kProbeIndex 0 (V16 (sb_runtime_probe b)) e)"

lemma guarded_success: "guarded M w 0 w' \<Longrightarrow> storage_evidence M w w'"
proof -
  assume "guarded M w 0 w'"
  then obtain b s u v where b: "harmlessly w s" "captured_from M s b u" "later u v"
    "run_state (cleanupBaseline M b) v = (True, w')" by (auto simp: guarded_def)
  from wpD [OF cleanupBaseline_success b(4)] obtain v1 v' e x y st where
    "later v v1" "run_state (readRawRegion M (sb_layout b) []) v1 = ((True, sb_raw b), v')" "later v' x"
    "run_state (readStartup M default_startup) x = ((True, st), y)"
    "startup_state st = startup_state (sb_startup b)" "startup_result st = startup_result (sb_startup b)"
    "startup_error st = startup_error (sb_startup b)" "startup_probe st = startup_probe (sb_startup b)"
    "hist w' = e # hist y" "wrote CANOPEN_SLAVE_NODE_ID kProbeIndex 0 (V16 (sb_runtime_probe b)) e"
    by blast
  then show ?thesis
    unfolding storage_evidence_def using b(1,2) later_trans [OF b(3)] by blast
qed

lemma storageProcess_evidence:
  "wp (storageProcess M mode) (\<lambda>r w'. r = 1 \<or> r = 0 \<and> storage_evidence M w w') w"
proof (rule wp_mono [OF storageProcess_guarded])
  fix r w'
  assume g: "guarded M w r w'"
  then have "r = 0 \<or> r = 1" by (auto simp: guarded_def)
  with g guarded_success show "r = 1 \<or> r = 0 \<and> storage_evidence M w w'" by blast
qed

section \<open>Probes\<close>

lemma chooseProbe_fresh: "chooseProbe b p \<noteq> b"
proof -
  have "p XOR 0x0111 \<noteq> p"
  proof
    assume "p XOR 0x0111 = p"
    then have "p XOR (p XOR 0x0111) = p XOR p" by simp
    then show False by (simp add: xor.assoc [symmetric])
  qed
  then show ?thesis by (auto simp: chooseProbe_def)
qed

end
