(* ===== verification/Time_Process.thy ===== *)
theory Time_Process
  imports Object_Access
begin

text \<open>
  TIME consumer validation, \<open>src/time_process.cpp\<close>: the modular time arithmetic, the raw TIME
  frame, coherent diagnostic snapshots, the stimuli and the restoration of the TIME COB-ID.
  The reference parameter \<open>completion_wait_timed_out\<close> is passed in and returned as the last
  component.
\<close>

section \<open>Constants and data\<close>

definition kTimeCobIdIndex :: u16 where [const_defs]: "kTimeCobIdIndex = 0x1012"
definition kTimeCobIdSubindex :: u8 where [const_defs]: "kTimeCobIdSubindex = 0x00"
definition kTimeDiagnosticIndex :: u16 where [const_defs]: "kTimeDiagnosticIndex = 0x2300"
definition kTimeRxCountSubindex :: u8 where [const_defs]: "kTimeRxCountSubindex = 0x01"
definition kTimeMillisecondsSubindex :: u8 where [const_defs]: "kTimeMillisecondsSubindex = 0x02"
definition kTimeDaysSubindex :: u8 where [const_defs]: "kTimeDaysSubindex = 0x03"
definition kTimeConsumerMask :: u32 where [const_defs]: "kTimeConsumerMask = 0x80000000"
definition kTimeProducerMask :: u32 where [const_defs]: "kTimeProducerMask = 0x40000000"
definition kTimeCanIdMask :: u32 where [const_defs]: "kTimeCanIdMask = 0x000007FF"
definition kTimeUnsupportedCobIdMask :: u32 where
  [const_defs]: "kTimeUnsupportedCobIdMask = 0x3FFFF800"
definition kTimeMessageLength :: u8 where [const_defs]: "kTimeMessageLength = 6"
definition kClassicCanMaxLength :: u8 where [const_defs]: "kClassicCanMaxLength = 8"
definition kMillisecondsPerDay :: u64 where [const_defs]: "kMillisecondsPerDay = 86400000"
definition kTimeCycleMilliseconds :: u64 where
  [const_defs]: "kTimeCycleMilliseconds = 65536 * kMillisecondsPerDay"
definition kAppliedTimeToleranceMs :: u32 where [const_defs]: "kAppliedTimeToleranceMs = 250"
definition kContinuousWaitMs :: nat where [const_defs]: "kContinuousWaitMs = 250"
definition kContinuousToleranceMs :: u32 where [const_defs]: "kContinuousToleranceMs = 120"
definition kNegativeObservationWaitMs :: nat where [const_defs]: "kNegativeObservationWaitMs = 120"
definition kDiagnosticPollMs :: nat where [const_defs]: "kDiagnosticPollMs = 20"
definition kDiagnosticApplyTimeoutMs :: nat where [const_defs]: "kDiagnosticApplyTimeoutMs = 1500"
definition kDiagnosticSnapshotRetryCount :: nat where
  [const_defs]: "kDiagnosticSnapshotRetryCount = 3"

record TimeDiagnostic =
  rx_count :: u32
  milliseconds :: u32
  days :: u16
  sampled_at :: nat

definition default_diagnostic :: TimeDiagnostic where
  "default_diagnostic = \<lparr>rx_count = 0, milliseconds = 0, days = 0, sampled_at = 0\<rparr>"

section \<open>Time arithmetic\<close>

definition timePosition :: "u32 \<Rightarrow> u16 \<Rightarrow> u64" where
  "timePosition msecs dayCount = ucast dayCount * kMillisecondsPerDay + ucast msecs"

definition forwardTimeDelta :: "u64 \<Rightarrow> u64 \<Rightarrow> u64" where
  "forwardTimeDelta from to = (if to \<ge> from then to - from else kTimeCycleMilliseconds - from + to)"

text \<open>The count of a millisecond duration, converted to \<open>std::uint64_t\<close>.\<close>

definition elapsedCount :: "nat \<Rightarrow> nat \<Rightarrow> u64" where
  "elapsedCount t1 t0 = word_of_int (intervalMs t1 t0)"

definition validateContinuousAdvance :: "TimeDiagnostic \<Rightarrow> TimeDiagnostic \<Rightarrow> u32 \<Rightarrow> bool" where
  "validateContinuousAdvance before after expected_rx_count_delta =
     (let rx_count_delta = rx_count after - rx_count before in
      if rx_count_delta \<noteq> expected_rx_count_delta then False
      else
        let before_position = timePosition (milliseconds before) (days before);
            after_position = timePosition (milliseconds after) (days after);
            remote_elapsed = forwardTimeDelta before_position after_position;
            expected = elapsedCount (sampled_at after) (sampled_at before);
            minimum = (if expected > ucast kContinuousToleranceMs
                       then expected - ucast kContinuousToleranceMs else 0);
            maximum = expected + ucast kContinuousToleranceMs
        in \<not> (remote_elapsed < minimum \<or> remote_elapsed > maximum))"

section \<open>Diagnostics\<close>

definition readRxCount :: "lely \<Rightarrow> u32 \<Rightarrow> bool \<Rightarrow> (bool \<times> u32 \<times> bool) host" where
  "readRxCount M rx cw = do {
     (result, rx) \<leftarrow> readRemoteSdo tU32 M CANOPEN_SLAVE_NODE_ID kTimeDiagnosticIndex
                       kTimeRxCountSubindex rx;
     let cw = (if result = WAIT_TIMEOUT then True else cw);
     return (result = SUCCESS, rx, cw) }"

fun readTimeAttempts :: "lely \<Rightarrow> nat \<Rightarrow> TimeDiagnostic \<Rightarrow> bool \<Rightarrow> (bool \<times> TimeDiagnostic \<times> bool) host" where
  "readTimeAttempts M 0 diagnostic cw = return (False, diagnostic, cw)"
| "readTimeAttempts M (Suc remaining) diagnostic cw = do {
     (ok, count_before, cw) \<leftarrow> readRxCount M 0 cw;
     if \<not> ok then return (False, diagnostic, cw)
     else do {
       (result, days_before) \<leftarrow> readRemoteSdo tU16 M CANOPEN_SLAVE_NODE_ID kTimeDiagnosticIndex
                                  kTimeDaysSubindex 0;
       if result = WAIT_TIMEOUT then return (False, diagnostic, True)
       else if result \<noteq> SUCCESS then return (False, diagnostic, cw)
       else do {
         (result, msecs) \<leftarrow> readRemoteSdo tU32 M CANOPEN_SLAVE_NODE_ID kTimeDiagnosticIndex
                              kTimeMillisecondsSubindex 0;
         milliseconds_sampled_at \<leftarrow> steady_now M;
         if result = WAIT_TIMEOUT then return (False, diagnostic, True)
         else if result \<noteq> SUCCESS then return (False, diagnostic, cw)
         else do {
           (result, days_after) \<leftarrow> readRemoteSdo tU16 M CANOPEN_SLAVE_NODE_ID
                                     kTimeDiagnosticIndex kTimeDaysSubindex 0;
           if result = WAIT_TIMEOUT then return (False, diagnostic, True)
           else if result \<noteq> SUCCESS then return (False, diagnostic, cw)
           else do {
             (ok, count_after, cw) \<leftarrow> readRxCount M 0 cw;
             if \<not> ok then return (False, diagnostic, cw)
             else if count_before = count_after \<and> days_before = days_after then
               (if (ucast msecs :: u64) \<ge> kMillisecondsPerDay then return (False, diagnostic, cw)
                else return (True, diagnostic\<lparr>rx_count := count_after, milliseconds := msecs,
                       days := days_after, sampled_at := milliseconds_sampled_at\<rparr>, cw))
             else readTimeAttempts M remaining diagnostic cw
           } } } } }"

definition readTimeDiagnostic :: "lely \<Rightarrow> TimeDiagnostic \<Rightarrow> bool \<Rightarrow> (bool \<times> TimeDiagnostic \<times> bool) host" where
  "readTimeDiagnostic M diagnostic cw =
     readTimeAttempts M kDiagnosticSnapshotRetryCount diagnostic cw"

section \<open>The TIME frame\<close>

definition timeFrame :: "u32 \<Rightarrow> u8 \<Rightarrow> u32 \<Rightarrow> u16 \<Rightarrow> can_frame" where
  "timeFrame can dlc msecs dayCount =
     \<lparr>can_id = can, can_flags = 0, can_len = dlc,
      can_data = [ucast (msecs AND 0xFF), ucast (drop_bit 8 msecs AND 0xFF),
                  ucast (drop_bit 16 msecs AND 0xFF), ucast (drop_bit 24 msecs AND 0xFF),
                  ucast (dayCount AND 0xFF), ucast (drop_bit 8 dayCount AND 0xFF), 0xA5, 0]\<rparr>"

definition sendTimeFrame :: "lely \<Rightarrow> u32 \<Rightarrow> u8 \<Rightarrow> u32 \<Rightarrow> u16 \<Rightarrow> bool host" where
  "sendTimeFrame M can dlc msecs dayCount =
     (if can > kTimeCanIdMask \<or> dlc > kClassicCanMaxLength then return False
      else do {
        let message = timeFrame can dlc msecs dayCount;
        locked \<leftarrow> io_can_net_lock M;
        if \<not> locked then return False
        else do {
          raw_net \<leftarrow> io_can_net_get_net M;
          send_result \<leftarrow> (if raw_net then can_net_send M message else return False);
          unlock_result \<leftarrow> io_can_net_unlock M;
          if \<not> raw_net then return False
          else if \<not> send_result then return False
          else if \<not> unlock_result then return False
          else return True
        } })"

section \<open>Waiting for the effect of a frame\<close>

definition pollRxCount :: "lely \<Rightarrow> u32 \<Rightarrow> bool \<Rightarrow> (bool + bool \<times> bool) host" where
  "pollRxCount M previous_count cw = do {
     (ok, current_count, cw) \<leftarrow> readRxCount M 0 cw;
     if \<not> ok then return (Inr (False, cw))
     else if current_count \<noteq> previous_count then
       return (Inr (current_count = previous_count + 1, cw))
     else do {
       sleep_for M (ms kDiagnosticPollMs);
       return (Inl cw)
     } }"

definition waitForRxCount :: "lely \<Rightarrow> u32 \<Rightarrow> bool \<Rightarrow> (bool \<times> bool) host" where
  "waitForRxCount M previous_count cw = do {
     start \<leftarrow> steady_now M;
     r \<leftarrow> deadline_loop M (start + ms kDiagnosticApplyTimeoutMs) (pollRxCount M previous_count) cw;
     case r of Inr x \<Rightarrow> return x | Inl cw \<Rightarrow> return (False, cw) }"

definition appliedWithin :: "u32 \<Rightarrow> u16 \<Rightarrow> nat \<Rightarrow> TimeDiagnostic \<Rightarrow> bool" where
  "appliedWithin sent_milliseconds sent_days send_time last_diag =
     (let sent = timePosition sent_milliseconds sent_days;
          observed = timePosition (milliseconds last_diag) (days last_diag);
          remote_elapsed = forwardTimeDelta sent observed;
          maximum_elapsed = elapsedCount (sampled_at last_diag) send_time + ucast kAppliedTimeToleranceMs
      in remote_elapsed \<le> maximum_elapsed)"

definition pollAppliedTime ::
    "lely \<Rightarrow> u32 \<Rightarrow> u32 \<Rightarrow> u16 \<Rightarrow> nat \<Rightarrow> TimeDiagnostic \<Rightarrow> TimeDiagnostic \<times> bool \<Rightarrow>
       (TimeDiagnostic \<times> bool + bool \<times> TimeDiagnostic \<times> bool) host" where
  "pollAppliedTime M expected_rx_count sent_milliseconds sent_days send_time diagnostic s = do {
     let (last_diag, cw) = s;
     (ok, last_diag, cw) \<leftarrow> readTimeDiagnostic M last_diag cw;
     if \<not> ok then return (Inr (False, diagnostic, cw))
     else if rx_count last_diag \<noteq> expected_rx_count then return (Inr (False, diagnostic, cw))
     else if appliedWithin sent_milliseconds sent_days send_time last_diag
       then return (Inr (True, last_diag, cw))
     else do {
       sleep_for M (ms kDiagnosticPollMs);
       return (Inl (last_diag, cw))
     } }"

definition waitForAppliedTime ::
    "lely \<Rightarrow> u32 \<Rightarrow> u32 \<Rightarrow> u16 \<Rightarrow> nat \<Rightarrow> TimeDiagnostic \<Rightarrow> bool \<Rightarrow>
       (bool \<times> TimeDiagnostic \<times> bool) host" where
  "waitForAppliedTime M expected_rx_count sent_milliseconds sent_days send_time diagnostic cw = do {
     start \<leftarrow> steady_now M;
     r \<leftarrow> deadline_loop M (start + ms kDiagnosticApplyTimeoutMs)
            (pollAppliedTime M expected_rx_count sent_milliseconds sent_days send_time diagnostic)
            (default_diagnostic, cw);
     case r of Inr x \<Rightarrow> return x | Inl (last_diag, cw) \<Rightarrow> return (False, diagnostic, cw) }"

definition injectAndVerifyTime ::
    "lely \<Rightarrow> u32 \<Rightarrow> u32 \<Rightarrow> u16 \<Rightarrow> bool \<Rightarrow> (bool \<times> TimeDiagnostic \<times> bool) host" where
  "injectAndVerifyTime M can msecs dayCount cw = do {
     (ok, previous_count, cw) \<leftarrow> readRxCount M 0 cw;
     if \<not> ok then return (False, default_diagnostic, cw)
     else do {
       send_time \<leftarrow> steady_now M;
       sent \<leftarrow> sendTimeFrame M can kTimeMessageLength msecs dayCount;
       if \<not> sent then return (False, default_diagnostic, cw)
       else do {
         (ok, cw) \<leftarrow> waitForRxCount M previous_count cw;
         if \<not> ok then return (False, default_diagnostic, cw)
         else waitForAppliedTime M (previous_count + 1) msecs dayCount send_time
                default_diagnostic cw
       } } }"

section \<open>COB-ID and resets\<close>

definition writeAndVerifyTimeCobId :: "lely \<Rightarrow> u32 \<Rightarrow> bool \<Rightarrow> (bool \<times> bool) host" where
  "writeAndVerifyTimeCobId M val cw = do {
     write_result \<leftarrow> writeRemoteSdo M CANOPEN_SLAVE_NODE_ID kTimeCobIdIndex kTimeCobIdSubindex
                       (V32 val);
     if write_result = WAIT_TIMEOUT then return (False, True)
     else if write_result \<noteq> SUCCESS then return (False, cw)
     else do {
       (read_result, read_back) \<leftarrow> readRemoteSdo tU32 M CANOPEN_SLAVE_NODE_ID kTimeCobIdIndex
                                    kTimeCobIdSubindex 0;
       if read_result = WAIT_TIMEOUT then return (False, True)
       else if read_result \<noteq> SUCCESS then return (False, cw)
       else if read_back \<noteq> val then return (False, cw)
       else return (True, cw)
     } }"

definition resetSlaveCommunication :: "lely \<Rightarrow> bool host" where
  "resetSlaveCommunication M = do {
     prepareBootWait;
     issued \<leftarrow> issueNmtCommand M RESET_COMM CANOPEN_SLAVE_NODE_ID;
     if \<not> issued then return False
     else do {
       booted \<leftarrow> waitForBootCompletion M CANOPEN_WAIT_TIMEOUT_MS;
       if \<not> booted then return False else return True
     } }"

definition verifyTimeCobId :: "lely \<Rightarrow> u32 \<Rightarrow> bool \<Rightarrow> (bool \<times> bool) host" where
  "verifyTimeCobId M expected cw = do {
     (result, actual) \<leftarrow> readRemoteSdo tU32 M CANOPEN_SLAVE_NODE_ID kTimeCobIdIndex
                           kTimeCobIdSubindex 0;
     if result = WAIT_TIMEOUT then return (False, True)
     else if result \<noteq> SUCCESS then return (False, cw)
     else if actual \<noteq> expected then return (False, cw)
     else return (True, cw) }"

text \<open>Gives the result, \<open>completion_wait_timed_out\<close> and \<open>slave_needs_start\<close>; the latter is set
  on every path.\<close>

definition recoverTimeCobIdWithReset :: "lely \<Rightarrow> u32 \<Rightarrow> bool \<Rightarrow> (bool \<times> bool \<times> bool) host" where
  "recoverTimeCobIdWithReset M original cw = do {
     reset \<leftarrow> resetSlaveCommunication M;
     if \<not> reset then return (False, cw, True)
     else do {
       (ok, cw) \<leftarrow> writeAndVerifyTimeCobId M original False;
       if \<not> ok then return (False, cw, True)
       else do {
         reset \<leftarrow> resetSlaveCommunication M;
         if \<not> reset then return (False, cw, True)
         else do {
           (ok, cw) \<leftarrow> verifyTimeCobId M original False;
           if \<not> ok then return (False, cw, True) else return (True, cw, True)
         } } } }"

definition verifyInvalidDlc :: "lely \<Rightarrow> u32 \<Rightarrow> u8 \<Rightarrow> bool \<Rightarrow> (bool \<times> bool) host" where
  "verifyInvalidDlc M can dlc cw = do {
     (ok, before, cw) \<leftarrow> readTimeDiagnostic M default_diagnostic cw;
     if \<not> ok then return (False, cw)
     else do {
       sent \<leftarrow> sendTimeFrame M can dlc 70000000 40000;
       if \<not> sent then return (False, cw)
       else do {
         sleep_for M (ms kNegativeObservationWaitMs);
         (ok, after, cw) \<leftarrow> readTimeDiagnostic M default_diagnostic cw;
         if \<not> ok then return (False, cw)
         else if \<not> validateContinuousAdvance before after 0 then return (False, cw)
         else return (True, cw)
       } } }"

section \<open>The process\<close>

text \<open>
  Step 3, the enabling of the consumer when its bit was clear: the result,
  \<open>completion_wait_timed_out\<close>, \<open>reset_recovery_required\<close> and whether the reset was performed (which
  also sets \<open>slave_needs_start\<close>).
\<close>

definition enableConsumer :: "lely \<Rightarrow> u32 \<Rightarrow> u32 \<Rightarrow> bool \<Rightarrow> (bool \<times> bool \<times> bool \<times> bool) host" where
  "enableConsumer M original_cob_id enabled_cob_id cw =
     (if enabled_cob_id = original_cob_id then return (True, cw, False, False)
      else do {
        (ok, cw) \<leftarrow> writeAndVerifyTimeCobId M enabled_cob_id cw;
        if \<not> ok then return (False, cw, False, False)
        else do {
          reset \<leftarrow> resetSlaveCommunication M;
          if \<not> reset then return (False, cw, True, False)
          else do {
            (ok, cw) \<leftarrow> verifyTimeCobId M enabled_cob_id False;
            return (ok, cw, False, True)
          } } })"

text \<open>\<open>if (result == 0 && !step) result = 1\<close>, with the threaded flag.\<close>

definition nextStep :: "(bool \<Rightarrow> (bool \<times> bool) host) \<Rightarrow> bool \<times> bool \<Rightarrow> (bool \<times> bool) host" where
  "nextStep step s = (case s of (ok, cw) \<Rightarrow> if ok then step cw else return (False, cw))"

definition injectStep :: "lely \<Rightarrow> u32 \<Rightarrow> u32 \<Rightarrow> u16 \<Rightarrow> bool \<Rightarrow> (bool \<times> bool) host" where
  "injectStep M can msecs dayCount cw = do {
     (ok, diagnostic, cw) \<leftarrow> injectAndVerifyTime M can msecs dayCount cw;
     return (ok, cw) }"

definition readBaseline :: "lely \<Rightarrow> bool \<Rightarrow> (bool \<times> bool) host" where
  "readBaseline M cw = do {
     (ok, baseline, cw) \<leftarrow> readTimeDiagnostic M default_diagnostic cw;
     return (ok, cw) }"

definition continuousStep :: "lely \<Rightarrow> u32 \<Rightarrow> bool \<Rightarrow> (bool \<times> bool) host" where
  "continuousStep M can cw = do {
     (ok, before, cw) \<leftarrow> injectAndVerifyTime M can 10000 2000 cw;
     if \<not> ok then return (False, cw)
     else do {
       sleep_for M (ms kContinuousWaitMs);
       (ok, after, cw) \<leftarrow> readTimeDiagnostic M default_diagnostic cw;
       if \<not> ok then return (False, cw)
       else return (validateContinuousAdvance before after 0, cw)
     } }"

definition disabledStep :: "lely \<Rightarrow> u32 \<Rightarrow> u32 \<Rightarrow> bool \<Rightarrow> (bool \<times> bool) host" where
  "disabledStep M can enabled_cob_id cw = do {
     let disabled_cob_id = enabled_cob_id AND NOT kTimeConsumerMask;
     (ok, cw) \<leftarrow> writeAndVerifyTimeCobId M disabled_cob_id cw;
     if \<not> ok then return (False, cw)
     else do {
       (ok, before, cw) \<leftarrow> readTimeDiagnostic M default_diagnostic cw;
       if \<not> ok then return (False, cw)
       else do {
         sent \<leftarrow> sendTimeFrame M can kTimeMessageLength 60000000 30000;
         if \<not> sent then return (False, cw)
         else do {
           sleep_for M (ms kNegativeObservationWaitMs);
           (ok, after, cw) \<leftarrow> readTimeDiagnostic M default_diagnostic cw;
           if \<not> ok then return (False, cw)
           else return (validateContinuousAdvance before after 1, cw)
         } } } }"

definition reenabledStep :: "lely \<Rightarrow> u32 \<Rightarrow> u32 \<Rightarrow> bool \<Rightarrow> (bool \<times> bool) host" where
  "reenabledStep M can enabled_cob_id cw = do {
     (ok, cw) \<leftarrow> writeAndVerifyTimeCobId M enabled_cob_id cw;
     if \<not> ok then return (False, cw)
     else injectStep M can 22345000 3000 cw }"

text \<open>Steps 4 to 8: the stimuli before the consumer is disabled.\<close>

definition timeStimuli :: "lely \<Rightarrow> u32 \<Rightarrow> bool \<times> bool \<Rightarrow> (bool \<times> bool) host" where
  "timeStimuli M can s = do {
     s \<leftarrow> nextStep (readBaseline M) s;
     s \<leftarrow> nextStep (injectStep M can 12345000 1000) s;
     s \<leftarrow> nextStep (injectStep M can 0 1001) s;
     s \<leftarrow> nextStep (injectStep M can 86399999 1002) s;
     s \<leftarrow> nextStep (injectStep M can 43210000 0) s;
     s \<leftarrow> nextStep (injectStep M can 1000 0xFFFF) s;
     s \<leftarrow> nextStep (continuousStep M can) s;
     s \<leftarrow> nextStep (verifyInvalidDlc M can 5) s;
     nextStep (verifyInvalidDlc M can 7) s }"

text \<open>Step 11 when the COB-ID was modified and SDO is usable: whether the restoration is verified,
  \<open>completion_wait_timed_out\<close> and whether another reset was performed.\<close>

definition normalRestore :: "lely \<Rightarrow> u32 \<Rightarrow> bool \<Rightarrow> bool \<Rightarrow> (bool \<times> bool \<times> bool) host" where
  "normalRestore M original consumer_enable_reset_performed cw = do {
     (ok, cw) \<leftarrow> writeAndVerifyTimeCobId M original cw;
     if ok \<and> consumer_enable_reset_performed then do {
       reset \<leftarrow> resetSlaveCommunication M;
       if \<not> reset then return (False, cw, False)
       else do {
         (ok, cw) \<leftarrow> verifyTimeCobId M original False;
         return (ok, cw, True)
       } }
     else return (ok, cw, False) }"

text \<open>Steps 11 and 12: the result, whether the restoration is verified,
  \<open>completion_wait_timed_out\<close> and \<open>slave_needs_start\<close>.\<close>

definition restoreStage ::
    "lely \<Rightarrow> u32 \<Rightarrow> bool \<Rightarrow> bool \<Rightarrow> bool \<Rightarrow> bool \<times> bool \<Rightarrow> (bool \<times> bool \<times> bool \<times> bool) host" where
  "restoreStage M original attempted reset_recovery_required reset_performed s = do {
     let (ok, cw) = s;
     (restored, cw, reset_again) \<leftarrow>
       (if attempted \<and> \<not> cw \<and> \<not> reset_recovery_required
        then normalRestore M original reset_performed cw
        else return (\<not> attempted, cw, False));
     if attempted \<and> \<not> restored then do {
       (restored, cw, needs_start) \<leftarrow> recoverTimeCobIdWithReset M original cw;
       return (False, restored, cw, needs_start)
     } else return (ok, restored, cw, reset_performed \<or> reset_again) }"

definition finishTime :: "lely \<Rightarrow> bool \<Rightarrow> bool \<times> bool \<times> bool \<times> bool \<Rightarrow> int host" where
  "finishTime M attempted s = do {
     let (ok, restored, cw, needs_start) = s;
     let ok = (ok \<and> \<not> cw);
     ok \<leftarrow> (if needs_start \<and> restored then do {
         started \<leftarrow> issueNmtCommand M START CANOPEN_SLAVE_NODE_ID;
         return (ok \<and> started)
       } else return ok);
     return (if ok \<and> \<not> (attempted \<and> \<not> restored) then 0 else 1) }"

definition timeProcess :: "lely \<Rightarrow> int host" where
  "timeProcess M = do {
     (ok, baseline, cw) \<leftarrow> readTimeDiagnostic M default_diagnostic False;
     if \<not> ok then return 1
     else do {
       (original_read, original) \<leftarrow> readRemoteSdo tU32 M CANOPEN_SLAVE_NODE_ID kTimeCobIdIndex
                                     kTimeCobIdSubindex 0;
       if original_read \<noteq> SUCCESS then return 1
       else if original AND kTimeUnsupportedCobIdMask \<noteq> 0 then return 1
       else if original AND kTimeProducerMask \<noteq> 0 then return 1
       else do {
         let can = original AND kTimeCanIdMask;
         let enabled = original OR kTimeConsumerMask;
         (ok, cw, reset_recovery_required, reset_performed) \<leftarrow> enableConsumer M original enabled cw;
         (ok, cw) \<leftarrow> timeStimuli M can (ok, cw);
         let attempted = (enabled \<noteq> original \<or> ok);
         s \<leftarrow> nextStep (disabledStep M can enabled) (ok, cw);
         s \<leftarrow> nextStep (reenabledStep M can enabled) s;
         s \<leftarrow> restoreStage M original attempted reset_recovery_required reset_performed s;
         finishTime M attempted s
       } } }"

section \<open>Modular time\<close>

definition cycle_ms :: nat where "cycle_ms = 65536 * 86400000"

lemma kTimeCycle_unat [simp]: "unat kTimeCycleMilliseconds = cycle_ms"
  by (simp add: const_defs cycle_ms_def)

lemma timePosition_unat: "unat (timePosition m d) = unat d * 86400000 + unat m"
proof -
  have "unat d < 65536" "unat m < 4294967296" by (rule unat_u16_less, rule unat_u32_less)
  then show ?thesis
    by (simp add: timePosition_def const_defs unat_word_ariths)
qed

lemma timePosition_less: "unat m < 86400000 \<Longrightarrow> unat (timePosition m d) < cycle_ms"
  using unat_u16_less [of d] by (simp add: timePosition_unat cycle_ms_def)

lemma timePosition_inj:
  assumes "unat m < 86400000" "unat m' < 86400000"
  shows "timePosition m d = timePosition m' d' \<longleftrightarrow> m = m' \<and> d = d'"
proof -
  have "unat (timePosition m d) div 86400000 = unat d" "unat (timePosition m d) mod 86400000 = unat m"
    "unat (timePosition m' d') div 86400000 = unat d'" "unat (timePosition m' d') mod 86400000 = unat m'"
    using assms by (simp_all add: timePosition_unat)
  then show ?thesis by (metis word_unat_eq_iff)
qed

lemma forwardTimeDelta_mod:
  assumes "unat a < cycle_ms" "unat b < cycle_ms"
  shows "unat (forwardTimeDelta a b) = (unat b + cycle_ms - unat a) mod cycle_ms"
proof (cases "a \<le> b")
  case True
  then have "unat a \<le> unat b" by (simp add: word_le_nat_alt)
  then have "unat b + cycle_ms - unat a = (unat b - unat a) + cycle_ms" by simp
  with True assms show ?thesis by (simp add: forwardTimeDelta_def unat_sub del: add_diff_assoc2)
next
  case False
  then have lt: "unat b < unat a" by (simp add: word_le_nat_alt)
  have "unat (kTimeCycleMilliseconds - a) = cycle_ms - unat a"
    using assms(1) by (simp add: unat_sub word_le_nat_alt)
  then have "unat (kTimeCycleMilliseconds - a + b) = cycle_ms - unat a + unat b"
    using lt assms by (simp add: unat_word_ariths cycle_ms_def)
  with False lt assms show ?thesis by (simp add: forwardTimeDelta_def)
qed

text \<open>The position reached after \<open>k\<close> milliseconds, across midnight and across the day wrap.\<close>

lemma forwardTimeDelta_advance:
  assumes "unat a < cycle_ms" "unat b = (unat a + k) mod cycle_ms" "k < cycle_ms"
  shows "unat (forwardTimeDelta a b) = k"
proof -
  have b: "unat b < cycle_ms" using assms(2) by (simp add: cycle_ms_def)
  have "(unat b + cycle_ms - unat a) mod cycle_ms = k"
  proof (cases "unat a + k < cycle_ms")
    case True
    then show ?thesis using assms by simp
  next
    case False
    then have "(unat a + k) mod cycle_ms = unat a + k - cycle_ms"
      using assms by (simp add: mod_if)
    then show ?thesis using assms False by simp
  qed
  then show ?thesis by (simp add: forwardTimeDelta_mod [OF assms(1) b])
qed

section \<open>Tolerances\<close>

lemma elapsedCount_unat:
  assumes "t0 \<le> t1" "(t1 - t0) div 1000000 < 2 ^ 64"
  shows "unat (elapsedCount t1 t0) = (t1 - t0) div 1000000"
  using assms by (simp add: elapsedCount_def intervalMs_def unsigned_of_nat take_bit_eq_mod)

definition position :: "TimeDiagnostic \<Rightarrow> nat" where
  "position x = unat (days x) * 86400000 + unat (milliseconds x)"

definition remote_elapsed_ms :: "TimeDiagnostic \<Rightarrow> TimeDiagnostic \<Rightarrow> nat" where
  "remote_elapsed_ms x y = (position y + cycle_ms - position x) mod cycle_ms"

definition plausible_elapsed :: "nat \<Rightarrow> nat \<Rightarrow> bool" where
  "plausible_elapsed t0 t1 \<longleftrightarrow> t0 \<le> t1 \<and> (t1 - t0) div 1000000 < 2 ^ 63"

lemma validateContinuousAdvance_iff:
  assumes "unat (milliseconds x) < 86400000" "unat (milliseconds y) < 86400000"
    and "plausible_elapsed (sampled_at x) (sampled_at y)"
  shows "validateContinuousAdvance x y n \<longleftrightarrow> rx_count y = rx_count x + n \<and>
     (let host = (sampled_at y - sampled_at x) div 1000000; remote = remote_elapsed_ms x y
      in remote \<le> host + 120 \<and> host \<le> remote + 120)"
proof -
  let ?e = "elapsedCount (sampled_at y) (sampled_at x)"
  let ?r = "forwardTimeDelta (timePosition (milliseconds x) (days x)) (timePosition (milliseconds y) (days y))"
  let ?tol = "ucast kContinuousToleranceMs :: u64"
  have e: "unat ?e = (sampled_at y - sampled_at x) div 1000000" "unat ?e < 2 ^ 63"
    using assms(3) by (auto simp: plausible_elapsed_def elapsedCount_unat)
  have r: "unat ?r = remote_elapsed_ms x y"
    using timePosition_less assms(1,2)
    by (simp add: forwardTimeDelta_mod remote_elapsed_ms_def position_def timePosition_unat)
  have tol: "unat ?tol = 120" by (simp add: kContinuousToleranceMs_def)
  have plus: "unat (?e + ?tol) = unat ?e + 120"
    using e(2) tol by (simp add: unat_word_ariths)
  have minus: "unat (if ?tol < ?e then ?e - ?tol else 0) = unat ?e - 120"
    using tol by (auto simp: unat_sub word_less_nat_alt word_le_nat_alt)
  have delta: "rx_count y - rx_count x \<noteq> n \<longleftrightarrow> rx_count y \<noteq> rx_count x + n"
    by (metis add.commute add_diff_cancel_left' diff_add_cancel)
  have "\<not> (?r < (if ?tol < ?e then ?e - ?tol else 0) \<or> ?e + ?tol < ?r) \<longleftrightarrow>
     remote_elapsed_ms x y \<le> unat ?e + 120 \<and> unat ?e \<le> remote_elapsed_ms x y + 120"
    unfolding word_less_nat_alt plus r minus [unfolded word_less_nat_alt] by auto
  then show ?thesis
    unfolding validateContinuousAdvance_def Let_def delta e(1) by auto
qed

section \<open>The frame\<close>

definition decodeTimeFrame :: "u8 list \<Rightarrow> u32 \<times> u16" where
  "decodeTimeFrame bs =
     (ucast (bs ! 0) OR push_bit 8 (ucast (bs ! 1)) OR push_bit 16 (ucast (bs ! 2)) OR
        push_bit 24 (ucast (bs ! 3)),
      ucast (bs ! 4) OR push_bit 8 (ucast (bs ! 5)))"

lemma time_masks: "(0xFF :: u32) = mask 8" "(0xFF :: u16) = mask 8"
  by (simp_all add: mask_eq_exp_minus_1)

lemma decode_timeFrame: "decodeTimeFrame (can_data (timeFrame can dlc m d)) = (m, d)"
proof -
  have "(ucast (ucast (m AND 0xFF) :: u8) :: u32) OR push_bit 8 (ucast (ucast (drop_bit 8 m AND 0xFF) :: u8)) OR
      push_bit 16 (ucast (ucast (drop_bit 16 m AND 0xFF) :: u8)) OR
      push_bit 24 (ucast (ucast (drop_bit 24 m AND 0xFF) :: u8)) = m" (is "?x = m")
  proof (rule bit_word_eqI)
    fix n assume "n < LENGTH(32)"
    then consider "n < 8" | "8 \<le> n" "n < 16" | "16 \<le> n" "n < 24" | "24 \<le> n" "n < 32" by force
    then show "bit ?x n = bit m n" unfolding time_masks by cases (auto simp: bit_simps)
  qed
  moreover have "(ucast (ucast (d AND 0xFF) :: u8) :: u16) OR
      push_bit 8 (ucast (ucast (drop_bit 8 d AND 0xFF) :: u8)) = d"
    unfolding time_masks by (rule bit_word_eqI) (auto simp: bit_simps)
  ultimately show ?thesis by (simp add: decodeTimeFrame_def timeFrame_def numeral_eq_Suc)
qed

lemma sendTimeFrame_events:
  "wp (sendTimeFrame M can dlc m d) (\<lambda>ok w'. \<exists>es. hist w' = es @ hist w \<and>
     (es = [] \<and> \<not> (can \<le> 0x7FF \<and> dlc \<le> 8) \<and> \<not> ok \<or> es = [EvCanLock False] \<and> \<not> ok \<or>
      (\<exists>u. es = [EvCanUnlock u, EvCanLock True] \<and> \<not> ok) \<or>
      (\<exists>s u. can \<le> 0x7FF \<and> dlc \<le> 8 \<and> ok = (s \<and> u) \<and>
         es = [EvCanUnlock u, EvCanSend (timeFrame can dlc m d) s, EvCanLock True]))) w"
  unfolding sendTimeFrame_def Let_def
  by (intro wp_intro) (auto simp: kTimeCanIdMask_def kClassicCanMaxLength_def not_less)

section \<open>Unknown transactions and reset boundaries\<close>

text \<open>
  \<open>pending es\<close> (newest event first): some SDO transaction was left open and no accepted
  communication reset followed it.  \<open>orderly es\<close>: no SDO transaction starts while one is pending.
\<close>

fun pending :: "history \<Rightarrow> bool" where
  "pending [] = False"
| "pending (e # es) = (unknown_state e \<or>
     (pending es \<and> e \<noteq> EvCommand RESET_COMM CANOPEN_SLAVE_NODE_ID True))"

fun orderly :: "history \<Rightarrow> bool" where
  "orderly [] = True"
| "orderly (e # es) = ((sdo_traffic e \<longrightarrow> \<not> pending es) \<and> orderly es)"

lemma pending_append: "\<not> pending es \<Longrightarrow> pending (es' @ es) = pending es'"
  by (induction es') auto

lemma orderly_append: "\<not> pending es \<Longrightarrow> orderly (es' @ es) = (orderly es' \<and> orderly es)"
  by (induction es') (auto simp: pending_append)

text \<open>
  An operation that keeps the order from any state without pending transaction: it reports a
  pending transaction through \<open>cw\<close>, and then it has failed.
\<close>

definition order_post :: "('r \<Rightarrow> bool) \<Rightarrow> ('r \<Rightarrow> bool) \<Rightarrow> world \<Rightarrow> 'r \<Rightarrow> world \<Rightarrow> bool" where
  "order_post ok cw w r w' \<longleftrightarrow> (\<exists>es. hist w' = es @ hist w \<and> orderly es \<and>
     (pending es \<longrightarrow> cw r) \<and> (cw r \<longrightarrow> \<not> ok r))"

text \<open>The history since \<open>w\<close> is orderly with nothing pending.\<close>

definition clear_since :: "world \<Rightarrow> world \<Rightarrow> bool" where
  "clear_since w w' \<longleftrightarrow> (\<exists>es. hist w' = es @ hist w \<and> orderly es \<and> \<not> pending es)"

definition ordered_since :: "world \<Rightarrow> world \<Rightarrow> bool" where
  "ordered_since w w' \<longleftrightarrow> (\<exists>es. hist w' = es @ hist w \<and> orderly es)"

lemma clear_refl [simp, intro]: "clear_since w w"
  by (auto simp: clear_since_def)

lemma order_post_split:
  "order_post ok cw w r w' \<longleftrightarrow> (if cw r then ordered_since w w' \<and> \<not> ok r else clear_since w w')"
  by (auto simp: order_post_def clear_since_def ordered_since_def)

lemma clear_trans: "clear_since u v \<Longrightarrow> clear_since v w \<Longrightarrow> clear_since u w"
  unfolding clear_since_def by (metis append_assoc orderly_append pending_append)

lemma clear_ordered: "clear_since u v \<Longrightarrow> ordered_since v w \<Longrightarrow> ordered_since u w"
  unfolding clear_since_def ordered_since_def by (metis append_assoc orderly_append pending_append)

lemma clear_event: "hist w' = e # hist w \<Longrightarrow> \<not> unknown_state e \<Longrightarrow> clear_since w w'"
  unfolding clear_since_def by (intro exI [of _ "[e]"]) simp

lemma ordered_event: "hist w' = e # hist w \<Longrightarrow> ordered_since w w'"
  unfolding ordered_since_def by (intro exI [of _ "[e]"]) simp

lemma wpi_order_upload:
  assumes "\<And>r v w'. (if r = WAIT_TIMEOUT then ordered_since w w' else clear_since w w') \<Longrightarrow> Q (r, v) w'"
  shows "wp (readRemoteSdoFor T M node index sub v0 t m) Q w"
  by (intro wpi_readRemoteSdoFor assms)
     (auto simp: outcome_WAIT_TIMEOUT_iff intro: clear_event ordered_event)

lemma wpi_order_download:
  assumes "\<And>r w'. (if r = WAIT_TIMEOUT then ordered_since w w' else clear_since w w') \<Longrightarrow> Q r w'"
  shows "wp (writeRemoteSdoFor M node index sub v t m) Q w"
  by (intro wpi_writeRemoteSdoFor assms)
     (auto simp: outcome_WAIT_TIMEOUT_iff intro: clear_event ordered_event)

text \<open>Events that neither open nor close a transaction.\<close>

fun neutral :: "event \<Rightarrow> bool" where
  "neutral (EvUpload rq r) = False"
| "neutral (EvDownload rq v r) = False"
| "neutral (EvCommand cmd node ok) = False"
| "neutral _ = True"

definition idle_since :: "world \<Rightarrow> world \<Rightarrow> bool" where
  "idle_since w w' \<longleftrightarrow> (\<exists>es. hist w' = es @ hist w \<and> list_all neutral es)"

lemma neutral_append:
  "list_all neutral es \<Longrightarrow> pending (es @ h) = pending h \<and> orderly (es @ h) = orderly h"
proof (induction es)
  case (Cons e es)
  then show ?case by (cases e) auto
qed simp

lemma idle_clear: "idle_since w w' \<Longrightarrow> clear_since u w \<Longrightarrow> clear_since u w'"
  unfolding idle_since_def clear_since_def by (metis append_assoc neutral_append)

lemma idle_ordered: "idle_since w w' \<Longrightarrow> ordered_since u w \<Longrightarrow> ordered_since u w'"
  unfolding idle_since_def ordered_since_def by (metis append_assoc neutral_append)

lemma wpi_order_other:
  "(\<And>w'. idle_since w w' \<Longrightarrow> Q () w') \<Longrightarrow> wp (sleep_for M d) Q w"
  "(\<And>x w'. idle_since w w' \<Longrightarrow> Q' x w') \<Longrightarrow> wp (steady_now M) Q' w"
  by (auto simp: idle_since_def intro!: wp_intro)

lemma wpi_order_sendTimeFrame:
  "(\<And>x w'. idle_since w w' \<Longrightarrow> Q x w') \<Longrightarrow> wp (sendTimeFrame M can dlc m d) Q w"
  by (rule wp_mono [OF sendTimeFrame_events]) (auto simp: idle_since_def elim!: meta_allE meta_impE)

lemmas order_wps = wpi_return wpi_bind wpi_if wpi_case_prod wpi_Let wpi_order_upload
  wpi_order_download wpi_order_other wpi_order_sendTimeFrame

text \<open>Used backwards with \<open>erule\<close>, as the rules for \<open>later\<close>.\<close>

lemma clear_back: "clear_since x v \<Longrightarrow> clear_since u x \<Longrightarrow> clear_since u v"
  by (rule clear_trans)

lemma ordered_back: "ordered_since x v \<Longrightarrow> clear_since u x \<Longrightarrow> ordered_since u v"
  by (rule clear_ordered)

lemma wpi_order:
  assumes "\<And>w. wp m (order_post ok cw w) w"
    and "\<And>r w'. (if cw r then ordered_since w w' \<and> \<not> ok r else clear_since w w') \<Longrightarrow> Q r w'"
  shows "wp m Q w"
  by (rule wp_mono [OF assms(1)]) (use assms(2) in \<open>simp add: order_post_split\<close>)

abbreviation last3 :: "'a \<times> 'b \<times> bool \<Rightarrow> bool" where
  "last3 r \<equiv> snd (snd r)"

lemma wpi_readRxCount:
  assumes "\<not> cw" "\<And>r w'. (if last3 r then ordered_since w w' \<and> \<not> fst r else clear_since w w') \<Longrightarrow> Q r w'"
  shows "wp (readRxCount M v cw) Q w"
  unfolding readRxCount_def by (intro order_wps assms(2)) (use assms(1) in \<open>auto split: if_splits\<close>)

lemma readTimeAttempts_order: "\<not> cw \<Longrightarrow> wp (readTimeAttempts M n d cw) (order_post fst last3 w) w"
proof (induction n arbitrary: w cw)
  case 0
  then show ?case by (simp add: host_wp order_post_split)
next
  case (Suc n)
  have rec: "wp (readTimeAttempts M n d cw) (order_post fst last3 w) w'"
    if "clear_since w w'" "\<not> cw" for w' cw
    by (rule wp_mono [OF Suc.IH [OF that(2)]])
       (use that(1) in \<open>auto simp: order_post_split intro: clear_trans clear_ordered split: if_splits\<close>)
  show ?case
    using Suc.prems
    by (simp only: readTimeAttempts.simps)
       (intro order_wps wpi_readRxCount rec; (rule rec)?;
        (clarsimp simp: order_post_split split: if_splits)?;
        (intro conjI impI)?;
        ((rule clear_refl | erule clear_back ordered_back idle_clear idle_ordered)+)?)
qed

lemma wpi_readTimeDiagnostic:
  assumes "\<not> cw" "\<And>r w'. (if last3 r then ordered_since w w' \<and> \<not> fst r else clear_since w w') \<Longrightarrow> Q r w'"
  shows "wp (readTimeDiagnostic M d cw) Q w"
  unfolding readTimeDiagnostic_def
  by (rule wpi_order [OF readTimeAttempts_order]) (use assms in auto)

lemma clear_now: "clear_since u w \<Longrightarrow> clear_since u (occur M (EvNow t) d w)"
  by (rule idle_clear) (auto simp: idle_since_def)


lemma wpi_waitForRxCount:
  assumes "\<not> cw" "\<And>r w'. (if snd r then ordered_since w w' \<and> \<not> fst r else clear_since w w') \<Longrightarrow> Q r w'"
  shows "wp (waitForRxCount M n cw) Q w"
proof -
  let ?post = "\<lambda>r w'. case r of Inl cw \<Rightarrow> \<not> cw \<and> clear_since w w'
     | Inr (ok, cw) \<Rightarrow> if cw then ordered_since w w' \<and> \<not> ok else clear_since w w'"
  have body: "wp (pollRxCount M n cw) ?post v" if "\<not> cw" "clear_since w v" for cw v
    using that unfolding pollRxCount_def
    by - (intro order_wps wpi_readRxCount; (clarsimp split: if_splits)?;
        (intro conjI impI)?; ((assumption | rule clear_refl | erule clear_back ordered_back idle_clear idle_ordered)+)?)
  have loop: "wp (deadline_loop M t (pollRxCount M n) cw) ?post v" if "\<not> cw" "clear_since w v" for t cw v
    by (rule wp_deadline_loop [where I = "\<lambda>cw v. \<not> cw \<and> clear_since w v"])
       (use that in \<open>auto intro: clear_now wp_mono [OF body] split: sum.splits\<close>)
  show ?thesis
    unfolding waitForRxCount_def
    by (intro wpi_bind wpi_order_other wp_mono [OF loop] wpi_case_sum wpi_return assms(2))
       (use assms(1) in \<open>auto intro: idle_clear [OF _ clear_refl] split: sum.splits\<close>)
qed

lemma wpi_waitForAppliedTime:
  assumes "\<not> cw" "\<And>r w'. (if last3 r then ordered_since w w' \<and> \<not> fst r else clear_since w w') \<Longrightarrow> Q r w'"
  shows "wp (waitForAppliedTime M n m d t dg cw) Q w"
proof -
  let ?post = "\<lambda>r w'. case r of Inl (ld, cw) \<Rightarrow> \<not> cw \<and> clear_since w w'
     | Inr (ok, ld, cw) \<Rightarrow> if cw then ordered_since w w' \<and> \<not> ok else clear_since w w'"
  have body: "wp (pollAppliedTime M n m d t dg s) ?post v" if "\<not> snd s" "clear_since w v" for s v
    using that unfolding pollAppliedTime_def Let_def
    by - (intro order_wps wpi_readTimeDiagnostic; (clarsimp split: if_splits)?;
        (intro conjI impI)?; ((assumption | rule clear_refl | erule clear_back ordered_back idle_clear idle_ordered)+)?)
  have loop: "wp (deadline_loop M dl (pollAppliedTime M n m d t dg) s) ?post v"
    if "\<not> snd s" "clear_since w v" for dl s v
    by (rule wp_deadline_loop [where I = "\<lambda>s v. \<not> snd s \<and> clear_since w v"])
       (use that in \<open>auto intro: clear_now wp_mono [OF body] split: sum.splits\<close>)
  show ?thesis
    unfolding waitForAppliedTime_def
    by (intro wpi_bind wpi_order_other wp_mono [OF loop] wpi_case_sum wpi_case_prod wpi_return assms(2))
       (use assms(1) in \<open>auto intro: idle_clear [OF _ clear_refl] split: sum.splits\<close>)
qed

lemma ordered_command:
  assumes "hist w' = EvCommand c n ok # hist w" "ordered_since u w"
  shows "ordered_since u w'"
proof -
  obtain es where "hist w = es @ hist u" "orderly es" using assms(2) by (auto simp: ordered_since_def)
  then show ?thesis
    using assms(1) unfolding ordered_since_def by (intro exI [of _ "EvCommand c n ok # es"]) simp
qed

text \<open>A communication reset may start from any orderly history; when it succeeds nothing is
  pending any more.\<close>

lemma resetSlaveCommunication_boundary:
  assumes "\<And>ok w'. (if ok then clear_since u w' else ordered_since u w') \<Longrightarrow> Q ok w'"
    and "ordered_since u w"
  shows "wp (resetSlaveCommunication M) Q w"
proof -
  have reset: "clear_since u w'"
    if "hist w' = EvWait t ok # EvCommand RESET_COMM CANOPEN_SLAVE_NODE_ID True # hist w" for w' t ok
  proof -
    obtain es where "hist w = es @ hist u" "orderly es" using assms(2) by (auto simp: ordered_since_def)
    then show ?thesis using that unfolding clear_since_def
      by (intro exI [of _ "EvWait t ok # EvCommand RESET_COMM CANOPEN_SLAVE_NODE_ID True # es"]) simp
  qed
  have refused: "ordered_since u w'" if "hist w' = EvCommand c n ok # hist w" for w' c n ok
    using that assms(2) by (rule ordered_command)
  have cs: "clear_since u w' \<Longrightarrow> ordered_since u w'" for w'
    by (auto simp: clear_since_def ordered_since_def)
  show ?thesis
    unfolding resetSlaveCommunication_def prepareBootWait_def issueNmtCommand_def
      waitForBootCompletion_def waitForBootResult_def
    by (intro wp_intro assms(1)) (auto intro: reset cs [OF reset] refused)
qed

text \<open>Every operation between two boundaries: from a clear history it leaves a clear one, or an
  orderly one with its failure and the flag reported.\<close>

definition track :: "world \<Rightarrow> ('r \<Rightarrow> bool) \<Rightarrow> ('r \<Rightarrow> bool) \<Rightarrow> 'r \<Rightarrow> world \<Rightarrow> bool" where
  "track u ok cw r w \<longleftrightarrow> (if cw r then ordered_since u w \<and> \<not> ok r else clear_since u w)"

lemma trackD: "track u ok cw r w \<Longrightarrow> ordered_since u w"
  by (auto simp: track_def clear_since_def ordered_since_def split: if_splits)

lemma wpi_writeAndVerifyTimeCobId:
  assumes "\<not> cw" "clear_since u w" "\<And>r w'. track u fst snd r w' \<Longrightarrow> Q r w'"
  shows "wp (writeAndVerifyTimeCobId M v cw) Q w"
  using assms(1,2) unfolding writeAndVerifyTimeCobId_def
  by - (intro order_wps assms(3); (clarsimp simp: track_def split: if_splits)?;
      ((assumption | erule clear_back ordered_back idle_clear idle_ordered)+)?)

lemma wpi_verifyTimeCobId:
  assumes "\<not> cw" "clear_since u w" "\<And>r w'. track u fst snd r w' \<Longrightarrow> Q r w'"
  shows "wp (verifyTimeCobId M v cw) Q w"
  using assms(1,2) unfolding verifyTimeCobId_def
  by - (intro order_wps assms(3); (clarsimp simp: track_def split: if_splits)?;
      ((assumption | erule clear_back ordered_back idle_clear idle_ordered)+)?)

lemma wpi_injectAndVerifyTime:
  assumes "\<not> cw" "clear_since u w" "\<And>r w'. track u fst last3 r w' \<Longrightarrow> Q r w'"
  shows "wp (injectAndVerifyTime M can m d cw) Q w"
  using assms(1,2) unfolding injectAndVerifyTime_def
  by - (intro order_wps assms(3) wpi_readRxCount wpi_waitForRxCount wpi_waitForAppliedTime;
      (clarsimp simp: track_def split: if_splits)?;
      ((assumption | erule clear_back ordered_back idle_clear idle_ordered)+)?)

lemma wpi_step_readTimeDiagnostic:
  assumes "\<not> cw" "clear_since u w" "\<And>r w'. track u fst last3 r w' \<Longrightarrow> Q r w'"
  shows "wp (readTimeDiagnostic M d cw) Q w"
  using assms(1,2)
  by - (intro wpi_readTimeDiagnostic assms(3); (clarsimp simp: track_def split: if_splits)?;
      ((assumption | erule clear_back ordered_back)+)?)

lemma time_steps_track:
  assumes "\<not> cw" "clear_since u w"
  shows "wp (injectStep M can m d cw) (track u fst snd) w"
    "wp (readBaseline M cw) (track u fst snd) w"
    "wp (continuousStep M can cw) (track u fst snd) w"
    "wp (verifyInvalidDlc M can dlc cw) (track u fst snd) w"
    "wp (disabledStep M can en cw) (track u fst snd) w"
    "wp (reenabledStep M can en cw) (track u fst snd) w"
  using assms
  unfolding injectStep_def readBaseline_def continuousStep_def verifyInvalidDlc_def disabledStep_def
    reenabledStep_def Let_def
  by - (intro wpi_return wpi_bind wpi_if wpi_case_prod wpi_order_other wpi_order_sendTimeFrame
      wpi_step_readTimeDiagnostic [where u = u] wpi_injectAndVerifyTime [where u = u]
      wpi_writeAndVerifyTimeCobId [where u = u];
      (clarsimp simp: track_def split: if_splits)?; ((assumption | erule idle_clear idle_ordered)+)?)+

text \<open>After a failed reset boundary (\<open>rr\<close>) the history is only known to be orderly and every later
  step is skipped.\<close>

definition stepping :: "world \<Rightarrow> bool \<Rightarrow> bool \<times> bool \<Rightarrow> world \<Rightarrow> bool" where
  "stepping u rr s w \<longleftrightarrow> (if rr then \<not> fst s \<and> ordered_since u w else track u fst snd s w)"

lemma wpi_nextStep:
  assumes "stepping u rr s w"
    and "\<And>cw w. \<not> cw \<Longrightarrow> clear_since u w \<Longrightarrow> wp (step cw) (track u fst snd) w"
    and "\<And>r w'. stepping u rr r w' \<Longrightarrow> Q r w'"
  shows "wp (nextStep step s) Q w"
proof (cases "fst s")
  case True
  with assms(1) have "\<not> snd s" "clear_since u w" "\<not> rr"
    by (auto simp: stepping_def track_def split: if_splits)
  then have "wp (step (snd s)) Q w"
    by (rule_tac wp_mono [OF assms(2)]) (auto intro: assms(3) simp: stepping_def)
  with True show ?thesis by (cases s) (simp add: nextStep_def)
next
  case False
  with assms(1) show ?thesis
    by (cases s) (auto simp: nextStep_def host_wp intro: assms(3))
qed

lemma wpi_timeStimuli:
  assumes "stepping u rr s w" "\<And>r w'. stepping u rr r w' \<Longrightarrow> Q r w'"
  shows "wp (timeStimuli M can s) Q w"
  unfolding timeStimuli_def
  by (intro wpi_bind wpi_nextStep [where u = u and rr = rr] time_steps_track assms; assumption)

lemma enableConsumer_stepping:
  assumes "\<not> cw" "clear_since u w"
  shows "wp (enableConsumer M og en cw) (\<lambda>(ok, cw, rr, rp) w'. stepping u rr (ok, cw) w') w"
  using assms unfolding enableConsumer_def
  by - (intro wpi_return wpi_bind wpi_if wpi_case_prod wpi_writeAndVerifyTimeCobId [where u = u]
      wpi_verifyTimeCobId [where u = u] resetSlaveCommunication_boundary [where u = u];
      (clarsimp simp: track_def stepping_def split: if_splits)?;
      (auto simp: clear_since_def ordered_since_def)?)

lemma recoverTimeCobIdWithReset_ordered:
  assumes "ordered_since u w"
  shows "wp (recoverTimeCobIdWithReset M v cw) (\<lambda>r. ordered_since u) w"
  using assms unfolding recoverTimeCobIdWithReset_def
  by - (intro wpi_return wpi_bind wpi_if wpi_case_prod wpi_writeAndVerifyTimeCobId [where u = u]
      wpi_verifyTimeCobId [where u = u] resetSlaveCommunication_boundary [where u = u];
      (auto split: if_splits dest: trackD)?)


lemma normalRestore_ordered:
  assumes "\<not> cw" "clear_since u w"
  shows "wp (normalRestore M v rp cw) (\<lambda>r. ordered_since u) w"
  using assms unfolding normalRestore_def
  by - (intro wpi_return wpi_bind wpi_if wpi_case_prod wpi_writeAndVerifyTimeCobId [where u = u]
      wpi_verifyTimeCobId [where u = u] resetSlaveCommunication_boundary [where u = u];
      (auto split: if_splits dest: trackD)?)

lemma stepping_ordered: "stepping u rr s w \<Longrightarrow> ordered_since u w"
  by (auto simp: stepping_def dest: trackD split: if_splits)

lemma restoreStage_ordered:
  assumes "stepping u rr s w"
  shows "wp (restoreStage M og at rr rp s) (\<lambda>r. ordered_since u) w"
proof -
  have clear: "\<not> snd s \<Longrightarrow> \<not> rr \<Longrightarrow> clear_since u w"
    using assms by (simp add: stepping_def track_def)
  show ?thesis
    using stepping_ordered [OF assms] clear unfolding restoreStage_def Let_def
    by - (cases s, intro wpi_return wpi_bind wpi_if wpi_case_prod
      wp_mono [OF normalRestore_ordered [where u = u]]
      wp_mono [OF recoverTimeCobIdWithReset_ordered [where u = u]]; simp)
qed

lemma finishTime_ordered: "ordered_since u w \<Longrightarrow> wp (finishTime M at s) (\<lambda>r. ordered_since u) w"
  unfolding finishTime_def Let_def issueNmtCommand_def
  by (intro wpi_return wpi_bind wpi_if wpi_case_prod wpi_submit_command; (erule (1) ordered_command)?)

lemma clear_ordered_since: "clear_since u v \<Longrightarrow> ordered_since u v"
  by (auto simp: clear_since_def ordered_since_def)

lemma timeProcess_ordered: "wp (timeProcess M) (\<lambda>r. ordered_since w) w"
  unfolding timeProcess_def Let_def
  by (intro wpi_return wpi_bind wpi_if wpi_case_prod wpi_step_readTimeDiagnostic [where u = w]
        wpi_order_upload wp_mono [OF enableConsumer_stepping [where u = w]]
        wpi_timeStimuli [where u = w] wpi_nextStep [where u = w] time_steps_track
        wp_mono [OF restoreStage_ordered [where u = w]] finishTime_ordered;
      (clarsimp simp: track_def split: if_splits)?;
      (assumption | erule clear_back ordered_back | rule clear_ordered_since)+)

section \<open>Coherent snapshots\<close>

abbreviation saw_time :: "u8 \<Rightarrow> sdo_value \<Rightarrow> event \<Rightarrow> bool" where
  "saw_time sub v \<equiv> saw CANOPEN_SLAVE_NODE_ID kTimeDiagnosticIndex sub v"

text \<open>Six events, newest first, that sample the counter and the day around the milliseconds.\<close>

definition coherent :: "TimeDiagnostic \<Rightarrow> history \<Rightarrow> bool" where
  "coherent d es \<longleftrightarrow> unat (milliseconds d) < 86400000 \<and> (\<exists>e1 e2 e3 e4 e5.
     es = [e5, e4, EvNow (sampled_at d), e3, e2, e1] \<and>
     saw_time kTimeRxCountSubindex (V32 (rx_count d)) e1 \<and> saw_time kTimeDaysSubindex (V16 (days d)) e2 \<and>
     saw_time kTimeMillisecondsSubindex (V32 (milliseconds d)) e3 \<and>
     saw_time kTimeDaysSubindex (V16 (days d)) e4 \<and> saw_time kTimeRxCountSubindex (V32 (rx_count d)) e5)"

lemma readTimeAttempts_coherent:
  "wp (readTimeAttempts M n d0 cw) (\<lambda>r w'. fst r \<longrightarrow>
     (\<exists>es x. hist w' = es @ hist x \<and> quiet w x \<and> coherent (fst (snd r)) es)) w"
proof (induction n arbitrary: w cw)
  case 0
  then show ?case by (simp add: host_wp)
next
  case (Suc n)
  have again: "wp (readTimeAttempts M n d0 cw) (\<lambda>r w'. fst r \<longrightarrow>
     (\<exists>es x. hist w' = es @ hist x \<and> quiet w x \<and> coherent (fst (snd r)) es)) v"
    if "hist v = e6 # e5 # e4 # e3 # e2 # e1 # hist w" "mutations [e6, e5, e4, e3, e2, e1] = []"
    for v cw e1 e2 e3 e4 e5 e6
  proof -
    have "quiet w v"
      unfolding quiet_def using that by (intro exI [of _ "[e6, e5, e4, e3, e2, e1]"]) simp
    then show ?thesis by (intro wp_mono [OF Suc.IH]) (blast intro: quiet_trans)
  qed
  have day: "(ucast (m :: u32) :: u64) < kMillisecondsPerDay \<longleftrightarrow> unat m < 86400000" for m
    by (simp add: word_less_nat_alt kMillisecondsPerDay_def)
  show ?case
    unfolding readTimeAttempts.simps readRxCount_def Let_def
    by (intro wpi_return wpi_bind wpi_if wpi_case_prod wpi_saw_upload wpi_steady_now again)
       (auto simp: coherent_def day not_le intro!: exI [of _ w])
qed


section \<open>Restoration\<close>

abbreviation saw_cob :: "u32 \<Rightarrow> event \<Rightarrow> bool" where
  "saw_cob v \<equiv> saw CANOPEN_SLAVE_NODE_ID kTimeCobIdIndex kTimeCobIdSubindex (V32 v)"

text \<open>The last event reads the value back, some time after \<open>u\<close>.\<close>

definition ends_with_cob :: "world \<Rightarrow> u32 \<Rightarrow> world \<Rightarrow> bool" where
  "ends_with_cob u v w \<longleftrightarrow> (\<exists>e es. hist w = e # es @ hist u \<and> saw_cob v e)"

lemma time_touches [emits_intro]:
  "touches S (readRxCount M v cw)" "touches S (readTimeAttempts M n d cw)"
  "touches S (readTimeDiagnostic M d cw)" "touches S (verifyTimeCobId M v cw)"
  "touches S (waitForRxCount M c cw)"
proof -
  show rx: "touches S (readRxCount M v cw)" for v cw
    unfolding readRxCount_def by (intro emits_intro)
  show at: "touches S (readTimeAttempts M n d cw)" for n d cw
    by (induction n arbitrary: cw) (simp_all, (intro emits_intro rx; assumption?)+)
  show "touches S (readTimeDiagnostic M d cw)" "touches S (verifyTimeCobId M v cw)"
    unfolding readTimeDiagnostic_def verifyTimeCobId_def by (intro at emits_intro)+
  show "touches S (waitForRxCount M c cw)"
    unfolding waitForRxCount_def pollRxCount_def by (intro emits_intro rx)
qed

lemma resetSlaveCommunication_touches [emits_intro]:
  "S (Nmt RESET_COMM CANOPEN_SLAVE_NODE_ID) \<Longrightarrow> touches S (resetSlaveCommunication M)"
  unfolding resetSlaveCommunication_def by (intro emits_intro)

lemma verifyTimeCobId_saw:
  "wp (verifyTimeCobId M v cw) (\<lambda>r w'. later w w' \<and> (fst r \<longrightarrow> ends_with_cob w v w')) w"
  unfolding verifyTimeCobId_def
  by (intro wpi_return wpi_bind wpi_if wpi_case_prod wpi_saw_upload)
     (auto simp: ends_with_cob_def intro: later_Cons)

lemma writeAndVerifyTimeCobId_saw:
  "wp (writeAndVerifyTimeCobId M v cw) (\<lambda>r w'. later w w' \<and> (fst r \<longrightarrow> ends_with_cob w v w')) w"
  unfolding writeAndVerifyTimeCobId_def
  by (intro wpi_return wpi_bind wpi_if wpi_case_prod wpi_saw_upload wpi_writeRemoteSdoFor)
     (auto simp: ends_with_cob_def later_def)

lemma ends_with_cob_back: "ends_with_cob v c w \<Longrightarrow> later u v \<Longrightarrow> ends_with_cob u c w"
  unfolding ends_with_cob_def later_def by force

lemma normalRestore_saw:
  "wp (normalRestore M v rp cw) (\<lambda>r w'. later w w' \<and> (fst r \<longrightarrow> ends_with_cob w v w')) w"
proof -
  have rs: "touches (\<lambda>_. True) (resetSlaveCommunication M)" by (intro emits_intro) simp
  show ?thesis
    unfolding normalRestore_def
    by (intro wpi_return wpi_bind wpi_if wpi_case_prod wp_mono [OF writeAndVerifyTimeCobId_saw]
        wp_mono [OF verifyTimeCobId_saw] wp_later [OF rs])
       (auto intro: later_trans ends_with_cob_back)
qed


section \<open>Footprint\<close>

fun time_objects :: "mutation \<Rightarrow> bool" where
  "time_objects (RemoteWrite node index sub v) =
     (node = CANOPEN_SLAVE_NODE_ID \<and> index = kTimeCobIdIndex \<and> sub = kTimeCobIdSubindex)"
| "time_objects (Nmt cmd node) = (node = CANOPEN_SLAVE_NODE_ID \<and> (cmd = RESET_COMM \<or> cmd = START))"
| "time_objects (Frame f) = (can_id f \<le> 0x7FF \<and> can_len f \<le> 8)"
| "time_objects _ = False"

lemma sendTimeFrame_touches [emits_intro]: "touches time_objects (sendTimeFrame M can dlc m d)"
proof (rule emitsI)
  fix w a w'
  assume run: "run_state (sendTimeFrame M can dlc m d) w = (a, w')"
  have "touches (\<lambda>_. True) (sendTimeFrame M can dlc m d)"
    unfolding sendTimeFrame_def Let_def by (intro emits_intro) simp
  from emits_steps [OF this run] wpD [OF sendTimeFrame_events run]
  show "steps_to (allowed time_objects) w w'" by (auto simp: steps_to_def timeFrame_def)
qed

lemma time_operations_touch [emits_intro]:
  "touches time_objects (writeAndVerifyTimeCobId M v cw)"
  "touches time_objects (waitForAppliedTime M c m d t dg cw)"
  "touches time_objects (recoverTimeCobIdWithReset M og cw)"
  "touches time_objects (verifyInvalidDlc M can dlc cw)"
  "touches time_objects (enableConsumer M og en cw)"
  "touches time_objects (injectAndVerifyTime M can m d cw)"
proof -
  show wv: "touches time_objects (writeAndVerifyTimeCobId M v cw)" for v cw
    unfolding writeAndVerifyTimeCobId_def by (intro emits_intro) simp
  show at: "touches time_objects (waitForAppliedTime M c m d t dg cw)" for c m d t dg cw
    unfolding waitForAppliedTime_def pollAppliedTime_def Let_def by (intro emits_intro)
  show "touches time_objects (recoverTimeCobIdWithReset M og cw)"
    "touches time_objects (enableConsumer M og en cw)"
    unfolding recoverTimeCobIdWithReset_def enableConsumer_def by ((intro emits_intro wv; simp))+
  show "touches time_objects (verifyInvalidDlc M can dlc cw)"
    "touches time_objects (injectAndVerifyTime M can m d cw)"
    unfolding verifyInvalidDlc_def injectAndVerifyTime_def by (intro emits_intro at)+
qed

lemma time_steps_touch [emits_intro]:
  "touches time_objects (injectStep M can m d cw)" "touches time_objects (readBaseline M cw)"
  "touches time_objects (continuousStep M can cw)" "touches time_objects (disabledStep M can en cw)"
  "touches time_objects (reenabledStep M can en cw)"
  "touches time_objects (normalRestore M og rp cw)"
  unfolding injectStep_def readBaseline_def continuousStep_def disabledStep_def reenabledStep_def
    normalRestore_def Let_def by ((intro emits_intro; simp))+

lemma nextStep_touches [emits_intro]:
  "(\<And>cw. touches S (step cw)) \<Longrightarrow> touches S (nextStep step s)"
  unfolding nextStep_def by (intro emits_intro)

lemma time_stages_touch [emits_intro]:
  "touches time_objects (timeStimuli M can s)"
  "touches time_objects (restoreStage M og at rr rp s)"
  "touches time_objects (finishTime M at s')"
  unfolding timeStimuli_def restoreStage_def finishTime_def Let_def by ((intro emits_intro; simp))+

lemma timeProcess_touches: "touches time_objects (timeProcess M)"
  unfolding timeProcess_def Let_def by (intro emits_intro)

section \<open>Success means restored\<close>

lemma restoreStage_saw:
  "wp (restoreStage M og at rr rp s) (\<lambda>(ok, restored, cw, ns) w'. later w w' \<and> (ok \<longrightarrow> fst s) \<and>
     (ok \<and> restored \<and> at \<longrightarrow> ends_with_cob w og w')) w"
  unfolding restoreStage_def Let_def
  by (intro wpi_return wpi_bind wpi_if wpi_case_prod wp_mono [OF normalRestore_saw]
      wp_later [OF time_operations_touch(3)])
     (auto intro: later_trans)

lemma finishTime_zero:
  "wp (finishTime M at (ok, restored, cw, ns)) (\<lambda>r w'. r = 1 \<or> r = 0 \<and> ok \<and> (at \<longrightarrow> restored) \<and>
     (hist w' = hist w \<or> hist w' = EvCommand START CANOPEN_SLAVE_NODE_ID True # hist w)) w"
  unfolding finishTime_def Let_def issueNmtCommand_def
  by (intro wpi_return wpi_bind wpi_if wpi_case_prod wpi_submit_command) (auto split: if_splits)

lemma wpi_nextStep_later:
  assumes "\<And>cw. touches S (step cw)" "\<And>r w'. later w w' \<Longrightarrow> (fst r \<longrightarrow> fst s) \<Longrightarrow> Q r w'"
  shows "wp (nextStep step s) Q w"
proof -
  have "wp (nextStep step s) (\<lambda>r w'. fst r \<longrightarrow> fst s) w"
    by (auto simp: nextStep_def wp_def split: prod.splits)
  moreover have "wp (nextStep step s) (\<lambda>r. later w) w"
    by (rule wp_later [OF nextStep_touches [OF assms(1)]])
  ultimately have "wp (nextStep step s) (\<lambda>r w'. later w w' \<and> (fst r \<longrightarrow> fst s)) w"
    by (simp add: wp_conj)
  then show ?thesis by (rule wp_mono) (use assms(2) in blast)
qed

text \<open>The COB-ID read before anything was changed is read back after the last change, and only a
  start command may follow.\<close>

definition time_restored :: "world \<Rightarrow> world \<Rightarrow> bool" where
  "time_restored w w' \<longleftrightarrow> (\<exists>original e0 e pre mid es.
     hist w' = es @ e # mid @ e0 # pre @ hist w \<and> mutations pre = [] \<and>
     saw_cob original e0 \<and> saw_cob original e \<and>
     (es = [] \<or> es = [EvCommand START CANOPEN_SLAVE_NODE_ID True]))"

lemma time_restoredI:
  assumes "quiet w w1" "hist w2 = e0 # hist w1" "saw_cob og e0" "later w2 w3" "ends_with_cob w3 og w4"
    "hist w' = hist w4 \<or> hist w' = EvCommand START CANOPEN_SLAVE_NODE_ID True # hist w4"
  shows "time_restored w w'"
proof -
  obtain pre where pre: "hist w1 = pre @ hist w" "mutations pre = []" using assms(1) by (auto simp: quiet_def)
  obtain m1 where m1: "hist w3 = m1 @ hist w2" using assms(4) by (auto simp: later_def)
  obtain e m2 where m2: "hist w4 = e # m2 @ hist w3" "saw_cob og e"
    using assms(5) by (auto simp: ends_with_cob_def)
  obtain es where es: "hist w' = es @ hist w4" "es = [] \<or> es = [EvCommand START CANOPEN_SLAVE_NODE_ID True]"
    using assms(6) by (metis append_Cons append_Nil)
  have "hist w' = es @ e # (m2 @ m1) @ e0 # pre @ hist w"
    using pre m1 m2 es assms(2) by simp
  then show ?thesis
    unfolding time_restored_def using pre(2) assms(3) m2(2) es(2) by blast
qed

lemma timeProcess_restores: "wp (timeProcess M) (\<lambda>r w'. r = 1 \<or> r = 0 \<and> time_restored w w') w"
proof -
  have fin: "wp (finishTime M at s) (\<lambda>r w'. r = 1 \<or> r = 0 \<and> time_restored w w') v"
    if "quiet w w1" "hist w2 = e0 # hist w1" "saw_cob og e0" "later w2 w3"
      "case s of (ok, restored, cw, ns) \<Rightarrow> ok \<and> restored \<and> at \<longrightarrow> ends_with_cob w3 og v"
      "fst s \<longrightarrow> at" for w1 w2 w3 v s at e0 og
    using that
    by (cases s) (auto intro!: wp_mono [OF finishTime_zero] time_restoredI [OF that(1-4)])
  show ?thesis
    unfolding timeProcess_def Let_def
    by (intro wpi_return wpi_bind wpi_if wpi_case_prod wp_quiet [OF time_touches(3)]
        wpi_saw_upload wp_later [OF time_operations_touch(5)] wp_later [OF time_stages_touch(1)]
        wpi_nextStep_later [OF time_steps_touch(4)] wpi_nextStep_later [OF time_steps_touch(5)]
        wp_mono [OF restoreStage_saw];
        (clarsimp; fail)?)
       (clarsimp, rule fin, assumption, assumption, assumption,
        (erule later_back)+, rule later_refl, auto)
qed

end
