(* ===== verification/Nmt_Master_Process.thy ===== *)
theory Nmt_Master_Process
  imports Observers "HOL-Library.Sublist"
begin

text \<open>
  The NMT master validation of \<open>src/nmt_master_process.cpp\<close>: the host plays a slave and checks that
  the device under test, acting as the NMT master, sends exactly the expected commands.  The
  local objects are those of the slave the host runs; the queue the commands arrive in is in
  theory \<open>Command_Queue\<close>.
\<close>

section \<open>Constants and steps\<close>

definition CANOPEN_NMT_MASTER_STEP_TIMEOUT_MS :: nat where
  "CANOPEN_NMT_MASTER_STEP_TIMEOUT_MS = 30000"
definition CANOPEN_PEER_HEARTBEAT_MS :: nat where "CANOPEN_PEER_HEARTBEAT_MS = 500"

text \<open>\<open>SdoErrc::NO_OBJ\<close>.\<close>

definition sdoErrc_NO_OBJ :: u32 where "sdoErrc_NO_OBJ = 0x06020000"

record NmtMasterStep =
  step_command :: nmt_command
  restoreHeartbeat :: bool

definition kStartStep :: NmtMasterStep where
  "kStartStep = \<lparr>step_command = START, restoreHeartbeat = False\<rparr>"
definition kStopStep :: NmtMasterStep where
  "kStopStep = \<lparr>step_command = STOP, restoreHeartbeat = False\<rparr>"
definition kPreOperationalStep :: NmtMasterStep where
  "kPreOperationalStep = \<lparr>step_command = ENTER_PREOP, restoreHeartbeat = False\<rparr>"
definition kResetCommunicationStep :: NmtMasterStep where
  "kResetCommunicationStep = \<lparr>step_command = RESET_COMM, restoreHeartbeat = False\<rparr>"
definition kResetCommunicationCompletionStep :: NmtMasterStep where
  "kResetCommunicationCompletionStep = \<lparr>step_command = ENTER_PREOP, restoreHeartbeat = True\<rparr>"
definition kResetNodeStep :: NmtMasterStep where
  "kResetNodeStep = \<lparr>step_command = RESET_NODE, restoreHeartbeat = False\<rparr>"
definition kResetNodeCommunicationStep :: NmtMasterStep where
  "kResetNodeCommunicationStep = \<lparr>step_command = RESET_COMM, restoreHeartbeat = False\<rparr>"
definition kResetNodeCompletionStep :: NmtMasterStep where
  "kResetNodeCompletionStep = \<lparr>step_command = ENTER_PREOP, restoreHeartbeat = True\<rparr>"
definition kFixtureAutoStartStep :: NmtMasterStep where
  "kFixtureAutoStartStep = \<lparr>step_command = START, restoreHeartbeat = False\<rparr>"
definition kFixturePreOperationalStep :: NmtMasterStep where
  "kFixturePreOperationalStep = \<lparr>step_command = ENTER_PREOP, restoreHeartbeat = False\<rparr>"
definition kFinalStartStep :: NmtMasterStep where
  "kFinalStartStep = \<lparr>step_command = START, restoreHeartbeat = False\<rparr>"

lemmas step_defs = kStartStep_def kStopStep_def kPreOperationalStep_def kResetCommunicationStep_def
  kResetCommunicationCompletionStep_def kResetNodeStep_def kResetNodeCommunicationStep_def
  kResetNodeCompletionStep_def kFixtureAutoStartStep_def kFixturePreOperationalStep_def
  kFinalStartStep_def

section \<open>Operations\<close>

definition registerNmtCommandObserver :: "unit host" where
  "registerNmtCommandObserver = do {
     update_mem (\<lambda>m. m\<lparr>commands := clearCommands True (commands m)\<rparr>);
     update_mem (\<lambda>m. m\<lparr>on_command := True\<rparr>) }"

definition unregisterNmtCommandObserver :: "unit host" where
  "unregisterNmtCommandObserver = do {
     update_mem (\<lambda>m. m\<lparr>commands := (commands m)\<lparr>cq_active := False\<rparr>\<rparr>);
     update_mem (\<lambda>m. m\<lparr>on_command := False\<rparr>);
     update_mem (\<lambda>m. m\<lparr>commands := clearCommands (cq_active (commands m)) (commands m)\<rparr>) }"

definition configurePeerHeartbeat :: "lely \<Rightarrow> bool host" where
  "configurePeerHeartbeat M = do {
     error \<leftarrow> local_write M 0x1017 0 (V16 (of_nat CANOPEN_PEER_HEARTBEAT_MS));
     if failed error then return False else return True }"

text \<open>Whether the start-up contract could be determined, and whether it says auto-start.\<close>

definition peerAutoStartsAfterReset :: "lely \<Rightarrow> (bool \<times> bool) host" where
  "peerAutoStartsAfterReset M = do {
     (startup, error) \<leftarrow> local_read lU32 M 0x1F80 0;
     if \<not> failed error then return (True, startup AND 0x04 = 0)
     else if error = SdoCategory sdoErrc_NO_OBJ then return (True, True)
     else return (False, False) }"

definition commandReady :: "memory \<Rightarrow> bool" where
  "commandReady m \<longleftrightarrow> cq_count (commands m) > 0 \<or> cq_overflow (commands m)"

definition waitForNmtCommand :: "lely \<Rightarrow> nmt_command option host" where
  "waitForNmtCommand M = do {
     observed \<leftarrow> wait_for M (ms CANOPEN_NMT_MASTER_STEP_TIMEOUT_MS) commandReady;
     if \<not> observed then return None
     else do {
       overflow \<leftarrow> read_mem (\<lambda>m. cq_overflow (commands m));
       if overflow then return None
       else do {
         cmd \<leftarrow> read_mem (\<lambda>m. headCommand (commands m));
         update_mem (\<lambda>m. m\<lparr>commands := dropCommand (commands m)\<rparr>);
         return (Some cmd)
       } } }"

text \<open>Whether the window ended normally, and the command if one was observed.\<close>

definition waitForOptionalNmtCommand :: "lely \<Rightarrow> nat \<Rightarrow> (bool \<times> nmt_command option) host" where
  "waitForOptionalNmtCommand M timeout = do {
     observed \<leftarrow> wait_for M (ms timeout) commandReady;
     if \<not> observed then return (True, None)
     else do {
       overflow \<leftarrow> read_mem (\<lambda>m. cq_overflow (commands m));
       if overflow then return (False, None)
       else do {
         cmd \<leftarrow> read_mem (\<lambda>m. headCommand (commands m));
         update_mem (\<lambda>m. m\<lparr>commands := dropCommand (commands m)\<rparr>);
         return (True, Some cmd)
       } } }"

definition waitForNmtMasterStep :: "lely \<Rightarrow> NmtMasterStep \<Rightarrow> bool host" where
  "waitForNmtMasterStep M step = do {
     received \<leftarrow> waitForNmtCommand M;
     case received of
       None \<Rightarrow> return False
     | Some cmd \<Rightarrow>
         if cmd \<noteq> step_command step then return False
         else if restoreHeartbeat step then do {
           configured \<leftarrow> configurePeerHeartbeat M;
           if \<not> configured then return False else return True
         } else return True }"

text \<open>Whether the expected initial path was observed, and whether it consumed the formal START.\<close>

definition enterPreOperational :: "lely \<Rightarrow> bool \<Rightarrow> (bool \<times> bool) host" where
  "enterPreOperational M autoStartAfterReset = do {
     received \<leftarrow> waitForNmtCommand M;
     case received of
       None \<Rightarrow> return (False, False)
     | Some cmd \<Rightarrow>
         if autoStartAfterReset then
           (if cmd \<noteq> ENTER_PREOP then return (False, False) else return (True, False))
         else if cmd \<noteq> START then return (False, False)
         else return (True, True) }"

definition waitForFormalCommandAfterReset :: "lely \<Rightarrow> NmtMasterStep \<Rightarrow> bool \<Rightarrow> bool host" where
  "waitForFormalCommandAfterReset M formalStep autoStartAfterReset =
     (if \<not> autoStartAfterReset then waitForNmtMasterStep M formalStep
      else do {
        fixture \<leftarrow> andM (waitForNmtMasterStep M kFixtureAutoStartStep)
                        (waitForNmtMasterStep M kFixturePreOperationalStep);
        if \<not> fixture then return False else waitForNmtMasterStep M formalStep })"

definition keepPeerAliveForFinalHeartbeat :: "lely \<Rightarrow> bool host" where
  "keepPeerAliveForFinalHeartbeat M = do {
     configured \<leftarrow> configurePeerHeartbeat M;
     if \<not> configured then return False
     else do {
       (ok, observed) \<leftarrow> waitForOptionalNmtCommand M (CANOPEN_PEER_HEARTBEAT_MS * 2);
       if \<not> ok then return False
       else if observed \<noteq> None then return False
       else do {
         (configuredHeartbeat, error) \<leftarrow> local_read lU16 M 0x1017 0;
         if failed error then return False
         else if configuredHeartbeat \<noteq> of_nat CANOPEN_PEER_HEARTBEAT_MS then return False
         else return True
       } } }"

definition waitForFinalStartAfterReset :: "lely \<Rightarrow> bool \<Rightarrow> bool host" where
  "waitForFinalStartAfterReset M autoStartAfterReset = do {
     fixture \<leftarrow> (if autoStartAfterReset
                 then andM (waitForNmtMasterStep M kFixtureAutoStartStep)
                           (waitForNmtMasterStep M kFixturePreOperationalStep)
                 else return True);
     if \<not> fixture then return False
     else do {
       started \<leftarrow> waitForNmtMasterStep M kFinalStartStep;
       if \<not> started then return False else keepPeerAliveForFinalHeartbeat M
     } }"

text \<open>The part of \<open>nmtMasterProcess\<close> between the registration and the label \<open>cleanup\<close>: a failed check
  jumps there with \<open>result\<close> still 1.\<close>

definition formalSequence :: "lely \<Rightarrow> bool \<Rightarrow> bool host" where
  "formalSequence M autoStartAfterReset = do {
     configured \<leftarrow> configurePeerHeartbeat M;
     if \<not> configured then return False
     else do {
       (entered, initialStartObserved) \<leftarrow> enterPreOperational M autoStartAfterReset;
       if \<not> entered then return False
       else do {
         started \<leftarrow> (if \<not> initialStartObserved then waitForNmtMasterStep M kStartStep else return True);
         if \<not> started then return False
         else do {
           formal \<leftarrow> andM (waitForNmtMasterStep M kStopStep)
             (andM (waitForNmtMasterStep M kPreOperationalStep)
             (andM (waitForNmtMasterStep M kResetCommunicationStep)
                   (waitForNmtMasterStep M kResetCommunicationCompletionStep)));
           if \<not> formal then return False
           else andM (waitForFormalCommandAfterReset M kResetNodeStep autoStartAfterReset)
             (andM (waitForNmtMasterStep M kResetNodeCommunicationStep)
             (andM (waitForNmtMasterStep M kResetNodeCompletionStep)
                   (waitForFinalStartAfterReset M autoStartAfterReset)))
         } } } }"

definition nmtMasterSequence :: "lely \<Rightarrow> bool host" where
  "nmtMasterSequence M = do {
     (determined, autoStartAfterReset) \<leftarrow> peerAutoStartsAfterReset M;
     if \<not> determined then return False else formalSequence M autoStartAfterReset }"

definition nmtMasterProcess :: "lely \<Rightarrow> int host" where
  "nmtMasterProcess M = do {
     registerNmtCommandObserver;
     passed \<leftarrow> nmtMasterSequence M;
     unregisterNmtCommandObserver;
     return (if passed then 0 else 1) }"

section \<open>The commands that arrive\<close>

text \<open>\<open>heard M h es cs\<close>: during the calls \<open>es\<close> after the history \<open>h\<close> exactly the callbacks \<open>cs\<close> ran, in
  this order, each call letting through a beginning of what the environment has for it.\<close>

inductive heard :: "lely \<Rightarrow> history \<Rightarrow> history \<Rightarrow> callback list \<Rightarrow> bool" for M h where
  heard_Nil: "heard M h [] []"
| heard_Cons: "heard M h es cs \<Longrightarrow> prefix cs' (callbacks M (es @ h)) \<Longrightarrow> heard M h (e # es) (cs @ cs')"

fun command_of :: "callback \<Rightarrow> nmt_command option" where
  "command_of (CbCommand c) = Some c"
| "command_of _ = None"

definition commands_of :: "callback list \<Rightarrow> nmt_command list" where
  "commands_of cs = List.map_filter command_of cs"

lemma commands_of_simps [simp]:
  "commands_of [] = []"
  "commands_of (c # cs) = (case command_of c of None \<Rightarrow> commands_of cs | Some x \<Rightarrow> x # commands_of cs)"
  "commands_of (cs @ cs') = commands_of cs @ commands_of cs'"
  by (simp_all add: commands_of_def map_filter_def split: option.splits)

lemma dispatch_commands:
  assumes "on_command m"
  shows "on_command (fold (dispatch t) cs m)"
    and "commands (fold (dispatch t) cs m) = fold nmtCommandCallback (commands_of cs) (commands m)"
  using assms
proof (induction cs arbitrary: m)
  case (Cons c cs)
  { case 1 then show ?case using Cons.IH(1) [of "dispatch t c m"] by (cases c) auto }
  { case 2 then show ?case using Cons.IH(2) [of "dispatch t c m"] by (cases c) auto }
qed simp_all

text \<open>
  The invariant of the run: what has been consumed followed by what waits in the ring is
  everything that was heard since the registration, unless the ring has overflowed.
\<close>

definition tracked :: "lely \<Rightarrow> history \<Rightarrow> nmt_command list \<Rightarrow> world \<Rightarrow> bool" where
  "tracked M h consumed u \<longleftrightarrow> on_command (mem u) \<and> observing (commands (mem u)) \<and>
     (\<exists>es cs. hist u = es @ h \<and> heard M h es cs \<and>
        (\<not> cq_overflow (commands (mem u)) \<longrightarrow> commands_of cs = consumed @ waiting (commands (mem u))))"

lemma tracked_step:
  assumes "tracked M h vs u" and "ran M u u'" and "hist u' = e # hist u"
  shows "tracked M h vs u'"
proof -
  obtain es cs where u: "on_command (mem u)" "observing (commands (mem u))" "hist u = es @ h"
    "heard M h es cs"
    "\<not> cq_overflow (commands (mem u)) \<longrightarrow> commands_of cs = vs @ waiting (commands (mem u))"
    using assms(1) by (auto simp: tracked_def)
  obtain t cs' where cs': "prefix cs' (callbacks M (es @ h))" "mem u' = fold (dispatch t) cs' (mem u)"
    using assms(2) u(3) by (auto simp: ran_def prefix_def)
  have mem': "on_command (mem u')" "commands (mem u') = fold nmtCommandCallback (commands_of cs') (commands (mem u))"
    using dispatch_commands [OF u(1)] cs'(2) by auto
  have "observing (commands (mem u'))"
    unfolding mem'(2) using ring.invar_arrivals [OF u(2)] by blast
  moreover have "commands_of (cs @ cs') = vs @ waiting (commands (mem u'))"
    if "\<not> cq_overflow (commands (mem u'))"
  proof -
    have "\<not> cq_overflow (commands (mem u))"
      using that ring.lost_arrivals [OF u(2)] unfolding mem'(2) by blast
    then show ?thesis
      using u(5) ring.arrivals_complete [OF u(2) that [unfolded mem'(2)]] by (simp add: mem'(2))
  qed
  moreover have "heard M h (e # es) (cs @ cs')" using u(4) cs'(1) by (rule heard_Cons)
  moreover have "hist u' = (e # es) @ h" using assms(3) u(3) by simp
  ultimately show ?thesis unfolding tracked_def using mem'(1) by blast
qed

lemma tracked_consume:
  assumes "tracked M h vs u" and "commandReady (mem u)" and "\<not> cq_overflow (commands (mem u))"
    and "hist u' = hist u" "mem u' = (mem u)\<lparr>commands := dropCommand (commands (mem u))\<rparr>"
  shows "tracked M h (vs @ [headCommand (commands (mem u))]) u'"
proof -
  have obs: "observing (commands (mem u))" and ne: "waiting (commands (mem u)) \<noteq> []"
    using assms by (auto simp: tracked_def commandReady_def simp flip: length_greater_0_conv)
  then have "waiting (commands (mem u)) =
      headCommand (commands (mem u)) # waiting (dropCommand (commands (mem u)))"
    using ring.front_oldest [of "commands (mem u)"] ring.take_out_oldest [of "commands (mem u)"] by simp
  then show ?thesis
    using assms obs ne ring.take_out_oldest [of "commands (mem u)"] commands_wf_drop
    by (auto simp: tracked_def)
qed

text \<open>\<open>expects M h m xs\<close>: the check \<open>m\<close> passes only if the next commands are \<open>xs\<close>.\<close>

definition expects :: "lely \<Rightarrow> history \<Rightarrow> bool host \<Rightarrow> nmt_command list \<Rightarrow> bool" where
  "expects M h m xs \<longleftrightarrow>
     (\<forall>vs w. tracked M h vs w \<longrightarrow> wp m (\<lambda>ok u. ok \<longrightarrow> tracked M h (vs @ xs) u) w)"

lemma expectsD: "expects M h m xs \<Longrightarrow> tracked M h vs w \<Longrightarrow> wp m (\<lambda>ok u. ok \<longrightarrow> tracked M h (vs @ xs) u) w"
  by (simp add: expects_def)

lemma expects_return: "expects M h (return b) []"
  by (simp add: expects_def host_wp)

lemma expects_andM: "expects M h a xs \<Longrightarrow> expects M h b ys \<Longrightarrow> expects M h (andM a b) (xs @ ys)"
  unfolding expects_def andM_def
  by (intro allI impI wpi_bind, rule wp_mono, blast) (auto simp flip: append_assoc simp: host_wp)

lemma expects_guard:
  "expects M h a xs \<Longrightarrow> expects M h b ys \<Longrightarrow>
     expects M h (do { ok \<leftarrow> a; if \<not> ok then return False else b }) (xs @ ys)"
proof -
  have "(\<lambda>ok. if \<not> ok then return False else b) = (\<lambda>ok. if ok then b else return False)" by auto
  then show "expects M h a xs \<Longrightarrow> expects M h b ys \<Longrightarrow> ?thesis"
    using expects_andM [of M h a xs b ys] by (simp only: andM_def)
qed

lemma wpi_local_write_mem:
  "(\<And>e w'. hist w' = EvLocalWrite index sub v e # hist w \<Longrightarrow> ran M w w' \<Longrightarrow> Q e w') \<Longrightarrow>
     wp (local_write M index sub v) Q w"
  by (simp add: wp_def run_local_write ran_all [of _ "clock w"] occur_def)

lemmas tracked_wps = wpi_return wpi_bind wpi_if wpi_case_prod wpi_read_mem wpi_update_mem
  wpi_local_write_mem wpi_local_read_mem wpi_wait_for_mem

lemma waitForNmtCommand_tracked:
  assumes "tracked M h vs w"
  shows "wp (waitForNmtCommand M) (\<lambda>r u. case r of None \<Rightarrow> True | Some c \<Rightarrow> tracked M h (vs @ [c]) u) w"
  unfolding waitForNmtCommand_def using assms
  by (intro tracked_wps) (auto dest: tracked_step intro!: tracked_consume)

lemma configurePeerHeartbeat_expects: "expects M h (configurePeerHeartbeat M) []"
  unfolding expects_def configurePeerHeartbeat_def
  by (intro allI impI tracked_wps) (auto dest: tracked_step)

lemma waitForNmtMasterStep_expects: "expects M h (waitForNmtMasterStep M step) [step_command step]"
  unfolding expects_def
proof (intro allI impI)
  fix vs w
  assume t: "tracked M h vs w"
  show "wp (waitForNmtMasterStep M step) (\<lambda>ok u. ok \<longrightarrow> tracked M h (vs @ [step_command step]) u) w"
    unfolding waitForNmtMasterStep_def
    by (intro wpi_bind wp_mono [OF waitForNmtCommand_tracked [OF t]])
       (auto split: option.splits intro!: wpi_return wpi_bind
         wp_mono [OF expectsD [OF configurePeerHeartbeat_expects]])
qed

lemma waitForFormalCommandAfterReset_expects:
  "expects M h (waitForFormalCommandAfterReset M step auto)
     ((if auto then [START, ENTER_PREOP] else []) @ [step_command step])"
proof (cases auto)
  case True
  have "expects M h (waitForFormalCommandAfterReset M step True)
     (([step_command kFixtureAutoStartStep] @ [step_command kFixturePreOperationalStep]) @ [step_command step])"
    unfolding waitForFormalCommandAfterReset_def
    by (simp only: simp_thms if_False, intro expects_guard expects_andM waitForNmtMasterStep_expects)
  with True show ?thesis by (simp add: step_defs)
qed (simp add: waitForFormalCommandAfterReset_def waitForNmtMasterStep_expects)

text \<open>The last check passes only with an empty ring: the commands consumed are all that came before
  its final read.\<close>

definition silent_end :: "lely \<Rightarrow> history \<Rightarrow> nmt_command list \<Rightarrow> world \<Rightarrow> bool" where
  "silent_end M h vs u \<longleftrightarrow> (\<exists>e es cs. hist u = e # es @ h \<and> heard M h es cs \<and> commands_of cs = vs \<and>
     e = EvLocalRead 0x1017 0 (V16 (of_nat CANOPEN_PEER_HEARTBEAT_MS)) NoError)"

lemma tracked_silent:
  assumes "tracked M h vs u" and "\<not> commandReady (mem u)"
    and "hist u' = EvLocalRead 0x1017 0 (V16 (of_nat CANOPEN_PEER_HEARTBEAT_MS)) NoError # hist u"
  shows "silent_end M h vs u'"
proof -
  have "waiting (commands (mem u)) = []" "\<not> cq_overflow (commands (mem u))"
    using assms(2) by (simp_all add: commandReady_def waiting_def)
  with assms(1,3) show ?thesis by (auto simp: tracked_def silent_end_def)
qed

lemma keepPeerAlive_silent:
  assumes "tracked M h vs w"
  shows "wp (keepPeerAliveForFinalHeartbeat M) (\<lambda>ok u. ok \<longrightarrow> silent_end M h vs u) w"
proof -
  have "wp (do { (ok, observed) \<leftarrow> waitForOptionalNmtCommand M (CANOPEN_PEER_HEARTBEAT_MS * 2);
       if \<not> ok then return False else if observed \<noteq> None then return False
       else do { (configuredHeartbeat, error) \<leftarrow> local_read lU16 M 0x1017 0;
         if failed error then return False
         else if configuredHeartbeat \<noteq> of_nat CANOPEN_PEER_HEARTBEAT_MS then return False
         else return True } }) (\<lambda>ok u. ok \<longrightarrow> silent_end M h vs u) w" if "tracked M h vs w" for w
    unfolding waitForOptionalNmtCommand_def using that
    by (intro tracked_wps) (auto simp: failed_def dest: tracked_step intro: tracked_silent)
  then show ?thesis
    unfolding keepPeerAliveForFinalHeartbeat_def
    by (intro wpi_bind wp_mono [OF expectsD [OF configurePeerHeartbeat_expects assms]])
       (auto simp: host_wp)
qed

text \<open>The commands of a passed run.\<close>

definition expected_commands :: "bool \<Rightarrow> nmt_command list" where
  "expected_commands auto =
     (if auto then [ENTER_PREOP, START] else [START]) @ [STOP, ENTER_PREOP, RESET_COMM, ENTER_PREOP] @
     (if auto then [START, ENTER_PREOP] else []) @ [RESET_NODE, RESET_COMM, ENTER_PREOP] @
     (if auto then [START, ENTER_PREOP] else []) @ [START]"

text \<open>\<open>ends M h m xs\<close>: the check \<open>m\<close> passes only if the next commands are \<open>xs\<close> and no other follows.\<close>

definition ends :: "lely \<Rightarrow> history \<Rightarrow> bool host \<Rightarrow> nmt_command list \<Rightarrow> bool" where
  "ends M h m xs \<longleftrightarrow>
     (\<forall>vs w. tracked M h vs w \<longrightarrow> wp m (\<lambda>ok u. ok \<longrightarrow> silent_end M h (vs @ xs) u) w)"

lemma ends_andM: "expects M h a xs \<Longrightarrow> ends M h b ys \<Longrightarrow> ends M h (andM a b) (xs @ ys)"
  unfolding expects_def ends_def andM_def
  by (intro allI impI wpi_bind, rule wp_mono, blast) (auto simp flip: append_assoc simp: host_wp)

lemma ends_guard:
  "expects M h a xs \<Longrightarrow> ends M h b ys \<Longrightarrow>
     ends M h (do { ok \<leftarrow> a; if \<not> ok then return False else b }) (xs @ ys)"
proof -
  have "(\<lambda>ok. if \<not> ok then return False else b) = (\<lambda>ok. if ok then b else return False)" by auto
  then show "expects M h a xs \<Longrightarrow> ends M h b ys \<Longrightarrow> ?thesis"
    using ends_andM [of M h a xs b ys] by (simp only: andM_def)
qed

lemma keepPeerAlive_ends: "ends M h (keepPeerAliveForFinalHeartbeat M) []"
  using keepPeerAlive_silent by (simp add: ends_def)

lemma expects_fixture:
  "expects M h (if auto then andM (waitForNmtMasterStep M kFixtureAutoStartStep)
       (waitForNmtMasterStep M kFixturePreOperationalStep) else return True)
     (if auto then [START, ENTER_PREOP] else [])"
  using expects_andM [OF waitForNmtMasterStep_expects waitForNmtMasterStep_expects,
      of M h kFixtureAutoStartStep kFixturePreOperationalStep]
  by (simp add: expects_return step_defs)

lemma waitForFinalStartAfterReset_ends:
  "ends M h (waitForFinalStartAfterReset M auto) ((if auto then [START, ENTER_PREOP] else []) @ [START])"
proof -
  have "ends M h (waitForFinalStartAfterReset M auto)
     ((if auto then [START, ENTER_PREOP] else []) @ [step_command kFinalStartStep] @ [])"
    unfolding waitForFinalStartAfterReset_def
    by (intro ends_guard expects_fixture waitForNmtMasterStep_expects keepPeerAlive_ends)
  then show ?thesis by (simp add: step_defs)
qed

lemma enterPreOperational_tracked:
  assumes "tracked M h vs w"
  shows "wp (enterPreOperational M auto) (\<lambda>(ok, direct) u. ok \<longrightarrow> direct = (\<not> auto) \<and>
     tracked M h (vs @ [if auto then ENTER_PREOP else START]) u) w"
  unfolding enterPreOperational_def
  by (intro wpi_bind wp_mono [OF waitForNmtCommand_tracked [OF assms]])
     (auto split: option.splits intro!: wpi_return wpi_if)

lemma enterPreOperational_ends:
  assumes rest: "ends M h (rest (\<not> auto)) ys"
  shows "ends M h (do { (entered, direct) \<leftarrow> enterPreOperational M auto;
       if \<not> entered then return False else rest direct }) ([if auto then ENTER_PREOP else START] @ ys)"
  unfolding ends_def
proof (intro allI impI wpi_bind)
  fix vs w
  assume t: "tracked M h vs w"
  have "wp (rest (\<not> auto)) (\<lambda>ok u. ok \<longrightarrow>
      silent_end M h (vs @ [if auto then ENTER_PREOP else START] @ ys) u) u"
    if "tracked M h (vs @ [if auto then ENTER_PREOP else START]) u" for u
    using rest that unfolding ends_def by (metis append_assoc)
  then show "wp (enterPreOperational M auto) (\<lambda>a. wp (case a of (entered, direct) \<Rightarrow>
       if \<not> entered then return False else rest direct)
         (\<lambda>ok u. ok \<longrightarrow> silent_end M h (vs @ [if auto then ENTER_PREOP else START] @ ys) u)) w"
    by (intro wp_mono [OF enterPreOperational_tracked [OF t]]) (auto simp: host_wp)
qed

lemma formal_ends:
  "ends M h (andM (waitForFormalCommandAfterReset M kResetNodeStep auto)
     (andM (waitForNmtMasterStep M kResetNodeCommunicationStep)
     (andM (waitForNmtMasterStep M kResetNodeCompletionStep) (waitForFinalStartAfterReset M auto))))
   (((if auto then [START, ENTER_PREOP] else []) @ [RESET_NODE]) @ [RESET_COMM] @ [ENTER_PREOP] @
     (if auto then [START, ENTER_PREOP] else []) @ [START])"
  using ends_andM [OF waitForFormalCommandAfterReset_expects [of M h kResetNodeStep auto]
    ends_andM [OF waitForNmtMasterStep_expects [of M h kResetNodeCommunicationStep]
      ends_andM [OF waitForNmtMasterStep_expects [of M h kResetNodeCompletionStep]
        waitForFinalStartAfterReset_ends [of M h auto]]]]
  by (simp add: step_defs)

lemma stop_to_reset_expects:
  "expects M h (andM (waitForNmtMasterStep M kStopStep) (andM (waitForNmtMasterStep M kPreOperationalStep)
     (andM (waitForNmtMasterStep M kResetCommunicationStep)
           (waitForNmtMasterStep M kResetCommunicationCompletionStep))))
     ([STOP] @ [ENTER_PREOP] @ [RESET_COMM] @ [ENTER_PREOP])"
  using expects_andM [OF waitForNmtMasterStep_expects [of M h kStopStep]
    expects_andM [OF waitForNmtMasterStep_expects [of M h kPreOperationalStep]
      expects_andM [OF waitForNmtMasterStep_expects [of M h kResetCommunicationStep]
        waitForNmtMasterStep_expects [of M h kResetCommunicationCompletionStep]]]]
  by (simp add: step_defs)

lemma formalSequence_ends: "ends M h (formalSequence M auto) (expected_commands auto)"
proof -
  let ?rest = "\<lambda>direct. do {
       started \<leftarrow> (if \<not> direct then waitForNmtMasterStep M kStartStep else return True);
       if \<not> started then return False
       else do {
         formal \<leftarrow> andM (waitForNmtMasterStep M kStopStep) (andM (waitForNmtMasterStep M kPreOperationalStep)
           (andM (waitForNmtMasterStep M kResetCommunicationStep)
                 (waitForNmtMasterStep M kResetCommunicationCompletionStep)));
         if \<not> formal then return False
         else andM (waitForFormalCommandAfterReset M kResetNodeStep auto)
           (andM (waitForNmtMasterStep M kResetNodeCommunicationStep)
           (andM (waitForNmtMasterStep M kResetNodeCompletionStep) (waitForFinalStartAfterReset M auto)))
       } }"
  have start: "expects M h (if \<not> direct then waitForNmtMasterStep M kStartStep else return True)
     (if direct then [] else [START])" for direct
    using waitForNmtMasterStep_expects [of M h kStartStep] by (simp add: expects_return step_defs)
  have rest: "ends M h (?rest direct) ((if direct then [] else [START]) @
       ([STOP] @ [ENTER_PREOP] @ [RESET_COMM] @ [ENTER_PREOP]) @
       (((if auto then [START, ENTER_PREOP] else []) @ [RESET_NODE]) @ [RESET_COMM] @ [ENTER_PREOP] @
        (if auto then [START, ENTER_PREOP] else []) @ [START]))" for direct
    by (intro ends_guard start stop_to_reset_expects formal_ends)
  have eq: "expected_commands auto = [] @ [if auto then ENTER_PREOP else START] @
       (if \<not> auto then [] else [START]) @ ([STOP] @ [ENTER_PREOP] @ [RESET_COMM] @ [ENTER_PREOP]) @
       (((if auto then [START, ENTER_PREOP] else []) @ [RESET_NODE]) @ [RESET_COMM] @ [ENTER_PREOP] @
        (if auto then [START, ENTER_PREOP] else []) @ [START])"
    by (simp add: expected_commands_def)
  show ?thesis
    unfolding formalSequence_def eq
    by (rule ends_guard [OF configurePeerHeartbeat_expects
          enterPreOperational_ends [where rest = ?rest and auto = auto, OF rest]])
qed

section \<open>The process\<close>

text \<open>The slave's own heartbeat period is all a run changes.\<close>

fun peer_objects :: "mutation \<Rightarrow> bool" where
  "peer_objects (LocalWrite index sub v) \<longleftrightarrow>
     index = 0x1017 \<and> sub = 0 \<and> v = V16 (of_nat CANOPEN_PEER_HEARTBEAT_MS)"
| "peer_objects _ \<longleftrightarrow> False"

lemma touches_update_commands:
  assumes "\<And>st. commands_wf st \<Longrightarrow> commands_wf (f st)"
  shows "touches S (update_mem (\<lambda>m. m\<lparr>commands := f (commands m)\<rparr>))"
  by (rule emits_update_mem) (simp add: memory_wf_def assms)

lemma nmt_master_waits_touch [emits_intro]:
  "touches peer_objects (configurePeerHeartbeat M)" "touches peer_objects (waitForNmtCommand M)"
  "touches peer_objects (waitForOptionalNmtCommand M t)"
  unfolding configurePeerHeartbeat_def waitForNmtCommand_def waitForOptionalNmtCommand_def
  by ((intro emits_intro touches_update_commands commands_wf_drop; simp))+

lemma waitForNmtMasterStep_touches [emits_intro]: "touches peer_objects (waitForNmtMasterStep M step)"
  unfolding waitForNmtMasterStep_def by (intro emits_intro)

lemma nmt_master_stages_touch [emits_intro]:
  "touches peer_objects (enterPreOperational M auto)"
  "touches peer_objects (waitForFormalCommandAfterReset M step auto)"
  "touches peer_objects (keepPeerAliveForFinalHeartbeat M)"
  unfolding enterPreOperational_def waitForFormalCommandAfterReset_def keepPeerAliveForFinalHeartbeat_def
  by (intro emits_intro)+

lemma formalSequence_touches [emits_intro]: "touches peer_objects (formalSequence M auto)"
  unfolding formalSequence_def waitForFinalStartAfterReset_def by (intro emits_intro)

lemma commands_wf_inactive: "commands_wf st \<Longrightarrow> commands_wf (st\<lparr>cq_active := False\<rparr>)"
  by (simp add: commands_wf_def)

lemma nmtMasterProcess_touches: "touches peer_objects (nmtMasterProcess M)"
  unfolding nmtMasterProcess_def nmtMasterSequence_def peerAutoStartsAfterReset_def
    registerNmtCommandObserver_def unregisterNmtCommandObserver_def
  by (intro emits_intro; simp add: memory_wf_def commands_wf_clear commands_wf_inactive)

text \<open>The start-up contract as the first read shows it.\<close>

definition startup_contract :: "bool \<Rightarrow> event \<Rightarrow> bool" where
  "startup_contract auto ev \<longleftrightarrow>
     (\<exists>v. ev = EvLocalRead 0x1F80 0 (V32 v) NoError \<and> auto = (v AND 4 = 0)) \<or>
     (\<exists>v. ev = EvLocalRead 0x1F80 0 (V32 v) (SdoCategory sdoErrc_NO_OBJ) \<and> auto)"

definition commands_as_expected :: "lely \<Rightarrow> world \<Rightarrow> world \<Rightarrow> bool" where
  "commands_as_expected M w u \<longleftrightarrow> (\<exists>auto e0 es cs.
     hist u = EvLocalRead 0x1017 0 (V16 (of_nat CANOPEN_PEER_HEARTBEAT_MS)) NoError # es @ [e0] @ hist w \<and>
     startup_contract auto e0 \<and> heard M (hist w) (es @ [e0]) cs \<and> commands_of cs = expected_commands auto)"

lemma silent_end_expected:
  assumes "silent_end M (hist w) (expected_commands auto) u" and "hist v = e0 # hist w" "later v u"
    and "startup_contract auto e0"
  shows "commands_as_expected M w u"
proof -
  obtain e es cs where u: "hist u = e # es @ hist w" "heard M (hist w) es cs"
    "commands_of cs = expected_commands auto"
    "e = EvLocalRead 0x1017 0 (V16 (of_nat CANOPEN_PEER_HEARTBEAT_MS)) NoError"
    using assms(1) by (auto simp: silent_end_def)
  obtain fs where "hist u = fs @ e0 # hist w" using assms(2,3) by (auto simp: later_def)
  with u(1) have fs: "e # es = fs @ [e0]" by simp
  moreover have "fs \<noteq> []" using fs u(4) assms(4) by (auto simp: startup_contract_def)
  ultimately obtain gs where "es = gs @ [e0]" by (cases fs) auto
  with u assms(4) show ?thesis unfolding commands_as_expected_def by (metis append_assoc)
qed

lemma nmtMasterSequence_expected:
  assumes "tracked M (hist w) [] w"
  shows "wp (nmtMasterSequence M) (\<lambda>ok u. ok \<longrightarrow> commands_as_expected M w u) w"
proof -
  have rest: "wp (formalSequence M auto) (\<lambda>ok u. ok \<longrightarrow> commands_as_expected M w u) v"
    if "hist v = e0 # hist w" "ran M w v" "startup_contract auto e0" for v e0 auto
  proof -
    have "tracked M (hist w) [] v" using tracked_step [OF assms that(2,1)] .
    with formalSequence_ends [of M "hist w" auto]
    have "wp (formalSequence M auto) (\<lambda>ok u. ok \<longrightarrow> silent_end M (hist w) (expected_commands auto) u) v"
      by (fastforce simp: ends_def)
    then have "wp (formalSequence M auto) (\<lambda>ok u. (ok \<longrightarrow>
        silent_end M (hist w) (expected_commands auto) u) \<and> later v u) v"
      unfolding wp_conj by (rule conjI) (rule wp_later [OF formalSequence_touches])
    then show ?thesis using that by (auto elim!: wp_mono intro: silent_end_expected)
  qed
  show ?thesis
    unfolding nmtMasterSequence_def peerAutoStartsAfterReset_def
    by (intro wpi_return wpi_bind wpi_if wpi_case_prod wpi_local_read_mem)
       (auto simp: host_wp failed_def startup_contract_def intro!: rest split: if_splits)
qed

lemma nmtMasterProcess_expected:
  assumes "memory_wf (mem w)"
  shows "wp (nmtMasterProcess M) (\<lambda>r u. r = 1 \<or> r = 0 \<and> commands_as_expected M w u) w"
proof -
  have start: "tracked M (hist v) [] v"
    if "mem v = (mem w)\<lparr>commands := clearCommands True (commands (mem w)), on_command := True\<rparr>" for v
  proof -
    have "observing (clearCommands True (commands (mem w)))" "waiting (clearCommands True (commands (mem w))) = []"
      using assms by (simp_all add: memory_wf_def commands_wf_clear waiting_def) (simp_all add: clearCommands_def)
    then show ?thesis using that heard_Nil [of M "hist v"] unfolding tracked_def by fastforce
  qed
  have after: "commands_as_expected M v u \<Longrightarrow> hist v = hist w \<Longrightarrow> hist u' = hist u \<Longrightarrow>
      commands_as_expected M w u'" for v u u'
    by (simp add: commands_as_expected_def)
  have finish: "wp (do { unregisterNmtCommandObserver; return (if passed then 0 else 1) })
      (\<lambda>r u. r = 1 \<or> r = 0 \<and> commands_as_expected M w u) u"
    if "passed \<longrightarrow> commands_as_expected M v u" "hist v = hist w" for passed u v
    unfolding unregisterNmtCommandObserver_def
    by (intro wpi_bind wpi_return wpi_update_mem) (use that after in auto)
  show ?thesis
    unfolding nmtMasterProcess_def registerNmtCommandObserver_def
    by (intro wpi_bind wpi_update_mem, rule wp_mono [OF nmtMasterSequence_expected [OF start]])
       (simp, rule finish, assumption, simp)
qed

end
