(* ===== verification/Gfc_Process.thy ===== *)
theory Gfc_Process
  imports Object_Access
begin

text \<open>
  The Global Fail-safe Command validation of \<open>src/gfc_process.cpp\<close>: consumer, producer and reset
  checks on a dedicated CAN channel, and the cleanup that follows every run.
\<close>

section \<open>Constants and data\<close>

definition kGfcCanId :: u32 where "kGfcCanId = 0x001"
definition kGfcParameterIndex :: u16 where "kGfcParameterIndex = 0x1300"
definition kGfcDiagnosticIndex :: u16 where "kGfcDiagnosticIndex = 0x2302"
definition kScalarSubindex_gfc :: u8 where "kScalarSubindex_gfc = 0x00"
definition kGfcRxCountSubindex :: u8 where "kGfcRxCountSubindex = 0x01"
definition kGfcSafeRequestedSubindex :: u8 where "kGfcSafeRequestedSubindex = 0x02"
definition kGfcProducerRequestSubindex :: u8 where "kGfcProducerRequestSubindex = 0x03"
definition kGfcProducerCompleteSubindex :: u8 where "kGfcProducerCompleteSubindex = 0x04"
definition kGfcProducerResultSubindex :: u8 where "kGfcProducerResultSubindex = 0x05"
definition kSdoTimeoutMs :: nat where "kSdoTimeoutMs = 500"
definition kSdoCompletionMarginMs :: nat where "kSdoCompletionMarginMs = 100"
definition kConsumerObservationTimeoutMs :: nat where "kConsumerObservationTimeoutMs = 1500"
definition kNegativeObservationMs :: nat where "kNegativeObservationMs = 300"
definition kProducerCompletionTimeoutMs :: nat where "kProducerCompletionTimeoutMs = 1500"
definition kWireCaptureTimeoutMs :: nat where "kWireCaptureTimeoutMs = 1500"
definition kNoWireFrameObservationMs :: nat where "kNoWireFrameObservationMs = 300"
definition kDiagnosticPollIntervalMs :: nat where "kDiagnosticPollIntervalMs = 20"

text \<open>\<open>SdoErrc::PARAM_VAL\<close>.\<close>

definition sdoErrc_PARAM_VAL :: u32 where "sdoErrc_PARAM_VAL = 0x06090030"

lemmas gfc_const_defs = kGfcCanId_def kGfcParameterIndex_def kGfcDiagnosticIndex_def
  kScalarSubindex_gfc_def kGfcRxCountSubindex_def kGfcSafeRequestedSubindex_def
  kGfcProducerRequestSubindex_def kGfcProducerCompleteSubindex_def kGfcProducerResultSubindex_def

record GfcDiagnostic =
  gd_rx_count :: u32
  gd_safe_requested :: u8
  gd_producer_request_seq :: u32
  gd_producer_complete_seq :: u32
  gd_producer_result :: u32

definition default_gfc_diagnostic :: GfcDiagnostic where
  "default_gfc_diagnostic = \<lparr>gd_rx_count = 0, gd_safe_requested = 0, gd_producer_request_seq = 0,
     gd_producer_complete_seq = 0, gd_producer_result = 0\<rparr>"

record GfcRuntimeState =
  gs_original_valid :: u8
  gs_original_valid_saved :: bool
  gs_reset_communication_issued :: bool
  gs_remote_operational_restored :: bool

definition default_gfc_state :: GfcRuntimeState where
  "default_gfc_state = \<lparr>gs_original_valid = 0, gs_original_valid_saved = False,
     gs_reset_communication_issued = False, gs_remote_operational_restored = False\<rparr>"

section \<open>The wire fixture\<close>

fun drainItems :: "lely \<Rightarrow> wire_answer list \<Rightarrow> bool host" where
  "drainItems M [] = do { channel_take M (WireFault EAGAIN); return True }"
| "drainItems M (answer # rest) = do {
     channel_take M answer;
     case answer of
       WireFault error \<Rightarrow> if isWouldBlock error then return True else return False
     | WireNone \<Rightarrow> return True
     | WireFrame message timestamp \<Rightarrow> drainItems M rest }"

definition drain_gfc :: "lely \<Rightarrow> bool host" where
  "drain_gfc M = do { pending \<leftarrow> channel_pending M; drainItems M pending }"

definition gfcFrame :: "u8 \<Rightarrow> can_frame" where
  "gfcFrame dlc = \<lparr>can_id = kGfcCanId, can_flags = 0, can_len = dlc, can_data = replicate 8 0\<rparr>"

definition send_gfc :: "lely \<Rightarrow> u8 \<Rightarrow> bool host" where
  "send_gfc M dlc =
     (if dlc > 1 then return False
      else do {
        error \<leftarrow> channel_write M (gfcFrame dlc);
        if failed error then return False else return True })"

definition boundedTimeoutMs :: "nat \<Rightarrow> nat" where
  "boundedTimeoutMs timeout =
     (if timeout \<le> 0 then 0 else if timeout > 2147483647 then 2147483647 else timeout)"

definition frameBody :: "lely \<Rightarrow> nat \<Rightarrow> unit \<Rightarrow> (unit + WireWaitResult \<times> (can_frame \<times> nat) option) host" where
  "frameBody M deadline u = do {
     now \<leftarrow> steady_now M;
     if now \<ge> deadline then return (Inr (TIMEOUT, None))
     else do {
       let remaining = (deadline - now) div 1000000;
       let remaining = (if remaining \<le> 0 then 1 else remaining);
       answer \<leftarrow> channel_read M (boundedTimeoutMs remaining);
       case answer of
         WireFault error \<Rightarrow>
           if isWouldBlock error then return (Inr (TIMEOUT, None)) else return (Inr (ERROR, None))
       | WireNone \<Rightarrow> return (Inl ())
       | WireFrame message timestamp \<Rightarrow>
           if can_id message \<noteq> kGfcCanId then return (Inl ())
           else return (Inr (FRAME, Some (message, timestamp)))
     } }"

definition waitForFrame :: "lely \<Rightarrow> nat \<Rightarrow> (WireWaitResult \<times> (can_frame \<times> nat) option) host" where
  "waitForFrame M timeout = do {
     start \<leftarrow> steady_now M;
     r \<leftarrow> deadline_do_while M (start + ms timeout) (frameBody M (start + ms timeout)) ();
     case r of Inr waited \<Rightarrow> return waited | Inl u \<Rightarrow> return (TIMEOUT, None) }"

section \<open>Remote objects\<close>

definition readRemote_gfc :: "'a sdo_type \<Rightarrow> lely \<Rightarrow> u16 \<Rightarrow> u8 \<Rightarrow> 'a \<Rightarrow> (bool \<times> 'a) host" where
  "readRemote_gfc T M index sub v = do {
     (result, v') \<leftarrow> readRemoteSdoFor T M CANOPEN_SLAVE_NODE_ID index sub v kSdoTimeoutMs kSdoCompletionMarginMs;
     return (result = SUCCESS, v') }"

definition writeRemote_gfc :: "'a sdo_type \<Rightarrow> lely \<Rightarrow> u16 \<Rightarrow> u8 \<Rightarrow> 'a \<Rightarrow> bool host" where
  "writeRemote_gfc T M index sub v = do {
     result \<leftarrow> writeRemoteSdoFor M CANOPEN_SLAVE_NODE_ID index sub (t_value T v) kSdoTimeoutMs kSdoCompletionMarginMs;
     return (result = SUCCESS) }"

definition requireInvalidGfcParameterRejected :: "lely \<Rightarrow> bool host" where
  "requireInvalidGfcParameterRejected M = do {
     submitted \<leftarrow> submit_download M (sdoRequest Normal CANOPEN_SLAVE_NODE_ID kGfcParameterIndex
                     kScalarSubindex_gfc kSdoTimeoutMs) (V8 2) (ms (kSdoTimeoutMs + kSdoCompletionMarginMs));
     case submitted of
       Rejected e \<Rightarrow> return False
     | Accepted completion \<Rightarrow>
         (let st = runCompletion writeCompletion completion \<lparr>ws_completed = False, ws_error = NoError\<rparr>
          in if \<not> ws_completed st then return False
             else if \<not> failed (ws_error st) then return False
             else if sdo_errc M (ws_error st) \<noteq> sdoErrc_PARAM_VAL then return False
             else return True) }"

definition readDiagnostic_gfc :: "lely \<Rightarrow> GfcDiagnostic \<Rightarrow> (bool \<times> GfcDiagnostic) host" where
  "readDiagnostic_gfc M d = do {
     (ok, v) \<leftarrow> readRemote_gfc tU32 M kGfcDiagnosticIndex kGfcRxCountSubindex (gd_rx_count d);
     let d = d\<lparr>gd_rx_count := v\<rparr>;
     if \<not> ok then return (False, d)
     else do {
       (ok, v) \<leftarrow> readRemote_gfc tU8 M kGfcDiagnosticIndex kGfcSafeRequestedSubindex (gd_safe_requested d);
       let d = d\<lparr>gd_safe_requested := v\<rparr>;
       if \<not> ok then return (False, d)
       else do {
         (ok, v) \<leftarrow> readRemote_gfc tU32 M kGfcDiagnosticIndex kGfcProducerRequestSubindex
                     (gd_producer_request_seq d);
         let d = d\<lparr>gd_producer_request_seq := v\<rparr>;
         if \<not> ok then return (False, d)
         else do {
           (ok, v) \<leftarrow> readRemote_gfc tU32 M kGfcDiagnosticIndex kGfcProducerCompleteSubindex
                       (gd_producer_complete_seq d);
           let d = d\<lparr>gd_producer_complete_seq := v\<rparr>;
           if \<not> ok then return (False, d)
           else do {
             (ok, v) \<leftarrow> readRemote_gfc tI32 M kGfcDiagnosticIndex kGfcProducerResultSubindex
                         (gd_producer_result d);
             return (ok, d\<lparr>gd_producer_result := v\<rparr>)
           } } } } }"

section \<open>Polling\<close>

text \<open>The new count, or nothing on failure; the caller's count is only written on success.\<close>

definition rxIncrementBody :: "lely \<Rightarrow> u32 \<Rightarrow> unit \<Rightarrow> (unit + u32 option) host" where
  "rxIncrementBody M baseline u = do {
     (ok, current) \<leftarrow> readRemote_gfc tU32 M kGfcDiagnosticIndex kGfcRxCountSubindex 0;
     if \<not> ok then return (Inr None)
     else if current = baseline + 1 then return (Inr (Some current))
     else if current \<noteq> baseline then return (Inr None)
     else do { sleep_for M (ms kDiagnosticPollIntervalMs); return (Inl ()) } }"

definition waitForRxIncrement :: "lely \<Rightarrow> u32 \<Rightarrow> u32 option host" where
  "waitForRxIncrement M baseline = do {
     start \<leftarrow> steady_now M;
     r \<leftarrow> deadline_do_while M (start + ms kConsumerObservationTimeoutMs) (rxIncrementBody M baseline) ();
     case r of Inr observed \<Rightarrow> return observed | Inl u \<Rightarrow> return None }"

definition rxUnchangedBody :: "lely \<Rightarrow> u32 \<Rightarrow> unit \<Rightarrow> (unit + bool) host" where
  "rxUnchangedBody M baseline u = do {
     (ok, current) \<leftarrow> readRemote_gfc tU32 M kGfcDiagnosticIndex kGfcRxCountSubindex 0;
     if \<not> ok then return (Inr False)
     else if current \<noteq> baseline then return (Inr False)
     else do { sleep_for M (ms kDiagnosticPollIntervalMs); return (Inl ()) } }"

definition requireRxUnchanged :: "lely \<Rightarrow> u32 \<Rightarrow> nat \<Rightarrow> bool host" where
  "requireRxUnchanged M baseline observation = do {
     start \<leftarrow> steady_now M;
     r \<leftarrow> deadline_do_while M (start + ms observation) (rxUnchangedBody M baseline) ();
     case r of Inr unchanged \<Rightarrow> return unchanged | Inl u \<Rightarrow> return True }"

definition sendAndValidateConsumer :: "lely \<Rightarrow> u32 \<Rightarrow> u32 option host" where
  "sendAndValidateConsumer M baseline = do {
     sent \<leftarrow> send_gfc M 0;
     if \<not> sent then return None
     else do {
       incremented \<leftarrow> waitForRxIncrement M baseline;
       case incremented of
         None \<Rightarrow> return None
       | Some observed \<Rightarrow> do {
           (ok, safe_requested) \<leftarrow> readRemote_gfc tU8 M kGfcDiagnosticIndex kGfcSafeRequestedSubindex 0;
           if \<not> ok then return None
           else if safe_requested \<noteq> 1 then return None
           else return (Some observed)
         } } }"

definition producerCompletionBody :: "lely \<Rightarrow> u32 \<Rightarrow> unit \<Rightarrow> (unit + u32 option) host" where
  "producerCompletionBody M request_seq u = do {
     (ok, complete_seq) \<leftarrow> readRemote_gfc tU32 M kGfcDiagnosticIndex kGfcProducerCompleteSubindex 0;
     if \<not> ok then return (Inr None)
     else if complete_seq = request_seq then do {
       (ok, producer_result) \<leftarrow> readRemote_gfc tI32 M kGfcDiagnosticIndex kGfcProducerResultSubindex 0;
       if \<not> ok then return (Inr None)
       else do {
         (ok, confirm_seq) \<leftarrow> readRemote_gfc tU32 M kGfcDiagnosticIndex kGfcProducerCompleteSubindex 0;
         if \<not> ok then return (Inr None)
         else if confirm_seq \<noteq> request_seq then return (Inr None)
         else return (Inr (Some producer_result))
       } }
     else do { sleep_for M (ms kDiagnosticPollIntervalMs); return (Inl ()) } }"

definition waitForProducerCompletion :: "lely \<Rightarrow> u32 \<Rightarrow> u32 option host" where
  "waitForProducerCompletion M request_seq = do {
     start \<leftarrow> steady_now M;
     r \<leftarrow> deadline_do_while M (start + ms kProducerCompletionTimeoutMs)
            (producerCompletionBody M request_seq) ();
     case r of Inr producer_result \<Rightarrow> return producer_result | Inl u \<Rightarrow> return None }"

text \<open>The incremented request sequence, and the producer's result unless it failed.\<close>

definition triggerProducer :: "lely \<Rightarrow> u32 \<Rightarrow> (u32 \<times> u32 option) host" where
  "triggerProducer M request_seq = do {
     let request_seq = request_seq + 1;
     written \<leftarrow> writeRemote_gfc tU32 M kGfcDiagnosticIndex kGfcProducerRequestSubindex request_seq;
     if \<not> written then return (request_seq, None)
     else do {
       producer_result \<leftarrow> waitForProducerCompletion M request_seq;
       return (request_seq, producer_result)
     } }"

definition validateProducerFrame :: "can_frame \<Rightarrow> bool" where
  "validateProducerFrame message \<longleftrightarrow>
     \<not> (can_id message \<noteq> kGfcCanId \<or> can_flags message \<noteq> 0 \<or> can_len message \<noteq> 0)"

section \<open>Cases\<close>

fun continuousDelivery :: "lely \<Rightarrow> nat \<Rightarrow> GfcDiagnostic \<Rightarrow> (bool \<times> GfcDiagnostic) host" where
  "continuousDelivery M 0 d = return (True, d)"
| "continuousDelivery M (Suc n) d = do {
     delivered \<leftarrow> sendAndValidateConsumer M (gd_rx_count d);
     case delivered of
       None \<Rightarrow> return (False, d)
     | Some observed \<Rightarrow> continuousDelivery M n (d\<lparr>gd_rx_count := observed\<rparr>) }"

definition validateConsumerCases :: "lely \<Rightarrow> GfcDiagnostic \<Rightarrow> (bool \<times> GfcDiagnostic) host" where
  "validateConsumerCases M d = do {
     enabled \<leftarrow> writeRemote_gfc tU8 M kGfcParameterIndex kScalarSubindex_gfc 1;
     if \<not> enabled then return (False, d)
     else do {
       delivered \<leftarrow> sendAndValidateConsumer M (gd_rx_count d);
       case delivered of
         None \<Rightarrow> return (False, d)
       | Some observed \<Rightarrow> do {
           let d = d\<lparr>gd_rx_count := observed\<rparr>;
           disabled \<leftarrow> writeRemote_gfc tU8 M kGfcParameterIndex kScalarSubindex_gfc 0;
           if \<not> disabled then return (False, d)
           else do {
             gated \<leftarrow> andM (send_gfc M 0) (requireRxUnchanged M (gd_rx_count d) kNegativeObservationMs);
             if \<not> gated then return (False, d)
             else do {
               rejected \<leftarrow> requireInvalidGfcParameterRejected M;
               if \<not> rejected then return (False, d)
               else do {
                 (ok, current_valid) \<leftarrow> readRemote_gfc tU8 M kGfcParameterIndex kScalarSubindex_gfc 0xFF;
                 if \<not> ok \<or> current_valid \<noteq> 0 then return (False, d)
                 else do {
                   enabled \<leftarrow> writeRemote_gfc tU8 M kGfcParameterIndex kScalarSubindex_gfc 1;
                   if \<not> enabled then return (False, d)
                   else do {
                     refused \<leftarrow> andM (send_gfc M 1)
                       (requireRxUnchanged M (gd_rx_count d) kNegativeObservationMs);
                     if \<not> refused then return (False, d)
                     else continuousDelivery M 3 d
                   } } } } } } } }"

text \<open>With the producer disabled a request completes with result zero and no frame appears.\<close>

definition disabledProducer :: "lely \<Rightarrow> u32 \<Rightarrow> (bool \<times> u32) host" where
  "disabledProducer M request_seq = do {
     (request_seq, triggered) \<leftarrow> triggerProducer M request_seq;
     case triggered of
       None \<Rightarrow> return (False, request_seq)
     | Some producer_result \<Rightarrow> do {
         (waited, unexpected) \<leftarrow> waitForFrame M kNoWireFrameObservationMs;
         if waited = ERROR then return (False, request_seq)
         else if waited = FRAME then return (False, request_seq)
         else if producer_result \<noteq> 0 then return (False, request_seq)
         else return (True, request_seq)
       } }"

text \<open>With the producer enabled a request completes with result zero and the frame appears.\<close>

definition enabledProducer :: "lely \<Rightarrow> u32 \<Rightarrow> (bool \<times> u32) host" where
  "enabledProducer M request_seq = do {
     (request_seq, triggered) \<leftarrow> triggerProducer M request_seq;
     case triggered of
       None \<Rightarrow> return (False, request_seq)
     | Some producer_result \<Rightarrow> do {
         (waited, produced) \<leftarrow> waitForFrame M kWireCaptureTimeoutMs;
         if waited = ERROR then return (False, request_seq)
         else if waited = TIMEOUT then return (False, request_seq)
         else if producer_result \<noteq> 0 then return (False, request_seq)
         else case produced of
             None \<Rightarrow> return (False, request_seq)
           | Some (message, timestamp) \<Rightarrow>
               if \<not> validateProducerFrame message then return (False, request_seq)
               else return (True, request_seq)
       } }"

definition producerDone :: "u32 \<Rightarrow> GfcDiagnostic \<Rightarrow> GfcDiagnostic" where
  "producerDone request_seq d = d\<lparr>gd_producer_request_seq := request_seq,
     gd_producer_complete_seq := request_seq, gd_producer_result := 0\<rparr>"

definition validateProducerCases :: "lely \<Rightarrow> GfcDiagnostic \<Rightarrow> (bool \<times> GfcDiagnostic) host" where
  "validateProducerCases M d =
     (if gd_producer_request_seq d \<noteq> gd_producer_complete_seq d then return (False, d)
      else do {
        disabled \<leftarrow> andM (writeRemote_gfc tU8 M kGfcParameterIndex kScalarSubindex_gfc 0) (drain_gfc M);
        if \<not> disabled then return (False, d)
        else do {
          (silent, request_seq) \<leftarrow> disabledProducer M (gd_producer_request_seq d);
          if \<not> silent then return (False, d)
          else do {
            let d = producerDone request_seq d;
            enabled \<leftarrow> andM (writeRemote_gfc tU8 M kGfcParameterIndex kScalarSubindex_gfc 1) (drain_gfc M);
            if \<not> enabled then return (False, d)
            else do {
              (produced, request_seq) \<leftarrow> enabledProducer M request_seq;
              if \<not> produced then return (False, d)
              else return (True, producerDone request_seq d)
            } } } })"

text \<open>The part of \<open>validateResetRebind\<close> after the Boot: the fresh diagnostic, unless it failed.\<close>

definition rebindConsumer :: "lely \<Rightarrow> u32 \<Rightarrow> GfcDiagnostic option host" where
  "rebindConsumer M pre_reset_count = do {
     (ok, post_reset) \<leftarrow> readDiagnostic_gfc M default_gfc_diagnostic;
     if \<not> ok then return None
     else if gd_rx_count post_reset \<noteq> pre_reset_count then return None
     else if gd_producer_request_seq post_reset \<noteq> gd_producer_complete_seq post_reset then return None
     else do {
       (ok, valid) \<leftarrow> readRemote_gfc tU8 M kGfcParameterIndex kScalarSubindex_gfc 0;
       if \<not> ok then return None
       else do {
         enabled \<leftarrow> (if valid \<noteq> 1 then writeRemote_gfc tU8 M kGfcParameterIndex kScalarSubindex_gfc 1
                      else return True);
         if \<not> enabled then return None
         else do {
           delivered \<leftarrow> sendAndValidateConsumer M (gd_rx_count post_reset);
           case delivered of
             None \<Rightarrow> return None
           | Some observed \<Rightarrow> return (Some (post_reset\<lparr>gd_rx_count := observed\<rparr>))
         } } } }"

definition startConfirmed_gfc :: "lely \<Rightarrow> bool host" where
  "startConfirmed_gfc M =
     issueNmtCommandAndWaitForState M START CANOPEN_SLAVE_NODE_ID nmt_START CANOPEN_WAIT_TIMEOUT_MS"

definition validateResetRebind_gfc ::
    "lely \<Rightarrow> GfcRuntimeState \<Rightarrow> GfcDiagnostic \<Rightarrow> (bool \<times> GfcRuntimeState \<times> GfcDiagnostic) host" where
  "validateResetRebind_gfc M st d = do {
     let pre_reset_count = gd_rx_count d;
     prepareBootWait;
     issued \<leftarrow> issueNmtCommand M RESET_COMM CANOPEN_SLAVE_NODE_ID;
     if \<not> issued then return (False, st, d)
     else do {
       let st = st\<lparr>gs_reset_communication_issued := True, gs_remote_operational_restored := False\<rparr>;
       (booted, boot_state) \<leftarrow> waitForBootCompletionState M CANOPEN_WAIT_TIMEOUT_MS nmt_BOOTUP;
       if \<not> booted then return (False, st, d)
       else do {
         let st = st\<lparr>gs_remote_operational_restored := (boot_state = nmt_START)\<rparr>;
         rebound \<leftarrow> rebindConsumer M pre_reset_count;
         case rebound of
           None \<Rightarrow> return (False, st, d)
         | Some post_reset \<Rightarrow>
             if gs_remote_operational_restored st then return (True, st, post_reset)
             else do {
               started \<leftarrow> startConfirmed_gfc M;
               if \<not> started then return (False, st, post_reset)
               else return (True, st\<lparr>gs_remote_operational_restored := True\<rparr>, post_reset)
             }
       } } }"

definition validateProtocolHealth :: "lely \<Rightarrow> bool host" where
  "validateProtocolHealth M = do {
     (ok, device_type) \<leftarrow> readRemote_gfc tU32 M 0x1000 kScalarSubindex_gfc 0;
     return ok }"

section \<open>Cleanup and process\<close>

definition settlePendingProducer :: "lely \<Rightarrow> bool host" where
  "settlePendingProducer M = do {
     disabled \<leftarrow> writeRemote_gfc tU8 M kGfcParameterIndex kScalarSubindex_gfc 0;
     if \<not> disabled then return False
     else do {
       (ok, request_seq) \<leftarrow> readRemote_gfc tU32 M kGfcDiagnosticIndex kGfcProducerRequestSubindex 0;
       if \<not> ok then return False
       else do {
         (ok, complete_seq) \<leftarrow> readRemote_gfc tU32 M kGfcDiagnosticIndex kGfcProducerCompleteSubindex 0;
         if \<not> ok then return False
         else if request_seq = complete_seq then return True
         else do {
           completed \<leftarrow> waitForProducerCompletion M request_seq;
           if completed = None then return False
           else do {
             (ok, confirmed_request) \<leftarrow> readRemote_gfc tU32 M kGfcDiagnosticIndex kGfcProducerRequestSubindex 0;
             if \<not> ok then return False
             else do {
               (ok, confirmed_complete) \<leftarrow> readRemote_gfc tU32 M kGfcDiagnosticIndex
                                            kGfcProducerCompleteSubindex 0;
               if \<not> ok then return False
               else if confirmed_request \<noteq> request_seq \<or> confirmed_complete \<noteq> request_seq then return False
               else return True
             } } } } } }"

definition restoreParameter :: "lely \<Rightarrow> u8 \<Rightarrow> bool host" where
  "restoreParameter M original_valid = do {
     producer_settled \<leftarrow> settlePendingProducer M;
     if \<not> producer_settled then return False
     else do {
       written \<leftarrow> writeRemote_gfc tU8 M kGfcParameterIndex kScalarSubindex_gfc original_valid;
       if \<not> written then return False
       else do {
         (ok, restored) \<leftarrow> readRemote_gfc tU8 M kGfcParameterIndex kScalarSubindex_gfc 0xFF;
         return (\<not> (\<not> ok \<or> restored \<noteq> original_valid))
       } } }"

definition cleanupGfcValidation :: "lely \<Rightarrow> GfcRuntimeState \<Rightarrow> bool host" where
  "cleanupGfcValidation M st = do {
     operational \<leftarrow> (if gs_reset_communication_issued st \<and> \<not> gs_remote_operational_restored st
                     then startConfirmed_gfc M else return True);
     restored \<leftarrow> (if gs_original_valid_saved st then restoreParameter M (gs_original_valid st)
                  else return True);
     return (operational \<and> restored) }"

definition runGfcValidation :: "lely \<Rightarrow> GfcRuntimeState \<Rightarrow> (bool \<times> GfcRuntimeState) host" where
  "runGfcValidation M st = do {
     drained \<leftarrow> drain_gfc M;
     if \<not> drained then return (False, st)
     else do {
       (ok, original_valid) \<leftarrow> readRemote_gfc tU8 M kGfcParameterIndex kScalarSubindex_gfc 0;
       if \<not> ok then return (False, st)
       else if original_valid > 1 then return (False, st)
       else do {
         let st = st\<lparr>gs_original_valid := original_valid, gs_original_valid_saved := True\<rparr>;
         (ok, d) \<leftarrow> readDiagnostic_gfc M default_gfc_diagnostic;
         if \<not> ok then return (False, st)
         else if gd_producer_request_seq d \<noteq> gd_producer_complete_seq d then return (False, st)
         else do {
           (ok, d) \<leftarrow> validateConsumerCases M d;
           if \<not> ok then return (False, st)
           else do {
             (ok, d) \<leftarrow> validateProducerCases M d;
             if \<not> ok then return (False, st)
             else do {
               (ok, st, d) \<leftarrow> validateResetRebind_gfc M st d;
               if \<not> ok then return (False, st)
               else do {
                 ok \<leftarrow> validateProtocolHealth M;
                 return (ok, st)
               } } } } } } }"

definition gfcProcess :: "lely \<Rightarrow> int host" where
  "gfcProcess M = do {
     (passed, st) \<leftarrow> runGfcValidation M default_gfc_state;
     cleaned \<leftarrow> cleanupGfcValidation M st;
     return (if passed \<and> cleaned then 0 else 1) }"

section \<open>What a run may change\<close>

fun gfc_objects :: "mutation \<Rightarrow> bool" where
  "gfc_objects (RemoteWrite node index sub v) \<longleftrightarrow> node = CANOPEN_SLAVE_NODE_ID \<and>
     (index = 0x1300 \<and> sub = 0 \<and> (v = V8 0 \<or> v = V8 1 \<or> v = V8 2) \<or>
      index = 0x2302 \<and> sub = 3 \<and> (\<exists>seq. v = V32 seq))"
| "gfc_objects (Nmt cmd node) \<longleftrightarrow> node = CANOPEN_SLAVE_NODE_ID \<and> (cmd = RESET_COMM \<or> cmd = START)"
| "gfc_objects (Wire message) \<longleftrightarrow> message = gfcFrame 0 \<or> message = gfcFrame 1"
| "gfc_objects _ \<longleftrightarrow> False"

lemma drainItems_touches [emits_intro]: "touches S (drainItems M as)"
proof (induction as)
  case (Cons a as)
  then show ?case by (cases a) (auto intro!: emits_intro)
qed (simp add: emits_intro)

lemma gfc_remote_touch [emits_intro]:
  "touches S (readRemote_gfc T M i s v)"
  "S (RemoteWrite CANOPEN_SLAVE_NODE_ID i s (t_value T x)) \<Longrightarrow> touches S (writeRemote_gfc T M i s x)"
  unfolding readRemote_gfc_def writeRemote_gfc_def by (intro emits_intro; simp)+

lemma frameBody_touches [emits_intro]: "touches S (frameBody M deadline u)"
  unfolding frameBody_def Let_def
  by (intro emits_intro) (auto split: wire_answer.split intro!: emits_intro)

lemma gfc_reads_touch [emits_intro]:
  "touches S (drain_gfc M)" "touches S (waitForFrame M t)" "touches S (readDiagnostic_gfc M d)"
  "touches S (waitForRxIncrement M b)" "touches S (requireRxUnchanged M b t)"
  "touches S (waitForProducerCompletion M q)" "touches S (validateProtocolHealth M)"
  unfolding drain_gfc_def waitForFrame_def readDiagnostic_gfc_def waitForRxIncrement_def
    rxIncrementBody_def requireRxUnchanged_def rxUnchangedBody_def waitForProducerCompletion_def
    producerCompletionBody_def validateProtocolHealth_def Let_def
  by (intro emits_intro; simp)+

lemma u8_le_1: "(n :: u8) \<le> 1 \<longleftrightarrow> n = 0 \<or> n = 1"
proof -
  have "unat n \<le> 1 \<longleftrightarrow> unat n = 0 \<or> unat n = 1" by auto
  then show ?thesis by (simp add: word_le_nat_alt word_unat_eq_iff)
qed

lemma send_gfc_touches [emits_intro]: "touches gfc_objects (send_gfc M dlc)"
proof (cases "dlc \<le> 1")
  case True
  then have "gfc_objects (Wire (gfcFrame dlc))" by (auto simp: u8_le_1)
  then show ?thesis unfolding send_gfc_def by (intro emits_intro)
qed (simp add: send_gfc_def not_le emits_intro)

lemma requireInvalid_touches [emits_intro]: "touches gfc_objects (requireInvalidGfcParameterRejected M)"
  unfolding requireInvalidGfcParameterRejected_def Let_def
  by (intro emits_intro) (auto simp: gfc_const_defs sdoRequest_def split: submission.split intro!: emits_intro)

lemma gfc_sends_touch [emits_intro]:
  "touches gfc_objects (sendAndValidateConsumer M b)"
  "touches gfc_objects (triggerProducer M q)" "touches gfc_objects (startConfirmed_gfc M)"
  unfolding sendAndValidateConsumer_def triggerProducer_def startConfirmed_gfc_def Let_def
  by (intro emits_intro; auto simp: gfc_const_defs)+

lemma gfc_settle_touches [emits_intro]: "touches gfc_objects (settlePendingProducer M)"
  unfolding settlePendingProducer_def by (intro emits_intro) (simp add: gfc_const_defs)

lemma gfc_restore_touches [emits_intro]: "v \<le> 1 \<Longrightarrow> touches gfc_objects (restoreParameter M v)"
  unfolding restoreParameter_def by (intro emits_intro) (auto simp: gfc_const_defs u8_le_1)

lemma continuousDelivery_touches [emits_intro]: "touches gfc_objects (continuousDelivery M n d)"
  by (induction n arbitrary: d) (auto intro!: emits_intro)

lemma gfc_cases_touch [emits_intro]:
  "touches gfc_objects (validateConsumerCases M d)" "touches gfc_objects (disabledProducer M q)"
  "touches gfc_objects (enabledProducer M q)" "touches gfc_objects (rebindConsumer M c)"
  unfolding validateConsumerCases_def disabledProducer_def enabledProducer_def rebindConsumer_def Let_def
  by (intro emits_intro; simp add: gfc_const_defs)+

lemma gfc_phases_touch [emits_intro]:
  "touches gfc_objects (validateProducerCases M d)" "touches gfc_objects (validateResetRebind_gfc M st d)"
  unfolding validateProducerCases_def validateResetRebind_gfc_def Let_def
  by (intro emits_intro; simp add: gfc_const_defs)+

lemma runGfcValidation_touches [emits_intro]: "touches gfc_objects (runGfcValidation M st)"
  unfolding runGfcValidation_def Let_def by (intro emits_intro)

lemma wpi_value: "(\<And>a w'. Q a w') \<Longrightarrow> wp m Q w"
  by (rule wpI)

lemma validateResetRebind_saved:
  "wp (validateResetRebind_gfc M st d) (\<lambda>(ok, st', d') w'.
     gs_original_valid st' = gs_original_valid st \<and> gs_original_valid_saved st' = gs_original_valid_saved st) w"
  unfolding validateResetRebind_gfc_def Let_def
  by (rule wpi_bind wpi_if wpi_case_prod wpi_case_option wpi_return wpi_value | simp)+

section \<open>The parameter is put back\<close>

lemma wpi_readRemote_gfc [wp_intro]:
  assumes "\<And>ok v e w'. hist w' = e # hist w \<Longrightarrow> mutation_of e = None \<Longrightarrow>
     (ok \<Longrightarrow> saw CANOPEN_SLAVE_NODE_ID index sub (t_value T v) e) \<Longrightarrow> Q (ok, v) w'"
  shows "wp (readRemote_gfc T M index sub v0) Q w"
  unfolding readRemote_gfc_def
  by (intro wp_intro wpi_saw_upload) (auto intro!: assms intro: wpi_case_prod wpi_return)

lemma wpi_writeRemote_gfc [wp_intro]:
  assumes "\<And>ok e w'. hist w' = e # hist w \<Longrightarrow>
     mutation_of e = Some (RemoteWrite CANOPEN_SLAVE_NODE_ID index sub (t_value T v)) \<Longrightarrow>
     ok = wrote CANOPEN_SLAVE_NODE_ID index sub (t_value T v) e \<Longrightarrow> Q ok w'"
  shows "wp (writeRemote_gfc T M index sub v) Q w"
  unfolding writeRemote_gfc_def
  by (intro wp_intro) (rule assms, assumption, auto simp: outcome_SUCCESS_iff)

abbreviation gfc_parameter :: "u8 \<Rightarrow> mutation" where
  "gfc_parameter v \<equiv> RemoteWrite CANOPEN_SLAVE_NODE_ID 0x1300 0 (V8 v)"

abbreviation gfc_request :: "u32 \<Rightarrow> mutation" where
  "gfc_request q \<equiv> RemoteWrite CANOPEN_SLAVE_NODE_ID 0x2302 3 (V32 q)"

text \<open>The last two answers show the producer's request and completion sequences equal.\<close>

fun producer_idle :: "history \<Rightarrow> bool" where
  "producer_idle (e2 # e1 # h) \<longleftrightarrow> (\<exists>q. saw CANOPEN_SLAVE_NODE_ID 0x2302 3 (V32 q) e1 \<and>
     saw CANOPEN_SLAVE_NODE_ID 0x2302 4 (V32 q) e2)"
| "producer_idle _ \<longleftrightarrow> False"

text \<open>\<open>w\<close> has just read the parameter's value \<open>v\<close>, and nothing was changed since \<open>u\<close>.\<close>

definition parameter_read :: "world \<Rightarrow> u8 \<Rightarrow> world \<Rightarrow> bool" where
  "parameter_read u v w \<longleftrightarrow> v \<le> 1 \<and> quiet u w \<and>
     (\<exists>e h. hist w = e # h \<and> saw CANOPEN_SLAVE_NODE_ID 0x1300 0 (V8 v) e)"

text \<open>
  The end of a run from \<open>u\<close> on: the parameter is disabled, and either that is the last change or
  the producer is seen idle and the value \<open>v\<close> is written as the very next step and is the last
  change.  \<open>verified\<close>: the write was confirmed and read back.
\<close>

definition put_back :: "world \<Rightarrow> u8 \<Rightarrow> world \<Rightarrow> bool \<Rightarrow> bool" where
  "put_back u v w verified \<longleftrightarrow> (\<exists>x. does u [gfc_parameter 0] x \<and>
     (\<not> verified \<and> x = w \<or>
      producer_idle (hist x) \<and> does x [gfc_parameter v] w \<and>
      (verified \<longrightarrow> (\<exists>e1 e2. hist w = e2 # e1 # hist x \<and>
         wrote CANOPEN_SLAVE_NODE_ID 0x1300 0 (V8 v) e1 \<and>
         saw CANOPEN_SLAVE_NODE_ID 0x1300 0 (V8 v) e2))))"

lemma settlePendingProducer_idle:
  "wp (settlePendingProducer M) (\<lambda>ok w'. does w [gfc_parameter 0] w' \<and> (ok \<longrightarrow> producer_idle (hist w'))) w"
proof -
  have wait: "wp (waitForProducerCompletion M q) Q v"
    if "\<And>r v'. does w [gfc_parameter 0] v' \<Longrightarrow> Q r v'" and "does w [gfc_parameter 0] v" for q Q v
    using that(2) by (rule wp_does_quiet) (auto intro: emits_intro that(1))
  show ?thesis
    unfolding settlePendingProducer_def gfc_const_defs
    by (intro wp_intro wait)
       (auto simp: gfc_const_defs intro: does_add(2) does_short split: if_splits)
qed

lemma restoreParameter_put_back:
  "wp (restoreParameter M v) (\<lambda>ok w'. put_back w v w' ok) w"
  unfolding restoreParameter_def
proof (intro wpi_bind wp_mono [OF settlePendingProducer_idle] wpi_if wpi_return)
  fix ok x
  assume x: "does w [gfc_parameter 0] x \<and> (ok \<longrightarrow> producer_idle (hist x))"
  { assume "\<not> ok" with x show "put_back w v x False" by (auto simp: put_back_def) }
  assume "\<not> \<not> ok"
  with x show "wp (writeRemote_gfc tU8 M kGfcParameterIndex kScalarSubindex_gfc v) (\<lambda>a. wp (if \<not> a then return False
      else do { (ok, restored) \<leftarrow> readRemote_gfc tU8 M kGfcParameterIndex kScalarSubindex_gfc 0xFF;
                return (\<not> (\<not> ok \<or> restored \<noteq> v)) }) (\<lambda>ok w'. put_back w v w' ok)) x"
    by (intro wp_intro) (auto simp: gfc_const_defs put_back_def intro!: exI [of _ x] intro: does_short)
qed

definition gfc_run_end :: "world \<Rightarrow> int \<Rightarrow> world \<Rightarrow> bool" where
  "gfc_run_end w r w' \<longleftrightarrow>
     r \<noteq> 0 \<and> quiet w w' \<or>
     (\<exists>v u x verified. parameter_read w v u \<and> later u x \<and> put_back x v w' verified \<and> (r = 0 \<longrightarrow> verified))"

lemma wp_later_carry:
  assumes "later u w" and "touches S m" and "\<And>a w'. later u w' \<Longrightarrow> Q a w'"
  shows "wp m Q w"
  using assms(2) by (rule wp_later) (use assms(1,3) in \<open>blast intro: later_trans\<close>)

lemma wpi_validateResetRebind:
  assumes "later u w" and "\<And>ok st' d' w'. later u w' \<Longrightarrow> gs_original_valid st' = gs_original_valid st \<Longrightarrow>
     gs_original_valid_saved st' = gs_original_valid_saved st \<Longrightarrow> Q (ok, st', d') w'"
  shows "wp (validateResetRebind_gfc M st d) Q w"
proof -
  have "wp (validateResetRebind_gfc M st d) (\<lambda>_. later u) w"
    using assms(1) gfc_phases_touch(2) by (rule wp_later_carry)
  then have "wp (validateResetRebind_gfc M st d) (\<lambda>r w'. later u w' \<and> (case r of (ok, st', d') \<Rightarrow>
      gs_original_valid st' = gs_original_valid st \<and>
      gs_original_valid_saved st' = gs_original_valid_saved st)) w"
    unfolding wp_conj by (auto intro: wp_mono [OF validateResetRebind_saved])
  then show ?thesis by (rule wp_mono) (auto intro: assms(2))
qed

lemma runGfcValidation_saved:
  "wp (runGfcValidation M default_gfc_state) (\<lambda>(ok, st) w'.
     if gs_original_valid_saved st then \<exists>u. parameter_read w (gs_original_valid st) u \<and> later u w'
     else \<not> ok \<and> quiet w w' \<and> \<not> gs_reset_communication_issued st) w"
proof -
  define kept where "kept v u r w' \<longleftrightarrow> later u w' \<and> gs_original_valid_saved (snd r) \<and> gs_original_valid (snd r) = v"
    for v u and r :: "bool \<times> GfcRuntimeState" and w'
  have keptI: "kept v u (ok, st) w'" if "later u w'" "gs_original_valid_saved st" "gs_original_valid st = v"
    for v u ok st w' using that by (simp add: kept_def)
  show ?thesis
    unfolding runGfcValidation_def Let_def
    apply (rule wpi_bind, rule wp_quiet, rule gfc_reads_touch)
    apply (rule wpi_if, rule wpi_return, simp add: default_gfc_state_def)
    apply (rule wpi_bind, rule wpi_readRemote_gfc, rule wpi_case_prod)
    apply (rule wpi_if, rule wpi_return)
     apply (auto simp: default_gfc_state_def does_quiet intro: does_add(2))[1]
    apply (rule wpi_if, rule wpi_return)
     apply (auto simp: default_gfc_state_def does_quiet intro: does_add(2))[1]
    subgoal for drained w1 r v e u ok original_valid
      apply (rule wp_mono [where Q = "kept original_valid u"])
       apply (insert later_refl [of u])
       apply (rule wpi_bind wpi_if wpi_case_prod keptI wpi_return
          | assumption | (rule wpi_validateResetRebind, assumption)
          | (rule wp_later_carry, assumption, rule emits_intro) | (simp; fail))+
      apply (auto simp: kept_def parameter_read_def gfc_const_defs not_less does_quiet intro: does_add(2))
      done
    done
qed

lemma startConfirmed_gfc_touches: "touches S' (startConfirmed_gfc M)" if "S' (Nmt START CANOPEN_SLAVE_NODE_ID)"
  unfolding startConfirmed_gfc_def using that by (intro emits_intro)

lemma cleanupGfcValidation_put_back:
  assumes "gs_original_valid_saved st"
  shows "wp (cleanupGfcValidation M st) (\<lambda>ok w'. \<exists>x verified. later w x \<and>
     put_back x (gs_original_valid st) w' verified \<and> (ok \<longrightarrow> verified)) w"
proof -
  have "wp (if gs_reset_communication_issued st \<and> \<not> gs_remote_operational_restored st
     then startConfirmed_gfc M else return True) (\<lambda>_. later w) w"
    by (rule wp_later_carry [where S = "\<lambda>_. True"]) (auto intro: emits_intro startConfirmed_gfc_touches)
  then show ?thesis
    unfolding cleanupGfcValidation_def if_P [OF assms]
    by (intro wpi_bind; elim wp_mono) (auto intro!: wpi_bind wpi_return wp_mono [OF restoreParameter_put_back])
qed

lemma gfcProcess_end: "wp (gfcProcess M) (\<lambda>r w'. gfc_run_end w r w') w"
  unfolding gfcProcess_def
proof (intro wpi_bind wp_mono [OF runGfcValidation_saved] wpi_case_prod, clarify)
  fix passed w1 and st :: GfcRuntimeState
  assume st: "if gs_original_valid_saved st then \<exists>u. parameter_read w (gs_original_valid st) u \<and> later u w1
     else \<not> passed \<and> quiet w w1 \<and> \<not> gs_reset_communication_issued st"
  show "wp (cleanupGfcValidation M st) (\<lambda>a. wp (return (if passed \<and> a then 0 else 1)) (gfc_run_end w)) w1"
  proof (cases "gs_original_valid_saved st")
    case True
    with st obtain u where "parameter_read w (gs_original_valid st) u" "later u w1" by auto
    then show ?thesis
      by (intro wp_mono [OF cleanupGfcValidation_put_back [OF True]] wpi_return)
         (auto simp: gfc_run_end_def intro: later_trans)
  next
    case False
    with st show ?thesis
      by (simp add: cleanupGfcValidation_def host_wp gfc_run_end_def)
  qed
qed

lemma gfcProcess_touches: "touches gfc_objects (gfcProcess M)"
  unfolding gfcProcess_def
proof (rule emits_bind_wp [OF runGfcValidation_touches])
  show "wp (runGfcValidation M default_gfc_state) (\<lambda>r w'. gs_original_valid_saved (snd r) \<longrightarrow>
     gs_original_valid (snd r) \<le> 1) w" for w
    by (rule wp_mono [OF runGfcValidation_saved]) (auto simp: parameter_read_def split: if_splits)
next
  show "touches gfc_objects (case r of (passed, st) \<Rightarrow> do {
      cleaned \<leftarrow> cleanupGfcValidation M st; return (if passed \<and> cleaned then 0 else 1) })"
    if "gs_original_valid_saved (snd r) \<longrightarrow> gs_original_valid (snd r) \<le> 1" for r
    using that unfolding cleanupGfcValidation_def
    by (auto intro!: emits_intro split: prod.splits if_splits)
qed

section \<open>The changes of a passing run\<close>

lemma gfc_steps_do:
  "wp (writeRemote_gfc T M i s x) (\<lambda>ok w'. ok \<longrightarrow>
     does w [RemoteWrite CANOPEN_SLAVE_NODE_ID i s (t_value T x)] w') w"
  "wp (send_gfc M dlc) (\<lambda>ok w'. ok \<longrightarrow> does w [Wire (gfcFrame dlc)] w') w"
  "wp (startConfirmed_gfc M) (\<lambda>ok w'. ok \<longrightarrow> does w [Nmt START CANOPEN_SLAVE_NODE_ID] w') w"
  unfolding send_gfc_def startConfirmed_gfc_def
  by (intro wp_intro issueNmtCommandAndWaitForState_does; auto intro: does_short)+

lemma requireInvalid_does:
  "wp (requireInvalidGfcParameterRejected M) (\<lambda>ok w'. ok \<longrightarrow> does w [gfc_parameter 2] w') w"
  unfolding requireInvalidGfcParameterRejected_def
  by (auto simp: host_wp wp_def run_submit_download Let_def gfc_const_defs sdoRequest_def
      split: submission.split intro: does_short)

lemmas gfc_does = wp_does [OF _ gfc_steps_do(1)] wp_does [OF _ gfc_steps_do(2)]
  wp_does [OF _ gfc_steps_do(3)] wp_does [OF _ requireInvalid_does] wp_does [OF _ issueNmtCommand_does]

lemmas gfc_does_quiet = wp_does_quiet [OF _ gfc_remote_touch(1)] wp_does_quiet [OF _ gfc_reads_touch(1)]
  wp_does_quiet [OF _ gfc_reads_touch(2)] wp_does_quiet [OF _ gfc_reads_touch(3)]
  wp_does_quiet [OF _ gfc_reads_touch(5)] wp_does_quiet [OF _ gfc_reads_touch(6)]
  wp_does_quiet [OF _ gfc_reads_touch(7)]

lemma waitForRxIncrement_value:
  "wp (waitForRxIncrement M b) (\<lambda>r w'. does w [] w' \<and> (r = None \<or> r = Some (b + 1))) w"
proof -
  have "wp (waitForRxIncrement M b) (\<lambda>r w'. r = None \<or> r = Some (b + 1)) w"
    unfolding waitForRxIncrement_def
    by (intro wp_intro wp_deadline_do_while [where I = "\<lambda>_ _. True"])
       (auto simp: rxIncrementBody_def intro!: wp_intro)
  moreover have "wp (waitForRxIncrement M b) (\<lambda>r w'. does w [] w') w"
    by (rule wp_quiet [OF gfc_reads_touch(4)]) (simp add: does_quiet)
  ultimately show ?thesis by (simp add: wp_conj)
qed

lemma sendAndValidateConsumer_does:
  assumes "does u xs w"
    and "\<And>w'. does u (xs @ [Wire (gfcFrame 0)]) w' \<Longrightarrow> Q (Some (b + 1)) w'" and "\<And>w'. Q None w'"
  shows "wp (sendAndValidateConsumer M b) Q w"
  unfolding sendAndValidateConsumer_def
  apply (rule wpi_bind, rule gfc_does, rule assms(1))
   apply (rule wpi_if, simp)
  apply (rule wpi_bind, rule wp_mono, rule waitForRxIncrement_value)
   apply (rule wpi_case_option)
    apply (intro wp_intro assms(3))
   apply (intro wp_intro)
   apply (auto intro!: assms(2,3) wp_intro dest: does_trans does_add(2))
  done

lemma continuousDelivery_does:
  assumes "does u xs w"
    and "\<And>d' w'. does u (xs @ replicate n (Wire (gfcFrame 0))) w' \<Longrightarrow>
       d' = d\<lparr>gd_rx_count := gd_rx_count d + of_nat n\<rparr> \<Longrightarrow> Q (True, d') w'"
    and "\<And>d' w'. Q (False, d') w'"
  shows "wp (continuousDelivery M n d) Q w"
  using assms
proof (induction n arbitrary: xs d w)
  case 0
  then show ?case by (auto intro!: wp_intro)
next
  case (Suc n)
  show ?case
    unfolding continuousDelivery.simps
    apply (rule wpi_bind, rule sendAndValidateConsumer_does, rule Suc.prems(1))
    apply simp
    apply (rule Suc.IH, assumption)
    apply (rule Suc.prems(2), simp, simp)
    apply (intro wp_intro Suc.prems(3))
    apply (simp, intro wp_intro Suc.prems(3))
    done
qed

definition consumer_changes :: "mutation list" where
  "consumer_changes = [gfc_parameter 1, Wire (gfcFrame 0), gfc_parameter 0, Wire (gfcFrame 0),
     gfc_parameter 2, gfc_parameter 1, Wire (gfcFrame 1),
     Wire (gfcFrame 0), Wire (gfcFrame 0), Wire (gfcFrame 0)]"

definition producer_changes :: "u32 \<Rightarrow> mutation list" where
  "producer_changes q = [gfc_parameter 0, gfc_request (q + 1), gfc_parameter 1, gfc_request (q + 2)]"

lemma validateConsumerCases_does:
  assumes "does u xs w"
    and "\<And>n w'. does u (xs @ consumer_changes) w' \<Longrightarrow> n = gd_rx_count d + 4 \<Longrightarrow>
       Q (True, d\<lparr>gd_rx_count := n\<rparr>) w'"
    and fails: "\<And>d' w'. Q (False, d') w'"
  shows "wp (validateConsumerCases M d) Q w"
  unfolding validateConsumerCases_def Let_def
  using assms(1)
  apply -
  apply (rule wpi_bind wpi_if wpi_case_prod wpi_case_option wpi_andM wpi_return fails
    | (rule gfc_does sendAndValidateConsumer_does continuousDelivery_does, assumption)
    | (rule gfc_does_quiet, assumption)
    | simp only: if_True if_False not_True_eq_False not_False_eq_True)+
  apply (auto simp: consumer_changes_def gfc_const_defs numeral_3_eq_3 intro!: assms(2) fails wpi_return)
  done

text \<open>A passed producer step: the request is the next sequence number.\<close>

lemma triggerProducer_does:
  assumes "does u xs w"
    and "\<And>r w'. does u (xs @ [gfc_request (q + 1)]) w' \<Longrightarrow> Q (q + 1, r) w'"
    and fails: "\<And>q' w'. Q (q', None) w'"
  shows "wp (triggerProducer M q) Q w"
  unfolding triggerProducer_def Let_def
  using assms(1)
  by - ((rule wpi_bind wpi_if wpi_return fails | (rule gfc_does, assumption)
    | (rule gfc_does_quiet, assumption) | simp only: simp_thms | (rule assms(2), simp add: gfc_const_defs))+)

lemma producers_do:
  assumes "does u xs w"
    and "\<And>w'. does u (xs @ [gfc_request (q + 1)]) w' \<Longrightarrow> Q (True, q + 1) w'"
    and fails: "\<And>q' w'. Q (False, q') w'"
  shows "wp (disabledProducer M q) Q w" "wp (enabledProducer M q) Q w"
  unfolding disabledProducer_def enabledProducer_def
  using assms(1)
  by - (((rule wpi_bind wpi_if wpi_case_prod wpi_case_option wpi_return fails
    | (rule triggerProducer_does, assumption) | (rule gfc_does_quiet, assumption)
    | (auto intro!: assms(2))[1])+))+

lemma validateProducerCases_does:
  assumes "does u xs w"
    and "\<And>d' w'. does u (xs @ producer_changes (gd_producer_request_seq d)) w' \<Longrightarrow>
       d' = producerDone (gd_producer_request_seq d + 2) d \<Longrightarrow> Q (True, d') w'"
    and fails: "\<And>d' w'. Q (False, d') w'"
  shows "wp (validateProducerCases M d) Q w"
  unfolding validateProducerCases_def Let_def
  using assms(1)
  apply -
  apply (rule wpi_bind wpi_if wpi_case_prod wpi_andM wpi_return fails
    | (rule gfc_does producers_do, assumption) | (rule gfc_does_quiet, assumption)
    | simp only: if_True if_False not_True_eq_False not_False_eq_True)+
  apply (auto simp: producer_changes_def gfc_const_defs producerDone_def add.commute
      intro!: assms(2) fails wpi_return)
  done

text \<open>After the reset the parameter is enabled when it is not, and the device is started when its
  Boot did not end Operational.\<close>

definition rebind_changes :: "bool \<Rightarrow> bool \<Rightarrow> mutation list" where
  "rebind_changes enable start = Nmt RESET_COMM CANOPEN_SLAVE_NODE_ID #
     (if enable then [gfc_parameter 1] else []) @ Wire (gfcFrame 0) #
     (if start then [Nmt START CANOPEN_SLAVE_NODE_ID] else [])"

lemma rebindConsumer_does:
  assumes "does u xs w"
    and "\<And>enable d' w'. does u (xs @ (if enable then [gfc_parameter 1] else []) @ [Wire (gfcFrame 0)]) w' \<Longrightarrow>
       gd_rx_count d' = c + 1 \<Longrightarrow> Q (Some d') w'"
    and fails: "\<And>w'. Q None w'"
  shows "wp (rebindConsumer M c) Q w"
proof -
  note yes = assms(2) [of True, simplified] and no = assms(2) [of False, simplified]
  show ?thesis
    unfolding rebindConsumer_def
    using assms(1)
    apply -
    apply (rule wpi_bind wpi_if wpi_case_prod wpi_case_option wpi_return fails
      | (rule gfc_does sendAndValidateConsumer_does, assumption) | (rule gfc_does_quiet, assumption)
      | simp only: if_True if_False not_True_eq_False not_False_eq_True
      | (auto simp: gfc_const_defs intro: yes no; fail)[1])+
    done
qed

lemma validateResetRebind_does:
  assumes "does u xs w"
    and "\<And>enable start st' d' w'. does u (xs @ rebind_changes enable start) w' \<Longrightarrow>
       gs_remote_operational_restored st' \<Longrightarrow> gs_original_valid st' = gs_original_valid st \<Longrightarrow>
       gs_original_valid_saved st' = gs_original_valid_saved st \<Longrightarrow> Q (True, st', d') w'"
    and fails: "\<And>st' d' w'. Q (False, st', d') w'"
  shows "wp (validateResetRebind_gfc M st d) Q w"
proof -
  note started = assms(2) [of _ True, unfolded rebind_changes_def]
    and running = assms(2) [of _ False, unfolded rebind_changes_def]
  show ?thesis
    unfolding validateResetRebind_gfc_def Let_def
    using assms(1)
    apply -
    apply (rule wpi_bind wpi_if wpi_case_prod wpi_case_option wpi_return fails
      | (rule gfc_does rebindConsumer_does, assumption) | (rule gfc_does_quiet, assumption)
      | (rule wp_does_quiet, assumption, rule observer_footprints waitForBootCompletion_touches)
      | simp only: if_True if_False not_True_eq_False not_False_eq_True
      | (auto intro: started running split: if_splits; fail)[1])+
    done
qed

definition gfc_changes :: "u8 \<Rightarrow> u32 \<Rightarrow> bool \<Rightarrow> bool \<Rightarrow> mutation list" where
  "gfc_changes v q enable start = consumer_changes @ producer_changes q @ rebind_changes enable start @
     [gfc_parameter 0, gfc_parameter v]"

lemma runGfcValidation_does:
  assumes "\<And>q enable start ok st' w'.
       does w (consumer_changes @ producer_changes q @ rebind_changes enable start) w' \<Longrightarrow>
       gs_remote_operational_restored st' \<Longrightarrow> gs_original_valid_saved st' \<Longrightarrow> Q (ok, st') w'"
    and fails: "\<And>st' w'. Q (False, st') w'"
  shows "wp (runGfcValidation M st) Q w"
  unfolding runGfcValidation_def Let_def
  using does_refl [of w]
  by - ((rule wpi_bind wpi_if wpi_case_prod wpi_return fails
    | (rule validateConsumerCases_does validateProducerCases_does validateResetRebind_does, assumption)
    | (rule gfc_does_quiet, assumption)
    | (auto intro: assms(1); fail)[1])+)

lemma restoreParameter_does:
  "wp (restoreParameter M v) (\<lambda>ok w'. ok \<longrightarrow> does w [gfc_parameter 0, gfc_parameter v] w') w"
  by (rule wp_mono [OF restoreParameter_put_back]) (auto simp: put_back_def dest: does_trans)

lemma gfcProcess_does:
  "wp (gfcProcess M) (\<lambda>r w'. r = 0 \<longrightarrow> (\<exists>v q enable start. does w (gfc_changes v q enable start) w')) w"
  unfolding gfcProcess_def
proof (rule wpi_bind, rule runGfcValidation_does)
  fix q enable start ok w1 and st :: GfcRuntimeState
  assume does: "does w (consumer_changes @ producer_changes q @ rebind_changes enable start) w1"
    and st: "gs_remote_operational_restored st" "gs_original_valid_saved st"
  show "wp (case (ok, st) of (passed, st) \<Rightarrow> do {
      cleaned \<leftarrow> cleanupGfcValidation M st; return (if passed \<and> cleaned then 0 else 1) })
     (\<lambda>(r :: int) w'. r = 0 \<longrightarrow> (\<exists>v q enable start. does w (gfc_changes v q enable start) w')) w1"
    by (simp add: cleanupGfcValidation_def host_wp st)
       (rule wp_does [OF does restoreParameter_does], auto simp: gfc_changes_def host_wp)
qed (simp add: host_wp, rule wpi_value, simp add: host_wp)

lemma gfcProcess_result: "wp (gfcProcess M) (\<lambda>r w'. r = 1 \<or> r = 0) w"
  unfolding gfcProcess_def by (intro wpi_bind wpi_value wpi_case_prod wpi_return) auto

lemma gfcProcess_changes:
  "wp (gfcProcess M) (\<lambda>r w'. r = 1 \<or> r = 0 \<and> (\<exists>v q enable start. does w (gfc_changes v q enable start) w')) w"
  using conjI [OF gfcProcess_result [of M w] gfcProcess_does [of M w]] unfolding wp_conj [symmetric]
  by (rule wp_mono) blast

section \<open>Evidence\<close>

text \<open>Only an abort with \<open>PARAM_VAL\<close> counts as a rejected value.\<close>

lemma requireInvalid_exact:
  "wp (requireInvalidGfcParameterRejected M) (\<lambda>ok w'. \<exists>rq answer.
     hist w' = EvDownload rq (V8 2) answer # hist w \<and>
     rq_node rq = CANOPEN_SLAVE_NODE_ID \<and> rq_index rq = 0x1300 \<and> rq_sub rq = 0 \<and>
     (ok \<longleftrightarrow> (\<exists>e. answer = Accepted (Some (e, ())) \<and> failed e \<and> sdo_errc M e = 0x06090030))) w"
proof -
  let ?rq = "sdoRequest Normal CANOPEN_SLAVE_NODE_ID 0x1300 0 kSdoTimeoutMs"
  show ?thesis
    unfolding requireInvalidGfcParameterRejected_def gfc_const_defs
    by (cases "down M (hist w) ?rq (V8 2)" rule: completion_cases)
       (simp_all add: host_wp wp_def run_submit_download runCompletion_def writeCompletion_def
         sdoErrc_PARAM_VAL_def Let_def)
qed

fun unrelated :: "event \<Rightarrow> bool" where
  "unrelated (EvNow t) \<longleftrightarrow> True"
| "unrelated (EvWireRead t a) \<longleftrightarrow> (case a of WireFrame message ts \<Rightarrow> can_id message \<noteq> 1 | _ \<Rightarrow> True)"
| "unrelated _ \<longleftrightarrow> False"

definition unrelated_until :: "world \<Rightarrow> world \<Rightarrow> bool" where
  "unrelated_until w w' \<longleftrightarrow> (\<exists>es. hist w' = es @ hist w \<and> list_all unrelated es)"

lemma unrelated_until_add:
  "unrelated_until w v \<Longrightarrow> hist v' = e # hist v \<Longrightarrow> unrelated e \<Longrightarrow> unrelated_until w v'"
  unfolding unrelated_until_def by (metis append_Cons list.pred_inject(2))

definition first_frame :: "world \<Rightarrow> WireWaitResult \<times> (can_frame \<times> nat) option \<Rightarrow> world \<Rightarrow> bool" where
  "first_frame w r w' \<longleftrightarrow> (case r of
     (FRAME, f) \<Rightarrow> \<exists>message ts t v. f = Some (message, ts) \<and> can_id message = 1 \<and> unrelated_until w v \<and>
        hist w' = EvWireRead t (WireFrame message ts) # hist v
   | (TIMEOUT, f) \<Rightarrow> unrelated_until w w'
   | (ERROR, f) \<Rightarrow> \<exists>t e h. hist w' = EvWireRead t (WireFault e) # h \<and> \<not> isWouldBlock e)"

lemma frameBody_first:
  assumes "unrelated_until w v"
  shows "wp (frameBody M deadline u) (\<lambda>r v'. case r of
     Inl s \<Rightarrow> unrelated_until w v' | Inr a \<Rightarrow> first_frame w a v') v"
  unfolding frameBody_def Let_def
  apply (rule wpi_bind, rule wpi_steady_now)
  apply (subgoal_tac "unrelated_until w w'")
   prefer 2
  subgoal by (rule unrelated_until_add [OF assms]) auto
  apply (rule wpi_if, rule wpi_return, simp add: first_frame_def)
  apply (rule wpi_bind, rule wpi_channel(2))
  apply (auto simp: host_wp first_frame_def gfc_const_defs split: wire_answer.split
      intro: unrelated_until_add)
  done

lemma waitForFrame_first: "wp (waitForFrame M timeout) (first_frame w) w"
  unfolding waitForFrame_def
  apply (rule wpi_bind, rule wpi_steady_now, rule wpi_bind)
  apply (rule wp_deadline_do_while [where I = "\<lambda>_ v. unrelated_until w v"])
     apply (rule unrelated_until_add, assumption, simp, simp)
    apply (rule wp_mono [OF frameBody_first], assumption)
    apply (auto simp: host_wp first_frame_def unrelated_until_def split: sum.splits)
  done

end
