(* ===== verification/Sdo_Channel.thy ===== *)
theory Sdo_Channel
  imports Object_Access
begin

text \<open>
  The state of the SDO channel across a run: once a completion was not observed in time, no further
  transaction may be started.  One rule per operation; operations without SDO traffic are \<open>silent\<close>.
\<close>

section \<open>Runs in which no transaction follows a lost completion\<close>

abbreviation silent :: "'a host \<Rightarrow> bool" where
  "silent m \<equiv> emits (\<lambda>e. \<not> sdo_traffic e) m"

text \<open>\<open>orderly_since u w known\<close>: since \<open>u\<close> no transaction followed one whose completion was lost, and if
  \<open>known\<close> none was lost.\<close>

definition orderly_since :: "world \<Rightarrow> world \<Rightarrow> bool \<Rightarrow> bool" where
  "orderly_since u w known \<longleftrightarrow> (\<exists>es. hist w = es @ hist u \<and> stops_when_unknown es \<and>
     (known \<longrightarrow> list_all (\<lambda>e. \<not> unknown_state e) es))"

lemma orderly_refl: "orderly_since w w True"
  by (simp add: orderly_since_def)

lemma orderly_weaken: "orderly_since u w True \<Longrightarrow> orderly_since u w known"
  by (auto simp: orderly_since_def)

lemma orderly_traffic:
  assumes "orderly_since u w True" and "hist w' = ev # hist w" and "known \<Longrightarrow> \<not> unknown_state ev"
  shows "orderly_since u w' known"
proof -
  obtain es where "hist w = es @ hist u" "stops_when_unknown es" "list_all (\<lambda>e. \<not> unknown_state e) es"
    using assms(1) by (auto simp: orderly_since_def)
  then show ?thesis unfolding orderly_since_def
    using assms(2,3) by (intro exI [of _ "ev # es"]) auto
qed

lemma orderly_traffic2:
  assumes "orderly_since u w True" and "hist w' = ev' # ev # hist w" and "\<not> unknown_state ev"
    and "known \<Longrightarrow> \<not> unknown_state ev'"
  shows "orderly_since u w' known"
proof -
  obtain es where "hist w = es @ hist u" "stops_when_unknown es" "list_all (\<lambda>e. \<not> unknown_state e) es"
    using assms(1) by (auto simp: orderly_since_def)
  then show ?thesis unfolding orderly_since_def
    using assms(2-4) by (intro exI [of _ "ev' # ev # es"]) auto
qed

lemma orderly_quiet:
  assumes "orderly_since u w known" and "silent m" and "\<And>a w'. orderly_since u w' known \<Longrightarrow> Q a w'"
  shows "wp m Q w"
proof (rule wpI)
  fix a w' assume run: "run_state m w = (a, w')"
  obtain es where es: "hist w = es @ hist u" "stops_when_unknown es"
    "known \<longrightarrow> list_all (\<lambda>e. \<not> unknown_state e) es"
    using assms(1) by (auto simp: orderly_since_def)
  obtain fs where fs: "hist w' = fs @ hist w" "list_all (\<lambda>e. \<not> sdo_traffic e) fs"
    using emitsD [OF assms(2) run] by auto
  have "unknown_state e \<Longrightarrow> sdo_traffic e" for e by (cases e) auto
  with fs(2) have "list_all (\<lambda>e. \<not> unknown_state e) fs" by (auto simp: list_all_iff)
  moreover have "stops_when_unknown fs" using fs(2) by (induction fs) auto
  moreover have "\<not> list_ex sdo_traffic fs" using fs(2) by (auto simp: list_ex_iff list_all_iff)
  ultimately show "Q a w'"
    using es fs(1) by (intro assms(3)) (auto simp: orderly_since_def intro!: exI [of _ "fs @ es"])
qed

section \<open>Silent operations\<close>

lemma silent_calls [emits_intro]:
  "silent (wait_for M t p)" "silent (steady_now M)" "silent (sleep_for M d)" "silent (local_read L M i s)"
  "silent (local_write M i s x)" "silent (submit_command M c n)" "silent (mapped_read M i s)"
  "silent (mapped_write M i s v)" "silent (mapped_event M i s)" "silent (cancel_all M n code)"
  "silent (await M t completion)" "silent (emcy_available M)" "silent (emcy_peek M)" "silent (emcy_count M)"
  "silent (submit_push M ec r msef)" "silent (submit_clear M)"
  by (rule emits_wait_for emits_steady_now emits_sleep_for emits_local_read emits_local_write emits_submit_command
      emits_mapped emits_local_services; simp)+

lemma silent_objects [emits_intro]:
  "silent (od_do M oc)" "silent (od_ask M q)" "silent (od_set M i v)" "silent (od_get_u32 M i)" "silent (od_get_octets M i)"
  by (rule emits_objects; simp)+

lemma silent_channel [emits_intro]:
  "silent (channel_write M f)" "silent (channel_read M t)" "silent (channel_pending M)" "silent (channel_take M a)"
  by (rule emits_channel; simp)+

lemma silent_loops [emits_intro]:
  "(\<And>s. silent (body s)) \<Longrightarrow> silent (deadline_loop M d body s)"
  "(\<And>s. silent (body s)) \<Longrightarrow> silent (deadline_do_while M d body s)"
  by (rule emits_deadline_loop emits_deadline_do_while; simp)+

lemma nmt_no_traffic [emits_intro]:
  "silent (issueNmtCommand M c n)" "silent (issueNmtCommandAndWaitForState M c n st t)"
  unfolding issueNmtCommandAndWaitForState_def issueNmtCommand_def readManagedNmtState_def Let_def
  by (intro emits_intro)+

section \<open>Transactions\<close>

text \<open>An expedited or segmented upload.\<close>

lemma wpi_upload_state:
  assumes "\<And>r v ev w'. hist w' = ev # hist w \<Longrightarrow> sdo_traffic ev \<Longrightarrow> mutation_of ev = None \<Longrightarrow>
     (unknown_state ev \<longleftrightarrow> r = WAIT_TIMEOUT) \<Longrightarrow> (r = SUCCESS \<Longrightarrow> saw n i s (t_value T v) ev) \<Longrightarrow> Q (r, v) w'"
  shows "wp (readRemoteSdoFor T M n i s v0 t m) Q w"
proof -
  let ?rq = "sdoRequest Normal n i s t"
  show ?thesis
    by (cases "t_upload T M (hist w) ?rq" rule: completion_cases)
       (auto simp: readRemoteSdoFor_def wp_def run_submit_upload classifyRead_simps failed_def intro!: assms)
qed

lemma submit_download_orderly:
  assumes "orderly_since u w True" and "\<And>r w'. orderly_since u w' (r \<noteq> Accepted None) \<Longrightarrow> Q r w'"
  shows "wp (submit_download M rq v t) Q w"
  unfolding wp_def run_submit_download prod.case
  by (rule assms(2), rule orderly_traffic [OF assms(1)]) auto

lemma readRemoteSdo_orderly:
  assumes "orderly_since u w True" and "\<And>r v w'. orderly_since u w' (r \<noteq> WAIT_TIMEOUT) \<Longrightarrow> Q (r, v) w'"
  shows "wp (readRemoteSdoFor T M n i s v0 t m) Q w"
  by (rule wpi_upload_state) (auto intro!: assms(2) orderly_traffic [OF assms(1)])

lemma writeRemoteSdo_orderly:
  assumes "orderly_since u w True" and "\<And>r w'. orderly_since u w' (r \<noteq> WAIT_TIMEOUT) \<Longrightarrow> Q r w'"
  shows "wp (writeRemoteSdoFor M n i s v t m) Q w"
  by (rule wpi_writeRemoteSdoFor)
     (auto intro!: assms(2) orderly_traffic [OF assms(1)] simp: outcome_WAIT_TIMEOUT_iff)

end
