(* ===== verification/Sdo_Block_Process.thy ===== *)
theory Sdo_Block_Process
  imports Sdo_Channel
begin

text \<open>
  SDO block-transfer validation, \<open>src/sdo_block_process.cpp\<close>: round trips of deterministic payloads,
  the recovery cases and the restoration of the original payload.  The two booleans the code passes
  by reference are arguments and results: \<open>channel_known\<close>, false once a completion was never
  observed, and \<open>node_stopped\<close>.
\<close>

section \<open>Constants\<close>

definition kBlockObjectIndex :: u16 where "kBlockObjectIndex = 0x2304"
definition kBlockObjectSubindex :: u8 where "kBlockObjectSubindex = 0x00"
definition kReadOnlyIndex_block :: u16 where "kReadOnlyIndex_block = 0x1000"
definition kReadOnlySubindex :: u8 where "kReadOnlySubindex = 0x00"
definition kMaxPayloadSize :: nat where "kMaxPayloadSize = 2048"
definition kStressIterations :: nat where "kStressIterations = 100"
definition kTimeoutProbeMs :: nat where "kTimeoutProbeMs = 500"
definition kTimeoutProbeMarginMs :: nat where "kTimeoutProbeMarginMs = 500"
definition kFnvOffset :: u32 where "kFnvOffset = 2166136261"
definition kFnvPrime :: u32 where "kFnvPrime = 16777619"
definition kPatternSeed :: u32 where "kPatternSeed = 0xB02A5A5A"

text \<open>\<open>SdoErrc::NO_WRITE\<close> and \<open>SdoErrc::ERROR\<close>.\<close>

definition sdoErrc_NO_WRITE :: u32 where "sdoErrc_NO_WRITE = 0x06010002"
definition sdoErrc_ERROR :: u32 where "sdoErrc_ERROR = 0x08000000"

lemmas block_const_defs = kBlockObjectIndex_def kBlockObjectSubindex_def kReadOnlyIndex_block_def
  kReadOnlySubindex_def

section \<open>Payloads\<close>

definition patternByte :: "u32 \<Rightarrow> nat \<Rightarrow> u8" where
  "patternByte seed offset =
     (let seed_byte = ucast (drop_bit ((offset mod 4) * 8) seed) :: u8
      in seed_byte XOR of_nat offset)"

definition makePayload :: "nat \<Rightarrow> u32 \<Rightarrow> u8 list" where
  "makePayload n seed = map (patternByte seed) [0..<n]"

definition checksum :: "u8 list \<Rightarrow> u32" where
  "checksum data = fold (\<lambda>byte value. (value XOR ucast byte) * kFnvPrime) data kFnvOffset"

definition updateChannelState :: "SdoOperationResult \<Rightarrow> bool \<Rightarrow> bool" where
  "updateChannelState result channel_known = (if result = WAIT_TIMEOUT then False else channel_known)"

definition validatePayload :: "u8 list \<Rightarrow> u8 list \<Rightarrow> bool" where
  "validatePayload expected actual =
     (if length actual \<noteq> length expected then False
      else if checksum actual \<noteq> checksum expected then False
      else if actual \<noteq> expected then False
      else True)"

section \<open>Transfers\<close>

definition writeBlock :: "lely \<Rightarrow> u16 \<Rightarrow> u8 \<Rightarrow> u8 list \<Rightarrow> (SdoOperationResult \<times> ecode) host" where
  "writeBlock M index sub payload = writeRemoteBlockSdoFor M CANOPEN_SLAVE_NODE_ID index sub (VOctets payload)
     CANOPEN_SDO_TIMEOUT_MS CANOPEN_SDO_COMPLETION_MARGIN_MS"

definition readBlock :: "lely \<Rightarrow> u8 list \<Rightarrow> (SdoOperationResult \<times> u8 list \<times> ecode) host" where
  "readBlock M v = readRemoteBlockSdoFor tOctets M CANOPEN_SLAVE_NODE_ID kBlockObjectIndex kBlockObjectSubindex v
     CANOPEN_SDO_TIMEOUT_MS CANOPEN_SDO_COMPLETION_MARGIN_MS"

definition runBlockRoundTrip :: "lely \<Rightarrow> nat \<Rightarrow> u32 \<Rightarrow> bool \<Rightarrow> (bool \<times> bool) host" where
  "runBlockRoundTrip M n seed channel_known = do {
     let expected = makePayload n seed;
     (result, e) \<leftarrow> writeBlock M kBlockObjectIndex kBlockObjectSubindex expected;
     let channel_known = updateChannelState result channel_known;
     if result \<noteq> SUCCESS then return (False, channel_known)
     else do {
       (result, actual, e) \<leftarrow> readBlock M [];
       let channel_known = updateChannelState result channel_known;
       if result \<noteq> SUCCESS \<or> \<not> validatePayload expected actual then return (False, channel_known)
       else return (True, channel_known)
     } }"

definition runIllegalAccessCase :: "lely \<Rightarrow> bool \<Rightarrow> (bool \<times> bool) host" where
  "runIllegalAccessCase M channel_known = do {
     let payload = makePayload 32 kPatternSeed;
     (result, error) \<leftarrow> writeBlock M kReadOnlyIndex_block kReadOnlySubindex payload;
     let channel_known = updateChannelState result channel_known;
     if result \<noteq> FAILED \<or> sdo_errc M error \<noteq> sdoErrc_NO_WRITE then return (False, channel_known)
     else runBlockRoundTrip M 32 (kPatternSeed XOR 0x06010002) channel_known }"

definition restorePreOperational :: "lely \<Rightarrow> bool host" where
  "restorePreOperational M = issueNmtCommandAndWaitForState M ENTER_PREOP CANOPEN_SLAVE_NODE_ID nmt_PREOP
     CANOPEN_WAIT_TIMEOUT_MS"

definition stopSlave :: "lely \<Rightarrow> bool host" where
  "stopSlave M = issueNmtCommandAndWaitForState M STOP CANOPEN_SLAVE_NODE_ID nmt_STOP CANOPEN_WAIT_TIMEOUT_MS"

definition runTimeoutRecoveryCase :: "lely \<Rightarrow> bool \<Rightarrow> bool \<Rightarrow> (bool \<times> bool \<times> bool) host" where
  "runTimeoutRecoveryCase M channel_known node_stopped = do {
     stopped \<leftarrow> stopSlave M;
     if \<not> stopped then return (False, channel_known, node_stopped)
     else do {
       (result, ignored, error) \<leftarrow> readRemoteBlockSdoFor tOctets M CANOPEN_SLAVE_NODE_ID kBlockObjectIndex
          kBlockObjectSubindex [] kTimeoutProbeMs kTimeoutProbeMarginMs;
       let channel_known = updateChannelState result channel_known;
       restored \<leftarrow> restorePreOperational M;
       let node_stopped = (if restored then False else True);
       if \<not> restored then return (False, channel_known, node_stopped)
       else if result \<noteq> SDO_TIMEOUT \<or> sdo_errc M error \<noteq> sdoErrc_TIMEOUT
       then return (False, channel_known, node_stopped)
       else do {
         (ok, channel_known) \<leftarrow> runBlockRoundTrip M 32 (kPatternSeed XOR 0x05040000) channel_known;
         return (ok, channel_known, node_stopped)
       } } }"

definition synchronizeSdoServerAfterAbort :: "lely \<Rightarrow> bool \<Rightarrow> bool \<Rightarrow> (bool \<times> bool \<times> bool) host" where
  "synchronizeSdoServerAfterAbort M channel_known node_stopped = do {
     stopped \<leftarrow> stopSlave M;
     if \<not> stopped then return (False, False, node_stopped)
     else do {
       restored \<leftarrow> restorePreOperational M;
       if \<not> restored then return (False, channel_known, True)
       else return (True, channel_known, False)
     } }"

text \<open>\<open>CanopenTestMaster::cancelRemoteSdoRequests\<close>.\<close>

definition cancelRemoteSdoRequests :: "lely \<Rightarrow> u8 \<Rightarrow> u32 \<Rightarrow> bool host" where
  "cancelRemoteSdoRequests M node_id abort_code = cancel_all M node_id abort_code"

definition runClientAbortCase :: "lely \<Rightarrow> bool \<Rightarrow> bool \<Rightarrow> (bool \<times> bool \<times> bool) host" where
  "runClientAbortCase M channel_known node_stopped = do {
     let payload = makePayload kMaxPayloadSize (kPatternSeed XOR 0x08000000);
     submitted \<leftarrow> submit_download M (sdoRequest Block CANOPEN_SLAVE_NODE_ID kBlockObjectIndex kBlockObjectSubindex
                    CANOPEN_SDO_TIMEOUT_MS) (VOctets payload) 0;
     case submitted of
       Rejected submit_error \<Rightarrow> return (False, channel_known, node_stopped)
     | Accepted completion \<Rightarrow> do {
         cancelled \<leftarrow> cancelRemoteSdoRequests M CANOPEN_SLAVE_NODE_ID sdoErrc_ERROR;
         if \<not> cancelled then return (False, False, node_stopped)
         else do {
           await M (ms (CANOPEN_SDO_TIMEOUT_MS + CANOPEN_SDO_COMPLETION_MARGIN_MS)) completion;
           let st = runCompletion writeCompletion completion \<lparr>ws_completed = False, ws_error = NoError\<rparr>;
           if \<not> ws_completed st then return (False, False, node_stopped)
           else if sdo_errc M (ws_error st) \<noteq> sdoErrc_ERROR then return (False, channel_known, node_stopped)
           else do {
             (synchronized, channel_known, node_stopped) \<leftarrow>
               synchronizeSdoServerAfterAbort M channel_known node_stopped;
             if \<not> synchronized then return (False, channel_known, node_stopped)
             else do {
               (ok, channel_known) \<leftarrow> runBlockRoundTrip M kMaxPayloadSize (kPatternSeed XOR 0x08000001) channel_known;
               return (ok, channel_known, node_stopped)
             } } } } }"

definition runExpeditedRegression :: "lely \<Rightarrow> bool \<Rightarrow> (bool \<times> bool) host" where
  "runExpeditedRegression M channel_known = do {
     (ok, channel_known) \<leftarrow> runBlockRoundTrip M 32 (kPatternSeed XOR 0x09) channel_known;
     if \<not> ok then return (False, channel_known)
     else do {
       (result, device_type) \<leftarrow> readRemoteSdo tU32 M CANOPEN_SLAVE_NODE_ID kReadOnlyIndex_block kReadOnlySubindex 0;
       let channel_known = updateChannelState result channel_known;
       if result \<noteq> SUCCESS then return (False, channel_known) else return (True, channel_known)
     } }"

definition runSegmentedRegression :: "lely \<Rightarrow> bool \<Rightarrow> (bool \<times> bool) host" where
  "runSegmentedRegression M channel_known = do {
     let expected = makePayload kMaxPayloadSize (kPatternSeed XOR 0x10);
     (result, e) \<leftarrow> writeBlock M kBlockObjectIndex kBlockObjectSubindex expected;
     let channel_known = updateChannelState result channel_known;
     if result \<noteq> SUCCESS then return (False, channel_known)
     else do {
       (result, actual) \<leftarrow> readRemoteSdo tOctets M CANOPEN_SLAVE_NODE_ID kBlockObjectIndex kBlockObjectSubindex [];
       let channel_known = updateChannelState result channel_known;
       if result \<noteq> SUCCESS \<or> \<not> validatePayload expected actual then return (False, channel_known)
       else return (True, channel_known)
     } }"

definition stressSeed :: "nat \<Rightarrow> u32" where
  "stressSeed iteration = kPatternSeed XOR (0x11000000 + of_nat iteration * 0x01010101)"

text \<open>Round trips in the given order up to the first that fails: the table of functional cases and the
  stress loop.\<close>

fun runRoundTrips :: "lely \<Rightarrow> (nat \<times> u32) list \<Rightarrow> bool \<Rightarrow> (bool \<times> bool) host" where
  "runRoundTrips M [] channel_known = return (True, channel_known)"
| "runRoundTrips M ((n, seed) # rest) channel_known = do {
     (ok, channel_known) \<leftarrow> runBlockRoundTrip M n seed channel_known;
     if \<not> ok then return (False, channel_known) else runRoundTrips M rest channel_known }"

definition runStressCase :: "lely \<Rightarrow> bool \<Rightarrow> (bool \<times> bool) host" where
  "runStressCase M channel_known =
     runRoundTrips M (map (\<lambda>i. (kMaxPayloadSize, stressSeed i)) [0..<kStressIterations]) channel_known"

definition restoreOriginalPayload :: "lely \<Rightarrow> u8 list \<Rightarrow> bool \<Rightarrow> (bool \<times> bool) host" where
  "restoreOriginalPayload M original channel_known = do {
     (result, e) \<leftarrow> writeBlock M kBlockObjectIndex kBlockObjectSubindex original;
     let channel_known = updateChannelState result channel_known;
     if result \<noteq> SUCCESS then return (False, channel_known)
     else do {
       (result, readback, e) \<leftarrow> readBlock M [];
       let channel_known = updateChannelState result channel_known;
       if result \<noteq> SUCCESS \<or> \<not> validatePayload original readback then return (False, channel_known)
       else return (True, channel_known)
     } }"

definition functional_cases :: "(nat \<times> u32) list" where
  "functional_cases = [(32, kPatternSeed XOR 0x01), (900, kPatternSeed XOR 0x02), (1024, kPatternSeed XOR 0x03),
     (1025, kPatternSeed XOR 0x04), (2048, kPatternSeed XOR 0x05)]"

section \<open>The process\<close>

text \<open>The body of the \<open>do ... while (false)\<close>: whether the cases passed, and the two flags.\<close>

definition blockCases :: "lely \<Rightarrow> bool \<Rightarrow> (bool \<times> bool \<times> bool) host" where
  "blockCases M channel_known = do {
     (ok, channel_known) \<leftarrow> runRoundTrips M functional_cases channel_known;
     if \<not> ok then return (False, channel_known, False)
     else do {
       (ok, channel_known) \<leftarrow> runIllegalAccessCase M channel_known;
       if \<not> ok then return (False, channel_known, False)
       else do {
         (ok, channel_known, node_stopped) \<leftarrow> runTimeoutRecoveryCase M channel_known False;
         if \<not> ok then return (False, channel_known, node_stopped)
         else do {
           (ok, channel_known, node_stopped) \<leftarrow> runClientAbortCase M channel_known node_stopped;
           if \<not> ok then return (False, channel_known, node_stopped)
           else do {
             (ok, channel_known) \<leftarrow> runExpeditedRegression M channel_known;
             if \<not> ok then return (False, channel_known, node_stopped)
             else do {
               (ok, channel_known) \<leftarrow> runSegmentedRegression M channel_known;
               if \<not> ok then return (False, channel_known, node_stopped)
               else do {
                 (ok, channel_known) \<leftarrow> runStressCase M channel_known;
                 return (ok, channel_known, node_stopped)
               } } } } } } }"

text \<open>From the end of the cases on: the node is taken out of Stopped, then the payload is put back
  unless the state of the channel or of the node is unknown.\<close>

definition blockCleanup :: "lely \<Rightarrow> u8 list \<Rightarrow> bool \<Rightarrow> bool \<Rightarrow> bool \<Rightarrow> int host" where
  "blockCleanup M original cases_passed channel_known node_stopped = do {
     (cases_passed, node_stopped) \<leftarrow>
       (if node_stopped then do {
          restored \<leftarrow> restorePreOperational M;
          if restored then return (cases_passed, False) else return (False, True)
        } else return (cases_passed, False));
     (cleanup_passed, channel_known) \<leftarrow>
       (if channel_known \<and> \<not> node_stopped then restoreOriginalPayload M original channel_known
        else return (False, channel_known));
     if \<not> cases_passed \<or> \<not> cleanup_passed then return 1 else return 0 }"

definition sdoBlockProcess :: "lely \<Rightarrow> int host" where
  "sdoBlockProcess M = do {
     (result, original, e) \<leftarrow> readBlock M [];
     let channel_known = updateChannelState result True;
     if result \<noteq> SUCCESS \<or> original = [] \<or> length original > kMaxPayloadSize then return 1
     else do {
       (cases_passed, channel_known, node_stopped) \<leftarrow> blockCases M channel_known;
       blockCleanup M original cases_passed channel_known node_stopped
     } }"

section \<open>Payload facts\<close>

lemma validatePayload_iff: "validatePayload expected actual \<longleftrightarrow> actual = expected"
  by (auto simp: validatePayload_def)

lemma length_makePayload [simp]: "length (makePayload n seed) = n"
  by (simp add: makePayload_def)

lemma word_bytes_eqI:
  fixes a b :: u32
  assumes "\<And>i. i < 4 \<Longrightarrow> (ucast (drop_bit (i * 8) a) :: u8) = ucast (drop_bit (i * 8) b)"
  shows "a = b"
proof (rule bit_word_eqI)
  fix n assume "n < LENGTH(32)"
  then have n: "n div 8 < 4" "n mod 8 < 8" "n = n div 8 * 8 + n mod 8" by auto
  have "bit (ucast (drop_bit (n div 8 * 8) a) :: u8) (n mod 8) = bit (ucast (drop_bit (n div 8 * 8) b) :: u8) (n mod 8)"
    using assms [OF n(1)] by simp
  then show "bit a n = bit b n" using n by (simp add: bit_ucast_iff bit_drop_bit_eq)
qed

lemma makePayload_inj:
  assumes "4 \<le> n" and "makePayload n a = makePayload n b"
  shows "a = b"
proof (rule word_bytes_eqI)
  fix i :: nat assume i: "i < 4"
  then have "makePayload n a ! i = makePayload n b ! i" using assms(2) by simp
  then have "patternByte a i = patternByte b i" using i assms(1) by (simp add: makePayload_def)
  then show "(ucast (drop_bit (i * 8) a) :: u8) = ucast (drop_bit (i * 8) b)"
    using i by (simp add: patternByte_def)
qed

section \<open>One transfer\<close>

lemma wpi_writeBlock [wp_intro]:
  assumes "\<And>r e ev w'. hist w' = ev # hist w \<Longrightarrow> sdo_traffic ev \<Longrightarrow>
     mutation_of ev = Some (RemoteWrite CANOPEN_SLAVE_NODE_ID i s (VOctets p)) \<Longrightarrow>
     (unknown_state ev \<longleftrightarrow> r = WAIT_TIMEOUT) \<Longrightarrow>
     (r = SUCCESS \<Longrightarrow> wrote CANOPEN_SLAVE_NODE_ID i s (VOctets p) ev) \<Longrightarrow> Q (r, e) w'"
  shows "wp (writeBlock M i s p) Q w"
proof -
  let ?rq = "sdoRequest Block CANOPEN_SLAVE_NODE_ID i s CANOPEN_SDO_TIMEOUT_MS"
  show ?thesis
    by (cases "down M (hist w) ?rq (VOctets p)" rule: completion_cases)
       (auto simp: writeBlock_def writeRemoteBlockSdoFor_def wp_def run_submit_download classifyWrite_simps
          confirmed_def failed_def intro!: assms)
qed

lemma wpi_readRemoteBlock:
  assumes "\<And>r v e ev w'. hist w' = ev # hist w \<Longrightarrow> sdo_traffic ev \<Longrightarrow> mutation_of ev = None \<Longrightarrow>
     (unknown_state ev \<longleftrightarrow> r = WAIT_TIMEOUT) \<Longrightarrow>
     (r = SUCCESS \<Longrightarrow> saw CANOPEN_SLAVE_NODE_ID i s (VOctets v) ev) \<Longrightarrow> Q (r, v, e) w'"
  shows "wp (readRemoteBlockSdoFor tOctets M CANOPEN_SLAVE_NODE_ID i s v0 t m) Q w"
proof -
  let ?rq = "sdoRequest Block CANOPEN_SLAVE_NODE_ID i s t"
  show ?thesis
    by (cases "t_upload tOctets M (hist w) ?rq" rule: completion_cases)
       (auto simp: readRemoteBlockSdoFor_def wp_def run_submit_upload classifyRead_simps failed_def intro!: assms)
qed

lemma wpi_readBlock [wp_intro]:
  assumes "\<And>r v e ev w'. hist w' = ev # hist w \<Longrightarrow> sdo_traffic ev \<Longrightarrow> mutation_of ev = None \<Longrightarrow>
     (unknown_state ev \<longleftrightarrow> r = WAIT_TIMEOUT) \<Longrightarrow>
     (r = SUCCESS \<Longrightarrow> saw CANOPEN_SLAVE_NODE_ID 0x2304 0 (VOctets v) ev) \<Longrightarrow> Q (r, v, e) w'"
  shows "wp (readBlock M v0) Q w"
  unfolding readBlock_def block_const_defs by (rule wpi_readRemoteBlock) (rule assms)

section \<open>No transaction after a lost completion\<close>

lemma updateChannelState_True [simp]: "updateChannelState r True \<longleftrightarrow> r \<noteq> WAIT_TIMEOUT"
  by (simp add: updateChannelState_def)

lemma runBlockRoundTrip_orderly:
  assumes "orderly_since u w True" and "\<And>ok known w'. orderly_since u w' known \<Longrightarrow> (ok \<Longrightarrow> known) \<Longrightarrow> Q (ok, known) w'"
  shows "wp (runBlockRoundTrip M n seed True) Q w"
  unfolding runBlockRoundTrip_def Let_def
  by (intro wp_intro) (auto intro!: assms(2) wp_intro intro: orderly_traffic [OF assms(1)] orderly_traffic2 [OF assms(1)])

lemma runRoundTrips_orderly:
  assumes "orderly_since u w True" and "\<And>ok known w'. orderly_since u w' known \<Longrightarrow> (ok \<Longrightarrow> known) \<Longrightarrow> Q (ok, known) w'"
  shows "wp (runRoundTrips M cases True) Q w"
  using assms(1)
proof (induction cases arbitrary: w)
  case (Cons c cases)
  obtain n seed where c: "c = (n, seed)" by fastforce
  show ?case
    unfolding c runRoundTrips.simps
    by (intro wpi_bind runBlockRoundTrip_orderly [OF Cons.prems]) (auto intro!: assms(2) wp_intro Cons.IH)
qed (auto intro!: assms(2) wp_intro)

lemma regressions_orderly:
  assumes "orderly_since u w True" and "\<And>ok known w'. orderly_since u w' known \<Longrightarrow> (ok \<Longrightarrow> known) \<Longrightarrow> Q (ok, known) w'"
  shows "wp (runIllegalAccessCase M True) Q w" "wp (runExpeditedRegression M True) Q w"
    "wp (runSegmentedRegression M True) Q w" "wp (runStressCase M True) Q w"
    "wp (restoreOriginalPayload M p True) Q w"
proof -
  show "wp (runIllegalAccessCase M True) Q w"
    unfolding runIllegalAccessCase_def Let_def
    by (intro wp_intro) (auto intro!: assms(2) wp_intro runBlockRoundTrip_orderly elim!: orderly_traffic [OF assms(1)])
  show "wp (runExpeditedRegression M True) Q w"
    unfolding runExpeditedRegression_def Let_def
    by (intro wpi_bind runBlockRoundTrip_orderly [OF assms(1)])
       (auto intro!: assms(2) wpi_if wpi_case_prod wpi_bind wpi_return wpi_upload_state elim!: orderly_traffic)
  show "wp (runSegmentedRegression M True) Q w"
    unfolding runSegmentedRegression_def Let_def
    by (intro wpi_bind wpi_writeBlock wpi_case_prod)
       (auto intro!: assms(2) wpi_if wpi_case_prod wpi_bind wpi_return wpi_upload_state
          intro: orderly_traffic [OF assms(1)] orderly_traffic2 [OF assms(1)])
  show "wp (runStressCase M True) Q w"
    unfolding runStressCase_def by (rule runRoundTrips_orderly [OF assms(1)]) (rule assms(2))
  show "wp (restoreOriginalPayload M p True) Q w"
    unfolding restoreOriginalPayload_def Let_def
    by (intro wp_intro) (auto intro!: assms(2) wp_intro intro: orderly_traffic [OF assms(1)] orderly_traffic2 [OF assms(1)])
qed

lemma readRemoteBlock_orderly:
  assumes "orderly_since u w True" and "\<And>r v e w'. orderly_since u w' (r \<noteq> WAIT_TIMEOUT) \<Longrightarrow> Q (r, v, e) w'"
  shows "wp (readRemoteBlockSdoFor tOctets M CANOPEN_SLAVE_NODE_ID i s v0 t m) Q w"
  by (rule wpi_readRemoteBlock) (auto intro!: assms(2) orderly_traffic [OF assms(1)])

lemma runTimeoutRecoveryCase_orderly:
  assumes "orderly_since u w True"
    and "\<And>ok known stopped w'. orderly_since u w' known \<Longrightarrow> (ok \<Longrightarrow> known) \<Longrightarrow> Q (ok, known, stopped) w'"
  shows "wp (runTimeoutRecoveryCase M True stopped) Q w"
proof -
  have probed: "wp (do { restored \<leftarrow> restorePreOperational M;
       let node_stopped = (if restored then False else True);
       if \<not> restored then return (False, r \<noteq> WAIT_TIMEOUT, node_stopped)
       else if r \<noteq> SDO_TIMEOUT \<or> sdo_errc M e \<noteq> sdoErrc_TIMEOUT then return (False, r \<noteq> WAIT_TIMEOUT, node_stopped)
       else do { (ok, channel_known) \<leftarrow> runBlockRoundTrip M 32 (kPatternSeed XOR 0x05040000) (r \<noteq> WAIT_TIMEOUT);
         return (ok, channel_known, node_stopped) } }) Q v"
    if "orderly_since u v (r \<noteq> WAIT_TIMEOUT)" for r e v
    unfolding restorePreOperational_def Let_def
    by (rule wpi_bind, rule orderly_quiet [OF that nmt_no_traffic(2)])
       (auto intro!: wpi_if wpi_return wpi_bind wpi_case_prod assms(2) runBlockRoundTrip_orderly)
  show ?thesis
    unfolding runTimeoutRecoveryCase_def stopSlave_def Let_def updateChannelState_True
    by (rule wpi_bind, rule orderly_quiet [OF assms(1) nmt_no_traffic(2)])
       (intro wpi_if wpi_return wpi_bind readRemoteBlock_orderly wpi_case_prod;
        use probed in \<open>auto simp: Let_def host_wp intro!: assms(2)\<close>)
qed

lemma synchronize_orderly:
  assumes "orderly_since u w True"
    and "\<And>ok known stopped w'. orderly_since u w' known \<Longrightarrow> (ok \<Longrightarrow> known) \<Longrightarrow> Q (ok, known, stopped) w'"
  shows "wp (synchronizeSdoServerAfterAbort M True stopped) Q w"
  unfolding synchronizeSdoServerAfterAbort_def stopSlave_def restorePreOperational_def
  by (intro wpi_bind orderly_quiet [OF assms(1) nmt_no_traffic(2)] wpi_if wpi_return)
     (auto intro!: assms(2) wpi_if wpi_return orderly_quiet [OF _ nmt_no_traffic(2)] intro: orderly_weaken)

lemma abort_services:
  "emits (\<lambda>e. \<not> sdo_traffic e) (cancelRemoteSdoRequests M n c)" "emits (\<lambda>e. \<not> sdo_traffic e) (await M t x)"
  unfolding cancelRemoteSdoRequests_def by (rule emits_local_services, simp)+

lemma runClientAbortCase_orderly:
  assumes "orderly_since u w True"
    and "\<And>ok known stopped w'. orderly_since u w' known \<Longrightarrow> (ok \<Longrightarrow> known) \<Longrightarrow> Q (ok, known, stopped) w'"
  shows "wp (runClientAbortCase M True stopped) Q w"
  unfolding runClientAbortCase_def Let_def
proof (rule wpi_bind, rule submit_download_orderly [OF assms(1)])
  fix r :: "unit submission" and v
  assume v: "orderly_since u v (r \<noteq> Accepted None)"
  show "wp (case r of Rejected submit_error \<Rightarrow> return (False, True, stopped) | Accepted completion \<Rightarrow> do {
      cancelled \<leftarrow> cancelRemoteSdoRequests M CANOPEN_SLAVE_NODE_ID sdoErrc_ERROR;
      if \<not> cancelled then return (False, False, stopped)
      else do {
        await M (ms (CANOPEN_SDO_TIMEOUT_MS + CANOPEN_SDO_COMPLETION_MARGIN_MS)) completion;
        if \<not> ws_completed (runCompletion writeCompletion completion \<lparr>ws_completed = False, ws_error = NoError\<rparr>)
        then return (False, False, stopped)
        else if sdo_errc M (ws_error (runCompletion writeCompletion completion
             \<lparr>ws_completed = False, ws_error = NoError\<rparr>)) \<noteq> sdoErrc_ERROR then return (False, True, stopped)
        else do {
          (synchronized, channel_known, node_stopped) \<leftarrow> synchronizeSdoServerAfterAbort M True stopped;
          if \<not> synchronized then return (False, channel_known, node_stopped)
          else do {
            (ok, channel_known) \<leftarrow> runBlockRoundTrip M kMaxPayloadSize (kPatternSeed XOR 0x08000001) channel_known;
            return (ok, channel_known, node_stopped) } } } }) Q v"
  proof (cases r rule: completion_cases)
    case (1 e)
    with v show ?thesis by (auto simp: host_wp intro: assms(2))
  next
    case 2
    with v show ?thesis
      by (auto simp: runCompletion_def intro!: wpi_bind wpi_if wpi_return orderly_quiet [OF _ abort_services(1)]
          orderly_quiet [OF _ abort_services(2)] assms(2))
  next
    case (3 e x)
    with v have "orderly_since u v True" by simp
    with 3 show ?thesis
      by (auto simp: runCompletion_def writeCompletion_def intro!: wpi_bind wpi_if wpi_return wpi_case_prod
          orderly_quiet [OF _ abort_services(1)] orderly_quiet [OF _ abort_services(2)] synchronize_orderly
          runBlockRoundTrip_orderly assms(2) intro: orderly_weaken)
  qed
qed

lemma blockCases_orderly:
  assumes "orderly_since u w True"
    and "\<And>ok known stopped w'. orderly_since u w' known \<Longrightarrow> Q (ok, known, stopped) w'"
  shows "wp (blockCases M True) Q w"
  unfolding blockCases_def
  by (intro wpi_bind runRoundTrips_orderly [OF assms(1)])
     (auto intro!: wpi_bind wpi_if wpi_return wpi_case_prod assms(2) regressions_orderly
        runTimeoutRecoveryCase_orderly runClientAbortCase_orderly)

lemma blockCleanup_orderly:
  assumes "orderly_since u w known"
  shows "wp (blockCleanup M original passed known stopped) (\<lambda>r w'. \<exists>known. orderly_since u w' known) w"
  using assms unfolding blockCleanup_def restorePreOperational_def
  by (cases stopped; cases known)
     (auto simp: host_wp intro!: wpi_if wpi_bind wpi_return wpi_case_prod orderly_quiet [OF _ nmt_no_traffic(2)]
        regressions_orderly)

lemma sdoBlockProcess_orderly:
  "wp (sdoBlockProcess M) (\<lambda>r w'. \<exists>es. hist w' = es @ hist w \<and> stops_when_unknown es) w"
proof -
  have "wp (sdoBlockProcess M) (\<lambda>r w'. \<exists>known. orderly_since w w' known) w"
    unfolding sdoBlockProcess_def readBlock_def Let_def
    by (intro wpi_bind readRemoteBlock_orderly [OF orderly_refl] wpi_case_prod)
       (auto intro!: wpi_if wpi_return wpi_bind wpi_case_prod blockCases_orderly blockCleanup_orderly)
  then show ?thesis by (rule wp_mono) (auto simp: orderly_since_def)
qed

section \<open>The payload is put back\<close>

abbreviation block_write :: "u8 list \<Rightarrow> mutation" where
  "block_write p \<equiv> RemoteWrite CANOPEN_SLAVE_NODE_ID 0x2304 0 (VOctets p)"

fun block_objects :: "mutation \<Rightarrow> bool" where
  "block_objects (RemoteWrite node index sub v) \<longleftrightarrow> node = CANOPEN_SLAVE_NODE_ID \<and> sub = 0 \<and>
     (index = 0x2304 \<or> index = 0x1000 \<and> v = VOctets (makePayload 32 kPatternSeed))"
| "block_objects (Nmt cmd node) \<longleftrightarrow> node = CANOPEN_SLAVE_NODE_ID \<and> (cmd = STOP \<or> cmd = ENTER_PREOP)"
| "block_objects (Cancel node code) \<longleftrightarrow> node = CANOPEN_SLAVE_NODE_ID"
| "block_objects _ \<longleftrightarrow> False"

lemma block_transfers_touch [emits_intro]:
  "touches S (readBlock M v)"
  "S (RemoteWrite CANOPEN_SLAVE_NODE_ID i s (VOctets p)) \<Longrightarrow> touches S (writeBlock M i s p)"
  unfolding readBlock_def writeBlock_def by (intro emits_intro; simp)+

lemma block_nmt_touch [emits_intro]:
  "touches block_objects (stopSlave M)" "touches block_objects (restorePreOperational M)"
  "touches block_objects (cancelRemoteSdoRequests M CANOPEN_SLAVE_NODE_ID c)"
  unfolding stopSlave_def restorePreOperational_def cancelRemoteSdoRequests_def by (intro emits_intro; simp)+

lemma runBlockRoundTrip_touches [emits_intro]: "touches block_objects (runBlockRoundTrip M n seed known)"
  unfolding runBlockRoundTrip_def Let_def block_const_defs by (intro emits_intro) simp

lemma runRoundTrips_touches [emits_intro]: "touches block_objects (runRoundTrips M cases known)"
  by (induction M cases known rule: runRoundTrips.induct) (auto intro!: emits_intro)

lemma block_cases_touch [emits_intro]:
  "touches block_objects (runIllegalAccessCase M known)" "touches block_objects (runTimeoutRecoveryCase M known stopped)"
  "touches block_objects (synchronizeSdoServerAfterAbort M known stopped)"
  "touches block_objects (runExpeditedRegression M known)" "touches block_objects (runSegmentedRegression M known)"
  "touches block_objects (runStressCase M known)" "touches block_objects (restoreOriginalPayload M p known)"
  unfolding runIllegalAccessCase_def runTimeoutRecoveryCase_def synchronizeSdoServerAfterAbort_def
    runExpeditedRegression_def runSegmentedRegression_def runStressCase_def restoreOriginalPayload_def Let_def
    block_const_defs
  by (intro emits_intro; simp)+

lemma runClientAbortCase_touches [emits_intro]: "touches block_objects (runClientAbortCase M known stopped)"
  unfolding runClientAbortCase_def Let_def block_const_defs by (intro emits_intro) simp

lemma blockCases_touches [emits_intro]: "touches block_objects (blockCases M known)"
  unfolding blockCases_def by (intro emits_intro)

lemma sdoBlockProcess_touches: "touches block_objects (sdoBlockProcess M)"
  unfolding sdoBlockProcess_def blockCleanup_def Let_def by (intro emits_intro)

text \<open>A run that reports success started by reading the payload and ended by writing it back and
  reading it again.\<close>

definition block_restored :: "world \<Rightarrow> world \<Rightarrow> bool" where
  "block_restored w w' \<longleftrightarrow> (\<exists>original e0 e1 e2 es. hist w' = e2 # e1 # es @ e0 # hist w \<and>
     original \<noteq> [] \<and> length original \<le> 2048 \<and>
     saw CANOPEN_SLAVE_NODE_ID 0x2304 0 (VOctets original) e0 \<and>
     wrote CANOPEN_SLAVE_NODE_ID 0x2304 0 (VOctets original) e1 \<and>
     saw CANOPEN_SLAVE_NODE_ID 0x2304 0 (VOctets original) e2)"

lemma restoreOriginalPayload_verified:
  "wp (restoreOriginalPayload M p known) (\<lambda>(ok, known') w'. ok \<longrightarrow> (\<exists>e1 e2. hist w' = e2 # e1 # hist w \<and>
     wrote CANOPEN_SLAVE_NODE_ID 0x2304 0 (VOctets p) e1 \<and>
     saw CANOPEN_SLAVE_NODE_ID 0x2304 0 (VOctets p) e2)) w"
  unfolding restoreOriginalPayload_def Let_def
  by (intro wp_intro) (auto simp: validatePayload_iff block_const_defs intro!: wp_intro)

lemma blockCleanup_verified:
  "wp (blockCleanup M p passed known stopped) (\<lambda>r w'. r = 1 \<or> r = 0 \<and> (\<exists>x e1 e2. later w x \<and>
     hist w' = e2 # e1 # hist x \<and> wrote CANOPEN_SLAVE_NODE_ID 0x2304 0 (VOctets p) e1 \<and>
     saw CANOPEN_SLAVE_NODE_ID 0x2304 0 (VOctets p) e2)) w"
proof -
  have "wp (if stopped then do { restored \<leftarrow> restorePreOperational M;
       if restored then return (passed, False) else return (False, True) } else return (passed, False))
      (\<lambda>_. later w) w"
    by (rule wp_later [where S = block_objects]) (auto intro!: emits_intro)
  then show ?thesis
    unfolding blockCleanup_def
    by (intro wpi_bind; elim wp_mono)
       (auto intro!: wpi_bind wpi_case_prod wpi_if wpi_return wp_mono [OF restoreOriginalPayload_verified])
qed

lemma block_restoredI:
  assumes "hist u = e0 # hist w" "later u x" "hist w' = e2 # e1 # hist x"
    and "p \<noteq> []" "length p \<le> 2048" "saw CANOPEN_SLAVE_NODE_ID 0x2304 0 (VOctets p) e0"
    and "wrote CANOPEN_SLAVE_NODE_ID 0x2304 0 (VOctets p) e1" "saw CANOPEN_SLAVE_NODE_ID 0x2304 0 (VOctets p) e2"
  shows "block_restored w w'"
  using assms unfolding block_restored_def later_def by auto

lemma sdoBlockProcess_restores:
  "wp (sdoBlockProcess M) (\<lambda>r w'. r = 1 \<or> r = 0 \<and> block_restored w w') w"
  unfolding sdoBlockProcess_def Let_def
  apply (intro wp_intro)
   apply simp
  apply (rule wp_later [OF blockCases_touches])
  apply (rule wpi_case_prod)+
  apply (rule wp_mono [OF blockCleanup_verified])
  apply (auto simp: kMaxPayloadSize_def intro: block_restoredI [OF _ later_trans])
  done

section \<open>The changes of a passing run\<close>

lemma writeBlock_does:
  assumes "does u xs w"
    and "\<And>r e w'. does u (xs @ [RemoteWrite CANOPEN_SLAVE_NODE_ID i s (VOctets p)]) w' \<Longrightarrow> Q (r, e) w'"
  shows "wp (writeBlock M i s p) Q w"
  by (intro wp_intro) (auto intro!: assms(2) intro: does_add [OF assms(1)])

lemma roundTrip_does:
  assumes "does u xs w"
    and "\<And>known w'. does u (xs @ [block_write (makePayload n seed)]) w' \<Longrightarrow> Q (True, known) w'"
    and fails: "\<And>known w'. Q (False, known) w'"
  shows "wp (runBlockRoundTrip M n seed known) Q w"
  unfolding runBlockRoundTrip_def Let_def
  using assms(1)
  by - ((rule wpi_bind wpi_if wpi_case_prod wpi_return fails | (rule writeBlock_does, assumption)
    | (rule wp_does_quiet, assumption, rule block_transfers_touch)
    | (simp add: block_const_defs assms(2); fail))+)

lemma runRoundTrips_does:
  assumes "does u xs w"
    and "\<And>known w'. does u (xs @ map (\<lambda>(n, seed). block_write (makePayload n seed)) cases) w' \<Longrightarrow> Q (True, known) w'"
    and fails: "\<And>known w'. Q (False, known) w'"
  shows "wp (runRoundTrips M cases known) Q w"
  using assms(1,2)
proof (induction cases arbitrary: xs known w)
  case (Cons c cases)
  obtain n seed where c: "c = (n, seed)" by fastforce
  show ?case
    unfolding c runRoundTrips.simps
    apply (rule wpi_bind, rule roundTrip_does [OF Cons.prems(1)])
     apply (simp, rule Cons.IH, assumption)
     apply (rule Cons.prems(2), simp add: c)
    apply (simp add: host_wp fails)
    done
qed (auto intro!: wpi_return)

lemma nmt_block_does:
  "wp (stopSlave M) (\<lambda>ok w'. ok \<longrightarrow> does w [Nmt STOP CANOPEN_SLAVE_NODE_ID] w') w"
  "wp (restorePreOperational M) (\<lambda>ok w'. ok \<longrightarrow> does w [Nmt ENTER_PREOP CANOPEN_SLAVE_NODE_ID] w') w"
  "wp (cancelRemoteSdoRequests M n c) (\<lambda>ok w'. ok \<longrightarrow> does w [Cancel n c] w') w"
  unfolding stopSlave_def restorePreOperational_def cancelRemoteSdoRequests_def
  by (rule issueNmtCommandAndWaitForState_does)+ (intro wp_intro, auto intro: does_short)

lemmas block_does = wp_does [OF _ nmt_block_does(1)] wp_does [OF _ nmt_block_does(2)]
  wp_does [OF _ nmt_block_does(3)]

definition block_changes :: "u8 list \<Rightarrow> mutation list" where
  "block_changes original =
     map (\<lambda>(n, seed). block_write (makePayload n seed)) functional_cases @
     [RemoteWrite CANOPEN_SLAVE_NODE_ID 0x1000 0 (VOctets (makePayload 32 kPatternSeed)),
      block_write (makePayload 32 (kPatternSeed XOR 0x06010002)),
      Nmt STOP CANOPEN_SLAVE_NODE_ID, Nmt ENTER_PREOP CANOPEN_SLAVE_NODE_ID,
      block_write (makePayload 32 (kPatternSeed XOR 0x05040000)),
      block_write (makePayload kMaxPayloadSize (kPatternSeed XOR 0x08000000)),
      Cancel CANOPEN_SLAVE_NODE_ID sdoErrc_ERROR,
      Nmt STOP CANOPEN_SLAVE_NODE_ID, Nmt ENTER_PREOP CANOPEN_SLAVE_NODE_ID,
      block_write (makePayload kMaxPayloadSize (kPatternSeed XOR 0x08000001)),
      block_write (makePayload 32 (kPatternSeed XOR 0x09)),
      block_write (makePayload kMaxPayloadSize (kPatternSeed XOR 0x10))] @
     map (\<lambda>i. block_write (makePayload kMaxPayloadSize (stressSeed i))) [0..<kStressIterations] @
     [block_write original]"


lemma runIllegalAccessCase_does:
  assumes "does u xs w"
    and "\<And>known w'. does u (xs @ [RemoteWrite CANOPEN_SLAVE_NODE_ID 0x1000 0 (VOctets (makePayload 32 kPatternSeed)),
      block_write (makePayload 32 (kPatternSeed XOR 0x06010002))]) w' \<Longrightarrow> Q (True, known) w'"
    and fails: "\<And>known w'. Q (False, known) w'"
  shows "wp (runIllegalAccessCase M known) Q w"
  unfolding runIllegalAccessCase_def Let_def
  using assms(1)
  by - ((rule wpi_bind wpi_if wpi_case_prod wpi_return fails | (rule writeBlock_does, assumption)
    | (rule roundTrip_does, assumption) | (simp add: block_const_defs assms(2); fail))+)

lemma runTimeoutRecoveryCase_does:
  assumes "does u xs w"
    and "\<And>known w'. does u (xs @ [Nmt STOP CANOPEN_SLAVE_NODE_ID, Nmt ENTER_PREOP CANOPEN_SLAVE_NODE_ID,
      block_write (makePayload 32 (kPatternSeed XOR 0x05040000))]) w' \<Longrightarrow> Q (True, known, False) w'"
    and fails: "\<And>known stopped w'. Q (False, known, stopped) w'"
  shows "wp (runTimeoutRecoveryCase M known stopped) Q w"
  unfolding runTimeoutRecoveryCase_def Let_def
  using assms(1)
  by - ((rule wpi_bind wpi_if wpi_case_prod wpi_return fails | (rule block_does, assumption)
    | (rule wp_does_quiet, assumption, rule touches_readRemoteBlockSdoFor)
    | (rule roundTrip_does, assumption) | (simp add: block_const_defs assms(2) fails; fail))+)

lemma synchronize_does:
  assumes "does u xs w"
    and "\<And>known w'. does u (xs @ [Nmt STOP CANOPEN_SLAVE_NODE_ID, Nmt ENTER_PREOP CANOPEN_SLAVE_NODE_ID]) w' \<Longrightarrow>
       Q (True, known, False) w'"
    and fails: "\<And>known stopped w'. Q (False, known, stopped) w'"
  shows "wp (synchronizeSdoServerAfterAbort M known stopped) Q w"
  unfolding synchronizeSdoServerAfterAbort_def Let_def
  using assms(1)
  by - ((rule wpi_bind wpi_if wpi_case_prod wpi_return fails | (rule block_does, assumption)
    | (simp add: assms(2) fails; fail))+)


lemma submit_block_does:
  assumes "does u xs w"
    and "\<And>r w'. does u (xs @ [RemoteWrite (rq_node rq) (rq_index rq) (rq_sub rq) v]) w' \<Longrightarrow> Q r w'"
  shows "wp (submit_download M rq v t) Q w"
  using does_add(1) [OF assms(1)] assms(2) by (simp add: wp_def run_submit_download)

lemma wpi_case_submission:
  "(\<And>e. r = Rejected e \<Longrightarrow> wp (f e) Q w) \<Longrightarrow> (\<And>c. r = Accepted c \<Longrightarrow> wp (g c) Q w) \<Longrightarrow>
     wp (case r of Rejected e \<Rightarrow> f e | Accepted c \<Rightarrow> g c) Q w"
  by (cases r) simp_all

lemma await_does:
  assumes "does u xs w" and "\<And>w'. does u xs w' \<Longrightarrow> Q () w'"
  shows "wp (await M t c) Q w"
  by (rule wp_does_quiet [OF assms(1)], intro emits_intro) (simp add: assms(2))

lemma runClientAbortCase_does:
  assumes "does u xs w"
    and "\<And>known w'. does u (xs @ [block_write (makePayload kMaxPayloadSize (kPatternSeed XOR 0x08000000)),
      Cancel CANOPEN_SLAVE_NODE_ID sdoErrc_ERROR, Nmt STOP CANOPEN_SLAVE_NODE_ID, Nmt ENTER_PREOP CANOPEN_SLAVE_NODE_ID,
      block_write (makePayload kMaxPayloadSize (kPatternSeed XOR 0x08000001))]) w' \<Longrightarrow> Q (True, known, False) w'"
    and fails: "\<And>known stopped w'. Q (False, known, stopped) w'"
  shows "wp (runClientAbortCase M known stopped) Q w"
  unfolding runClientAbortCase_def Let_def
  using assms(1)
  by - (rule wpi_bind, (rule submit_block_does, assumption), simp only: sdoRequest_sel,
    (rule wpi_case_submission wpi_bind wpi_if wpi_case_prod wpi_return fails | (rule block_does, assumption)
    | (rule await_does, assumption) | (rule synchronize_does, assumption)
    | (rule roundTrip_does, assumption) | (simp add: block_const_defs assms(2) fails; fail))+)

lemma regressions_does:
  assumes "does u xs w"
    and fails: "\<And>known w'. Q (False, known) w'"
  shows "(\<And>known w'. does u (xs @ [block_write (makePayload 32 (kPatternSeed XOR 0x09))]) w' \<Longrightarrow> Q (True, known) w') \<Longrightarrow>
      wp (runExpeditedRegression M known) Q w"
    and "(\<And>known w'. does u (xs @ [block_write (makePayload kMaxPayloadSize (kPatternSeed XOR 0x10))]) w' \<Longrightarrow>
      Q (True, known) w') \<Longrightarrow> wp (runSegmentedRegression M known) Q w"
    and "(\<And>known w'. does u (xs @ map (\<lambda>i. block_write (makePayload kMaxPayloadSize (stressSeed i))) [0..<kStressIterations]) w' \<Longrightarrow>
      Q (True, known) w') \<Longrightarrow> wp (runStressCase M known) Q w"
    and "(\<And>known w'. does u (xs @ [block_write p]) w' \<Longrightarrow> Q (True, known) w') \<Longrightarrow>
      wp (restoreOriginalPayload M p known) Q w"
  unfolding runExpeditedRegression_def runSegmentedRegression_def runStressCase_def restoreOriginalPayload_def Let_def
  subgoal premises p
    using assms(1)
    by - ((rule wpi_bind wpi_if wpi_case_prod wpi_return fails | (rule roundTrip_does, assumption)
    | (rule wp_does_quiet, assumption, rule touches_readRemoteSdoFor) | (simp add: block_const_defs p fails; fail))+)
  subgoal premises p
    using assms(1)
    by - ((rule wpi_bind wpi_if wpi_case_prod wpi_return fails | (rule writeBlock_does, assumption)
    | (rule wp_does_quiet, assumption, rule touches_readRemoteSdoFor) | (simp add: block_const_defs p fails; fail))+)
  subgoal premises p
    by (rule runRoundTrips_does [OF assms(1)]) (simp_all add: p fails comp_def)
  subgoal premises p
    using assms(1)
    by - ((rule wpi_bind wpi_if wpi_case_prod wpi_return fails | (rule writeBlock_does, assumption)
    | (rule wp_does_quiet, assumption, rule block_transfers_touch) | (simp add: block_const_defs p fails; fail))+)
  done


lemma blockCases_does:
  assumes "does u xs w"
    and passes: "\<And>known w'. does u (xs @ butlast (block_changes p)) w' \<Longrightarrow> Q (True, known, False) w'"
    and fails: "\<And>known stopped w'. Q (False, known, stopped) w'"
  shows "wp (blockCases M known) Q w"
  unfolding blockCases_def
  using assms(1)
  by - (((rule wpi_bind wpi_return fails | (rule runRoundTrips_does, assumption)
    | (rule runIllegalAccessCase_does, assumption) | (rule runTimeoutRecoveryCase_does, assumption)
    | (rule runClientAbortCase_does, assumption) | (rule regressions_does, assumption)
    | (simp only: prod.case simp_thms if_True if_False)
    | (rule passes, simp add: block_changes_def butlast_append; fail))+))

lemma blockCleanup_does:
  assumes "does u xs w"
  shows "wp (blockCleanup M p True known False) (\<lambda>r w'. r = 1 \<or> r = 0 \<and> does u (xs @ [block_write p]) w') w"
  unfolding blockCleanup_def if_False
  using assms
  by - ((rule wpi_bind wpi_if wpi_case_prod wpi_return | (rule regressions_does, assumption)
    | (simp; fail))+)

lemma blockCleanup_failed: "wp (blockCleanup M p False known stopped) (\<lambda>r w'. r = 1) w"
proof -
  have "wp (if stopped then do { restored \<leftarrow> restorePreOperational M;
       if restored then return (False, False) else return (False, True) } else return (False, False))
      (\<lambda>r _. \<not> fst r) w"
    by (rule wpI) (auto simp: split: prod.splits if_splits)
  then show ?thesis
    unfolding blockCleanup_def
    by (intro wpi_bind; elim wp_mono) (auto intro!: wpi_bind wpI split: prod.splits)
qed

lemma sdoBlockProcess_does:
  "wp (sdoBlockProcess M) (\<lambda>r w'. r = 1 \<or> r = 0 \<and> (\<exists>original. does w (block_changes original) w')) w"
  unfolding sdoBlockProcess_def Let_def
  apply (rule wpi_bind, rule wp_does_quiet [OF does_refl], rule block_transfers_touch)
  apply (rule wpi_case_prod wpi_if wpi_return)+
   apply simp
  apply (rule wpi_bind, rule blockCases_does, assumption)
   apply simp
   apply (rule wp_mono [OF blockCleanup_does], assumption)
   apply (auto simp: block_changes_def butlast_append)[1]
  apply (simp, rule wp_mono [OF blockCleanup_failed], simp)
  done

section \<open>A Stop that was not confirmed\<close>

text \<open>When the Stop of the time-out case was sent but no fresh state arrived in time, the node counts as
  not stopped and the channel as known; the cleanup that follows sends no NMT command and goes straight
  to the payload.  The same situation in \<open>synchronizeSdoServerAfterAbort\<close> makes the channel unknown.\<close>

lemma unconfirmed_stop_forgotten:
  assumes "run_state (stopSlave M) w = (False, w1)"
  shows "run_state (runTimeoutRecoveryCase M True False) w = ((False, True, False), w1)"
    and "run_state (synchronizeSdoServerAfterAbort M True False) w = ((False, False, False), w1)"
    and "touches (\<lambda>x. x = block_write p) (blockCleanup M p False True False)"
  using assms
    apply (simp_all add: runTimeoutRecoveryCase_def synchronizeSdoServerAfterAbort_def)
  unfolding blockCleanup_def restoreOriginalPayload_def Let_def block_const_defs if_False State_Monad.bind_left_identity
  by (intro emits_intro) (simp_all add: emits_intro)

end
