(* ===== verification/Pdo_Process.thy ===== *)
theory Pdo_Process
  imports Sdo_Channel
begin

text \<open>
  RPDO and TPDO validation, \<open>src/pdo_process.cpp\<close>: five event-driven TPDOs of the slave with their period
  and their agreement with the mapping and the dictionary, then one RPDO to the slave's test object and the
  restoration of that object.  The callbacks and what they publish are in \<open>Pdo_Observers\<close>.
\<close>

section \<open>Constants\<close>

definition kTpdoValue1Index :: u16 where "kTpdoValue1Index = 0x2100"
definition kTpdoValue1Subindex :: u8 where "kTpdoValue1Subindex = 0x00"
definition kTpdoValue2Index :: u16 where "kTpdoValue2Index = 0x2101"
definition kTpdoValue2Subindex :: u8 where "kTpdoValue2Subindex = 0x00"
definition kRpdoTestIndex :: u16 where "kRpdoTestIndex = 0x2200"
definition kRpdoTestSubindex :: u8 where "kRpdoTestSubindex = 0x00"
definition kRpdoProbeValue :: u32 where "kRpdoProbeValue = 0xA5A5A5A5"
definition kRpdoAlternateValue :: u32 where "kRpdoAlternateValue = 0x5A5A5A5A"
definition kTpdoPeriodMs :: nat where "kTpdoPeriodMs = 1000"
definition kTpdoToleranceMs :: nat where "kTpdoToleranceMs = 150"
definition kTpdoCollectionTimeoutMs :: nat where
  "kTpdoCollectionTimeoutMs = (kTpdoSampleCount + 2) * kTpdoPeriodMs"
definition kRpdoTransmitTimeoutMs :: nat where "kRpdoTransmitTimeoutMs = 2000"
definition kConsistencyRetryCount :: nat where "kConsistencyRetryCount = 3"
definition kRpdoPayloadLength :: nat where "kRpdoPayloadLength = 4"

lemmas pdo_index_defs = kTpdoValue1Index_def kTpdoValue1Subindex_def kTpdoValue2Index_def
  kTpdoValue2Subindex_def kRpdoTestIndex_def kRpdoTestSubindex_def

definition decodeLe32 :: "u8 list \<Rightarrow> u32" where
  "decodeLe32 data = ucast (data ! 0) OR push_bit 8 (ucast (data ! 1)) OR push_bit 16 (ucast (data ! 2))
     OR push_bit 24 (ucast (data ! 3))"

section \<open>Callbacks and waits\<close>

definition registerPdoCallbacks :: "unit host" where
  "registerPdoCallbacks = update_mem (\<lambda>m. m\<lparr>pdo := (pdo m)\<lparr>pdo_receive := initial_receive,
     pdo_transmit := initial_transmit, on_rpdo := PdoReceive, on_tpdo := True\<rparr>\<rparr>)"

definition clearPdoCallbacks :: "unit host" where
  "clearPdoCallbacks = update_mem (\<lambda>m. m\<lparr>pdo := (pdo m)\<lparr>on_rpdo := NoHandler, on_tpdo := False\<rparr>\<rparr>)"

definition waitForTpdoSamples :: "lely \<Rightarrow> bool host" where
  "waitForTpdoSamples M = do {
     ready \<leftarrow> wait_for M (ms kTpdoCollectionTimeoutMs) (\<lambda>m.
       tr_failed (pdo_receive (pdo m)) \<or> tr_sample_count (pdo_receive (pdo m)) \<ge> kTpdoSampleCount);
     if \<not> ready then return False
     else do {
       receive_failed \<leftarrow> read_mem (\<lambda>m. tr_failed (pdo_receive (pdo m)));
       if receive_failed then return False else return True
     } }"

text \<open>The check of the interval that ends at sample \<open>i\<close>.\<close>

definition sampleIntervalOk :: "TpdoSample list \<Rightarrow> nat \<Rightarrow> bool" where
  "sampleIntervalOk samples i =
     (let minimum_interval_ms = int (kTpdoPeriodMs - kTpdoToleranceMs);
          maximum_interval_ms = int (kTpdoPeriodMs + kTpdoToleranceMs);
          interval_ms = intervalMs (ts_timestamp (samples ! i)) (ts_timestamp (samples ! (i - 1)))
      in \<not> (interval_ms < minimum_interval_ms \<or> interval_ms > maximum_interval_ms))"

definition validateTpdoSamples :: "bool host" where
  "validateTpdoSamples = do {
     samples \<leftarrow> read_mem (\<lambda>m. tr_samples (pdo_receive (pdo m)));
     return (list_all (\<lambda>i. i = 0 \<or> sampleIntervalOk samples i) [0..<length samples]) }"

definition readMappedTpdoValue :: "lely \<Rightarrow> u16 \<Rightarrow> u8 \<Rightarrow> (bool \<times> u32) host" where
  "readMappedTpdoValue M index subindex = do {
     (value, error) \<leftarrow> mapped_read M index subindex;
     if failed error then return (False, value) else return (True, value) }"

definition getLatestTpdoSample :: "(TpdoSample \<times> nat) option host" where
  "getLatestTpdoSample = do {
     st \<leftarrow> read_mem (\<lambda>m. pdo_receive (pdo m));
     if tr_failed st \<or> tr_generation st = 0 then return None
     else return (Some (tr_latest st, tr_generation st)) }"

definition isTpdoGenerationStable :: "nat \<Rightarrow> bool host" where
  "isTpdoGenerationStable generation =
     read_mem (\<lambda>m. \<not> tr_failed (pdo_receive (pdo m)) \<and> tr_generation (pdo_receive (pdo m)) = generation)"

section \<open>TPDO against mapping and dictionary\<close>

text \<open>The loop over the attempts that are left.\<close>

fun verifyAttempts :: "nat \<Rightarrow> lely \<Rightarrow> bool \<Rightarrow> (bool \<times> bool) host" where
  "verifyAttempts 0 M completion_wait_timed_out = return (False, completion_wait_timed_out)"
| "verifyAttempts (Suc attempts) M completion_wait_timed_out = do {
     latest \<leftarrow> getLatestTpdoSample;
     case latest of
       None \<Rightarrow> return (False, completion_wait_timed_out)
     | Some (sample, generation) \<Rightarrow> do {
         let raw_value1 = decodeLe32 (ts_payload sample);
         let raw_value2 = decodeLe32 (drop 4 (ts_payload sample));
         (ok1, mapped_value1) \<leftarrow> readMappedTpdoValue M kTpdoValue1Index kTpdoValue1Subindex;
         if \<not> ok1 then return (False, completion_wait_timed_out)
         else do {
           (ok2, mapped_value2) \<leftarrow> readMappedTpdoValue M kTpdoValue2Index kTpdoValue2Subindex;
           if \<not> ok2 then return (False, completion_wait_timed_out)
           else do {
             stable \<leftarrow> isTpdoGenerationStable generation;
             if \<not> stable then verifyAttempts attempts M completion_wait_timed_out
             else do {
               (read1, sdo_value1) \<leftarrow>
                 readRemoteSdo tU32 M CANOPEN_SLAVE_NODE_ID kTpdoValue1Index kTpdoValue1Subindex 0;
               if read1 = WAIT_TIMEOUT then return (False, True)
               else if read1 \<noteq> SUCCESS then return (False, completion_wait_timed_out)
               else do {
                 (read2, sdo_value2) \<leftarrow>
                   readRemoteSdo tU32 M CANOPEN_SLAVE_NODE_ID kTpdoValue2Index kTpdoValue2Subindex 0;
                 if read2 = WAIT_TIMEOUT then return (False, True)
                 else if read2 \<noteq> SUCCESS then return (False, completion_wait_timed_out)
                 else do {
                   stable \<leftarrow> isTpdoGenerationStable generation;
                   if \<not> stable then verifyAttempts attempts M completion_wait_timed_out
                   else if mapped_value1 \<noteq> raw_value1 \<or> mapped_value2 \<noteq> raw_value2
                   then return (False, completion_wait_timed_out)
                   else if sdo_value1 \<noteq> raw_value1 \<or> sdo_value2 \<noteq> raw_value2
                   then return (False, completion_wait_timed_out)
                   else return (True, completion_wait_timed_out)
                 } } } } } } }"

definition verifyTpdoOdConsistency :: "lely \<Rightarrow> bool \<Rightarrow> (bool \<times> bool) host" where
  "verifyTpdoOdConsistency M completion_wait_timed_out =
     verifyAttempts kConsistencyRetryCount M completion_wait_timed_out"

section \<open>RPDO\<close>

definition sendRpdoValue :: "lely \<Rightarrow> u32 \<Rightarrow> bool host" where
  "sendRpdoValue M value = do {
     update_mem (\<lambda>m. m\<lparr>pdo := (pdo m)\<lparr>pdo_transmit := initial_transmit\<rparr>\<rparr>);
     error \<leftarrow> mapped_write M kRpdoTestIndex kRpdoTestSubindex value;
     if failed error then return False
     else do {
       error \<leftarrow> mapped_event M kRpdoTestIndex kRpdoTestSubindex;
       if failed error then return False
       else do {
         sent \<leftarrow> wait_for M (ms kRpdoTransmitTimeoutMs) (\<lambda>m. rt_completed (pdo_transmit (pdo m)));
         if \<not> sent then return False
         else do {
           st \<leftarrow> read_mem (\<lambda>m. pdo_transmit (pdo m));
           if failed (rt_error st) then return False
           else if rt_pdo_number st \<noteq> kPdoNumber \<or> rt_length st \<noteq> kRpdoPayloadLength then return False
           else if decodeLe32 (rt_payload st) \<noteq> value then return False
           else return True
         } } } }"

definition restoreRpdoTestValue :: "lely \<Rightarrow> u32 \<Rightarrow> bool \<Rightarrow> (bool \<times> bool) host" where
  "restoreRpdoTestValue M original_value completion_wait_timed_out = do {
     write_result \<leftarrow> writeRemoteSdo M CANOPEN_SLAVE_NODE_ID kRpdoTestIndex kRpdoTestSubindex (V32 original_value);
     if write_result = WAIT_TIMEOUT then return (False, True)
     else if write_result = FAILED then return (False, completion_wait_timed_out)
     else do {
       (read_result, restored_value) \<leftarrow>
         readRemoteSdo tU32 M CANOPEN_SLAVE_NODE_ID kRpdoTestIndex kRpdoTestSubindex 0;
       if read_result = WAIT_TIMEOUT then return (False, True)
       else if read_result \<noteq> SUCCESS then return (False, completion_wait_timed_out)
       else if restored_value \<noteq> original_value then return (False, completion_wait_timed_out)
       else return (True, completion_wait_timed_out)
     } }"

section \<open>The process\<close>

text \<open>Steps 1 to 3: result still zero, and the flag of an unknown SDO completion.\<close>

definition observeTpdos :: "lely \<Rightarrow> (bool \<times> bool) host" where
  "observeTpdos M = do {
     master_started \<leftarrow> issueNmtCommand M START CANOPEN_MASTER_NODE_ID;
     if \<not> master_started then return (False, False)
     else do {
       slave_started \<leftarrow> issueNmtCommand M START CANOPEN_SLAVE_NODE_ID;
       if \<not> slave_started then return (False, False)
       else do {
         sampled \<leftarrow> waitForTpdoSamples M;
         if \<not> sampled then return (False, False)
         else do {
           periodic \<leftarrow> validateTpdoSamples;
           if \<not> periodic then return (False, False)
           else verifyTpdoOdConsistency M False
         } } } }"

definition probeValue :: "u32 \<Rightarrow> u32" where
  "probeValue original_value = (if original_value = kRpdoProbeValue then kRpdoAlternateValue else kRpdoProbeValue)"

text \<open>Steps 5 and 6.\<close>

definition probeRpdo :: "lely \<Rightarrow> u32 \<Rightarrow> bool \<Rightarrow> (bool \<times> bool) host" where
  "probeRpdo M probe_value completion_wait_timed_out = do {
     sent \<leftarrow> sendRpdoValue M probe_value;
     if \<not> sent then return (False, completion_wait_timed_out)
     else do {
       (read_result, read_back_value) \<leftarrow>
         readRemoteSdo tU32 M CANOPEN_SLAVE_NODE_ID kRpdoTestIndex kRpdoTestSubindex 0;
       if read_result = WAIT_TIMEOUT then return (False, True)
       else if read_result \<noteq> SUCCESS then return (False, completion_wait_timed_out)
       else if read_back_value \<noteq> probe_value then return (False, completion_wait_timed_out)
       else return (True, completion_wait_timed_out)
     } }"

text \<open>Step 7, entered once the original value is known.\<close>

definition restoreRpdo :: "lely \<Rightarrow> u32 \<Rightarrow> bool \<Rightarrow> bool \<Rightarrow> int host" where
  "restoreRpdo M original_value passed completion_wait_timed_out = do {
     (restored, completion_wait_timed_out) \<leftarrow>
       (if \<not> completion_wait_timed_out then restoreRpdoTestValue M original_value completion_wait_timed_out
        else return (True, completion_wait_timed_out));
     let passed = (passed \<and> restored);
     if completion_wait_timed_out then do {
       sent \<leftarrow> sendRpdoValue M original_value;
       return 1 }
     else return (if passed then 0 else 1) }"

definition runPdoValidation :: "lely \<Rightarrow> int host" where
  "runPdoValidation M = do {
     (passed, completion_wait_timed_out) \<leftarrow> observeTpdos M;
     if \<not> passed then return 1
     else do {
       (read_result, original_value) \<leftarrow>
         readRemoteSdo tU32 M CANOPEN_SLAVE_NODE_ID kRpdoTestIndex kRpdoTestSubindex 0;
       if read_result \<noteq> SUCCESS then return 1
       else do {
         (passed, completion_wait_timed_out) \<leftarrow>
           probeRpdo M (probeValue original_value) completion_wait_timed_out;
         restoreRpdo M original_value passed completion_wait_timed_out
       } } }"

definition pdoProcess :: "lely \<Rightarrow> int host" where
  "pdoProcess M = do {
     registerPdoCallbacks;
     result \<leftarrow> runPdoValidation M;
     clearPdoCallbacks;
     return result }"


section \<open>Footprint\<close>

fun pdo_objects :: "mutation \<Rightarrow> bool" where
  "pdo_objects (Nmt cmd node) \<longleftrightarrow> cmd = START \<and> (node = CANOPEN_MASTER_NODE_ID \<or> node = CANOPEN_SLAVE_NODE_ID)"
| "pdo_objects (MappedWrite index sub v) \<longleftrightarrow> index = 0x2200 \<and> sub = 0"
| "pdo_objects (MappedSend index sub) \<longleftrightarrow> index = 0x2200 \<and> sub = 0"
| "pdo_objects (RemoteWrite node index sub v) \<longleftrightarrow> node = CANOPEN_SLAVE_NODE_ID \<and> index = 0x2200 \<and> sub = 0"
| "pdo_objects _ \<longleftrightarrow> False"

lemma pdo_memory_wf [simp]:
  "memory_wf m \<Longrightarrow> memory_wf (m\<lparr>pdo := (pdo m)\<lparr>pdo_transmit := initial_transmit\<rparr>\<rparr>)"
  "memory_wf m \<Longrightarrow> memory_wf (m\<lparr>pdo := (pdo m)\<lparr>pdo_receive := initial_receive,
     pdo_transmit := initial_transmit, on_rpdo := h, on_tpdo := b\<rparr>\<rparr>)"
  "memory_wf m \<Longrightarrow> memory_wf (m\<lparr>pdo := (pdo m)\<lparr>on_rpdo := h, on_tpdo := b\<rparr>\<rparr>)"
  by (simp_all add: memory_wf_def pdo_wf_def initial_transmit_def)

lemma pdo_reads_touch [emits_intro]:
  "touches S registerPdoCallbacks" "touches S clearPdoCallbacks" "touches S (waitForTpdoSamples M)"
  "touches S validateTpdoSamples" "touches S (readMappedTpdoValue M i s)" "touches S getLatestTpdoSample"
  "touches S (isTpdoGenerationStable g)"
  unfolding registerPdoCallbacks_def clearPdoCallbacks_def waitForTpdoSamples_def validateTpdoSamples_def
    readMappedTpdoValue_def getLatestTpdoSample_def isTpdoGenerationStable_def
  by (intro emits_intro; simp)+

lemma verifyAttempts_touches [emits_intro]: "touches S (verifyAttempts n M t)"
  by (induction n arbitrary: t) (auto simp: Let_def intro!: emits_intro)

lemma pdo_operations_touch [emits_intro]:
  "touches S (verifyTpdoOdConsistency M t)" "touches pdo_objects (observeTpdos M)"
  "touches pdo_objects (sendRpdoValue M v)" "touches pdo_objects (restoreRpdoTestValue M v t)"
  unfolding verifyTpdoOdConsistency_def observeTpdos_def sendRpdoValue_def restoreRpdoTestValue_def pdo_index_defs
  by (intro emits_intro; simp)+

lemma pdoProcess_touches: "touches pdo_objects (pdoProcess M)"
  unfolding pdoProcess_def runPdoValidation_def probeRpdo_def restoreRpdo_def Let_def
  by (intro emits_intro)

section \<open>The changes of every run\<close>

text \<open>The changes a send can make: the value prepared, and then the frame.\<close>

definition sends :: "u32 \<Rightarrow> mutation list \<Rightarrow> bool" where
  "sends v xs \<longleftrightarrow> xs = [MappedWrite 0x2200 0 v] \<or> xs = [MappedWrite 0x2200 0 v, MappedSend 0x2200 0]"

lemma sendRpdoValue_does:
  "wp (sendRpdoValue M v) (\<lambda>ok w'. \<exists>xs. does w xs w' \<and> sends v xs \<and>
     (ok \<longrightarrow> xs = [MappedWrite 0x2200 0 v, MappedSend 0x2200 0])) w"
  unfolding sendRpdoValue_def pdo_index_defs sends_def
  by (intro wp_intro) (auto intro: does_short exI [of _ "[MappedWrite 0x2200 0 v]"])


abbreviation starts :: "mutation list" where
  "starts \<equiv> [Nmt START CANOPEN_MASTER_NODE_ID, Nmt START CANOPEN_SLAVE_NODE_ID]"

abbreviation test_write :: "u32 \<Rightarrow> mutation" where
  "test_write v \<equiv> RemoteWrite CANOPEN_SLAVE_NODE_ID 0x2200 0 (V32 v)"

abbreviation test_saw :: "u32 \<Rightarrow> event \<Rightarrow> bool" where
  "test_saw v \<equiv> saw CANOPEN_SLAVE_NODE_ID 0x2200 0 (V32 v)"

text \<open>The restoration: over SDO, as a frame when the channel is in an unknown state, or the one after
  the other.\<close>

definition puts_back :: "u32 \<Rightarrow> mutation list \<Rightarrow> bool" where
  "puts_back v xs \<longleftrightarrow> xs = [test_write v] \<or> sends v xs \<or> (\<exists>ys. xs = test_write v # ys \<and> sends v ys)"

definition pdo_run :: "int \<Rightarrow> world \<Rightarrow> world \<Rightarrow> bool" where
  "pdo_run r w w' \<longleftrightarrow>
     r = 1 \<and> (does w [Nmt START CANOPEN_MASTER_NODE_ID] w' \<or> does w starts w') \<or>
     (\<exists>u v original e0 ps bs. does w starts u \<and> hist v = e0 # hist u \<and> test_saw original e0 \<and>
        does v (ps @ bs) w' \<and> sends (probeValue original) ps \<and> puts_back original bs \<and>
        (r = 1 \<or> r = 0 \<and> ps = [MappedWrite 0x2200 0 (probeValue original), MappedSend 0x2200 0] \<and>
           bs = [test_write original] \<and> (\<exists>e h. hist w' = e # h \<and> test_saw original e)))"

lemma issueNmtCommand_always:
  "does u xs w \<Longrightarrow> (\<And>ok w'. does u (xs @ [Nmt cmd node]) w' \<Longrightarrow> Q ok w') \<Longrightarrow> wp (issueNmtCommand M cmd node) Q w"
  unfolding issueNmtCommand_def using does_add(1) by (intro wp_intro) fastforce

lemma observeTpdos_does:
  "wp (observeTpdos M) (\<lambda>r w'. does w starts w' \<or> \<not> fst r \<and> does w [Nmt START CANOPEN_MASTER_NODE_ID] w') w"
  unfolding observeTpdos_def
  using does_refl [of w]
  by - ((rule wpi_bind wpi_if wpi_return | (rule issueNmtCommand_always, assumption)
    | (rule wp_does_quiet, assumption, rule pdo_reads_touch pdo_operations_touch) | (simp; fail))+)

lemma probeRpdo_does:
  "wp (probeRpdo M v t) (\<lambda>r w'. \<exists>xs. does w xs w' \<and> sends v xs \<and>
     (fst r \<longrightarrow> xs = [MappedWrite 0x2200 0 v, MappedSend 0x2200 0])) w"
  unfolding probeRpdo_def
  by (intro wpi_bind wp_mono [OF sendRpdoValue_does] wpi_if wpi_return)
     (auto intro!: wpi_bind wpi_case_prod wpi_if wpi_return wp_does_quiet [OF _ touches_readRemoteSdoFor])

lemma restoreRpdoTestValue_does:
  "wp (restoreRpdoTestValue M v t) (\<lambda>r w'. does w [test_write v] w' \<and>
     (fst r \<longrightarrow> \<not> t \<longrightarrow> \<not> snd r \<and> (\<exists>e h. hist w' = e # h \<and> test_saw v e))) w"
  unfolding restoreRpdoTestValue_def pdo_index_defs
  by (intro wpi_bind wpi_case_prod wpi_if wpi_return wpi_writeRemoteSdoFor wpi_saw_upload)
     (auto intro!: wpi_bind wpi_case_prod wpi_if wpi_return wpi_saw_upload intro: does_short)

lemma restoreRpdo_does:
  "wp (restoreRpdo M v ok t) (\<lambda>r w'. \<exists>bs. does w bs w' \<and> puts_back v bs \<and>
     (r = 1 \<or> r = 0 \<and> ok \<and> \<not> t \<and> bs = [test_write v] \<and> (\<exists>e h. hist w' = e # h \<and> test_saw v e))) w"
proof -
  have sends: "wp (sendRpdoValue M v) (\<lambda>_ w'. \<exists>bs. does w bs w' \<and> puts_back v bs) w"
    by (rule wp_mono [OF sendRpdoValue_does]) (auto simp: puts_back_def)
  have later: "wp (sendRpdoValue M v) (\<lambda>_ w'. \<exists>bs. does w bs w' \<and> puts_back v bs) u"
    if "does w [test_write v] u" for u
    using does_trans [OF that] by (intro wp_mono [OF sendRpdoValue_does]) (fastforce simp: puts_back_def)
  show ?thesis
    unfolding restoreRpdo_def Let_def
    by (cases t)
       (auto simp: puts_back_def host_wp intro!: wpi_bind wpi_case_prod wpi_if wpi_return
          wp_mono [OF restoreRpdoTestValue_does] wp_mono [OF sends] wp_mono [OF later])
qed


lemma restoreRpdo_run:
  assumes "does w starts u" "hist v = e0 # hist u" "test_saw original e0" "does v ps x"
    and "sends (probeValue original) ps"
    and "ok \<Longrightarrow> ps = [MappedWrite 0x2200 0 (probeValue original), MappedSend 0x2200 0]"
  shows "wp (restoreRpdo M original ok t) (\<lambda>r w'. pdo_run r w w') x"
proof (rule wp_mono [OF restoreRpdo_does], elim exE conjE)
  fix r :: int and w' bs
  assume "does x bs w'" and bs: "puts_back original bs" "r = 1 \<or> r = 0 \<and> ok \<and> \<not> t \<and>
    bs = [test_write original] \<and> (\<exists>e h. hist w' = e # h \<and> test_saw original e)"
  then have "does v (ps @ bs) w'" using assms(4) does_trans by blast
  with assms bs show "pdo_run r w w'" unfolding pdo_run_def by blast
qed

lemma savedRpdo_run:
  assumes "does w starts u"
  shows "wp (do {
       (read_result, original_value) \<leftarrow>
         readRemoteSdo tU32 M CANOPEN_SLAVE_NODE_ID kRpdoTestIndex kRpdoTestSubindex 0;
       if read_result \<noteq> SUCCESS then return 1
       else do {
         (passed, completion_wait_timed_out) \<leftarrow> probeRpdo M (probeValue original_value) t;
         restoreRpdo M original_value passed completion_wait_timed_out
       } }) (\<lambda>r w'. pdo_run r w w') u"
  unfolding pdo_index_defs
  apply (intro wpi_bind wpi_saw_upload, unfold prod.case, intro wpi_if wpi_return)
  subgoal using does_add(2) [OF assms] by (simp add: pdo_run_def)
  subgoal by (intro wpi_bind wp_mono [OF probeRpdo_does])
    (auto intro!: wpi_case_prod restoreRpdo_run [OF assms])
  done

lemma runPdoValidation_run: "wp (runPdoValidation M) (\<lambda>r w'. pdo_run r w w') w"
  unfolding runPdoValidation_def
  apply (rule wpi_bind, rule wp_mono [OF observeTpdos_does], rule wpi_case_prod, rule wpi_if, rule wpi_return)
  subgoal by (auto simp: pdo_run_def)
  subgoal by (rule savedRpdo_run) auto
  done

lemma pdoProcess_run: "wp (pdoProcess M) (\<lambda>r w'. pdo_run r w w') w"
proof -
  have cong: "pdo_run r a b \<Longrightarrow> hist a = hist a' \<Longrightarrow> hist b = hist b' \<Longrightarrow> pdo_run r a' b'" for r a b a' b'
    unfolding pdo_run_def does_def by simp
  show ?thesis
    unfolding pdoProcess_def registerPdoCallbacks_def clearPdoCallbacks_def
    by (intro wpi_bind wpi_update_mem wp_mono [OF runPdoValidation_run] wpi_return) (auto elim!: cong)
qed


section \<open>No transaction after a lost completion\<close>

lemma pdo_silent [emits_intro]:
  "silent (sendRpdoValue M v)" "silent (waitForTpdoSamples M)" "silent validateTpdoSamples"
  "silent (readMappedTpdoValue M i s)" "silent getLatestTpdoSample" "silent (isTpdoGenerationStable g)"
  unfolding sendRpdoValue_def waitForTpdoSamples_def validateTpdoSamples_def readMappedTpdoValue_def
    getLatestTpdoSample_def isTpdoGenerationStable_def
  by (intro emits_intro; simp)+

lemmas pdo_quiet = orderly_quiet [OF _ pdo_silent(1)] orderly_quiet [OF _ pdo_silent(2)]
  orderly_quiet [OF _ pdo_silent(3)] orderly_quiet [OF _ pdo_silent(4)] orderly_quiet [OF _ pdo_silent(5)]
  orderly_quiet [OF _ pdo_silent(6)] orderly_quiet [OF _ nmt_no_traffic(1)]

lemmas pdo_orderly_intros = wpi_bind wpi_if wpi_case_prod wpi_case_option wpi_return wpi_Let

lemma verifyAttempts_orderly:
  assumes "orderly_since u w True"
    and post: "\<And>ok t w'. orderly_since u w' (\<not> t) \<Longrightarrow> (ok \<Longrightarrow> \<not> t) \<Longrightarrow> Q (ok, t) w'"
  shows "wp (verifyAttempts n M False) Q w"
  using assms(1)
proof (induction n arbitrary: w)
  case (Suc n)
  show ?case
    unfolding verifyAttempts.simps
    using Suc.prems
    by - ((rule pdo_orderly_intros | (rule pdo_quiet, assumption) | (rule Suc.IH, simp; fail)
      | (rule readRemoteSdo_orderly, simp) | (rule post; simp; fail)
      | (intro post; auto intro: orderly_weaken; fail))+)
qed (simp add: host_wp post)


lemma probeRpdo_orderly:
  assumes "orderly_since u w True" and "\<not> lost"
    and post: "\<And>ok t w'. orderly_since u w' (\<not> t) \<Longrightarrow> Q (ok, t) w'"
  shows "wp (probeRpdo M v lost) Q w"
  unfolding probeRpdo_def
  using assms(1,2)
  by - ((rule pdo_orderly_intros | (rule pdo_quiet, assumption) | (rule readRemoteSdo_orderly, simp)
      | (intro post; auto intro: orderly_weaken; fail))+)

lemma restoreRpdo_orderly:
  assumes "orderly_since u w (\<not> t)"
  shows "wp (restoreRpdo M v ok t) (\<lambda>r w'. \<exists>known. orderly_since u w' known) w"
proof -
  have "wp (restoreRpdoTestValue M v False) (\<lambda>r w'. orderly_since u w' (\<not> snd r)) w" if "\<not> t"
    unfolding restoreRpdoTestValue_def
    using assms that
    by - ((rule pdo_orderly_intros | (rule writeRemoteSdo_orderly, simp) | (rule readRemoteSdo_orderly, simp)
      | (auto intro: orderly_weaken; fail))+)
  with assms show ?thesis
    unfolding restoreRpdo_def Let_def
    by (cases t) (auto simp: host_wp elim!: wp_mono intro!: wpi_bind wpi_if wpi_return wpi_case_prod pdo_quiet)
qed

lemma runPdoValidation_orderly:
  assumes "orderly_since u w True"
  shows "wp (runPdoValidation M) (\<lambda>r w'. \<exists>known. orderly_since u w' known) w"
  unfolding runPdoValidation_def observeTpdos_def verifyTpdoOdConsistency_def
  using assms
  apply -
  apply ((rule pdo_orderly_intros | (rule pdo_quiet, assumption) | (rule verifyAttempts_orderly, assumption)
      | (rule readRemoteSdo_orderly, simp) | (rule probeRpdo_orderly, (auto; fail), (auto; fail))
      | (rule restoreRpdo_orderly, simp) | (blast; fail) | (clarsimp; blast; fail))+)
  done

lemma pdoProcess_orderly:
  "wp (pdoProcess M) (\<lambda>r w'. \<exists>es. hist w' = es @ hist w \<and> stops_when_unknown es) w"
proof -
  have cong: "orderly_since a b k \<Longrightarrow> hist a = hist a' \<Longrightarrow> hist b = hist b' \<Longrightarrow> orderly_since a' b' k" for a b k a' b'
    unfolding orderly_since_def by simp
  show ?thesis
    unfolding pdoProcess_def registerPdoCallbacks_def clearPdoCallbacks_def
    by (intro wpi_bind wpi_update_mem wp_mono [OF runPdoValidation_orderly [OF cong [OF orderly_refl]]] wpi_return)
       (auto simp: orderly_since_def)
qed


section \<open>The TPDO that was compared\<close>

abbreviation rx :: "world \<Rightarrow> TpdoReceiveState" where
  "rx w \<equiv> pdo_receive (pdo (mem w))"

text \<open>\<open>receiving u w\<close>: the receive handler is in place throughout, its state stays well-formed, and
  unless a newer TPDO arrived the newest one is the same.\<close>

definition receives :: "pdo_mem \<Rightarrow> pdo_mem \<Rightarrow> bool" where
  "receives p p' \<longleftrightarrow> on_rpdo p = PdoReceive \<and> on_rpdo p' = PdoReceive \<and>
     tr_generation (pdo_receive p) \<le> tr_generation (pdo_receive p') \<and>
     (tr_generation (pdo_receive p) = tr_generation (pdo_receive p') \<longrightarrow>
      tr_latest (pdo_receive p') = tr_latest (pdo_receive p)) \<and>
     (receive_wf (pdo_receive p) \<longrightarrow> receive_wf (pdo_receive p'))"

definition receiving :: "world \<Rightarrow> world \<Rightarrow> bool" where
  "receiving u w \<longleftrightarrow> receives (pdo (mem u)) (pdo (mem w))"

lemma receives_refl: "on_rpdo p = PdoReceive \<Longrightarrow> receives p p"
  by (simp add: receives_def)

lemma receives_trans: "receives a b \<Longrightarrow> receives b c \<Longrightarrow> receives a c"
  unfolding receives_def by (metis le_antisym le_trans)

lemma rpdoCallback_generation:
  "tr_generation st < tr_generation (rpdoCallback num e b l t st) \<or>
   tr_generation (rpdoCallback num e b l t st) = tr_generation st \<and> tr_latest (rpdoCallback num e b l t st) = tr_latest st"
  unfolding rpdoCallback_def Let_def by (simp add: pdo_cell.publish_generation)

lemma receives_steps:
  assumes "on_rpdo p = PdoReceive"
  shows "receives p (pdoReceived num e b l t p)" "receives p (pdoSent num e b l p)"
    "receives p (syncSeen t stop p)" "receives p (syncFault code reg p)"
  using assms rpdoCallback_generation [of "pdo_receive p" num e b l t]
  by (auto simp: receives_def pdoReceived_def pdoSent_def syncSeen_def syncFault_def receive_wf_callback)

lemma pdo_dispatch:
  "pdo (dispatch t c m) = (case c of
     CbRpdo num e b l d \<Rightarrow> pdoReceived num e b l (t + d) (pdo m)
   | CbTpdo num e b l \<Rightarrow> pdoSent num e b l (pdo m)
   | CbSync d stop \<Rightarrow> syncSeen (t + d) stop (pdo m)
   | CbSyncError code reg \<Rightarrow> syncFault code reg (pdo m)
   | _ \<Rightarrow> pdo m)"
  by (cases c) simp_all

lemma receives_dispatch: "on_rpdo (pdo m) = PdoReceive \<Longrightarrow> receives (pdo m) (pdo (dispatch t c m))"
  by (simp add: pdo_dispatch receives_steps receives_refl split: callback.split)

lemma receives_fold:
  assumes "on_rpdo (pdo m) = PdoReceive"
  shows "receives (pdo m) (pdo (fold (dispatch t) cs m))"
proof (induction cs rule: rev_induct)
  case (snoc c cs)
  then have "receives (pdo (fold (dispatch t) cs m)) (pdo (dispatch t c (fold (dispatch t) cs m)))"
    by (intro receives_dispatch) (simp add: receives_def)
  with snoc show ?case by (simp add: receives_trans)
qed (simp add: receives_refl assms)

lemma receiving_refl: "on_rpdo (pdo (mem w)) = PdoReceive \<Longrightarrow> receiving w w"
  by (simp add: receiving_def receives_def)

lemma receiving_trans: "receiving u v \<Longrightarrow> receiving v w \<Longrightarrow> receiving u w"
  unfolding receiving_def by (rule receives_trans)

lemma receiving_ran:
  assumes "receiving u w" and "ran M w w'"
  shows "receiving u w'"
proof -
  obtain t cs where "mem w' = fold (dispatch t) cs (mem w)" using assms(2) by (auto simp: ran_def)
  moreover have "on_rpdo (pdo (mem w)) = PdoReceive" using assms(1) by (simp add: receiving_def receives_def)
  ultimately show ?thesis using assms(1) receives_fold receives_trans by (fastforce simp: receiving_def)
qed

fun mapped_saw :: "u16 \<Rightarrow> u8 \<Rightarrow> u32 \<Rightarrow> event \<Rightarrow> bool" where
  "mapped_saw index sub v (EvMappedRead i s v' e) = (i = index \<and> s = sub \<and> v' = v \<and> \<not> failed e)"
| "mapped_saw index sub v _ = False"

lemma wpi_readMappedTpdoValue:
  assumes "receiving u w"
    and "\<And>ok v e w'. hist w' = e # hist w \<Longrightarrow> receiving u w' \<Longrightarrow> (ok \<Longrightarrow> mapped_saw i s v e) \<Longrightarrow> Q (ok, v) w'"
  shows "wp (readMappedTpdoValue M i s) Q w"
proof -
  have "wp (mapped_read M i s) (\<lambda>(v, e) w'. hist w' = EvMappedRead i s v e # hist w \<and> ran M w w') w"
    by (cases "mapped_value M (hist w) i s")
       (simp add: wp_def run_mapped ran_all [of _ "clock w"] occur_def)
  then show ?thesis
    unfolding readMappedTpdoValue_def
    by (intro wpi_bind; elim wp_mono)
       (auto intro!: wpi_case_prod wpi_if wpi_return assms(2) intro: receiving_ran [OF assms(1)])
qed

lemma wpi_upload_receiving:
  assumes "receiving u w"
    and "\<And>r v e w'. hist w' = e # hist w \<Longrightarrow> receiving u w' \<Longrightarrow>
      (r = SUCCESS \<Longrightarrow> saw n i s (t_value T v) e) \<Longrightarrow> Q (r, v) w'"
  shows "wp (readRemoteSdoFor T M n i s v0 t m) Q w"
proof -
  have "wp (readRemoteSdoFor T M n i s v0 t m) (\<lambda>_ w'. ran M w w') w"
    by (simp add: op_wp Let_def ran_all [of _ "clock w"] occur_def)
  moreover have "wp (readRemoteSdoFor T M n i s v0 t m) (\<lambda>r w'. \<exists>e. hist w' = e # hist w \<and>
      (fst r = SUCCESS \<longrightarrow> saw n i s (t_value T (snd r)) e)) w"
    by (rule wpi_saw_upload) auto
  ultimately have "wp (readRemoteSdoFor T M n i s v0 t m) (\<lambda>r w'. ran M w w' \<and> (\<exists>e. hist w' = e # hist w \<and>
      (fst r = SUCCESS \<longrightarrow> saw n i s (t_value T (snd r)) e))) w"
    by (simp add: wp_conj)
  then show ?thesis
    by (rule wp_mono) (auto intro!: assms(2) receiving_ran [OF assms(1)])
qed

text \<open>No TPDO arrived from \<open>x\<close> to \<open>y\<close>, where the bytes of the newest one, the local mapping and the
  dictionary agree.\<close>

definition consistent :: "world \<Rightarrow> world \<Rightarrow> bool" where
  "consistent x y \<longleftrightarrow> receiving x y \<and> tr_generation (rx x) = tr_generation (rx y) \<and> 0 < tr_generation (rx x) \<and>
     \<not> tr_failed (rx y) \<and>
     (let bytes = ts_payload (tr_latest (rx y)); v1 = decodeLe32 bytes; v2 = decodeLe32 (drop 4 bytes)
      in \<exists>e1 e2 e3 e4. hist y = [e4, e3, e2, e1] @ hist x \<and>
           mapped_saw 0x2100 0 v1 e1 \<and> mapped_saw 0x2101 0 v2 e2 \<and>
           saw CANOPEN_SLAVE_NODE_ID 0x2100 0 (V32 v1) e3 \<and> saw CANOPEN_SLAVE_NODE_ID 0x2101 0 (V32 v2) e4)"

lemma verifyAttempts_consistent:
  assumes "receiving u w" "later u w"
  shows "wp (verifyAttempts n M t) (\<lambda>r y. fst r \<longrightarrow> (\<exists>x. later u x \<and> consistent x y)) w"
  using assms
proof (induction n arbitrary: w)
  case (Suc n)
  have here: "receiving w w" using Suc.prems(1) by (simp add: receiving_def receives_def)
  have again: "wp (verifyAttempts n M t) (\<lambda>r y. fst r \<longrightarrow> (\<exists>x. later u x \<and> consistent x y)) v"
    if "receiving w v" "later w v" for v
    by (rule Suc.IH) (use that Suc.prems in \<open>auto intro: receiving_trans later_trans\<close>)
  show ?case
    unfolding verifyAttempts.simps getLatestTpdoSample_def isTpdoGenerationStable_def Let_def pdo_index_defs
    apply (intro wpi_bind wpi_read_mem wpi_if wpi_return wpi_case_option wpi_case_prod, simp, simp)
    apply (simp, rule wpi_readMappedTpdoValue [OF here], intro wpi_case_prod wpi_if wpi_return wpi_bind, simp)
    apply (rule wpi_readMappedTpdoValue, assumption,
        intro wpi_case_prod wpi_if wpi_return wpi_bind wpi_read_mem, simp)
     apply (rule again, assumption, force simp: later_def)
    apply (rule wpi_upload_receiving, assumption, intro wpi_case_prod wpi_if wpi_return wpi_bind, simp, simp)
    apply (rule wpi_upload_receiving, assumption,
        intro wpi_case_prod wpi_if wpi_return wpi_bind wpi_read_mem, simp, simp)
       apply (rule again, assumption, force simp: later_def)
      apply simp
     apply simp
    subgoal
      using Suc.prems(2) by (auto simp: consistent_def Let_def receiving_def receives_def intro!: exI [of _ w])
    done
qed (simp add: host_wp)


section \<open>What a passing run observed\<close>

definition periodic :: "TpdoReceiveState \<Rightarrow> bool" where
  "periodic st \<longleftrightarrow> \<not> tr_failed st \<and> tr_sample_count st = 5 \<and>
     (\<forall>i < 4. \<bar>intervalMs (ts_timestamp (tr_samples st ! Suc i)) (ts_timestamp (tr_samples st ! i)) - 1000\<bar> \<le> 150)"

lemma validateTpdoSamples_iff:
  assumes "length (tr_samples (rx w)) = 5"
  shows "wp validateTpdoSamples (\<lambda>ok w'. w' = w \<and> (ok \<longleftrightarrow>
     (\<forall>i < 4. \<bar>intervalMs (ts_timestamp (tr_samples (rx w) ! Suc i)) (ts_timestamp (tr_samples (rx w) ! i)) - 1000\<bar> \<le> 150))) w"
proof -
  have "list_all (\<lambda>i. i = 0 \<or> P i) [0..<5] \<longleftrightarrow> (\<forall>i < 4. P (Suc i))" for P :: "nat \<Rightarrow> bool"
    by (auto simp: upt_rec All_less_Suc eval_nat_numeral)
  then show ?thesis
    by (simp add: validateTpdoSamples_def host_wp assms sampleIntervalOk_def Let_def abs_le_iff kTpdoPeriodMs_def
        kTpdoToleranceMs_def) (simp add: algebra_simps not_less conj_commute)
qed

lemma receiving_wf: "receiving u w \<Longrightarrow> receive_wf (rx u) \<Longrightarrow> receive_wf (rx w)"
  by (simp add: receiving_def receives_def)

lemma waitForTpdoSamples_ready:
  assumes "receiving u w" "receive_wf (rx u)" "later u w"
  shows "wp (waitForTpdoSamples M) (\<lambda>ok w'. receiving u w' \<and> later u w' \<and>
     (ok \<longrightarrow> \<not> tr_failed (rx w') \<and> tr_sample_count (rx w') = 5)) w"
proof -
  have count: "tr_sample_count (rx w') \<le> 5" if "ran M w w'" for w'
    using receiving_wf [OF receiving_ran [OF assms(1) that] assms(2)] by (simp add: receive_wf_def kTpdoSampleCount_def)
  show ?thesis
    unfolding waitForTpdoSamples_def
    by (intro wpi_bind wpi_wait_for_mem wpi_if wpi_return wpi_read_mem)
       (use assms(3) in \<open>auto intro: receiving_ran [OF assms(1)] later_back_Cons
          simp: kTpdoSampleCount_def dest: count\<close>)
qed

text \<open>\<open>observed u w\<close>: from \<open>u\<close> to \<open>w\<close> the five samples were taken in period, and later the newest TPDO was
  found equal to the mapping and the dictionary.\<close>

definition observed :: "world \<Rightarrow> world \<Rightarrow> bool" where
  "observed u w \<longleftrightarrow> (\<exists>v x. later u v \<and> periodic (rx v) \<and> later v x \<and> consistent x w)"

lemma issueNmtCommand_receiving:
  assumes "receiving u w" "later u w" and "\<And>ok w'. receiving u w' \<Longrightarrow> later u w' \<Longrightarrow> Q ok w'"
  shows "wp (issueNmtCommand M cmd node) Q w"
  unfolding issueNmtCommand_def
  by (rule wpi_submit_command_mem)
     (use assms in \<open>auto intro: receiving_ran later_back_Cons\<close>)

lemma observeTpdos_observed:
  assumes "receiving w w" "receive_wf (rx w)"
  shows "wp (observeTpdos M) (\<lambda>r w'. fst r \<longrightarrow> observed w w') w"
proof -
  have checked: "wp (do { valid \<leftarrow> validateTpdoSamples;
      if \<not> valid then return (False, False) else verifyTpdoOdConsistency M False }) (\<lambda>r w'. fst r \<longrightarrow> observed w w') v"
    if v: "receiving w v" "later w v" "\<not> tr_failed (rx v)" "tr_sample_count (rx v) = 5" for v
  proof (rule wpi_bind, rule wp_mono [OF validateTpdoSamples_iff])
    show "length (tr_samples (rx v)) = 5"
      using receiving_wf [OF v(1) assms(2)] by (simp add: receive_wf_def kTpdoSampleCount_def)
    fix ok v'
    assume ok: "v' = v \<and> (ok \<longleftrightarrow> (\<forall>i < 4. \<bar>intervalMs (ts_timestamp (tr_samples (rx v) ! Suc i))
      (ts_timestamp (tr_samples (rx v) ! i)) - 1000\<bar> \<le> 150))"
    have here: "receiving v v" using v(1) by (simp add: receiving_def receives_def)
    show "wp (if \<not> ok then return (False, False) else verifyTpdoOdConsistency M False)
        (\<lambda>r w'. fst r \<longrightarrow> observed w w') v'"
      using ok v verifyAttempts_consistent [OF here later_refl, of kConsistencyRetryCount M False]
      by (auto simp: host_wp verifyTpdoOdConsistency_def observed_def periodic_def elim!: wp_mono)
  qed
  show ?thesis
    unfolding observeTpdos_def
    apply (rule wpi_bind, rule issueNmtCommand_receiving [OF assms(1) later_refl], rule wpi_if, rule wpi_return, simp)
    apply (rule wpi_bind, erule (1) issueNmtCommand_receiving, rule wpi_if, rule wpi_return, simp)
    apply (rule wpi_bind, rule wp_mono [OF waitForTpdoSamples_ready [OF _ assms(2)]], assumption+, rule wpi_if, rule wpi_return, simp)
    apply (rule checked; simp)
    done
qed

lemma runPdoValidation_observed:
  assumes "receiving w w" "receive_wf (rx w)"
  shows "wp (runPdoValidation M) (\<lambda>r w'. r = 0 \<longrightarrow> (\<exists>y. observed w y \<and> later y w')) w"
proof -
  have rest: "touches (\<lambda>_. True) (do {
       (read_result, original_value) \<leftarrow>
         readRemoteSdo tU32 M CANOPEN_SLAVE_NODE_ID kRpdoTestIndex kRpdoTestSubindex 0;
       if read_result \<noteq> SUCCESS then return 1
       else do {
         (passed, completion_wait_timed_out) \<leftarrow> probeRpdo M (probeValue original_value) t;
         restoreRpdo M original_value passed completion_wait_timed_out } })" for t
    unfolding probeRpdo_def restoreRpdo_def Let_def
    by (intro emits_intro touches_any [OF pdo_operations_touch(3)] touches_any [OF pdo_operations_touch(4)])
  show ?thesis
    unfolding runPdoValidation_def
    apply (rule wpi_bind, rule wp_mono [OF observeTpdos_observed [OF assms]])
    apply (rule wpi_case_prod, rule wpi_if, rule wpi_return, simp)
    apply (rule wp_later [OF rest], auto)
    done
qed

text \<open>Both accounts of a run of the whole process.\<close>

lemma pdoProcess_observed:
  "wp (pdoProcess M) (\<lambda>r w'. r = 0 \<longrightarrow> (\<exists>u y. hist u = hist w \<and> observed u y \<and> later y w')) w"
proof -
  have reg: "receiving v v" "receive_wf (rx v)" if "mem v = (mem w)\<lparr>pdo := (pdo (mem w))\<lparr>pdo_receive := initial_receive,
     pdo_transmit := initial_transmit, on_rpdo := PdoReceive, on_tpdo := True\<rparr>\<rparr>" for v
    by (simp_all add: that receiving_def receives_def)
  show ?thesis
    unfolding pdoProcess_def registerPdoCallbacks_def clearPdoCallbacks_def
    apply (rule wpi_bind, rule wpi_update_mem, rule wpi_bind, rule wp_mono [OF runPdoValidation_observed], erule reg, erule reg)
    apply (rule wpi_bind, rule wpi_update_mem, rule wpi_return)
    apply (auto simp: later_def)
    done
qed

section \<open>A frame that was sent\<close>

text \<open>The transmission is reported by the stack for the frame of the value, after the send was asked for.\<close>

definition reported_sent :: "callback list \<Rightarrow> u32 \<Rightarrow> bool" where
  "reported_sent cs v \<longleftrightarrow> (\<exists>payload. CbTpdo kPdoNumber NoError payload kRpdoPayloadLength \<in> set cs \<and>
     decodeLe32 (copyPayload payload kRpdoPayloadLength) = v)"

definition sent_ok :: "u32 \<Rightarrow> memory \<Rightarrow> bool" where
  "sent_ok v m \<longleftrightarrow> (let st = pdo_transmit (pdo m) in rt_completed st \<and> rt_error st = NoError \<and>
     rt_pdo_number st = kPdoNumber \<and> rt_length st = kRpdoPayloadLength \<and> decodeLe32 (rt_payload st) = v)"

lemma sent_ok_fold:
  "sent_ok v (fold (dispatch t) cs m) \<Longrightarrow> sent_ok v m \<or> reported_sent cs v"
proof (induction cs rule: rev_induct)
  case (snoc c cs)
  have "sent_ok v (dispatch t c x) \<Longrightarrow> sent_ok v x \<or> reported_sent [c] v" for x
    by (cases c) (auto simp: sent_ok_def reported_sent_def pdoReceived_def pdoSent_def syncSeen_def syncFault_def
        tpdoCallback_def Let_def split: rpdo_handler.splits if_splits)
  with snoc show ?case by (fastforce simp: reported_sent_def)
qed simp


lemma sent_ok_ran: "sent_ok v (mem w') \<Longrightarrow> ran M w w' \<Longrightarrow> sent_ok v (mem w) \<or> reported_sent (callbacks M (hist w)) v"
  unfolding ran_def using sent_ok_fold by (fastforce simp: reported_sent_def)

lemma wpi_mapped_ran:
  "(\<And>e w'. hist w' = EvMappedWrite i s v e # hist w \<Longrightarrow> ran M w w' \<Longrightarrow> Q e w') \<Longrightarrow> wp (mapped_write M i s v) Q w"
  "(\<And>e w'. hist w' = EvMappedEvent i s e # hist w \<Longrightarrow> ran M w w' \<Longrightarrow> Q e w') \<Longrightarrow> wp (mapped_event M i s) Q w"
  by (simp_all add: wp_def run_mapped ran_all [of _ "clock w"] occur_def)

lemma reported_append [simp]: "reported_sent (as @ bs) v \<longleftrightarrow> reported_sent as v \<or> reported_sent bs v"
  by (auto simp: reported_sent_def)

lemma sendRpdoValue_reported:
  "wp (sendRpdoValue M v) (\<lambda>ok w'. ok \<longrightarrow> (\<exists>es. hist w' = es @ hist w \<and>
     es = [EvWait (ms 2000) True, EvMappedEvent 0x2200 0 NoError, EvMappedWrite 0x2200 0 v NoError] \<and>
     reported_sent (delivered M es (hist w)) v)) w"
  unfolding sendRpdoValue_def pdo_index_defs kRpdoTransmitTimeoutMs_def
proof (intro wpi_bind wpi_update_mem wpi_mapped_ran wpi_if wpi_return wpi_wait_for_mem wpi_read_mem)
  fix w0 w1 w2 w3 :: world and e1 e2 ok st
  assume w: "hist w0 = hist w" "mem w0 = (mem w)\<lparr>pdo := (pdo (mem w))\<lparr>pdo_transmit := initial_transmit\<rparr>\<rparr>"
    "hist w1 = EvMappedWrite 0x2200 0 v e1 # hist w0" "ran M w0 w1" "\<not> failed e1"
    "hist w2 = EvMappedEvent 0x2200 0 e2 # hist w1" "ran M w1 w2" "\<not> failed e2"
    "hist w3 = EvWait (ms 2000) ok # hist w2" "ran M w2 w3" "\<not> \<not> ok"
    and st: "ok = rt_completed (pdo_transmit (pdo (mem w3)))" "st = pdo_transmit (pdo (mem w3))" "\<not> failed (rt_error st)"
    "\<not> (rt_pdo_number st \<noteq> kPdoNumber \<or> rt_length st \<noteq> kRpdoPayloadLength)" "\<not> decodeLe32 (rt_payload st) \<noteq> v"
  have "sent_ok v (mem w3)" "\<not> sent_ok v (mem w0)"
    using w(2,11) st by (simp_all add: sent_ok_def failed_def initial_transmit_def)
  then have "reported_sent (callbacks M (hist w0)) v \<or> reported_sent (callbacks M (hist w1)) v \<or>
      reported_sent (callbacks M (hist w2)) v"
    using sent_ok_ran w(4,7,10) by blast
  with w show "True \<longrightarrow> (\<exists>es. hist w3 = es @ hist w \<and>
     es = [EvWait (ms 2000) True, EvMappedEvent 0x2200 0 NoError, EvMappedWrite 0x2200 0 v NoError] \<and>
     reported_sent (delivered M es (hist w)) v)"
    by (auto simp: failed_def)
qed auto

end
