(* ===== verification/Sync_Pdo_Process.thy ===== *)
theory Sync_Pdo_Process
  imports Sdo_Channel
begin

text \<open>
  SYNC consumer and synchronous TPDO validation, \<open>src/sync_pdo_process.cpp\<close>.  The local variables of
  \<open>syncPdoProcess\<close> that its steps share are the record \<open>SyncRun\<close>; each step is a function of it.  What the
  SYNC and TPDO callbacks publish is in \<open>Pdo_Observers\<close>.
\<close>

section \<open>Constants\<close>

definition kSyncCobIdIndex :: u16 where "kSyncCobIdIndex = 0x1005"
definition kSyncPeriodIndex :: u16 where "kSyncPeriodIndex = 0x1006"
definition kSyncCounterOverflowIndex :: u16 where "kSyncCounterOverflowIndex = 0x1019"
definition kTpdoCommIndex :: u16 where "kTpdoCommIndex = 0x1800"
definition kSubindex0_sync :: u8 where "kSubindex0_sync = 0x00"
definition kTpdoCobIdSubindex :: u8 where "kTpdoCobIdSubindex = 0x01"
definition kTpdoTransmissionTypeSubindex :: u8 where "kTpdoTransmissionTypeSubindex = 0x02"
definition kTpdoInhibitTimeSubindex :: u8 where "kTpdoInhibitTimeSubindex = 0x03"
definition kTpdoEventTimerSubindex :: u8 where "kTpdoEventTimerSubindex = 0x05"
definition kTpdoSyncStartSubindex :: u8 where "kTpdoSyncStartSubindex = 0x06"
definition kSyncProducerMask :: u32 where "kSyncProducerMask = 0x40000000"
definition kTpdoInvalidMask :: u32 where "kTpdoInvalidMask = 0x80000000"
definition kSynchronousTransmissionType :: u8 where "kSynchronousTransmissionType = 1"
definition kEventTransmissionTypeMinimum :: u8 where "kEventTransmissionTypeMinimum = 254"
definition kSyncPeriodUs :: u32 where "kSyncPeriodUs = 200000"
definition kSyncPeriodMs :: nat where "kSyncPeriodMs = unat kSyncPeriodUs div 1000"
definition kEventSampleCount :: nat where "kEventSampleCount = 2"
definition kMinimumQuietWindowMs :: nat where "kMinimumQuietWindowMs = 1500"
definition kEventTimerToleranceMs :: nat where "kEventTimerToleranceMs = 150"
definition kEventCollectionMarginMs :: nat where "kEventCollectionMarginMs = 1500"

lemmas sync_index_defs = kSyncCobIdIndex_def kSyncPeriodIndex_def kSyncCounterOverflowIndex_def
  kTpdoCommIndex_def kSubindex0_sync_def kTpdoCobIdSubindex_def kTpdoTransmissionTypeSubindex_def
  kTpdoInhibitTimeSubindex_def kTpdoEventTimerSubindex_def kTpdoSyncStartSubindex_def

section \<open>The communication parameters\<close>

record TpdoCommSnapshot =
  highest_subindex :: u8
  tc_cob_id :: u32
  transmission_type :: u8
  inhibit_time :: u16
  event_timer :: u16
  sync_start :: u8

definition empty_snapshot :: TpdoCommSnapshot where
  "empty_snapshot = \<lparr>highest_subindex = 0, tc_cob_id = 0, transmission_type = 0, inhibit_time = 0,
     event_timer = 0, sync_start = 0\<rparr>"

text \<open>The lambdas \<open>read\<close> and \<open>write\<close>: the flag of an unknown completion is only ever set.\<close>

definition readTpdoField :: "'a sdo_type \<Rightarrow> lely \<Rightarrow> u8 \<Rightarrow> 'a \<Rightarrow> bool \<Rightarrow> (bool \<times> 'a \<times> bool) host" where
  "readTpdoField T M subindex value completion_wait_timed_out = do {
     (result, value') \<leftarrow> readRemoteSdo T M CANOPEN_SLAVE_NODE_ID kTpdoCommIndex subindex value;
     return (result = SUCCESS, value', completion_wait_timed_out \<or> result = WAIT_TIMEOUT) }"

definition writeTpdoField :: "lely \<Rightarrow> u8 \<Rightarrow> sdo_value \<Rightarrow> bool \<Rightarrow> (bool \<times> bool) host" where
  "writeTpdoField M subindex value completion_wait_timed_out = do {
     result \<leftarrow> writeRemoteSdo M CANOPEN_SLAVE_NODE_ID kTpdoCommIndex subindex value;
     return (result = SUCCESS, completion_wait_timed_out \<or> result = WAIT_TIMEOUT) }"

definition readTpdoSnapshot :: "lely \<Rightarrow> TpdoCommSnapshot \<Rightarrow> bool \<Rightarrow> (bool \<times> TpdoCommSnapshot \<times> bool) host" where
  "readTpdoSnapshot M snapshot lost = do {
     (ok, v0, lost) \<leftarrow> readTpdoField tU8 M kSubindex0_sync (highest_subindex snapshot) lost;
     let snapshot = snapshot\<lparr>highest_subindex := v0\<rparr>;
     if \<not> ok then return (False, snapshot, lost)
     else do {
       (ok, v1, lost) \<leftarrow> readTpdoField tU32 M kTpdoCobIdSubindex (tc_cob_id snapshot) lost;
       let snapshot = snapshot\<lparr>tc_cob_id := v1\<rparr>;
       if \<not> ok then return (False, snapshot, lost)
       else do {
         (ok, v2, lost) \<leftarrow> readTpdoField tU8 M kTpdoTransmissionTypeSubindex (transmission_type snapshot) lost;
         let snapshot = snapshot\<lparr>transmission_type := v2\<rparr>;
         if \<not> ok then return (False, snapshot, lost)
         else do {
           (ok, v3, lost) \<leftarrow> readTpdoField tU16 M kTpdoInhibitTimeSubindex (inhibit_time snapshot) lost;
           let snapshot = snapshot\<lparr>inhibit_time := v3\<rparr>;
           if \<not> ok then return (False, snapshot, lost)
           else do {
             (ok, v5, lost) \<leftarrow> readTpdoField tU16 M kTpdoEventTimerSubindex (event_timer snapshot) lost;
             let snapshot = snapshot\<lparr>event_timer := v5\<rparr>;
             if \<not> ok then return (False, snapshot, lost)
             else do {
               (ok, v6, lost) \<leftarrow> readTpdoField tU8 M kTpdoSyncStartSubindex (sync_start snapshot) lost;
               return (ok, snapshot\<lparr>sync_start := v6\<rparr>, lost)
             } } } } } }"

definition compareTpdoSnapshot :: "TpdoCommSnapshot \<Rightarrow> TpdoCommSnapshot \<Rightarrow> bool" where
  "compareTpdoSnapshot expected actual =
     (let mismatch = (\<lambda>e a :: u32. e \<noteq> a)
      in \<not> mismatch (ucast (highest_subindex expected)) (ucast (highest_subindex actual)) \<and>
         \<not> mismatch (tc_cob_id expected) (tc_cob_id actual) \<and>
         \<not> mismatch (ucast (transmission_type expected)) (ucast (transmission_type actual)) \<and>
         \<not> mismatch (ucast (inhibit_time expected)) (ucast (inhibit_time actual)) \<and>
         \<not> mismatch (ucast (event_timer expected)) (ucast (event_timer actual)) \<and>
         \<not> mismatch (ucast (sync_start expected)) (ucast (sync_start actual)))"

definition verifyRestoredTpdoState :: "lely \<Rightarrow> TpdoCommSnapshot \<Rightarrow> u32 \<Rightarrow> bool \<Rightarrow> (bool \<times> bool) host" where
  "verifyRestoredTpdoState M original expected_sync_cob_id lost = do {
     (ok, restored, lost) \<leftarrow> readTpdoSnapshot M empty_snapshot lost;
     if \<not> ok then return (False, lost)
     else if \<not> compareTpdoSnapshot original restored then return (False, lost)
     else do {
       (sync_read_result, restored_sync_cob_id) \<leftarrow>
         readRemoteSdo tU32 M CANOPEN_SLAVE_NODE_ID kSyncCobIdIndex kSubindex0_sync 0;
       if sync_read_result = WAIT_TIMEOUT then return (False, True)
       else if sync_read_result \<noteq> SUCCESS then return (False, lost)
       else if restored_sync_cob_id \<noteq> expected_sync_cob_id then return (False, lost)
       else return (True, lost)
     } }"

definition recoverTpdoStateWithReset ::
    "lely \<Rightarrow> TpdoCommSnapshot \<Rightarrow> u32 \<Rightarrow> bool \<Rightarrow> bool \<Rightarrow> (bool \<times> bool \<times> bool) host" where
  "recoverTpdoStateWithReset M original expected_sync_cob_id lost slave_needs_start = do {
     prepareBootWait;
     issued \<leftarrow> issueNmtCommand M RESET_COMM CANOPEN_SLAVE_NODE_ID;
     if \<not> issued then return (False, lost, slave_needs_start)
     else do {
       booted \<leftarrow> waitForBootCompletion M CANOPEN_WAIT_TIMEOUT_MS;
       if \<not> booted then return (False, lost, True)
       else do {
         preop \<leftarrow> issueNmtCommandAndWaitForState M ENTER_PREOP CANOPEN_SLAVE_NODE_ID nmt_PREOP
                    CANOPEN_WAIT_TIMEOUT_MS;
         if \<not> preop then return (False, lost, True)
         else do {
           (ok, lost) \<leftarrow> verifyRestoredTpdoState M original expected_sync_cob_id False;
           return (ok, lost, True)
         } } } }"

definition writeLocalSyncPeriod :: "lely \<Rightarrow> u32 \<Rightarrow> bool host" where
  "writeLocalSyncPeriod M period_us = do {
     error \<leftarrow> local_write M kSyncPeriodIndex kSubindex0_sync (V32 period_us);
     return (\<not> failed error) }"

text \<open>Disable, change the type, enable.\<close>

definition configureSynchronousTpdo :: "lely \<Rightarrow> u32 \<Rightarrow> bool \<Rightarrow> (bool \<times> bool \<times> bool) host" where
  "configureSynchronousTpdo M original_cob_id lost = do {
     let modification_attempted = True;
     (ok, lost) \<leftarrow> writeTpdoField M kTpdoCobIdSubindex (V32 (original_cob_id OR kTpdoInvalidMask)) lost;
     if \<not> ok then return (False, modification_attempted, lost)
     else do {
       (ok, lost) \<leftarrow> writeTpdoField M kTpdoTransmissionTypeSubindex (V8 kSynchronousTransmissionType) lost;
       if \<not> ok then return (False, modification_attempted, lost)
       else do {
         (ok, lost) \<leftarrow> writeTpdoField M kTpdoCobIdSubindex (V32 original_cob_id) lost;
         if \<not> ok then return (False, modification_attempted, lost)
         else return (True, modification_attempted, lost)
       } } }"

definition restoreTpdoConfiguration :: "lely \<Rightarrow> TpdoCommSnapshot \<Rightarrow> bool \<Rightarrow> (bool \<times> bool) host" where
  "restoreTpdoConfiguration M original lost = do {
     (ok, lost) \<leftarrow> writeTpdoField M kTpdoCobIdSubindex (V32 (tc_cob_id original OR kTpdoInvalidMask)) lost;
     if \<not> ok then return (False, lost)
     else do {
       (ok, lost) \<leftarrow> writeTpdoField M kTpdoTransmissionTypeSubindex (V8 (transmission_type original)) lost;
       if \<not> ok then return (False, lost)
       else do {
         (ok, lost) \<leftarrow> writeTpdoField M kTpdoCobIdSubindex (V32 (tc_cob_id original)) lost;
         if \<not> ok then return (False, lost) else return (True, lost)
       } } }"


section \<open>Topology\<close>

text \<open>The result, what the three out-parameters hold afterwards, and the flag.\<close>

definition validateSyncTopology ::
    "lely \<Rightarrow> u32 \<Rightarrow> u32 \<Rightarrow> bool \<Rightarrow> bool \<Rightarrow> (bool \<times> u32 \<times> u32 \<times> bool \<times> bool) host" where
  "validateSyncTopology M remote_sync_cob_id local_sync_period local_sync_period_saved lost = do {
     (result, remote_sync_cob_id) \<leftarrow>
       readRemoteSdo tU32 M CANOPEN_SLAVE_NODE_ID kSyncCobIdIndex kSubindex0_sync remote_sync_cob_id;
     if result = WAIT_TIMEOUT then return (False, remote_sync_cob_id, local_sync_period, local_sync_period_saved, True)
     else if result \<noteq> SUCCESS
     then return (False, remote_sync_cob_id, local_sync_period, local_sync_period_saved, lost)
     else do {
       (result, remote_sync_overflow) \<leftarrow>
         readRemoteSdo tU8 M CANOPEN_SLAVE_NODE_ID kSyncCounterOverflowIndex kSubindex0_sync 0;
       if result = WAIT_TIMEOUT
       then return (False, remote_sync_cob_id, local_sync_period, local_sync_period_saved, True)
       else if result \<noteq> SUCCESS
       then return (False, remote_sync_cob_id, local_sync_period, local_sync_period_saved, lost)
       else do {
         (local_sync_cob_id, error) \<leftarrow> local_read lU32 M kSyncCobIdIndex kSubindex0_sync;
         if failed error
         then return (False, remote_sync_cob_id, local_sync_period, local_sync_period_saved, lost)
         else do {
           (local_sync_period, error) \<leftarrow> local_read lU32 M kSyncPeriodIndex kSubindex0_sync;
           if failed error
           then return (False, remote_sync_cob_id, local_sync_period, local_sync_period_saved, lost)
           else do {
             (local_sync_overflow, error) \<leftarrow> local_read lU8 M kSyncCounterOverflowIndex kSubindex0_sync;
             let topology_ok =
               (if failed error then False
                else if remote_sync_cob_id AND kSyncProducerMask \<noteq> 0 then False
                else if local_sync_cob_id AND kSyncProducerMask = 0 then False
                else if remote_sync_cob_id AND NOT kSyncProducerMask \<noteq> local_sync_cob_id AND NOT kSyncProducerMask
                then False
                else if remote_sync_overflow \<noteq> local_sync_overflow then False
                else if local_sync_overflow \<noteq> 0 then False
                else True);
             return (topology_ok, remote_sync_cob_id, local_sync_period, True, lost)
           } } } } }"

section \<open>Observation\<close>

abbreviation so :: "memory \<Rightarrow> SyncPdoObservation" where
  "so m \<equiv> pdo_observation (pdo m)"

definition resetObservation :: "unit host" where
  "resetObservation = update_mem (\<lambda>m. m\<lparr>pdo := (pdo m)\<lparr>pdo_observation := clearObservation (so m)\<rparr>\<rparr>)"

text \<open>The observation is new when the callbacks are installed.\<close>

definition registerCallbacks :: "unit host" where
  "registerCallbacks = update_mem (\<lambda>m. m\<lparr>pdo := (pdo m)\<lparr>pdo_observation := initial_observation_sync,
     on_rpdo := SyncReceive, on_sync := True\<rparr>\<rparr>)"

definition clearCallbacks :: "unit host" where
  "clearCallbacks = update_mem (\<lambda>m. m\<lparr>pdo := (pdo m)\<lparr>on_rpdo := NoHandler, on_sync := False\<rparr>\<rparr>)"

definition validateCallbackState :: "bool host" where
  "validateCallbackState = read_mem (\<lambda>m. \<not> so_failed (so m))"

definition verifyQuietWindow :: "lely \<Rightarrow> nat \<Rightarrow> bool host" where
  "verifyQuietWindow M quiet_window_ms = do {
     activity \<leftarrow> wait_for M (ms quiet_window_ms) (\<lambda>m.
       so_failed (so m) \<or> so_sync_count (so m) \<noteq> 0 \<or> so_tpdo_count (so m) \<noteq> 0);
     if activity then do {
       callback_failed \<leftarrow> read_mem (\<lambda>m. so_failed (so m));
       if callback_failed then validateCallbackState else return False }
     else return True }"

definition waitForSynchronousSamples :: "lely \<Rightarrow> bool host" where
  "waitForSynchronousSamples M = do {
     let timeout_ms = (kSyncSampleCount + 2) * kSyncPeriodMs;
     sampled \<leftarrow> wait_for M (ms timeout_ms) (\<lambda>m.
       so_failed (so m) \<or> (so_sync_count (so m) \<ge> kSyncSampleCount \<and> so_tpdo_count (so m) \<ge> kSyncSampleCount));
     if \<not> sampled then return False
     else do {
       callback_failed \<leftarrow> read_mem (\<lambda>m. so_failed (so m));
       if callback_failed then validateCallbackState else return True } }"

text \<open>Pair \<open>i\<close>: not before its SYNC and before the next one, or within a period of the last one.\<close>

definition pairOk :: "nat list \<Rightarrow> nat list \<Rightarrow> nat \<Rightarrow> bool" where
  "pairOk sync_timestamps tpdo_timestamps i =
     (if tpdo_timestamps ! i < sync_timestamps ! i then False
      else let deadline = (if i + 1 < kSyncSampleCount then sync_timestamps ! (i + 1)
                           else sync_timestamps ! i + ms kSyncPeriodMs)
           in if tpdo_timestamps ! i \<ge> deadline then False else True)"

definition validateSynchronousTiming :: "bool host" where
  "validateSynchronousTiming = do {
     st \<leftarrow> read_mem so;
     if so_sync_count st \<noteq> kSyncSampleCount \<or> so_tpdo_count st \<noteq> kSyncSampleCount then return False
     else return (list_all (pairOk (so_sync_timestamps st) (so_tpdo_timestamps st)) [0..<kSyncSampleCount]) }"

definition verifyPostSyncSilence :: "lely \<Rightarrow> bool host" where
  "verifyPostSyncSilence M = do {
     sleep_for M (ms kSyncPeriodMs);
     valid \<leftarrow> validateCallbackState;
     if \<not> valid then return False
     else do {
       st \<leftarrow> read_mem so;
       if so_sync_count st \<noteq> kSyncSampleCount \<or> so_tpdo_count st \<noteq> kSyncSampleCount then return False
       else return True } }"

definition verifyRestoredEventTpdo :: "lely \<Rightarrow> u16 \<Rightarrow> bool host" where
  "verifyRestoredEventTpdo M event_timer_ms = do {
     let timeout_ms = unat event_timer_ms * 2 + kEventCollectionMarginMs;
     sampled \<leftarrow> wait_for M (ms timeout_ms) (\<lambda>m. so_failed (so m) \<or> so_tpdo_count (so m) \<ge> kEventSampleCount);
     if \<not> sampled then return False
     else do {
       st \<leftarrow> read_mem so;
       if so_failed st then validateCallbackState
       else if so_sync_count st \<noteq> 0 then return False
       else do {
         let interval_ms = intervalMs (so_tpdo_timestamps st ! 1) (so_tpdo_timestamps st ! 0);
         let minimum_ms = int (unat event_timer_ms) - int kEventTimerToleranceMs;
         let maximum_ms = int (unat event_timer_ms) + int kEventTimerToleranceMs;
         if interval_ms < minimum_ms \<or> interval_ms > maximum_ms then return False else return True
       } } }"


section \<open>The process\<close>

text \<open>The local variables: \<open>sr_passed\<close> is \<open>result == 0\<close>, \<open>sr_lost\<close> is \<open>completion_wait_timed_out\<close>.\<close>

record SyncRun =
  sr_passed :: bool
  sr_snapshot_saved :: bool
  sr_tpdo_modification_attempted :: bool
  sr_temporary_configuration_completed :: bool
  sr_restoration_verified :: bool
  sr_lost :: bool
  sr_callbacks_registered :: bool
  sr_local_sync_period_saved :: bool
  sr_local_sync_period_touched :: bool
  sr_slave_needs_start :: bool
  sr_remote_sync_cob_id :: u32
  sr_original_local_sync_period :: u32
  sr_original :: TpdoCommSnapshot

definition initial_run :: SyncRun where
  "initial_run = \<lparr>sr_passed = True, sr_snapshot_saved = False, sr_tpdo_modification_attempted = False,
     sr_temporary_configuration_completed = False, sr_restoration_verified = False, sr_lost = False,
     sr_callbacks_registered = False, sr_local_sync_period_saved = False, sr_local_sync_period_touched = False,
     sr_slave_needs_start = False, sr_remote_sync_cob_id = 0, sr_original_local_sync_period = 0,
     sr_original = empty_snapshot\<rparr>"

abbreviation fail :: "SyncRun \<Rightarrow> SyncRun" where
  "fail s \<equiv> s\<lparr>sr_passed := False\<rparr>"

text \<open>\<open>if (result == 0 && !op) result = 1\<close>, and the variant that runs whatever the result.\<close>

definition checkStep :: "bool host \<Rightarrow> SyncRun \<Rightarrow> SyncRun host" where
  "checkStep op s = (if sr_passed s then do { ok \<leftarrow> op; return (if ok then s else fail s) } else return s)"

definition cleanupStep :: "bool \<Rightarrow> bool host \<Rightarrow> SyncRun \<Rightarrow> SyncRun host" where
  "cleanupStep c op s = (if c then do { ok \<leftarrow> op; return (if ok then s else fail s) } else return s)"

text \<open>Steps 1 to 5.\<close>

definition stepTopology :: "lely \<Rightarrow> SyncRun \<Rightarrow> SyncRun host" where
  "stepTopology M s = do {
     (ok, cob_id, period, period_saved, lost) \<leftarrow> validateSyncTopology M (sr_remote_sync_cob_id s)
        (sr_original_local_sync_period s) (sr_local_sync_period_saved s) (sr_lost s);
     let s = s\<lparr>sr_remote_sync_cob_id := cob_id, sr_original_local_sync_period := period,
                sr_local_sync_period_saved := period_saved, sr_lost := lost\<rparr>;
     return (if ok then s else fail s) }"

definition stepPreOperational :: "lely \<Rightarrow> SyncRun \<Rightarrow> SyncRun host" where
  "stepPreOperational M s = (if sr_passed s then do {
       let s = s\<lparr>sr_slave_needs_start := True\<rparr>;
       checkStep (issueNmtCommandAndWaitForState M ENTER_PREOP CANOPEN_SLAVE_NODE_ID nmt_PREOP
         CANOPEN_WAIT_TIMEOUT_MS) s }
     else return s)"

definition stepSnapshot :: "lely \<Rightarrow> SyncRun \<Rightarrow> SyncRun host" where
  "stepSnapshot M s = (if sr_passed s then do {
       (ok, original, lost) \<leftarrow> readTpdoSnapshot M (sr_original s) (sr_lost s);
       let s = s\<lparr>sr_original := original, sr_lost := lost\<rparr>;
       if \<not> ok then return (fail s) else return (s\<lparr>sr_snapshot_saved := True\<rparr>) }
     else return s)"

definition baselineOk :: "TpdoCommSnapshot \<Rightarrow> bool" where
  "baselineOk original =
     (if tc_cob_id original AND kTpdoInvalidMask \<noteq> 0 then False
      else if transmission_type original < kEventTransmissionTypeMinimum then False
      else if event_timer original = 0 then False
      else True)"

text \<open>Steps 6 to 8.\<close>

definition stepStopProducer :: "lely \<Rightarrow> SyncRun \<Rightarrow> SyncRun host" where
  "stepStopProducer M s = (if sr_passed s then do {
       written \<leftarrow> writeLocalSyncPeriod M 0;
       if \<not> written then return (fail s) else return (s\<lparr>sr_local_sync_period_touched := True\<rparr>) }
     else return s)"

definition stepConfigure :: "lely \<Rightarrow> SyncRun \<Rightarrow> SyncRun host" where
  "stepConfigure M s = (if sr_passed s then do {
       (ok, attempted, lost) \<leftarrow> configureSynchronousTpdo M (tc_cob_id (sr_original s)) (sr_lost s);
       let s = s\<lparr>sr_tpdo_modification_attempted := attempted, sr_lost := lost\<rparr>;
       if \<not> ok then return (fail s) else return (s\<lparr>sr_temporary_configuration_completed := True\<rparr>) }
     else return s)"

definition stepReadBack :: "lely \<Rightarrow> SyncRun \<Rightarrow> SyncRun host" where
  "stepReadBack M s = (if sr_passed s then do {
       (read_result, configured_cob_id) \<leftarrow>
         readRemoteSdo tU32 M CANOPEN_SLAVE_NODE_ID kTpdoCommIndex kTpdoCobIdSubindex 0;
       if read_result = WAIT_TIMEOUT then return (fail (s\<lparr>sr_lost := True\<rparr>))
       else if read_result \<noteq> SUCCESS then return (fail s)
       else do {
         (read_result, configured_type) \<leftarrow>
           readRemoteSdo tU8 M CANOPEN_SLAVE_NODE_ID kTpdoCommIndex kTpdoTransmissionTypeSubindex 0;
         if read_result = WAIT_TIMEOUT then return (fail (s\<lparr>sr_lost := True\<rparr>))
         else if read_result \<noteq> SUCCESS then return (fail s)
         else if configured_cob_id \<noteq> tc_cob_id (sr_original s) \<or> configured_type \<noteq> kSynchronousTransmissionType
         then return (fail s)
         else return s } }
     else return s)"

text \<open>Steps 9 to 12.\<close>

definition stepStartSlave :: "lely \<Rightarrow> SyncRun \<Rightarrow> SyncRun host" where
  "stepStartSlave M s = (if sr_passed s then do {
       registerCallbacks;
       let s = s\<lparr>sr_callbacks_registered := True\<rparr>;
       resetObservation;
       started \<leftarrow> issueNmtCommand M START CANOPEN_SLAVE_NODE_ID;
       if \<not> started then return (fail s) else return (s\<lparr>sr_slave_needs_start := False\<rparr>) }
     else return s)"

definition quietWindowMs :: "TpdoCommSnapshot \<Rightarrow> nat" where
  "quietWindowMs original =
     max kMinimumQuietWindowMs (unat (event_timer original) + 2 * kEventTimerToleranceMs)"

definition stepSynchronous :: "lely \<Rightarrow> SyncRun \<Rightarrow> SyncRun host" where
  "stepSynchronous M s = checkStep (do {
       resetObservation;
       andM (writeLocalSyncPeriod M kSyncPeriodUs)
         (andM (waitForSynchronousSamples M) (andM validateSynchronousTiming (verifyPostSyncSilence M))) }) s"

text \<open>Step 13.\<close>

definition normalRestoration :: "lely \<Rightarrow> SyncRun \<Rightarrow> SyncRun host" where
  "normalRestoration M s =
     (if sr_snapshot_saved s \<and> sr_tpdo_modification_attempted s \<and> \<not> sr_lost s then do {
        (ready, s) \<leftarrow>
          (if \<not> sr_slave_needs_start s then do {
             preop \<leftarrow> issueNmtCommandAndWaitForState M ENTER_PREOP CANOPEN_SLAVE_NODE_ID nmt_PREOP
                        CANOPEN_WAIT_TIMEOUT_MS;
             if \<not> preop then return (False, fail s) else return (True, s\<lparr>sr_slave_needs_start := True\<rparr>) }
           else return (True, s));
        (ready, s) \<leftarrow>
          (if ready then do {
             (ok, lost) \<leftarrow> restoreTpdoConfiguration M (sr_original s) (sr_lost s);
             let s = s\<lparr>sr_lost := lost\<rparr>;
             if \<not> ok then return (False, fail s) else return (True, s) }
           else return (False, s));
        if ready \<and> \<not> sr_lost s then do {
          (ok, lost) \<leftarrow> verifyRestoredTpdoState M (sr_original s) (sr_remote_sync_cob_id s) (sr_lost s);
          let s = s\<lparr>sr_lost := lost\<rparr>;
          if \<not> ok then return (fail s) else return (s\<lparr>sr_restoration_verified := True\<rparr>) }
        else return s }
      else return s)"

text \<open>Step 14 and the check of the flag after it.\<close>

definition resetRecovery :: "lely \<Rightarrow> SyncRun \<Rightarrow> SyncRun host" where
  "resetRecovery M s = do {
     s \<leftarrow> (if sr_snapshot_saved s \<and> sr_tpdo_modification_attempted s \<and> \<not> sr_restoration_verified s then do {
            let s = fail s;
            (ok, lost, needs_start) \<leftarrow> recoverTpdoStateWithReset M (sr_original s) (sr_remote_sync_cob_id s)
               (sr_lost s) (sr_slave_needs_start s);
            let s = s\<lparr>sr_lost := lost, sr_slave_needs_start := needs_start\<rparr>;
            return (if ok then s\<lparr>sr_restoration_verified := True\<rparr> else s) }
          else return s);
     return (if sr_lost s then fail s else s) }"

text \<open>Steps 15 to 17 and the check after them.\<close>

definition restartSlave :: "lely \<Rightarrow> SyncRun \<Rightarrow> SyncRun host" where
  "restartSlave M s = do {
     let verify_restored_event = (sr_temporary_configuration_completed s \<and> sr_restoration_verified s \<and>
           sr_callbacks_registered s);
     _ \<leftarrow> (if verify_restored_event then resetObservation else return ());
     let slave_start_is_safe = (\<not> sr_tpdo_modification_attempted s \<or> sr_restoration_verified s);
     s \<leftarrow> (if sr_slave_needs_start s \<and> slave_start_is_safe then do {
              started \<leftarrow> issueNmtCommand M START CANOPEN_SLAVE_NODE_ID;
              return (if \<not> started then fail s else s\<lparr>sr_slave_needs_start := False\<rparr>) }
           else if sr_slave_needs_start s \<and> \<not> slave_start_is_safe then return (fail s)
           else return s);
     s \<leftarrow> cleanupStep (verify_restored_event \<and> \<not> sr_slave_needs_start s)
            (verifyRestoredEventTpdo M (event_timer (sr_original s))) s;
     return (if sr_tpdo_modification_attempted s \<and> \<not> sr_restoration_verified s then fail s else s) }"

text \<open>Steps 18 and 19.\<close>

definition finishSync :: "lely \<Rightarrow> SyncRun \<Rightarrow> int host" where
  "finishSync M s = do {
     _ \<leftarrow> (if sr_callbacks_registered s then clearCallbacks else return ());
     s \<leftarrow> cleanupStep (sr_local_sync_period_touched s \<and> sr_local_sync_period_saved s)
            (writeLocalSyncPeriod M (sr_original_local_sync_period s)) s;
     return (if sr_passed s then 0 else 1) }"

definition syncCleanup :: "lely \<Rightarrow> SyncRun \<Rightarrow> int host" where
  "syncCleanup M s = do {
     s \<leftarrow> cleanupStep (sr_local_sync_period_touched s) (writeLocalSyncPeriod M 0) s;
     s \<leftarrow> normalRestoration M s;
     s \<leftarrow> resetRecovery M s;
     s \<leftarrow> restartSlave M s;
     finishSync M s }"

definition syncStimuli :: "lely \<Rightarrow> SyncRun host" where
  "syncStimuli M = do {
     s \<leftarrow> stepTopology M initial_run;
     s \<leftarrow> checkStep (issueNmtCommand M START CANOPEN_MASTER_NODE_ID) s;
     s \<leftarrow> stepPreOperational M s;
     s \<leftarrow> stepSnapshot M s;
     s \<leftarrow> checkStep (return (baselineOk (sr_original s))) s;
     s \<leftarrow> stepStopProducer M s;
     s \<leftarrow> stepConfigure M s;
     s \<leftarrow> stepReadBack M s;
     s \<leftarrow> stepStartSlave M s;
     s \<leftarrow> checkStep (verifyQuietWindow M (quietWindowMs (sr_original s))) s;
     stepSynchronous M s }"

definition syncPdoProcess :: "lely \<Rightarrow> int host" where
  "syncPdoProcess M = do {
     s \<leftarrow> syncStimuli M;
     syncCleanup M s }"

section \<open>Single operations\<close>

lemma baselineOk_iff: "baselineOk c \<longleftrightarrow> tc_cob_id c AND 0x80000000 = 0 \<and> 254 \<le> transmission_type c \<and> event_timer c \<noteq> 0"
  by (simp add: baselineOk_def kTpdoInvalidMask_def kEventTransmissionTypeMinimum_def linorder_not_less [symmetric])

lemma compareTpdoSnapshot_iff: "compareTpdoSnapshot a b \<longleftrightarrow> a = b"
  by (auto simp: compareTpdoSnapshot_def Let_def TpdoCommSnapshot.equality dest!: arg_cong [where f = unat]
      simp: word_unat_eq_iff)

text \<open>The pairs alternate: every TPDO lies between its SYNC and the next, the last within one period.\<close>

definition alternating :: "nat list \<Rightarrow> nat list \<Rightarrow> bool" where
  "alternating ss ts \<longleftrightarrow> (\<forall>i < 5. ss ! i \<le> ts ! i) \<and> (\<forall>i < 4. ts ! i < ss ! Suc i) \<and> ts ! 4 < ss ! 4 + ms 200"

lemma kSyncPeriodMs_eq [simp]: "kSyncPeriodMs = 200"
  by (simp add: kSyncPeriodMs_def kSyncPeriodUs_def)

lemma validateSynchronousTiming_iff:
  "wp validateSynchronousTiming (\<lambda>ok w'. w' = w \<and> (ok \<longleftrightarrow> so_sync_count (so (mem w)) = 5 \<and>
     so_tpdo_count (so (mem w)) = 5 \<and>
     alternating (so_sync_timestamps (so (mem w))) (so_tpdo_timestamps (so (mem w))))) w"
proof -
  have "list_all (pairOk ss ts) [0..<5] \<longleftrightarrow> alternating ss ts" for ss ts
    by (auto simp: upt_rec pairOk_def Let_def kSyncSampleCount_def alternating_def All_less_Suc eval_nat_numeral not_le not_less)
  then show ?thesis
    by (auto simp: validateSynchronousTiming_def host_wp kSyncSampleCount_def)
qed

lemma wpi_readTpdoField [wp_intro]:
  assumes "\<And>ok v lost' e w'. hist w' = e # hist w \<Longrightarrow> mutation_of e = None \<Longrightarrow>
     (ok \<Longrightarrow> saw CANOPEN_SLAVE_NODE_ID 0x1800 i (t_value T v) e) \<Longrightarrow>
     (lost' \<longleftrightarrow> lost \<or> unknown_state e) \<Longrightarrow> (ok \<Longrightarrow> \<not> unknown_state e) \<Longrightarrow> Q (ok, v, lost') w'"
  shows "wp (readTpdoField T M i v0 lost) Q w"
  unfolding readTpdoField_def kTpdoCommIndex_def
  by (intro wpi_bind wpi_upload_state wpi_case_prod wpi_return) (auto intro!: assms)

lemma wpi_writeTpdoField [wp_intro]:
  assumes "\<And>ok lost' e w'. hist w' = e # hist w \<Longrightarrow>
     mutation_of e = Some (RemoteWrite CANOPEN_SLAVE_NODE_ID 0x1800 i v) \<Longrightarrow>
     (lost' \<longleftrightarrow> lost \<or> unknown_state e) \<Longrightarrow> (ok \<Longrightarrow> \<not> unknown_state e) \<Longrightarrow> Q (ok, lost') w'"
  shows "wp (writeTpdoField M i v lost) Q w"
  unfolding writeTpdoField_def kTpdoCommIndex_def
  by (intro wpi_bind wpi_writeRemoteSdoFor wpi_return)
     (auto intro!: assms simp: outcome_WAIT_TIMEOUT_iff outcome_SUCCESS_iff confirmed_def)

lemma wpi_writeLocalSyncPeriod [wp_intro]:
  assumes "\<And>ok e w'. hist w' = EvLocalWrite 0x1006 0 (V32 p) e # hist w \<Longrightarrow> (ok \<longleftrightarrow> \<not> failed e) \<Longrightarrow> Q ok w'"
  shows "wp (writeLocalSyncPeriod M p) Q w"
  unfolding writeLocalSyncPeriod_def sync_index_defs by (intro wp_intro) (auto intro!: assms)

text \<open>The snapshot as the newest six events show it.\<close>

fun shows_snapshot :: "TpdoCommSnapshot \<Rightarrow> history \<Rightarrow> bool" where
  "shows_snapshot c [e6, e5, e3, e2, e1, e0] \<longleftrightarrow>
     saw CANOPEN_SLAVE_NODE_ID 0x1800 0 (V8 (highest_subindex c)) e0 \<and>
     saw CANOPEN_SLAVE_NODE_ID 0x1800 1 (V32 (tc_cob_id c)) e1 \<and>
     saw CANOPEN_SLAVE_NODE_ID 0x1800 2 (V8 (transmission_type c)) e2 \<and>
     saw CANOPEN_SLAVE_NODE_ID 0x1800 3 (V16 (inhibit_time c)) e3 \<and>
     saw CANOPEN_SLAVE_NODE_ID 0x1800 5 (V16 (event_timer c)) e5 \<and>
     saw CANOPEN_SLAVE_NODE_ID 0x1800 6 (V8 (sync_start c)) e6"
| "shows_snapshot c _ \<longleftrightarrow> False"

lemma readTpdoSnapshot_shows:
  "wp (readTpdoSnapshot M c lost) (\<lambda>r w'. quiet w w' \<and> (fst r \<longrightarrow> (\<exists>es. hist w' = es @ hist w \<and>
     shows_snapshot (fst (snd r)) es) \<and> snd (snd r) = lost)) w"
  unfolding readTpdoSnapshot_def Let_def sync_index_defs
  by (intro wpi_bind wpi_readTpdoField wpi_case_prod wpi_if wpi_return) (auto simp: quiet_def)


section \<open>Footprint\<close>

abbreviation tpdo_write :: "u8 \<Rightarrow> sdo_value \<Rightarrow> mutation" where
  "tpdo_write i v \<equiv> RemoteWrite CANOPEN_SLAVE_NODE_ID 0x1800 i v"

abbreviation period_write :: "u32 \<Rightarrow> mutation" where
  "period_write p \<equiv> LocalWrite 0x1006 0 (V32 p)"

fun sync_objects :: "mutation \<Rightarrow> bool" where
  "sync_objects (Nmt cmd node) \<longleftrightarrow> cmd = START \<and> node = CANOPEN_MASTER_NODE_ID \<or>
     node = CANOPEN_SLAVE_NODE_ID \<and> (cmd = START \<or> cmd = ENTER_PREOP \<or> cmd = RESET_COMM)"
| "sync_objects (LocalWrite index sub v) \<longleftrightarrow> index = 0x1006 \<and> sub = 0"
| "sync_objects (RemoteWrite node index sub v) \<longleftrightarrow> node = CANOPEN_SLAVE_NODE_ID \<and> index = 0x1800 \<and> (sub = 1 \<or> sub = 2)"
| "sync_objects _ \<longleftrightarrow> False"

lemma sync_memory_wf [simp]:
  "memory_wf m \<Longrightarrow> memory_wf (m\<lparr>pdo := (pdo m)\<lparr>pdo_observation := clearObservation (so m)\<rparr>\<rparr>)"
  "memory_wf m \<Longrightarrow> memory_wf (m\<lparr>pdo := (pdo m)\<lparr>pdo_observation := initial_observation_sync,
     on_rpdo := h, on_sync := b\<rparr>\<rparr>)"
  "memory_wf m \<Longrightarrow> memory_wf (m\<lparr>pdo := (pdo m)\<lparr>on_rpdo := h, on_sync := b\<rparr>\<rparr>)"
  by (simp_all add: memory_wf_def pdo_wf_def clearObservation_def observation_wf_def initial_observation_sync_def)

lemma sync_reads_touch [emits_intro]:
  "touches S (readTpdoField T M i v lost)" "touches S (validateSyncTopology M a b c d)" "touches S resetObservation"
  "touches S registerCallbacks" "touches S clearCallbacks" "touches S validateCallbackState"
  "touches S (waitForSynchronousSamples M)" "touches S validateSynchronousTiming"
  unfolding readTpdoField_def validateSyncTopology_def resetObservation_def registerCallbacks_def clearCallbacks_def
    validateCallbackState_def waitForSynchronousSamples_def validateSynchronousTiming_def Let_def
  by (intro emits_intro; simp)+

lemma sync_checks_touch [emits_intro]:
  "touches S (verifyQuietWindow M t)" "touches S (verifyPostSyncSilence M)" "touches S (verifyRestoredEventTpdo M d)"
  "touches S (readTpdoSnapshot M c lost)" "touches S (verifyRestoredTpdoState M c i lost)"
  unfolding verifyQuietWindow_def verifyPostSyncSilence_def verifyRestoredEventTpdo_def readTpdoSnapshot_def
    verifyRestoredTpdoState_def waitForSynchronousSamples_def validateCallbackState_def Let_def
  by (intro emits_intro; simp)+

lemma sync_writes_touch [emits_intro]:
  "S (tpdo_write i v) \<Longrightarrow> touches S (writeTpdoField M i v lost)"
  "S (period_write p) \<Longrightarrow> touches S (writeLocalSyncPeriod M p)"
  unfolding writeTpdoField_def writeLocalSyncPeriod_def sync_index_defs by (intro emits_intro; simp)+

lemma sync_operations_touch [emits_intro]:
  "touches sync_objects (configureSynchronousTpdo M c lost)" "touches sync_objects (restoreTpdoConfiguration M o' lost)"
  "touches sync_objects (recoverTpdoStateWithReset M o' i lost b)"
  unfolding configureSynchronousTpdo_def restoreTpdoConfiguration_def recoverTpdoStateWithReset_def Let_def
    kTpdoCobIdSubindex_def kTpdoTransmissionTypeSubindex_def
  by (intro emits_intro; simp)+

lemma sync_steps_touch [emits_intro]:
  "touches S m \<Longrightarrow> touches S (checkStep m s)" "touches S m \<Longrightarrow> touches S (cleanupStep c m s)"
  unfolding checkStep_def cleanupStep_def by (intro emits_intro; assumption)+

lemma sync_stages_touch [emits_intro]:
  "touches sync_objects (syncStimuli M)" "touches sync_objects (normalRestoration M s)"
  "touches sync_objects (resetRecovery M s)" "touches sync_objects (restartSlave M s)" "touches sync_objects (finishSync M s)"
  unfolding syncStimuli_def stepTopology_def stepPreOperational_def stepSnapshot_def stepStopProducer_def
    stepConfigure_def stepReadBack_def stepStartSlave_def stepSynchronous_def normalRestoration_def
    resetRecovery_def restartSlave_def finishSync_def Let_def
  by (intro emits_intro; simp)+

lemma syncPdoProcess_touches: "touches sync_objects (syncPdoProcess M)"
  unfolding syncPdoProcess_def syncCleanup_def by (intro emits_intro) simp


section \<open>The changes of a passing run\<close>

lemma writeTpdoField_does:
  assumes "does u xs w" and "\<And>ok lost w'. does u (xs @ [tpdo_write i v]) w' \<Longrightarrow> Q (ok, lost) w'"
  shows "wp (writeTpdoField M i v lost) Q w"
  by (rule wpi_writeTpdoField) (auto intro!: assms(2) intro: does_add(1) [OF assms(1)])

lemma writeLocalSyncPeriod_does:
  assumes "does u xs w" and "\<And>ok w'. does u (xs @ [period_write p]) w' \<Longrightarrow> Q ok w'"
  shows "wp (writeLocalSyncPeriod M p) Q w"
  by (rule wpi_writeLocalSyncPeriod) (auto intro!: assms(2) intro: does_add(1) [OF assms(1)])

definition type_changes :: "u32 \<Rightarrow> u8 \<Rightarrow> mutation list" where
  "type_changes cob_id tt = [tpdo_write 1 (V32 (cob_id OR kTpdoInvalidMask)), tpdo_write 2 (V8 tt), tpdo_write 1 (V32 cob_id)]"

lemma configuration_does:
  "wp (configureSynchronousTpdo M c lost) (\<lambda>(ok, attempted, lost') w'. attempted \<and>
     (ok \<longrightarrow> does w (type_changes c 1) w' \<and> lost' = lost)) w"
  "wp (restoreTpdoConfiguration M o' lost) (\<lambda>(ok, lost') w'.
     ok \<longrightarrow> does w (type_changes (tc_cob_id o') (transmission_type o')) w' \<and> lost' = lost) w"
  unfolding configureSynchronousTpdo_def restoreTpdoConfiguration_def Let_def
    kTpdoCobIdSubindex_def kTpdoTransmissionTypeSubindex_def kSynchronousTransmissionType_def type_changes_def
  by (intro wpi_bind wpi_writeTpdoField wpi_case_prod wpi_if wpi_return; auto intro: does_short)+

lemma record_id [simp]: "s\<lparr>sr_lost := sr_lost s\<rparr> = s"
  by simp

lemma validateSyncTopology_shows:
  "wp (validateSyncTopology M i0 p0 saved0 lost) (\<lambda>(ok, i, p, saved, lost') w'. quiet w w' \<and>
     (ok \<longrightarrow> saved \<and> lost' = lost \<and> later w w' \<and> (\<exists>es. hist w' = es @ hist w \<and>
        (\<exists>e \<in> set es. saw CANOPEN_SLAVE_NODE_ID 0x1005 0 (V32 i) e) \<and> (\<exists>e \<in> set es. local_saw 0x1006 0 (V32 p) e)))) w"
  unfolding validateSyncTopology_def Let_def sync_index_defs
  by (intro wpi_bind wpi_upload_state wpi_case_prod wpi_if wpi_return wpi_local_read)
     (auto simp: quiet_def later_def split: if_splits)


text \<open>The form of the account of a step: what holds if the run is still passing after it.\<close>

abbreviation passing :: "SyncRun \<Rightarrow> (SyncRun \<Rightarrow> world \<Rightarrow> bool) \<Rightarrow> SyncRun \<Rightarrow> world \<Rightarrow> bool" where
  "passing s P \<equiv> \<lambda>s' w'. sr_passed s' \<longrightarrow> sr_passed s \<and> P s' w'"

lemma wp_checkStep:
  assumes "wp op (\<lambda>ok w'. ok \<longrightarrow> P s w') w"
  shows "wp (checkStep op s) (passing s P) w"
  using assms unfolding checkStep_def by (auto simp: host_wp elim!: wp_mono)

lemma passing_if: "wp m (passing s P) w \<Longrightarrow> wp (if sr_passed s then m else return s) (passing s P) w"
  by (auto simp: host_wp elim!: wp_mono)

lemma stepTopology_passing:
  "wp (stepTopology M s) (passing s (\<lambda>s' w'. does w [] w' \<and>
     (\<exists>i p es. s' = s\<lparr>sr_remote_sync_cob_id := i, sr_original_local_sync_period := p, sr_local_sync_period_saved := True\<rparr> \<and>
        hist w' = es @ hist w \<and> (\<exists>e \<in> set es. local_saw 0x1006 0 (V32 p) e)))) w"
  unfolding stepTopology_def Let_def
proof (rule wpi_bind, rule wp_mono [OF validateSyncTopology_shows], clarify, rule wpi_return, clarify, intro conjI)
  fix ok i p period_saved lost u
  let ?s = "s\<lparr>sr_remote_sync_cob_id := i, sr_original_local_sync_period := p,
                sr_local_sync_period_saved := period_saved, sr_lost := lost\<rparr>"
  assume "quiet w u" and passed: "sr_passed (if ok then ?s else fail ?s)"
    and seen: "ok \<longrightarrow> period_saved \<and> lost = sr_lost s \<and> later w u \<and> (\<exists>es. hist u = es @ hist w \<and>
      (\<exists>e \<in> set es. saw CANOPEN_SLAVE_NODE_ID 0x1005 0 (V32 i) e) \<and> (\<exists>e \<in> set es. local_saw 0x1006 0 (V32 p) e))"
  then show "does w [] u" by (simp add: does_quiet)
  have ok: ok using passed by (cases ok) auto
  with passed show "sr_passed s" by simp
  have "?s = s\<lparr>sr_remote_sync_cob_id := i, sr_original_local_sync_period := p, sr_local_sync_period_saved := True\<rparr>"
    using ok seen by (cases s) simp
  with ok seen show "\<exists>i p es. (if ok then ?s else fail ?s) =
      s\<lparr>sr_remote_sync_cob_id := i, sr_original_local_sync_period := p, sr_local_sync_period_saved := True\<rparr> \<and>
      hist u = es @ hist w \<and> (\<exists>e \<in> set es. local_saw 0x1006 0 (V32 p) e)" by auto
qed

lemma stepPreOperational_passing:
  "wp (stepPreOperational M s) (passing s (\<lambda>s' w'. does w [Nmt ENTER_PREOP CANOPEN_SLAVE_NODE_ID] w' \<and>
     s' = s\<lparr>sr_slave_needs_start := True\<rparr>)) w"
  unfolding stepPreOperational_def Let_def
  by (rule passing_if, rule wp_mono [OF wp_checkStep [where P = "\<lambda>s' w'. does w [Nmt ENTER_PREOP CANOPEN_SLAVE_NODE_ID] w' \<and>
       s' = s\<lparr>sr_slave_needs_start := True\<rparr>"]])
     (auto intro: wp_mono [OF issueNmtCommandAndWaitForState_does])

lemma stepSnapshot_passing:
  "wp (stepSnapshot M s) (passing s (\<lambda>s' w'. does w [] w' \<and> (\<exists>c es. s' = s\<lparr>sr_original := c, sr_snapshot_saved := True\<rparr> \<and>
     hist w' = es @ hist w \<and> shows_snapshot c es))) w"
  unfolding stepSnapshot_def Let_def
  by (intro passing_if wpi_bind wp_mono [OF readTpdoSnapshot_shows] wpi_case_prod wpi_if wpi_return)
     (auto simp flip: does_quiet)

lemma stepStopProducer_passing:
  "wp (stepStopProducer M s) (passing s (\<lambda>s' w'. does w [period_write 0] w' \<and>
     s' = s\<lparr>sr_local_sync_period_touched := True\<rparr>)) w"
  unfolding stepStopProducer_def
  by (intro passing_if wpi_bind writeLocalSyncPeriod_does [OF does_refl] wpi_if wpi_return) auto

lemma stepConfigure_passing:
  "wp (stepConfigure M s) (passing s (\<lambda>s' w'. does w (type_changes (tc_cob_id (sr_original s)) 1) w' \<and>
     s' = s\<lparr>sr_tpdo_modification_attempted := True, sr_temporary_configuration_completed := True\<rparr>)) w"
  unfolding stepConfigure_def Let_def
  by (intro passing_if wpi_bind wp_mono [OF configuration_does(1)] wpi_case_prod wpi_if wpi_return) auto

lemma stepReadBack_passing:
  "wp (stepReadBack M s) (passing s (\<lambda>s' w'. does w [] w' \<and> s' = s \<and> (\<exists>e1 e2. hist w' = e2 # e1 # hist w \<and>
     saw CANOPEN_SLAVE_NODE_ID 0x1800 1 (V32 (tc_cob_id (sr_original s))) e1 \<and>
     saw CANOPEN_SLAVE_NODE_ID 0x1800 2 (V8 1) e2))) w"
  unfolding stepReadBack_def sync_index_defs kSynchronousTransmissionType_def
  by (intro passing_if wpi_bind wpi_saw_upload wpi_case_prod wpi_if wpi_return) (auto intro: does_short)

lemma stepStartSlave_passing:
  "wp (stepStartSlave M s) (passing s (\<lambda>s' w'. does w [Nmt START CANOPEN_SLAVE_NODE_ID] w' \<and>
     s' = s\<lparr>sr_callbacks_registered := True, sr_slave_needs_start := False\<rparr>)) w"
  unfolding stepStartSlave_def Let_def registerCallbacks_def resetObservation_def issueNmtCommand_def
  by (intro passing_if wpi_bind wpi_update_mem wpi_submit_command wpi_if wpi_return) (auto intro: does_short)

text \<open>No SYNC and no TPDO for the whole of the quiet window.\<close>

definition silent_window :: "nat \<Rightarrow> world \<Rightarrow> world \<Rightarrow> bool" where
  "silent_window t w w' \<longleftrightarrow> hist w' = EvWait (ms t) False # hist w \<and>
     \<not> so_failed (so (mem w')) \<and> so_sync_count (so (mem w')) = 0 \<and> so_tpdo_count (so (mem w')) = 0"

lemma verifyQuietWindow_silent:
  "wp (verifyQuietWindow M t) (\<lambda>ok w'. ok \<longrightarrow> silent_window t w w') w"
  unfolding verifyQuietWindow_def validateCallbackState_def
  by (intro wpi_bind wpi_wait_for wpi_if wpi_return wpi_read_mem) (auto simp: silent_window_def)

text \<open>Five pairs in order, and still five a period later.\<close>

definition five_pairs :: "world \<Rightarrow> world \<Rightarrow> bool" where
  "five_pairs x w \<longleftrightarrow> hist w = EvSleep (ms 200) # hist x \<and> alternating (so_sync_timestamps (so (mem x))) (so_tpdo_timestamps (so (mem x))) \<and>
     (\<forall>m \<in> {mem x, mem w}. so_sync_count (so m) = 5 \<and> so_tpdo_count (so m) = 5) \<and> \<not> so_failed (so (mem w))"

lemma stepSynchronous_passing:
  "wp (stepSynchronous M s) (passing s (\<lambda>s' w'. does w [period_write 200000] w' \<and> s' = s \<and>
     (\<exists>x. later w x \<and> five_pairs x w'))) w"
proof -
  have silence: "wp (verifyPostSyncSilence M) (\<lambda>ok w'. ok \<longrightarrow> does w [period_write 200000] w' \<and>
      (\<exists>x. later w x \<and> five_pairs x w')) x"
    if "does w [period_write 200000] x" "so_sync_count (so (mem x)) = 5 \<and> so_tpdo_count (so (mem x)) = 5 \<and>
      alternating (so_sync_timestamps (so (mem x))) (so_tpdo_timestamps (so (mem x)))" for x
    unfolding verifyPostSyncSilence_def validateCallbackState_def
    by (intro wpi_bind wpi_sleep_for wpi_if wpi_return wpi_read_mem)
       (use that in \<open>auto simp: five_pairs_def kSyncSampleCount_def dest: does_later intro: does_add(2) [OF that(1)]\<close>)
  show ?thesis
    unfolding stepSynchronous_def resetObservation_def
    apply (rule wp_checkStep)
    apply (intro wpi_bind wpi_update_mem wpi_andM wpi_writeLocalSyncPeriod)
    apply (simp split: if_split, intro conjI impI)
     apply (rule wpi_andM, rule wp_does_quiet [of w "[period_write 200000]"])
       apply (force intro: does_short simp: kSyncPeriodUs_def)
      apply (rule sync_reads_touch)
     apply (simp split: if_split, intro conjI impI)
     apply (rule wpi_andM, rule wp_mono [OF validateSynchronousTiming_iff])
     apply (auto elim!: wp_mono [OF silence])
    done
qed


text \<open>Chaining the steps: a run that fails stays failed and does nothing more before the cleanup.\<close>

lemma failing_steps:
  assumes "\<not> sr_passed s"
  shows "checkStep op s = return s" "stepPreOperational M s = return s" "stepSnapshot M s = return s"
    "stepStopProducer M s = return s" "stepConfigure M s = return s" "stepReadBack M s = return s"
    "stepStartSlave M s = return s" "stepSynchronous M s = return s"
  using assms
  by (simp_all add: checkStep_def stepPreOperational_def stepSnapshot_def stepStopProducer_def stepConfigure_def
      stepReadBack_def stepStartSlave_def stepSynchronous_def)

lemma wp_passing:
  assumes "does u ys w" and "wp m (passing s (\<lambda>s' w'. does w xs w' \<and> P s' w')) w"
    and "\<And>s' w'. sr_passed s' \<Longrightarrow> does u (ys @ xs) w' \<Longrightarrow> later w w' \<Longrightarrow> P s' w' \<Longrightarrow> Q s' w'"
    and "\<And>s' w'. \<not> sr_passed s' \<Longrightarrow> Q s' w'"
  shows "wp m Q w"
  using assms(2) by (rule wp_mono) (use assms(3,4) does_trans [OF assms(1)] does_later in blast)

lemma checks_passing:
  "wp (checkStep (issueNmtCommand M START CANOPEN_MASTER_NODE_ID) s)
     (passing s (\<lambda>s' w'. does w [Nmt START CANOPEN_MASTER_NODE_ID] w' \<and> s' = s)) w"
  "wp (checkStep (return b) s) (passing s (\<lambda>s' w'. does w [] w' \<and> s' = s \<and> w' = w \<and> b)) w"
  "wp (checkStep (verifyQuietWindow M t) s) (passing s (\<lambda>s' w'. does w [] w' \<and> s' = s \<and> silent_window t w w')) w"
proof -
  show "wp (checkStep (issueNmtCommand M START CANOPEN_MASTER_NODE_ID) s)
     (passing s (\<lambda>s' w'. does w [Nmt START CANOPEN_MASTER_NODE_ID] w' \<and> s' = s)) w"
    by (rule wp_checkStep, rule wp_mono [OF issueNmtCommand_does]) simp
  show "wp (checkStep (return b) s) (passing s (\<lambda>s' w'. does w [] w' \<and> s' = s \<and> w' = w \<and> b)) w"
    by (rule wp_checkStep) (simp add: host_wp)
  show "wp (checkStep (verifyQuietWindow M t) s) (passing s (\<lambda>s' w'. does w [] w' \<and> s' = s \<and> silent_window t w w')) w"
    by (rule wp_checkStep, rule wp_mono [OF verifyQuietWindow_silent])
       (auto simp: silent_window_def intro: does_short)
qed

definition passed_run :: "u32 \<Rightarrow> u32 \<Rightarrow> TpdoCommSnapshot \<Rightarrow> SyncRun" where
  "passed_run i p c = \<lparr>sr_passed = True, sr_snapshot_saved = True, sr_tpdo_modification_attempted = True,
     sr_temporary_configuration_completed = True, sr_restoration_verified = False, sr_lost = False,
     sr_callbacks_registered = True, sr_local_sync_period_saved = True, sr_local_sync_period_touched = True,
     sr_slave_needs_start = False, sr_remote_sync_cob_id = i, sr_original_local_sync_period = p, sr_original = c\<rparr>"

definition stimuli_changes :: "u32 \<Rightarrow> mutation list" where
  "stimuli_changes cob_id = [Nmt START CANOPEN_MASTER_NODE_ID, Nmt ENTER_PREOP CANOPEN_SLAVE_NODE_ID, period_write 0] @
     type_changes cob_id 1 @ [Nmt START CANOPEN_SLAVE_NODE_ID, period_write 200000]"

text \<open>What a passing run has seen when its stimuli are over: the period before any change, the snapshot
  before the first change of the TPDO, the temporary configuration read back, silence without SYNC, and
  five pairs.\<close>

definition sync_evidence :: "world \<Rightarrow> u32 \<Rightarrow> TpdoCommSnapshot \<Rightarrow> world \<Rightarrow> bool" where
  "sync_evidence w p c w' \<longleftrightarrow>
     (\<exists>x es. hist x = es @ hist w \<and> (\<exists>e \<in> set es. local_saw 0x1006 0 (V32 p) e) \<and> does w [] x \<and> later x w') \<and>
     (\<exists>x y es. does w [Nmt START CANOPEN_MASTER_NODE_ID, Nmt ENTER_PREOP CANOPEN_SLAVE_NODE_ID] x \<and>
        hist y = es @ hist x \<and> shows_snapshot c es \<and> later y w') \<and>
     (\<exists>x y e1 e2. does w (take 6 (stimuli_changes (tc_cob_id c))) x \<and> hist y = e2 # e1 # hist x \<and>
        saw CANOPEN_SLAVE_NODE_ID 0x1800 1 (V32 (tc_cob_id c)) e1 \<and> saw CANOPEN_SLAVE_NODE_ID 0x1800 2 (V8 1) e2 \<and>
        later y w') \<and>
     (\<exists>x y. does w (take 7 (stimuli_changes (tc_cob_id c))) x \<and> silent_window (quietWindowMs c) x y \<and> later y w') \<and>
     (\<exists>x. later w x \<and> five_pairs x w')"

lemma sync_done:
  assumes "hist w1 = es1 @ hist w" "\<exists>e \<in> set es1. local_saw 0x1006 0 (V32 p) e" "does w [] w1" "later w1 w2" "later w2 w3"
    and "does w [Nmt START CANOPEN_MASTER_NODE_ID, Nmt ENTER_PREOP CANOPEN_SLAVE_NODE_ID] w3"
    and "hist w4 = es4 @ hist w3" "shows_snapshot c es4" "later w4 w6" "later w6 w7"
    and "does w (Nmt START CANOPEN_MASTER_NODE_ID # Nmt ENTER_PREOP CANOPEN_SLAVE_NODE_ID # period_write 0 #
           type_changes (tc_cob_id c) 1) w7"
    and "hist w8 = e2 # e1 # hist w7"
    and "saw CANOPEN_SLAVE_NODE_ID 0x1800 1 (V32 (tc_cob_id c)) e1" "saw CANOPEN_SLAVE_NODE_ID 0x1800 2 (V8 1) e2"
    and "later w8 w9"
    and "does w (Nmt START CANOPEN_MASTER_NODE_ID # Nmt ENTER_PREOP CANOPEN_SLAVE_NODE_ID # period_write 0 #
           type_changes (tc_cob_id c) 1 @ [Nmt START CANOPEN_SLAVE_NODE_ID]) w9"
    and "silent_window (quietWindowMs c) w9 w10" "later w10 w11" "later w10 x" "five_pairs x w11"
  shows "sync_evidence w p c w11"
proof -
  have "later w3 w4" "later w7 w8" "later w9 w10"
    using assms(7,12,17) by (auto simp: later_def silent_window_def)
  note steps = later_trans [OF assms(15) later_trans [OF this(3) assms(18)]]
    later_trans [OF this(2)] later_trans [OF assms(9) later_trans [OF assms(10)]] later_trans [OF this(1)]
  have l8: "later w8 w11" by (rule steps(1))
  have l4: "later w4 w11" by (rule steps(3), rule steps(2), rule l8)
  have l1: "later w1 w11" by (rule later_trans [OF assms(4) later_trans [OF assms(5) steps(4)]], rule l4)
  have wx: "later w x"
    using does_later [OF assms(16)] \<open>later w9 w10\<close> assms(19) by (blast intro: later_trans)
  have t6: "take 6 (stimuli_changes (tc_cob_id c)) = Nmt START CANOPEN_MASTER_NODE_ID #
      Nmt ENTER_PREOP CANOPEN_SLAVE_NODE_ID # period_write 0 # type_changes (tc_cob_id c) 1"
    and t7: "take 7 (stimuli_changes (tc_cob_id c)) = Nmt START CANOPEN_MASTER_NODE_ID #
      Nmt ENTER_PREOP CANOPEN_SLAVE_NODE_ID # period_write 0 # type_changes (tc_cob_id c) 1 @ [Nmt START CANOPEN_SLAVE_NODE_ID]"
    by (simp_all add: stimuli_changes_def type_changes_def)
  show ?thesis
    unfolding sync_evidence_def t6 t7
    using assms l8 l4 l1 wx by blast
qed

lemma syncStimuli_passing:
  "wp (syncStimuli M) (\<lambda>s' w'. sr_passed s' \<longrightarrow> (\<exists>i p c. s' = passed_run i p c \<and> baselineOk c \<and>
     does w (stimuli_changes (tc_cob_id c)) w' \<and> sync_evidence w p c w')) w"
  unfolding syncStimuli_def
  apply (rule wpi_bind, rule wp_passing [OF does_refl stepTopology_passing])
   prefer 2 subgoal by (simp add: host_wp failing_steps)
  apply (elim exE conjE, rule wpi_bind, rule wp_passing, assumption, rule checks_passing)
   prefer 2 subgoal by (simp add: host_wp failing_steps)
  apply (rule wpi_bind, rule wp_passing, assumption, rule stepPreOperational_passing)
   prefer 2 subgoal by (simp add: host_wp failing_steps)
  apply (rule wpi_bind, rule wp_passing, assumption, rule stepSnapshot_passing)
   prefer 2 subgoal by (simp add: host_wp failing_steps)
  apply (elim exE conjE, rule wpi_bind, rule wp_passing, assumption, rule checks_passing)
   prefer 2 subgoal by (simp add: host_wp failing_steps)
  apply (rule wpi_bind, rule wp_passing, assumption, rule stepStopProducer_passing)
   prefer 2 subgoal by (simp add: host_wp failing_steps)
  apply (rule wpi_bind, rule wp_passing, assumption, rule stepConfigure_passing)
   prefer 2 subgoal by (simp add: host_wp failing_steps)
  apply (rule wpi_bind, rule wp_passing, assumption, rule stepReadBack_passing)
   prefer 2 subgoal by (simp add: host_wp failing_steps)
  apply (elim exE conjE, rule wpi_bind, rule wp_passing, assumption, rule stepStartSlave_passing)
   prefer 2 subgoal by (simp add: host_wp failing_steps)
  apply (rule wpi_bind, rule wp_passing, assumption, rule checks_passing)
   prefer 2 subgoal by (simp add: host_wp failing_steps)
  apply (rule wp_passing, assumption, rule stepSynchronous_passing)
   prefer 2 subgoal by simp
  apply (elim exE conjE, rule impI, simp)
  apply (intro exI conjI)
     prefer 4 apply (rule sync_done; assumption)
    apply (simp_all add: initial_run_def passed_run_def stimuli_changes_def)
  done


text \<open>The cleanup of a passing run.\<close>

lemma wp_any: "(\<And>a w'. Q a w') \<Longrightarrow> wp m Q w"
  by (rule wpI) blast

lemmas wp_calls = wp_any [where m = "restoreTpdoConfiguration M c l" for M c l]
  wp_any [where m = "verifyRestoredTpdoState M c i l" for M c i l]
  wp_any [where m = "recoverTpdoStateWithReset M c i l b" for M c i l b]
  wp_any [where m = "issueNmtCommand M cmd n" for M cmd n]
  wp_any [where m = "issueNmtCommandAndWaitForState M cmd n st t" for M cmd n st t]
  wp_any [where m = "writeLocalSyncPeriod M p" for M p] wp_any [where m = "verifyRestoredEventTpdo M t" for M t]
  wp_any [where m = resetObservation] wp_any [where m = clearCallbacks]

lemma cleanup_latched:
  "wp (cleanupStep b m s) (\<lambda>s' w'. sr_passed s' \<longrightarrow> sr_passed s) w"
  "wp (normalRestoration M s) (\<lambda>s' w'. sr_passed s' \<longrightarrow> sr_passed s) w"
  "wp (resetRecovery M s) (\<lambda>s' w'. sr_passed s' \<longrightarrow> sr_passed s) w"
  "wp (restartSlave M s) (\<lambda>s' w'. sr_passed s' \<longrightarrow> sr_passed s) w"
  "wp (finishSync M s) (\<lambda>r w'. r = 1 \<or> r = 0 \<and> sr_passed s) w"
proof -
  have step: "wp (cleanupStep b m s) (\<lambda>s' w'. sr_passed s' \<longrightarrow> sr_passed s) w" for b m s w
    unfolding cleanupStep_def by (intro wpi_bind wpi_if wpi_return wp_any) auto
  then show "wp (cleanupStep b m s) (\<lambda>s' w'. sr_passed s' \<longrightarrow> sr_passed s) w" .
  note intros = wpi_bind wpi_if wpi_case_prod wpi_return wp_calls wp_mono [OF step]
  show "wp (normalRestoration M s) (\<lambda>s' w'. sr_passed s' \<longrightarrow> sr_passed s) w"
    unfolding normalRestoration_def Let_def by (intro intros) auto
  show "wp (resetRecovery M s) (\<lambda>s' w'. sr_passed s' \<longrightarrow> sr_passed s) w"
    unfolding resetRecovery_def Let_def by (intro intros) auto
  show "wp (restartSlave M s) (\<lambda>s' w'. sr_passed s' \<longrightarrow> sr_passed s) w"
    unfolding restartSlave_def Let_def by (intro intros) (auto split: if_splits)
  show "wp (finishSync M s) (\<lambda>r w'. r = 1 \<or> r = 0 \<and> sr_passed s) w"
    unfolding finishSync_def Let_def by (intro intros) auto
qed

lemma syncCleanup_failed: "\<not> sr_passed s \<Longrightarrow> wp (syncCleanup M s) (\<lambda>r w'. r = 1) w"
  unfolding syncCleanup_def
  by (intro wpi_bind cleanup_latched [THEN wp_mono]) auto


lemma verifyRestoredTpdoState_shows:
  "wp (verifyRestoredTpdoState M c i lost) (\<lambda>(ok, lost') w'. quiet w w' \<and> (ok \<longrightarrow> lost' = lost \<and>
     (\<exists>es e. hist w' = e # es @ hist w \<and> shows_snapshot c es \<and> saw CANOPEN_SLAVE_NODE_ID 0x1005 0 (V32 i) e))) w"
  unfolding verifyRestoredTpdoState_def compareTpdoSnapshot_iff sync_index_defs
  apply (intro wpi_bind wp_mono [OF readTpdoSnapshot_shows] wpi_case_prod wpi_if wpi_return wpi_upload_state)
      apply (auto simp: quiet_def)
  done

definition restored_run :: "u32 \<Rightarrow> u32 \<Rightarrow> TpdoCommSnapshot \<Rightarrow> SyncRun" where
  "restored_run i p c = (passed_run i p c)\<lparr>sr_slave_needs_start := True, sr_restoration_verified := True\<rparr>"

lemmas run_defs = passed_run_def restored_run_def

lemma does_Cons_quiet: "does u [x] v \<Longrightarrow> does v ys w \<Longrightarrow> quiet w z \<Longrightarrow> does u (x # ys) z"
  unfolding does_quiet using does_trans [of u "[x]" v "ys @ []" z] does_trans [of v ys w "[]" z] by simp

lemma normalRestoration_passing:
  "wp (normalRestoration M (passed_run i p c)) (\<lambda>s' w'. sr_passed s' \<longrightarrow> s' = restored_run i p c \<and>
     does w (Nmt ENTER_PREOP CANOPEN_SLAVE_NODE_ID # type_changes (tc_cob_id c) (transmission_type c)) w' \<and>
     (\<exists>x es e. later w x \<and> hist w' = e # es @ hist x \<and> shows_snapshot c es)) w"
  unfolding normalRestoration_def Let_def run_defs
  apply (simp, intro wpi_bind wp_mono [OF issueNmtCommandAndWaitForState_does] wpi_if wpi_return)
   apply simp
   apply (intro wpi_return)
   apply simp
  apply (simp, intro wpi_bind wp_mono [OF configuration_does(2)] wpi_case_prod wpi_if wpi_return)
     apply (auto intro!: wpi_case_prod wpi_if wpi_return wp_mono [OF verifyRestoredTpdoState_shows]
       intro: does_Cons_quiet)
  apply (blast intro: later_trans does_later)
  done

lemma resetRecovery_restored: "resetRecovery M (restored_run i p c) = return (restored_run i p c)"
  by (simp add: resetRecovery_def run_defs)

text \<open>Two event-driven TPDOs after the restoration, their distance the event timer within 150 ms.\<close>

definition event_driven :: "u16 \<Rightarrow> memory \<Rightarrow> bool" where
  "event_driven t m \<longleftrightarrow> \<not> so_failed (so m) \<and> so_sync_count (so m) = 0 \<and> 2 \<le> so_tpdo_count (so m) \<and>
     \<bar>intervalMs (so_tpdo_timestamps (so m) ! 1) (so_tpdo_timestamps (so m) ! 0) - int (unat t)\<bar> \<le> 150"

lemma verifyRestoredEventTpdo_driven:
  "wp (verifyRestoredEventTpdo M t) (\<lambda>ok w'. quiet w w' \<and> (ok \<longrightarrow> event_driven t (mem w'))) w"
  unfolding verifyRestoredEventTpdo_def validateCallbackState_def Let_def
  by (intro wpi_bind wpi_wait_for wpi_if wpi_return wpi_read_mem)
     (auto simp: quiet_def event_driven_def kEventSampleCount_def kEventTimerToleranceMs_def abs_le_iff)

lemma restartSlave_passing:
  "wp (restartSlave M (restored_run i p c)) (\<lambda>s' w'. sr_passed s' \<longrightarrow>
     s' = (restored_run i p c)\<lparr>sr_slave_needs_start := False\<rparr> \<and>
     does w [Nmt START CANOPEN_SLAVE_NODE_ID] w' \<and> event_driven (event_timer c) (mem w')) w"
  unfolding restartSlave_def Let_def run_defs resetObservation_def issueNmtCommand_def cleanupStep_def
  apply simp
  apply (intro wpi_bind wpi_update_mem wpi_submit_command wpi_return wpi_if wp_mono [OF verifyRestoredEventTpdo_driven])
     apply (auto simp: quiet_def does_def)
  done

lemma finishSync_passing:
  "wp (finishSync M ((restored_run i p c)\<lparr>sr_slave_needs_start := False\<rparr>)) (\<lambda>r w'. r = 1 \<or> r = 0 \<and>
     hist w' = EvLocalWrite 0x1006 0 (V32 p) NoError # hist w) w"
  unfolding finishSync_def Let_def run_defs clearCallbacks_def cleanupStep_def
  by (simp, intro wpi_bind wpi_update_mem wpi_writeLocalSyncPeriod wpi_return wpi_if) (auto simp: failed_def)

definition sync_changes :: "u32 \<Rightarrow> TpdoCommSnapshot \<Rightarrow> mutation list" where
  "sync_changes p c = stimuli_changes (tc_cob_id c) @
     [period_write 0, Nmt ENTER_PREOP CANOPEN_SLAVE_NODE_ID] @ type_changes (tc_cob_id c) (transmission_type c) @
     [Nmt START CANOPEN_SLAVE_NODE_ID, period_write p]"

lemma wp_passing_or_failed:
  assumes "wp m (\<lambda>s' w'. sr_passed s' \<longrightarrow> P s' w') w"
    and "\<And>s' w'. P s' w' \<Longrightarrow> wp (f s') (\<lambda>r w'. r = 1 \<or> Q r w') w'"
    and "\<And>s' w'. \<not> sr_passed s' \<Longrightarrow> wp (f s') (\<lambda>r w'. r = (1::int)) w'"
  shows "wp (State_Monad.bind m f) (\<lambda>r w'. r = 1 \<or> Q r w') w"
proof (rule wpi_bind, rule wp_mono [OF assms(1)])
  fix s' w' assume "sr_passed s' \<longrightarrow> P s' w'"
  then show "wp (f s') (\<lambda>r w'. r = 1 \<or> Q r w') w'"
    using assms(2) by (cases "sr_passed s'") (blast intro: wp_mono [OF assms(3)])+
qed

lemma stopSync_passing:
  "wp (cleanupStep True (writeLocalSyncPeriod M p) s) (\<lambda>s' w'. sr_passed s' \<longrightarrow> s' = s \<and> does w [period_write p] w') w"
  unfolding cleanupStep_def if_True
  by (intro wpi_bind wpi_writeLocalSyncPeriod wpi_return) (auto intro: does_short)

lemmas latched_intros = wpi_bind cleanup_latched [THEN wp_mono]

text \<open>What the cleanup of a passing run has seen: the snapshot read back from the node in one go, then, the
  node started again, two TPDOs its event timer apart, and as the last act of the run the period.\<close>

definition sync_restored :: "world \<Rightarrow> u32 \<Rightarrow> TpdoCommSnapshot \<Rightarrow> world \<Rightarrow> bool" where
  "sync_restored w p c w' \<longleftrightarrow> (\<exists>x y z es e. later w x \<and> hist y = e # es @ hist x \<and> shows_snapshot c es \<and>
     later y z \<and> event_driven (event_timer c) (mem z) \<and> hist w' = EvLocalWrite 0x1006 0 (V32 p) NoError # hist z)"

lemma cleanup_done:
  assumes "does u (stimuli_changes (tc_cob_id c)) w" and "does w [period_write 0] w1"
    and "does w1 (Nmt ENTER_PREOP CANOPEN_SLAVE_NODE_ID # type_changes (tc_cob_id c) (transmission_type c)) w2"
    and "later w1 x" "hist w2 = e # es @ hist x" "shows_snapshot c es"
    and "does w2 [Nmt START CANOPEN_SLAVE_NODE_ID] w3" "event_driven (event_timer c) (mem w3)"
    and "hist w4 = EvLocalWrite 0x1006 0 (V32 p) NoError # hist w3"
  shows "does u (sync_changes p c) w4 \<and> sync_restored w p c w4"
proof
  have "does w3 [period_write p] w4"
    using assms(9) by (rule does_event) (simp add: mutation_of.simps)
  from does_trans [OF assms(1) does_trans [OF assms(2) does_trans [OF assms(3) does_trans [OF assms(7) this]]]]
  show "does u (sync_changes p c) w4" by (simp add: sync_changes_def)
  have "later w x" "later w2 w3"
    using does_later [OF assms(2)] assms(4) does_later [OF assms(7)] by (auto intro: later_trans)
  then show "sync_restored w p c w4"
    unfolding sync_restored_def using assms(5,6,8,9) by blast
qed

lemma syncCleanup_passing:
  assumes "does u (stimuli_changes (tc_cob_id c)) w"
  shows "wp (syncCleanup M (passed_run i p c)) (\<lambda>r w'. r = 1 \<or> r = 0 \<and> does u (sync_changes p c) w' \<and>
     sync_restored w p c w') w"
proof -
  have flags: "sr_local_sync_period_touched (passed_run i p c)" by (simp add: run_defs)
  show ?thesis
    unfolding syncCleanup_def using flags
    apply (simp only:)
    apply (rule wp_passing_or_failed [OF stopSync_passing])
     prefer 2 subgoal by (intro latched_intros) auto
    apply (elim conjE, hypsubst)
    apply (rule wp_passing_or_failed [OF normalRestoration_passing])
     prefer 2 subgoal by (intro latched_intros) auto
    apply (elim conjE exE, hypsubst, simp only: resetRecovery_restored State_Monad.bind_left_identity)
    apply (rule wp_passing_or_failed [OF restartSlave_passing])
     prefer 2 subgoal by (intro latched_intros) auto
    apply (elim conjE exE, hypsubst, rule wp_mono [OF finishSync_passing], elim disjE, simp, elim conjE)
    apply (rule disjI2, rule conjI, assumption, rule cleanup_done [OF assms]; assumption)
    done
qed

lemma syncPdoProcess_passing:
  "wp (syncPdoProcess M) (\<lambda>r w'. r = 1 \<or> r = 0 \<and> (\<exists>p c v. baselineOk c \<and> sync_evidence w p c v \<and>
     does w (sync_changes p c) w' \<and> sync_restored v p c w')) w"
  unfolding syncPdoProcess_def
  apply (rule wp_passing_or_failed [OF syncStimuli_passing])
   prefer 2 subgoal by (rule syncCleanup_failed)
  apply (elim exE conjE, hypsubst, rule wp_mono [OF syncCleanup_passing], assumption, blast)
  done

end
