(* ===== verification/Sync_Pdo_Cleanup.thy ===== *)
theory Sync_Pdo_Cleanup
  imports Sync_Pdo_Process
begin

text \<open>
  Every run of \<open>syncPdoProcess\<close>, passing or not: when its cleanup starts the node, and what becomes of the
  local SYNC period.
\<close>

section \<open>When the cleanup starts the node\<close>

text \<open>Started by the cleanup, the node had its TPDO left alone, or just shown as it was.\<close>

definition no_start :: "mutation \<Rightarrow> bool" where
  "no_start x \<longleftrightarrow> x \<noteq> Nmt START CANOPEN_SLAVE_NODE_ID"

definition no_sdo_write :: "mutation \<Rightarrow> bool" where
  "no_sdo_write x \<longleftrightarrow> (\<forall>n i sub v. x \<noteq> RemoteWrite n i sub v)"

definition started_as_shown :: "TpdoCommSnapshot \<Rightarrow> u32 \<Rightarrow> world \<Rightarrow> world \<Rightarrow> bool" where
  "started_as_shown c i v w' \<longleftrightarrow> (\<exists>x y es e q. later v x \<and> hist y = e # es @ hist x \<and> shows_snapshot c es \<and>
     saw CANOPEN_SLAVE_NODE_ID 0x1005 0 (V32 i) e \<and>
     (does y [Nmt START CANOPEN_SLAVE_NODE_ID] w' \<or> does y [Nmt START CANOPEN_SLAVE_NODE_ID, period_write q] w'))"

lemma no_kinds [simp]:
  "no_start (RemoteWrite n i sub v)" "no_start (LocalWrite i sub v)" "no_start (Nmt cmd node) \<longleftrightarrow> cmd \<noteq> START \<or> node \<noteq> CANOPEN_SLAVE_NODE_ID"
  "no_sdo_write (Nmt cmd node)" "no_sdo_write (LocalWrite i sub v)"
  by (auto simp: no_start_def no_sdo_write_def)

lemma cleanup_no_start [emits_intro]:
  "touches no_start (normalRestoration M s)" "touches no_start (resetRecovery M s)"
  unfolding normalRestoration_def resetRecovery_def recoverTpdoStateWithReset_def restoreTpdoConfiguration_def Let_def
  by (intro emits_intro; simp)+


definition same_plan :: "SyncRun \<Rightarrow> SyncRun \<Rightarrow> bool" where
  "same_plan s s' \<longleftrightarrow> sr_original s' = sr_original s \<and> sr_remote_sync_cob_id s' = sr_remote_sync_cob_id s \<and>
     sr_tpdo_modification_attempted s' = sr_tpdo_modification_attempted s \<and>
     sr_local_sync_period_touched s' = sr_local_sync_period_touched s \<and>
     sr_local_sync_period_saved s' = sr_local_sync_period_saved s \<and>
     sr_original_local_sync_period s' = sr_original_local_sync_period s"

definition shown_since :: "TpdoCommSnapshot \<Rightarrow> u32 \<Rightarrow> world \<Rightarrow> world \<Rightarrow> bool" where
  "shown_since c i v y \<longleftrightarrow> (\<exists>x es e. later v x \<and> hist y = e # es @ hist x \<and> shows_snapshot c es \<and>
     saw CANOPEN_SLAVE_NODE_ID 0x1005 0 (V32 i) e)"

lemma shown_back: "later u v \<Longrightarrow> shown_since c i v y \<Longrightarrow> shown_since c i u y"
  unfolding shown_since_def by (blast intro: later_trans)

lemma verify_since:
  assumes "later v w"
    and "\<And>ok lost' w'. later v w' \<Longrightarrow> (ok \<Longrightarrow> shown_since c i v w') \<Longrightarrow> Q (ok, lost') w'"
  shows "wp (verifyRestoredTpdoState M c i lost) Q w"
proof (rule wp_mono [OF verifyRestoredTpdoState_shows], clarify)
  fix ok lost' w'
  assume "quiet w w'" "ok \<longrightarrow> lost' = lost \<and> (\<exists>es e. hist w' = e # es @ hist w \<and> shows_snapshot c es \<and>
    saw CANOPEN_SLAVE_NODE_ID 0x1005 0 (V32 i) e)"
  then show "Q (ok, lost') w'"
    by (intro assms(2)) (auto simp: shown_since_def intro: later_trans [OF assms(1)] quiet_later assms(1))
qed

lemma wp_since:
  "touches (\<lambda>_. True) m \<Longrightarrow> later v w \<Longrightarrow> (\<And>a w'. later v w' \<Longrightarrow> Q a w') \<Longrightarrow> wp m Q w"
  by (rule wp_later, assumption) (blast intro: later_trans)

lemma any_restore: "touches (\<lambda>_. True) (restoreTpdoConfiguration M o' lost)"
  unfolding restoreTpdoConfiguration_def Let_def by (intro emits_intro; simp)

lemma any_boot: "touches (\<lambda>_. True) prepareBootWait" "touches (\<lambda>_. True) (waitForBootCompletion M t)"
  by (intro emits_intro; simp)+

lemmas since_calls = wp_since [OF any_boot(1)] wp_since [OF any_boot(2)] wp_since [OF any_restore]
  wp_since [OF issueNmtCommand_touches [OF TrueI]] wp_since [OF issueNmtCommandAndWaitForState_touches [OF TrueI]]

lemma restoration_shows:
  assumes "later v w"
  shows "wp (normalRestoration M s) (\<lambda>s' w'. same_plan s s' \<and> later v w' \<and>
     (sr_restoration_verified s' \<longrightarrow> sr_restoration_verified s \<or>
        shown_since (sr_original s) (sr_remote_sync_cob_id s) v w')) w"
  using assms unfolding normalRestoration_def Let_def
  apply -
  by (rule wpi_bind wpi_if wpi_case_prod wpi_return | erule since_calls verify_since | (auto simp: same_plan_def; fail))+


lemma recovery_shows:
  assumes "later v w"
  shows "wp (recoverTpdoStateWithReset M c i lost b) (\<lambda>(ok, lost', b') w'. later v w' \<and> (ok \<longrightarrow> shown_since c i v w')) w"
  using assms unfolding recoverTpdoStateWithReset_def
  apply -
  by (rule wpi_bind wpi_if wpi_case_prod wpi_return | erule since_calls verify_since | (auto; fail))+

lemma reset_shows:
  assumes "later v w" and "sr_restoration_verified s \<longrightarrow> b \<or> shown_since (sr_original s) (sr_remote_sync_cob_id s) v w"
  shows "wp (resetRecovery M s) (\<lambda>s' w'. same_plan s s' \<and> later v w' \<and>
     (sr_restoration_verified s' \<longrightarrow> b \<or> shown_since (sr_original s) (sr_remote_sync_cob_id s) v w')) w"
  unfolding resetRecovery_def Let_def using assms
  by (intro wpi_bind wpi_if wpi_case_prod wpi_return wp_mono [OF recovery_shows]) (auto simp: same_plan_def)

lemma restart_safe:
  "wp (restartSlave M s) (\<lambda>s' w'. same_plan s s' \<and> (keeps no_start w w' \<or>
     (\<not> sr_tpdo_modification_attempted s \<or> sr_restoration_verified s) \<and> does w [Nmt START CANOPEN_SLAVE_NODE_ID] w')) w"
proof -
  have quiet: "wp (if b then resetObservation else return ()) (\<lambda>_ w'. hist w' = hist w) w" for b w
    unfolding resetObservation_def by (intro wpi_if wpi_return wpi_update_mem) auto
  have start: "wp (issueNmtCommand M START CANOPEN_SLAVE_NODE_ID) (\<lambda>_ w'. does w [Nmt START CANOPEN_SLAVE_NODE_ID] w') w" for w
    unfolding issueNmtCommand_def by (intro wpi_bind wpi_submit_command wpi_return wpi_if) (auto simp: does_def)
  have check: "wp (cleanupStep b (verifyRestoredEventTpdo M t) s) (\<lambda>s' w'. same_plan s s' \<and> quiet w w') w" for b t s w
    unfolding cleanupStep_def
    by (intro wpi_if wpi_bind wpi_return wp_mono [OF verifyRestoredEventTpdo_driven]) (auto simp: same_plan_def)
  show ?thesis
    unfolding restartSlave_def Let_def
    apply (intro wpi_bind wp_mono [OF quiet] wp_mono [OF start] wp_mono [OF check] wpi_if wpi_return)
    apply (auto simp: same_plan_def keeps_def quiet_def does_def)
    done
qed


definition cleanup_safe :: "SyncRun \<Rightarrow> world \<Rightarrow> world \<Rightarrow> bool" where
  "cleanup_safe s w w' \<longleftrightarrow> keeps no_start w w' \<or> \<not> sr_tpdo_modification_attempted s \<or> sr_restoration_verified s \<or>
     started_as_shown (sr_original s) (sr_remote_sync_cob_id s) w w'"

lemma started_then_period:
  assumes "shown_since c i v y" and "does y [Nmt START CANOPEN_SLAVE_NODE_ID] z"
    and "does z [] w \<or> (\<exists>q. does z [period_write q] w)"
  shows "started_as_shown c i v w"
  using assms does_trans [OF assms(2)] unfolding started_as_shown_def shown_since_def by fastforce

lemma finishSync_ends:
  "wp (finishSync M s) (\<lambda>r w'. (does w [] w' \<and> \<not> (sr_local_sync_period_touched s \<and> sr_local_sync_period_saved s) \<or>
     (\<exists>e. hist w' = EvLocalWrite 0x1006 0 (V32 (sr_original_local_sync_period s)) e # hist w \<and>
        sr_local_sync_period_touched s \<and> sr_local_sync_period_saved s \<and> (r = 1 \<or> e = NoError)))) w"
  unfolding finishSync_def Let_def clearCallbacks_def cleanupStep_def
  by (intro wpi_bind wpi_update_mem wpi_writeLocalSyncPeriod wpi_return wpi_if)
     (auto simp: failed_def does_def)

definition in_progress :: "SyncRun \<Rightarrow> world \<Rightarrow> SyncRun \<Rightarrow> world \<Rightarrow> bool" where
  "in_progress s w s' w' \<longleftrightarrow> same_plan s s' \<and> keeps no_start w w' \<and>
     (sr_restoration_verified s' \<longrightarrow> sr_restoration_verified s \<or>
        shown_since (sr_original s) (sr_remote_sync_cob_id s) w w')"

lemma cleanup_progress:
  "wp (cleanupStep b (writeLocalSyncPeriod M 0) s) (\<lambda>s' w'. in_progress s w s' w' \<and>
     sr_restoration_verified s' = sr_restoration_verified s) w"
  "in_progress s w s1 w1 \<Longrightarrow> sr_restoration_verified s1 = sr_restoration_verified s \<Longrightarrow>
     wp (normalRestoration M s1) (in_progress s w) w1"
  "in_progress s w s1 w1 \<Longrightarrow> wp (resetRecovery M s1) (in_progress s w) w1"
proof -
  show "wp (cleanupStep b (writeLocalSyncPeriod M 0) s) (\<lambda>s' w'. in_progress s w s' w' \<and>
     sr_restoration_verified s' = sr_restoration_verified s) w"
    unfolding cleanupStep_def
    by (intro wpi_if wpi_bind wpi_writeLocalSyncPeriod wpi_return) (auto simp: in_progress_def same_plan_def keeps_def)
  show "wp (normalRestoration M s1) (in_progress s w) w1"
    if "in_progress s w s1 w1" "sr_restoration_verified s1 = sr_restoration_verified s"
    by (rule wp_keeps [OF cleanup_no_start(1) restoration_shows [of w]])
       (use that in \<open>auto simp: in_progress_def same_plan_def keeps_later intro: keeps_trans\<close>)
  show "wp (resetRecovery M s1) (in_progress s w) w1" if "in_progress s w s1 w1"
    by (rule wp_keeps [OF cleanup_no_start(2) reset_shows [of w _ _ "sr_restoration_verified s"]])
       (use that in \<open>auto simp: in_progress_def same_plan_def keeps_later intro: keeps_trans\<close>)
qed

lemma finish_safe:
  assumes "in_progress s w s3 w3" and "same_plan s3 s4" and "keeps no_start w3 w4 \<or>
     (\<not> sr_tpdo_modification_attempted s3 \<or> sr_restoration_verified s3) \<and> does w3 [Nmt START CANOPEN_SLAVE_NODE_ID] w4"
  shows "wp (finishSync M s4) (\<lambda>r w'. cleanup_safe s w w') w4"
proof (rule wp_mono [OF finishSync_ends])
  fix r w'
  assume ends: "does w4 [] w' \<and> \<not> (sr_local_sync_period_touched s4 \<and> sr_local_sync_period_saved s4) \<or>
     (\<exists>e. hist w' = EvLocalWrite 0x1006 0 (V32 (sr_original_local_sync_period s4)) e # hist w4 \<and>
        sr_local_sync_period_touched s4 \<and> sr_local_sync_period_saved s4 \<and> (r = 1 \<or> e = NoError))"
  then have closing: "does w4 [] w' \<or> (\<exists>q. does w4 [period_write q] w')"
    by (blast intro: does_event(1) mutation_of.simps)
  then have "keeps no_start w4 w'"
    by (auto simp: does_def keeps_def)
  with assms started_then_period [OF _ _ closing] show "cleanup_safe s w w'"
    by (auto simp: cleanup_safe_def in_progress_def same_plan_def intro: keeps_trans)
qed

lemma syncCleanup_safe: "wp (syncCleanup M s) (\<lambda>r w'. cleanup_safe s w w') w"
  unfolding syncCleanup_def
  apply (rule wpi_bind, rule wp_mono [OF cleanup_progress(1)])
  apply (rule wpi_bind, rule wp_mono [OF cleanup_progress(2)], blast, blast)
  apply (rule wpi_bind, rule wp_mono [OF cleanup_progress(3)], assumption)
  apply (rule wpi_bind, rule wp_mono [OF restart_safe])
  apply (rule finish_safe; blast)
  done


section \<open>The period and the parameters before the cleanup\<close>

fun period_untouched :: "event \<Rightarrow> bool" where
  "period_untouched (EvLocalWrite i sub v e) \<longleftrightarrow> failed e"
| "period_untouched _ \<longleftrightarrow> True"

fun spares :: "mutation \<Rightarrow> bool" where
  "spares (LocalWrite i sub v) \<longleftrightarrow> False"
| "spares (RemoteWrite n i sub v) \<longleftrightarrow> False"
| "spares _ \<longleftrightarrow> True"

definition untouched_since :: "world \<Rightarrow> world \<Rightarrow> bool" where
  "untouched_since u w \<longleftrightarrow> (\<exists>es. hist w = es @ hist u \<and> list_all period_untouched es)"

definition period_seen :: "world \<Rightarrow> u32 \<Rightarrow> world \<Rightarrow> bool" where
  "period_seen u p w \<longleftrightarrow> (\<exists>es. hist w = es @ hist u \<and> (\<exists>e \<in> set es. local_saw 0x1006 0 (V32 p) e))"

lemma spared_trans:
  "keeps no_sdo_write u v \<Longrightarrow> keeps spares v w \<Longrightarrow> keeps no_sdo_write u w"
  "untouched_since u v \<Longrightarrow> keeps spares v w \<Longrightarrow> untouched_since u w"
  "period_seen u p v \<Longrightarrow> keeps S v w \<Longrightarrow> period_seen u p w"
proof -
  have weaker: "list_all no_sdo_write (mutations es)" if "list_all spares (mutations es)" for es
    using that by (rule list.pred_mono_strong) (auto simp: no_sdo_write_def)
  have "period_untouched e" if "allowed spares e" for e
    using that by (cases e) simp_all
  then have "list_all period_untouched es" if "list_all spares (mutations es)" for es
    using that unfolding list_all_allowed [symmetric] by (auto elim: list.pred_mono_strong)
  with weaker show "keeps no_sdo_write u v \<Longrightarrow> keeps spares v w \<Longrightarrow> keeps no_sdo_write u w"
    "untouched_since u v \<Longrightarrow> keeps spares v w \<Longrightarrow> untouched_since u w"
    unfolding keeps_def untouched_since_def by (metis append_assoc list_all_append mutations_simps(3))+
  show "period_seen u p v \<Longrightarrow> keeps S v w \<Longrightarrow> period_seen u p w"
    unfolding period_seen_def keeps_def by (metis Un_iff append_assoc set_append)
qed

text \<open>The invariant of the stimuli; \<open>t\<close> once the producer has been stopped.\<close>

definition stim :: "bool \<Rightarrow> world \<Rightarrow> SyncRun \<Rightarrow> world \<Rightarrow> bool" where
  "stim t w s v \<longleftrightarrow> \<not> sr_restoration_verified s \<and> (sr_tpdo_modification_attempted s \<or> keeps no_sdo_write w v) \<and>
     (sr_local_sync_period_touched s \<or> untouched_since w v) \<and>
     (sr_passed s \<or> sr_local_sync_period_touched s \<longrightarrow> sr_local_sync_period_saved s) \<and>
     (sr_passed s \<and> t \<longrightarrow> sr_local_sync_period_touched s) \<and>
     (sr_local_sync_period_saved s \<longrightarrow> period_seen w (sr_original_local_sync_period s) v)"

definition same_flags :: "SyncRun \<Rightarrow> SyncRun \<Rightarrow> bool" where
  "same_flags s s' \<longleftrightarrow> sr_restoration_verified s' = sr_restoration_verified s \<and> (sr_passed s' \<longrightarrow> sr_passed s) \<and>
     sr_tpdo_modification_attempted s' = sr_tpdo_modification_attempted s \<and>
     sr_local_sync_period_touched s' = sr_local_sync_period_touched s \<and>
     sr_local_sync_period_saved s' = sr_local_sync_period_saved s \<and>
     sr_original_local_sync_period s' = sr_original_local_sync_period s"

lemma stim_step:
  assumes "stim t w s v" and "touches spares m" and "wp m (\<lambda>s' _. same_flags s s') v"
  shows "wp m (stim t w) v"
proof (rule wpI)
  fix s' v'
  assume run: "run_state m v = (s', v')"
  have "keeps spares v v'" using touchesD [OF assms(2) run] by (simp add: keeps_def)
  with assms(1) wpD [OF assms(3) run] show "stim t w s' v'"
    unfolding stim_def same_flags_def by (auto intro: spared_trans)
qed


lemma plain_steps_touch:
  "touches spares (checkStep (issueNmtCommand M START CANOPEN_MASTER_NODE_ID) s)"
  "touches spares (stepPreOperational M s)" "touches spares (stepSnapshot M s)" "touches spares (checkStep (return b) s)"
  "touches spares (stepReadBack M s)" "touches spares (stepStartSlave M s)"
  "touches spares (checkStep (verifyQuietWindow M d) s)" "touches spares (stepTopology M s)"
  unfolding stepPreOperational_def stepSnapshot_def stepReadBack_def stepStartSlave_def stepTopology_def Let_def
  by (intro emits_intro; simp)+

lemma checkStep_flags: "wp (checkStep op s) (\<lambda>s' _. same_flags s s') v"
  unfolding checkStep_def by (intro wpi_if wpi_bind wp_any wpi_return) (auto simp: same_flags_def)

lemma plain_steps_flags:
  "wp (stepPreOperational M s) (\<lambda>s' _. same_flags s s') v" "wp (stepSnapshot M s) (\<lambda>s' _. same_flags s s') v"
  "wp (stepReadBack M s) (\<lambda>s' _. same_flags s s') v" "wp (stepStartSlave M s) (\<lambda>s' _. same_flags s s') v"
  unfolding stepPreOperational_def stepSnapshot_def stepReadBack_def stepStartSlave_def Let_def
     apply (rule wpi_if, rule wp_mono [OF checkStep_flags], auto simp: same_flags_def intro: wpi_return)[1]
    apply (intro wpi_if wpi_bind wpi_case_prod wp_any [where m = "readTpdoSnapshot M c l" for c l] wpi_return; simp add: same_flags_def)
   apply (intro wpi_if wpi_bind wpi_case_prod wp_any [where m = "readRemoteSdo T M n i j x" for T n i j x] wpi_return; simp add: same_flags_def)
  apply (intro wpi_if wpi_bind wpi_case_prod wp_any [where m = registerCallbacks] wp_any [where m = resetObservation]
    wp_any [where m = "issueNmtCommand M c n" for c n] wpi_return; simp add: same_flags_def)
  done

lemmas plain_steps = stim_step [OF _ plain_steps_touch(1) checkStep_flags]
  stim_step [OF _ plain_steps_touch(2) plain_steps_flags(1)] stim_step [OF _ plain_steps_touch(3) plain_steps_flags(2)]
  stim_step [OF _ plain_steps_touch(4) checkStep_flags] stim_step [OF _ plain_steps_touch(5) plain_steps_flags(3)]
  stim_step [OF _ plain_steps_touch(6) plain_steps_flags(4)] stim_step [OF _ plain_steps_touch(7) checkStep_flags]

lemma topology_saves:
  "wp (validateSyncTopology M i0 p0 False lost) (\<lambda>(ok, i, p, saved, lost') w'. (ok \<longrightarrow> saved) \<and>
     (saved \<longrightarrow> period_seen w p w')) w"
  unfolding validateSyncTopology_def Let_def sync_index_defs
  by (intro wpi_bind wpi_upload_state wpi_case_prod wpi_if wpi_return wpi_local_read)
     (auto simp: period_seen_def)

lemma spared_refl:
  "keeps spares u w \<Longrightarrow> keeps no_sdo_write u w" "keeps spares u w \<Longrightarrow> untouched_since u w"
  by (rule spared_trans(1) [OF keeps_refl]) (auto intro: spared_trans(2) [of u u] simp: untouched_since_def [of u u])

lemma first_step: "wp (stepTopology M initial_run) (stim False w) w"
  by (rule wp_keeps [OF plain_steps_touch(8), where P = "\<lambda>s' w'. keeps spares w w' \<longrightarrow> stim False w s' w'"])
     (auto simp: stepTopology_def initial_run_def stim_def Let_def
       intro!: wpi_bind wpi_return wp_mono [OF topology_saves] dest: spared_refl split: if_splits)

lemma stop_step: "stim False w s v \<Longrightarrow> wp (stepStopProducer M s) (stim True w) v"
  unfolding stepStopProducer_def
  by (intro wpi_if wpi_bind wpi_writeLocalSyncPeriod wpi_return)
     (auto simp: stim_def keeps_def untouched_since_def period_seen_def)

lemma configure_step:
  assumes "stim True w s v"
  shows "wp (stepConfigure M s) (stim True w) v"
proof -
  have "wp (configureSynchronousTpdo M c lost) (\<lambda>(ok, attempted, lost') w'. attempted \<and> keeps sync_objects v w') v" for c lost
    by (rule wp_keeps [OF sync_operations_touch(1) configuration_does(1)]) auto
  note changed = wp_mono [OF this]
  show ?thesis
    unfolding stepConfigure_def Let_def using assms
    by (intro wpi_if wpi_bind changed wpi_case_prod wpi_return) (auto simp: stim_def intro: spared_trans(3))
qed

lemma synchronous_step:
  assumes "stim True w s v"
  shows "wp (stepSynchronous M s) (stim True w) v"
proof (cases "sr_passed s")
  case True
  have "touches no_sdo_write (stepSynchronous M s)"
    unfolding stepSynchronous_def by (intro emits_intro; simp)
  then show ?thesis
    unfolding stepSynchronous_def
    by (rule wp_keeps [OF _ checkStep_flags])
       (use assms True in \<open>auto simp: stim_def same_flags_def intro: spared_trans(3) keeps_trans\<close>)
qed (use assms in \<open>simp add: failing_steps wpi_return\<close>)

lemma syncStimuli_stim: "wp (syncStimuli M) (stim True w) w"
  unfolding syncStimuli_def
  apply (rule wpi_bind, rule wp_mono [OF first_step])
  apply (rule wpi_bind, rule wp_mono, erule plain_steps)+
  apply (rule wpi_bind, rule wp_mono [OF stop_step], assumption)
  apply (rule wpi_bind, rule wp_mono [OF configure_step], assumption)
  apply (rule wpi_bind, rule wp_mono, erule plain_steps)+
  apply (erule synchronous_step)
  done


section \<open>Every run\<close>

fun no_local :: "mutation \<Rightarrow> bool" where
  "no_local (LocalWrite i sub v) \<longleftrightarrow> False"
| "no_local _ \<longleftrightarrow> True"

lemma untouched_keeps: "untouched_since u v \<Longrightarrow> keeps no_local v w \<Longrightarrow> untouched_since u w"
proof -
  have "period_untouched e" if "allowed no_local e" for e
    using that by (cases e) simp_all
  then have "list_all period_untouched es" if "list_all no_local (mutations es)" for es
    using that unfolding list_all_allowed [symmetric] by (auto elim: list.pred_mono_strong)
  then show "untouched_since u v \<Longrightarrow> keeps no_local v w \<Longrightarrow> untouched_since u w"
    unfolding keeps_def untouched_since_def by (metis append_assoc list_all_append)
qed

lemma period_seen_later: "period_seen u p v \<Longrightarrow> later v w \<Longrightarrow> period_seen u p w"
  unfolding period_seen_def later_def by (metis Un_iff append_assoc set_append)

lemma cleanup_no_local:
  "touches no_local (normalRestoration M s)" "touches no_local (resetRecovery M s)" "touches no_local (restartSlave M s)"
  unfolding normalRestoration_def resetRecovery_def restartSlave_def recoverTpdoStateWithReset_def restoreTpdoConfiguration_def Let_def
  by (intro emits_intro; simp)+

lemma finish_no_local: "\<not> sr_local_sync_period_touched s \<Longrightarrow> touches no_local (finishSync M s)"
  unfolding finishSync_def cleanupStep_def by (simp split del: if_split, intro emits_intro; simp)

lemma no_local_chain:
  assumes "keeps no_local v w" and "touches no_local m" and "wp m (\<lambda>s' w'. same_plan s s') w"
  shows "wp m (\<lambda>s' w'. same_plan s s' \<and> keeps no_local v w') w"
  using assms by (auto intro: wp_keeps [OF assms(2,3)] keeps_trans)

definition period_restored :: "SyncRun \<Rightarrow> world \<Rightarrow> int \<Rightarrow> world \<Rightarrow> bool" where
  "period_restored s v r w' \<longleftrightarrow> (\<exists>u e. later v u \<and> hist w' = EvLocalWrite 0x1006 0 (V32 (sr_original_local_sync_period s)) e # hist u \<and>
     (r = 1 \<or> e = NoError))"

lemma same_plan_trans: "same_plan s t \<Longrightarrow> same_plan t u \<Longrightarrow> same_plan s u"
  by (simp add: same_plan_def)

lemma restart_plan: "wp (restartSlave M s) (\<lambda>s' w'. same_plan s s' \<and> later w w') w"
  by (rule wp_mono [OF restart_safe]) (auto dest: keeps_later does_later)

lemma syncCleanup_period:
  "wp (syncCleanup M s) (\<lambda>r w'. if sr_local_sync_period_touched s
     then sr_local_sync_period_saved s \<longrightarrow> period_restored s w r w' else keeps no_local w w') w"
proof (cases "sr_local_sync_period_touched s")
  case True
  have last: "wp (finishSync M s4) (\<lambda>r w'. sr_local_sync_period_saved s \<longrightarrow> period_restored s w r w') w4"
    if "same_plan s s3" "later w w3" "same_plan s3 s4" "later w3 w4" for s3 s4 w3 w4
    by (rule wp_mono [OF finishSync_ends]) (use that True in \<open>auto simp: period_restored_def same_plan_def intro: later_trans\<close>)
  show ?thesis
    unfolding syncCleanup_def
    apply (simp only: True if_True)
    apply (rule wpi_bind, rule wp_mono [OF cleanup_progress(1)])
    apply (rule wpi_bind, rule wp_mono [OF cleanup_progress(2)], blast, blast)
    apply (rule wpi_bind, rule wp_mono [OF cleanup_progress(3)], assumption)
    apply (rule wpi_bind, rule wp_mono [OF restart_plan])
    apply (rule last; (auto simp: in_progress_def dest: keeps_later; fail)?)
    done
next
  case False
  have quiet: "cleanupStep False op s = return s" for op
    by (simp add: cleanupStep_def)
  have last: "wp (finishSync M s4) (\<lambda>r w'. keeps no_local w w') w4" if "same_plan s s4 \<and> keeps no_local w w4" for s4 w4
    by (rule wp_keeps [OF finish_no_local finishSync_ends]) (use that False in \<open>auto simp: same_plan_def intro: keeps_trans\<close>)
  have plans: "wp (normalRestoration M s1) (\<lambda>s' w'. same_plan s1 s') w1" "wp (resetRecovery M s1) (\<lambda>s' w'. same_plan s1 s') w1"
    "wp (restartSlave M s1) (\<lambda>s' w'. same_plan s1 s') w1" for s1 w1
    by (rule wp_mono [OF restoration_shows [OF later_refl]], simp)
      (rule wp_mono [OF reset_shows [OF later_refl, of _ True]], simp, simp, rule wp_mono [OF restart_plan], simp)
  note chain = wp_mono [OF no_local_chain [OF _ _ plans(1)]] wp_mono [OF no_local_chain [OF _ _ plans(2)]]
    wp_mono [OF no_local_chain [OF _ _ plans(3)]]
  show ?thesis
    unfolding syncCleanup_def
    apply (simp only: False if_False quiet State_Monad.bind_left_identity)
    apply (rule wpi_bind, rule chain(1) [OF keeps_refl cleanup_no_local(1)])
    apply (rule wpi_bind, rule chain(2) [OF _ cleanup_no_local(2)], blast)
    apply (rule wpi_bind, rule chain(3) [OF _ cleanup_no_local(3)], blast)
    apply (rule last, auto intro: same_plan_trans)
    done
qed

lemma syncPdoProcess_period:
  "wp (syncPdoProcess M) (\<lambda>r w'. untouched_since w w' \<or> (\<exists>p u e. period_seen w p u \<and>
     hist w' = EvLocalWrite 0x1006 0 (V32 p) e # hist u \<and> (r = 1 \<or> e = NoError))) w"
  unfolding syncPdoProcess_def
proof (rule wpi_bind, rule wp_mono [OF syncStimuli_stim], rule wp_mono [OF syncCleanup_period])
  fix s v r w'
  assume "stim True w s v"
    and "if sr_local_sync_period_touched s then sr_local_sync_period_saved s \<longrightarrow> period_restored s v r w' else keeps no_local v w'"
  then show "untouched_since w w' \<or> (\<exists>p u e. period_seen w p u \<and>
     hist w' = EvLocalWrite 0x1006 0 (V32 p) e # hist u \<and> (r = 1 \<or> e = NoError))"
    by (cases "sr_local_sync_period_touched s")
       (auto simp: stim_def period_restored_def intro: untouched_keeps period_seen_later)
qed

lemma syncPdoProcess_safe:
  "wp (syncStimuli M) (\<lambda>s v. wp (syncCleanup M s) (\<lambda>r w'. keeps no_sdo_write w v \<or> keeps no_start v w' \<or>
     started_as_shown (sr_original s) (sr_remote_sync_cob_id s) v w') v) w"
  by (rule wp_mono [OF syncStimuli_stim], rule wp_mono [OF syncCleanup_safe])
     (auto simp: stim_def cleanup_safe_def)

end
