(* ===== verification/Emcy_Consumer_Process.thy ===== *)
theory Emcy_Consumer_Process
  imports Sdo_Channel
begin

text \<open>
  EMCY consumer validation, \<open>src/emcy_consumer_process.cpp\<close>, and the access of the master class to its own
  EMCY stack, \<open>include/canopen_master.h\<close>.  The stack is the parameter of \<open>Host_World\<close>; the runtime state and
  the current snapshot, reference parameters of the code, are passed in and returned.
\<close>

section \<open>Constants\<close>

definition kDiagnosticIndex_ec :: u16 where "kDiagnosticIndex_ec = 0x2301"
definition kDiagnosticCountSubindex :: u8 where "kDiagnosticCountSubindex = 0x01"
definition kDiagnosticSourceNodeSubindex :: u8 where "kDiagnosticSourceNodeSubindex = 0x02"
definition kDiagnosticCobIdSubindex :: u8 where "kDiagnosticCobIdSubindex = 0x03"
definition kDiagnosticErrorCodeSubindex :: u8 where "kDiagnosticErrorCodeSubindex = 0x04"
definition kDiagnosticErrorRegisterSubindex :: u8 where "kDiagnosticErrorRegisterSubindex = 0x05"
definition kDiagnosticErrorBitSubindex :: u8 where "kDiagnosticErrorBitSubindex = 0x06"
definition kDiagnosticInfoCodeSubindex :: u8 where "kDiagnosticInfoCodeSubindex = 0x07"
definition kLocalErrorHistoryIndex :: u16 where "kLocalErrorHistoryIndex = 0x1003"
definition kLocalEmcyCobIdIndex :: u16 where "kLocalEmcyCobIdIndex = 0x1014"
definition kLocalEmcyInhibitIndex :: u16 where "kLocalEmcyInhibitIndex = 0x1015"
definition kScalarSubindex_ec :: u8 where "kScalarSubindex_ec = 0x00"
definition kCobIdInvalidMask_ec :: u32 where "kCobIdInvalidMask_ec = 0x80000000"
definition kExpectedHostEmcyCanId :: u32 where
  "kExpectedHostEmcyCanId = 0x80 + ucast CANOPEN_MASTER_NODE_ID"
definition kSdoTimeoutMs_ec :: nat where "kSdoTimeoutMs_ec = 500"
definition kSdoCompletionMarginMs_ec :: nat where "kSdoCompletionMarginMs_ec = 100"
definition kEmcyObservationTimeoutMs :: nat where "kEmcyObservationTimeoutMs = 2000"
definition kDiagnosticPollIntervalMs_ec :: nat where "kDiagnosticPollIntervalMs_ec = 20"
definition kSnapshotRetryCount :: nat where "kSnapshotRetryCount = 3"
definition kErrorCodeA :: u16 where "kErrorCodeA = 0xFF01"
definition kErrorCodeB :: u16 where "kErrorCodeB = 0xFF02"
definition kErrorRegister :: u8 where "kErrorRegister = 0x81"
definition kInfoCodeA :: u32 where "kInfoCodeA = 0x78563412"
definition kInfoCodeB :: u32 where "kInfoCodeB = 0x21436587"

record EmcyTestVector =
  tv_error_code :: u16
  tv_error_register :: u8
  tv_msef :: "u8 list"
  tv_expected_error_bit :: u8
  tv_expected_info_code :: u32

definition kVectorA :: EmcyTestVector where
  "kVectorA = \<lparr>tv_error_code = kErrorCodeA, tv_error_register = kErrorRegister,
     tv_msef = [0xA1, 0x12, 0x34, 0x56, 0x78], tv_expected_error_bit = 0xA1,
     tv_expected_info_code = kInfoCodeA\<rparr>"

definition kVectorB :: EmcyTestVector where
  "kVectorB = \<lparr>tv_error_code = kErrorCodeB, tv_error_register = kErrorRegister,
     tv_msef = [0xB2, 0x87, 0x65, 0x43, 0x21], tv_expected_error_bit = 0xB2,
     tv_expected_info_code = kInfoCodeB\<rparr>"

record EmcyConsumerSnapshot =
  ec_rx_count :: u32
  ec_source_node_id :: u8
  ec_cob_id :: u16
  ec_error_code :: u16
  ec_error_register :: u8
  ec_error_bit :: u8
  ec_info_code :: u32

definition default_emcy_snapshot :: EmcyConsumerSnapshot where
  "default_emcy_snapshot = \<lparr>ec_rx_count = 0, ec_source_node_id = 0, ec_cob_id = 0, ec_error_code = 0,
     ec_error_register = 0, ec_error_bit = 0, ec_info_code = 0\<rparr>"

record EmcyConsumerRuntimeState =
  host_error_active :: bool
  expected_host_error_count :: nat
  reset_communication_issued :: bool
  remote_operational_restored :: bool

definition default_emcy_runtime :: EmcyConsumerRuntimeState where
  "default_emcy_runtime = \<lparr>host_error_active = False, expected_host_error_count = 0,
     reset_communication_issued = False, remote_operational_restored = False\<rparr>"


section \<open>The stack of the master\<close>

definition localEmcyHistoryCount :: "lely \<Rightarrow> u8 \<Rightarrow> (bool \<times> u8) host" where
  "localEmcyHistoryCount M count = do {
     count_sub \<leftarrow> emcy_count M;
     return (case count_sub of None \<Rightarrow> (False, count) | Some n \<Rightarrow> (True, n)) }"

text \<open>The result of the push and whether the stack took the error.\<close>

definition pushLocalEmcy :: "lely \<Rightarrow> u16 \<Rightarrow> u8 \<Rightarrow> u8 list \<Rightarrow> (int \<times> bool) host" where
  "pushLocalEmcy M error_code error_register msef = do {
     emcy \<leftarrow> emcy_available M;
     if \<not> emcy then return (-1, False)
     else do {
       (previous_error, previous_register) \<leftarrow> emcy_peek M;
       let previous_stack_empty = (previous_error = 0 \<and> previous_register = 0);
       (previous_count_valid, previous_count) \<leftarrow>
         (if previous_stack_empty then return (False, 0) else localEmcyHistoryCount M 0);
       pushed \<leftarrow> submit_push M error_code error_register msef;
       if pushed then return (0, True)
       else do {
         (active_error, active_register) \<leftarrow> emcy_peek M;
         stack_updated \<leftarrow>
           (if previous_stack_empty then return (active_error = error_code \<and> active_register \<noteq> 0)
            else if previous_count_valid then do {
              (counted, active_count) \<leftarrow> localEmcyHistoryCount M 0;
              return (counted \<and> active_error = error_code \<and> unat active_count = unat previous_count + 1) }
            else return (previous_error \<noteq> error_code \<and> active_error = error_code));
         return (-1, stack_updated)
       } } }"

definition peekLocalEmcy :: "lely \<Rightarrow> u16 \<Rightarrow> u8 \<Rightarrow> (bool \<times> u16 \<times> u8) host" where
  "peekLocalEmcy M error_code error_register = do {
     emcy \<leftarrow> emcy_available M;
     if \<not> emcy then return (False, error_code, error_register)
     else do {
       (code, reg) \<leftarrow> emcy_peek M;
       return (True, code, reg) } }"

text \<open>\<open>CanopenTestMaster::clearLocalEmcy\<close>; the process has a function of the same name.\<close>

definition clearLocalEmcyStack :: "lely \<Rightarrow> int host" where
  "clearLocalEmcyStack M = do {
     emcy \<leftarrow> emcy_available M;
     if \<not> emcy then return (-1)
     else do { cleared \<leftarrow> submit_clear M; return (if cleared then 0 else -1) } }"


section \<open>Diagnostics\<close>

definition readRemoteDiagnostic :: "'a sdo_type \<Rightarrow> lely \<Rightarrow> u16 \<Rightarrow> u8 \<Rightarrow> 'a \<Rightarrow> (bool \<times> 'a) host" where
  "readRemoteDiagnostic T M index subindex value = do {
     (result, value') \<leftarrow> readRemoteSdoFor T M CANOPEN_SLAVE_NODE_ID index subindex value
        kSdoTimeoutMs_ec kSdoCompletionMarginMs_ec;
     if result \<noteq> SUCCESS then return (False, value') else return (True, value') }"

definition validateProducerPreflight :: "lely \<Rightarrow> bool host" where
  "validateProducerPreflight M = do {
     (ok, cob_id) \<leftarrow> readLocalObject lU32 M kLocalEmcyCobIdIndex kScalarSubindex_ec 0;
     if \<not> ok then return False
     else do {
       (ok, inhibit_time) \<leftarrow> readLocalObject lU16 M kLocalEmcyInhibitIndex kScalarSubindex_ec 0;
       if \<not> ok then return False
       else if cob_id AND kCobIdInvalidMask_ec \<noteq> 0 then return False
       else if cob_id \<noteq> kExpectedHostEmcyCanId then return False
       else if inhibit_time \<noteq> 0 then return False
       else do {
         (available, active_error, active_register) \<leftarrow> peekLocalEmcy M 0 0;
         if \<not> available then return False
         else if active_error \<noteq> 0 \<or> active_register \<noteq> 0 then return False
         else return True
       } } }"

fun readSnapshotAttempts :: "lely \<Rightarrow> nat \<Rightarrow> EmcyConsumerSnapshot \<Rightarrow> (bool \<times> EmcyConsumerSnapshot) host" where
  "readSnapshotAttempts M 0 snapshot = return (False, snapshot)"
| "readSnapshotAttempts M (Suc remaining) snapshot = do {
     (ok, count_before) \<leftarrow> readRemoteDiagnostic tU32 M kDiagnosticIndex_ec kDiagnosticCountSubindex 0;
     if \<not> ok then return (False, snapshot) else do {
     (ok, source) \<leftarrow> readRemoteDiagnostic tU8 M kDiagnosticIndex_ec kDiagnosticSourceNodeSubindex 0;
     if \<not> ok then return (False, snapshot) else do {
     (ok, cob) \<leftarrow> readRemoteDiagnostic tU16 M kDiagnosticIndex_ec kDiagnosticCobIdSubindex 0;
     if \<not> ok then return (False, snapshot) else do {
     (ok, code) \<leftarrow> readRemoteDiagnostic tU16 M kDiagnosticIndex_ec kDiagnosticErrorCodeSubindex 0;
     if \<not> ok then return (False, snapshot) else do {
     (ok, reg) \<leftarrow> readRemoteDiagnostic tU8 M kDiagnosticIndex_ec kDiagnosticErrorRegisterSubindex 0;
     if \<not> ok then return (False, snapshot) else do {
     (ok, error_bit) \<leftarrow> readRemoteDiagnostic tU8 M kDiagnosticIndex_ec kDiagnosticErrorBitSubindex 0;
     if \<not> ok then return (False, snapshot) else do {
     (ok, info) \<leftarrow> readRemoteDiagnostic tU32 M kDiagnosticIndex_ec kDiagnosticInfoCodeSubindex 0;
     if \<not> ok then return (False, snapshot) else do {
     (ok, count_after) \<leftarrow> readRemoteDiagnostic tU32 M kDiagnosticIndex_ec kDiagnosticCountSubindex 0;
     if \<not> ok then return (False, snapshot)
     else if count_before = count_after then
       return (True, \<lparr>ec_rx_count = count_after, ec_source_node_id = source, ec_cob_id = cob,
         ec_error_code = code, ec_error_register = reg, ec_error_bit = error_bit, ec_info_code = info\<rparr>)
     else readSnapshotAttempts M remaining snapshot } } } } } } } }"

definition readStableSnapshot :: "lely \<Rightarrow> EmcyConsumerSnapshot \<Rightarrow> (bool \<times> EmcyConsumerSnapshot) host" where
  "readStableSnapshot M snapshot = readSnapshotAttempts M kSnapshotRetryCount snapshot"

definition rxCountBody :: "lely \<Rightarrow> u32 \<Rightarrow> u32 \<Rightarrow> unit \<Rightarrow> (unit + bool \<times> u32) host" where
  "rxCountBody M baseline_count observed_count _ = do {
     let expected_count = baseline_count + 1;
     (ok, current_count) \<leftarrow> readRemoteDiagnostic tU32 M kDiagnosticIndex_ec kDiagnosticCountSubindex 0;
     if \<not> ok then return (Inr (False, observed_count))
     else if current_count = expected_count then return (Inr (True, current_count))
     else if current_count \<noteq> baseline_count then return (Inr (False, observed_count))
     else do {
       sleep_for M (ms kDiagnosticPollIntervalMs_ec);
       return (Inl ()) } }"

definition waitForNextRxCount :: "lely \<Rightarrow> u32 \<Rightarrow> u32 \<Rightarrow> (bool \<times> u32) host" where
  "waitForNextRxCount M baseline_count observed_count = do {
     start \<leftarrow> steady_now M;
     let deadline = start + ms kEmcyObservationTimeoutMs;
     r \<leftarrow> deadline_do_while M deadline (rxCountBody M baseline_count observed_count) ();
     return (case r of Inr x \<Rightarrow> x | Inl _ \<Rightarrow> (False, observed_count)) }"


section \<open>Checks of a snapshot\<close>

definition validateVectorSnapshot :: "EmcyConsumerSnapshot \<Rightarrow> u32 \<Rightarrow> EmcyTestVector \<Rightarrow> bool" where
  "validateVectorSnapshot snapshot expected_count vec =
     (let result = True;
          result = (if ec_rx_count snapshot \<noteq> expected_count then False else result);
          result = (if ec_source_node_id snapshot \<noteq> CANOPEN_MASTER_NODE_ID then False else result);
          result = (if ucast (ec_cob_id snapshot) \<noteq> kExpectedHostEmcyCanId then False else result);
          result = (if ec_error_code snapshot \<noteq> tv_error_code vec \<or>
                       ec_error_register snapshot \<noteq> tv_error_register vec \<or>
                       ec_error_bit snapshot \<noteq> tv_expected_error_bit vec \<or>
                       ec_info_code snapshot \<noteq> tv_expected_info_code vec then False else result)
      in result)"

definition validateRecoverySnapshot :: "EmcyConsumerSnapshot \<Rightarrow> u32 \<Rightarrow> bool" where
  "validateRecoverySnapshot snapshot expected_count =
     (if ec_rx_count snapshot \<noteq> expected_count \<or> ec_source_node_id snapshot \<noteq> CANOPEN_MASTER_NODE_ID \<or>
         ucast (ec_cob_id snapshot) \<noteq> kExpectedHostEmcyCanId \<or> ec_error_code snapshot \<noteq> 0 \<or>
         ec_error_register snapshot \<noteq> 0 \<or> ec_error_bit snapshot \<noteq> 0 \<or> ec_info_code snapshot \<noteq> 0
      then False else True)"

definition validateResetPreservedSnapshot :: "EmcyConsumerSnapshot \<Rightarrow> EmcyConsumerSnapshot \<Rightarrow> bool" where
  "validateResetPreservedSnapshot before after =
     (if ec_rx_count after = ec_rx_count before \<and> ec_source_node_id after = ec_source_node_id before \<and>
         ec_cob_id after = ec_cob_id before \<and> ec_error_code after = ec_error_code before \<and>
         ec_error_register after = ec_error_register before \<and> ec_error_bit after = ec_error_bit before \<and>
         ec_info_code after = ec_info_code before
      then True else False)"


section \<open>Stimuli\<close>

definition emitTestEmcy ::
    "lely \<Rightarrow> EmcyConsumerRuntimeState \<Rightarrow> EmcyTestVector \<Rightarrow> (bool \<times> EmcyConsumerRuntimeState) host" where
  "emitTestEmcy M st vec = do {
     (push_result, stack_updated) \<leftarrow>
       pushLocalEmcy M (tv_error_code vec) (tv_error_register vec) (tv_msef vec);
     let st = (if stack_updated
               then st\<lparr>host_error_active := True,
                       expected_host_error_count := expected_host_error_count st + 1\<rparr>
               else st);
     if push_result = -1 then return (False, st) else return (True, st) }"

definition clearLocalEmcy :: "lely \<Rightarrow> EmcyConsumerRuntimeState \<Rightarrow> (bool \<times> EmcyConsumerRuntimeState) host" where
  "clearLocalEmcy M st = do {
     (ok, history_count) \<leftarrow> readLocalObject lU8 M kLocalErrorHistoryIndex kScalarSubindex_ec 0;
     if \<not> ok then return (False, st)
     else if unat history_count \<noteq> expected_host_error_count st then return (False, st)
     else do {
       (available, active_error, active_register) \<leftarrow> peekLocalEmcy M 0 0;
       if \<not> available then return (False, st)
       else if active_error = 0 \<and> active_register = 0
       then return (True, st\<lparr>host_error_active := False, expected_host_error_count := 0\<rparr>)
       else if (active_error \<noteq> kErrorCodeA \<and> active_error \<noteq> kErrorCodeB) \<or> active_register \<noteq> kErrorRegister
       then return (False, st)
       else do {
         clear_result \<leftarrow> clearLocalEmcyStack M;
         let st = st\<lparr>host_error_active := False, expected_host_error_count := 0\<rparr>;
         if clear_result = -1 then return (False, st) else return (True, st)
       } } }"

definition emitAndValidateVector ::
    "lely \<Rightarrow> EmcyConsumerRuntimeState \<Rightarrow> EmcyConsumerSnapshot \<Rightarrow> EmcyTestVector \<Rightarrow>
       (bool \<times> EmcyConsumerRuntimeState \<times> EmcyConsumerSnapshot) host" where
  "emitAndValidateVector M st current vec = do {
     let baseline_count = ec_rx_count current;
     (emitted, st) \<leftarrow> emitTestEmcy M st vec;
     if \<not> emitted then return (False, st, current)
     else do {
       (counted, observed_count) \<leftarrow> waitForNextRxCount M baseline_count 0;
       if \<not> counted then return (False, st, current)
       else do {
         (ok, next_snapshot) \<leftarrow> readStableSnapshot M default_emcy_snapshot;
         if \<not> ok \<or> \<not> validateVectorSnapshot next_snapshot observed_count vec then return (False, st, current)
         else return (True, st, next_snapshot)
       } } }"

definition clearAndValidateRecovery ::
    "lely \<Rightarrow> EmcyConsumerRuntimeState \<Rightarrow> EmcyConsumerSnapshot \<Rightarrow>
       (bool \<times> EmcyConsumerRuntimeState \<times> EmcyConsumerSnapshot) host" where
  "clearAndValidateRecovery M st current = do {
     let baseline_count = ec_rx_count current;
     if \<not> host_error_active st then return (False, st, current)
     else do {
       (cleared, st) \<leftarrow> clearLocalEmcy M st;
       if \<not> cleared then return (False, st, current)
       else do {
         (counted, observed_count) \<leftarrow> waitForNextRxCount M baseline_count 0;
         if \<not> counted then return (False, st, current)
         else do {
           (ok, next_snapshot) \<leftarrow> readStableSnapshot M default_emcy_snapshot;
           if \<not> ok \<or> \<not> validateRecoverySnapshot next_snapshot observed_count then return (False, st, current)
           else return (True, st, next_snapshot)
         } } } }"

definition validateSdoHealth :: "lely \<Rightarrow> bool host" where
  "validateSdoHealth M = do {
     (result, device_type) \<leftarrow> readRemoteSdoFor tU32 M CANOPEN_SLAVE_NODE_ID 0x1000 kScalarSubindex_ec 0
        kSdoTimeoutMs_ec kSdoCompletionMarginMs_ec;
     if result \<noteq> SUCCESS then return False else return True }"


section \<open>The process\<close>

text \<open>The end of the reset case, from the post-reset snapshot on.\<close>

definition reboundConsumer ::
    "lely \<Rightarrow> EmcyConsumerRuntimeState \<Rightarrow> EmcyConsumerSnapshot \<Rightarrow>
       (bool \<times> EmcyConsumerRuntimeState \<times> EmcyConsumerSnapshot) host" where
  "reboundConsumer M st pre_reset = do {
     (ok, post_reset) \<leftarrow> readStableSnapshot M default_emcy_snapshot;
     if \<not> ok then return (False, st, pre_reset)
     else if \<not> validateResetPreservedSnapshot pre_reset post_reset then return (False, st, pre_reset)
     else do {
       let current = post_reset;
       (ok, st, current) \<leftarrow> emitAndValidateVector M st current kVectorB;
       if \<not> ok then return (False, st, current)
       else do {
         (ok, st, current) \<leftarrow> clearAndValidateRecovery M st current;
         if \<not> ok then return (False, st, current)
         else if \<not> remote_operational_restored st then do {
           started \<leftarrow> issueNmtCommandAndWaitForState M START CANOPEN_SLAVE_NODE_ID nmt_START
                        CANOPEN_WAIT_TIMEOUT_MS;
           if \<not> started then return (False, st, current)
           else return (True, st\<lparr>remote_operational_restored := True\<rparr>, current) }
         else return (True, st, current)
       } } }"

definition validateResetRebind_ec ::
    "lely \<Rightarrow> EmcyConsumerRuntimeState \<Rightarrow> EmcyConsumerSnapshot \<Rightarrow>
       (bool \<times> EmcyConsumerRuntimeState \<times> EmcyConsumerSnapshot) host" where
  "validateResetRebind_ec M st current =
     (if host_error_active st then return (False, st, current)
      else do {
        (ok, st, current) \<leftarrow> emitAndValidateVector M st current kVectorA;
        if \<not> ok then return (False, st, current)
        else do {
          let pre_reset = current;
          prepareBootWait;
          issued \<leftarrow> issueNmtCommand M RESET_COMM CANOPEN_SLAVE_NODE_ID;
          if \<not> issued then return (False, st, current)
          else do {
            let st = st\<lparr>reset_communication_issued := True, remote_operational_restored := False\<rparr>;
            (booted, boot_state) \<leftarrow> waitForBootCompletionState M CANOPEN_WAIT_TIMEOUT_MS nmt_BOOTUP;
            if \<not> booted then return (False, st, current)
            else do {
              let st = st\<lparr>remote_operational_restored := (boot_state = nmt_START)\<rparr>;
              reboundConsumer M st pre_reset
            } } } })"

text \<open>The six deliveries and two recoveries before the health check and the reset case, in their order.\<close>

definition deliverVectors ::
    "lely \<Rightarrow> EmcyConsumerRuntimeState \<Rightarrow> EmcyConsumerSnapshot \<Rightarrow>
       (bool \<times> EmcyConsumerRuntimeState \<times> EmcyConsumerSnapshot) host" where
  "deliverVectors M st current = do {
     (ok, st, current) \<leftarrow> emitAndValidateVector M st current kVectorA;
     if \<not> ok then return (False, st, current) else do {
     (ok, st, current) \<leftarrow> emitAndValidateVector M st current kVectorB;
     if \<not> ok then return (False, st, current) else do {
     (ok, st, current) \<leftarrow> clearAndValidateRecovery M st current;
     if \<not> ok then return (False, st, current) else do {
     (ok, st, current) \<leftarrow> emitAndValidateVector M st current kVectorA;
     if \<not> ok then return (False, st, current) else do {
     (ok, st, current) \<leftarrow> emitAndValidateVector M st current kVectorA;
     if \<not> ok then return (False, st, current)
     else clearAndValidateRecovery M st current } } } } }"

definition runEmcyConsumerValidation ::
    "lely \<Rightarrow> EmcyConsumerRuntimeState \<Rightarrow> (bool \<times> EmcyConsumerRuntimeState) host" where
  "runEmcyConsumerValidation M st = do {
     (ok, current) \<leftarrow> readStableSnapshot M default_emcy_snapshot;
     if \<not> ok then return (False, st)
     else do {
       (ok, st, current) \<leftarrow> deliverVectors M st current;
       if \<not> ok then return (False, st)
       else do {
         healthy \<leftarrow> validateSdoHealth M;
         if \<not> healthy then return (False, st)
         else do {
           (ok, st, current) \<leftarrow> validateResetRebind_ec M st current;
           return (ok, st)
         } } } }"

definition cleanupEmcyConsumerValidation ::
    "lely \<Rightarrow> EmcyConsumerRuntimeState \<Rightarrow> (bool \<times> EmcyConsumerRuntimeState) host" where
  "cleanupEmcyConsumerValidation M st = do {
     let result = True;
     (result, st) \<leftarrow>
       (if host_error_active st then do {
          (cleared, st) \<leftarrow> clearLocalEmcy M st;
          return (if \<not> cleared then False else result, st) }
        else return (result, st));
     if reset_communication_issued st \<and> \<not> remote_operational_restored st then do {
       started \<leftarrow> issueNmtCommandAndWaitForState M START CANOPEN_SLAVE_NODE_ID nmt_START
                    CANOPEN_WAIT_TIMEOUT_MS;
       if \<not> started then return (False, st)
       else return (result, st\<lparr>remote_operational_restored := True\<rparr>) }
     else return (result, st) }"

definition emcyConsumerProcess :: "lely \<Rightarrow> int host" where
  "emcyConsumerProcess M = do {
     ready \<leftarrow> validateProducerPreflight M;
     if \<not> ready then return 1
     else do {
       (validated, st) \<leftarrow> runEmcyConsumerValidation M default_emcy_runtime;
       let result = (if validated then 0 else 1);
       (cleaned, st) \<leftarrow> cleanupEmcyConsumerValidation M st;
       return (if \<not> cleaned then 1 else result)
     } }"

section \<open>Single operations\<close>

lemma wpi_readRemoteDiagnostic [wp_intro]:
  assumes "\<And>ok v e w'. hist w' = e # hist w \<Longrightarrow> mutation_of e = None \<Longrightarrow>
     (ok \<Longrightarrow> saw CANOPEN_SLAVE_NODE_ID i s (t_value T v) e) \<Longrightarrow> Q (ok, v) w'"
  shows "wp (readRemoteDiagnostic T M i s v0) Q w"
  unfolding readRemoteDiagnostic_def
  by (intro wpi_bind wpi_upload_state wpi_case_prod wpi_if wpi_return) (auto intro!: assms)

text \<open>Eight uploads, newest first, that show a snapshot, the counter before and after it.\<close>

fun shows_emcy :: "EmcyConsumerSnapshot \<Rightarrow> history \<Rightarrow> bool" where
  "shows_emcy s [e8, e7, e6, e5, e4, e3, e2, e1] \<longleftrightarrow>
     saw CANOPEN_SLAVE_NODE_ID 0x2301 1 (V32 (ec_rx_count s)) e1 \<and>
     saw CANOPEN_SLAVE_NODE_ID 0x2301 2 (V8 (ec_source_node_id s)) e2 \<and>
     saw CANOPEN_SLAVE_NODE_ID 0x2301 3 (V16 (ec_cob_id s)) e3 \<and>
     saw CANOPEN_SLAVE_NODE_ID 0x2301 4 (V16 (ec_error_code s)) e4 \<and>
     saw CANOPEN_SLAVE_NODE_ID 0x2301 5 (V8 (ec_error_register s)) e5 \<and>
     saw CANOPEN_SLAVE_NODE_ID 0x2301 6 (V8 (ec_error_bit s)) e6 \<and>
     saw CANOPEN_SLAVE_NODE_ID 0x2301 7 (V32 (ec_info_code s)) e7 \<and>
     saw CANOPEN_SLAVE_NODE_ID 0x2301 1 (V32 (ec_rx_count s)) e8"
| "shows_emcy s _ \<longleftrightarrow> False"

text \<open>\<open>published s w w'\<close>: the run from \<open>w\<close> to \<open>w'\<close> ends with a snapshot that shows \<open>s\<close>.\<close>

definition published :: "EmcyConsumerSnapshot \<Rightarrow> world \<Rightarrow> world \<Rightarrow> bool" where
  "published s w w' \<longleftrightarrow> (\<exists>x es. later w x \<and> hist w' = es @ hist x \<and> shows_emcy s es)"

lemma published_back: "later u w \<Longrightarrow> published s w w' \<Longrightarrow> published s u w'"
  unfolding published_def by (blast intro: later_trans)

lemmas ec_index_defs = kDiagnosticIndex_ec_def kDiagnosticCountSubindex_def kDiagnosticSourceNodeSubindex_def
  kDiagnosticCobIdSubindex_def kDiagnosticErrorCodeSubindex_def kDiagnosticErrorRegisterSubindex_def
  kDiagnosticErrorBitSubindex_def kDiagnosticInfoCodeSubindex_def

lemma published_now:
  "hist w' = e8 # e7 # e6 # e5 # e4 # e3 # e2 # e1 # hist w \<Longrightarrow> shows_emcy s [e8, e7, e6, e5, e4, e3, e2, e1] \<Longrightarrow>
     published s w w'"
  unfolding published_def by (rule exI [of _ w], rule exI [of _ "[e8, e7, e6, e5, e4, e3, e2, e1]"]) simp

lemma diagnostics_read [emits_intro]:
  "touches S (readRemoteDiagnostic T M i s v)" "touches S (readSnapshotAttempts M n s0)"
  "touches S (readStableSnapshot M s0)" "touches S (waitForNextRxCount M b c)"
proof -
  show diag: "touches S (readRemoteDiagnostic T M i s v)" for T i s v
    unfolding readRemoteDiagnostic_def by (intro emits_intro)
  show attempts: "touches S (readSnapshotAttempts M n s0)" for n
    by (induction n) (auto intro!: emits_intro diag)
  show "touches S (readStableSnapshot M s0)"
    unfolding readStableSnapshot_def by (rule attempts)
  show "touches S (waitForNextRxCount M b c)"
    unfolding waitForNextRxCount_def rxCountBody_def Let_def by (intro emits_intro diag; simp)
qed

lemma stack_reads_touch [emits_intro]:
  "touches S (localEmcyHistoryCount M n)" "touches S (peekLocalEmcy M c r)"
  unfolding localEmcyHistoryCount_def peekLocalEmcy_def by (intro emits_intro)+

lemma later_eight: "hist w' = e8 # e7 # e6 # e5 # e4 # e3 # e2 # e1 # hist w \<Longrightarrow> later w w'"
  unfolding later_def by (rule exI [of _ "[e8, e7, e6, e5, e4, e3, e2, e1]"]) simp

lemma readSnapshotAttempts_shows:
  "wp (readSnapshotAttempts M n s0) (\<lambda>(ok, s) w'. ok \<longrightarrow> published s w w') w"
proof (induction n arbitrary: w)
  case (Suc n)
  show ?case
    unfolding readSnapshotAttempts.simps ec_index_defs
    by (intro wpi_bind wpi_readRemoteDiagnostic wpi_case_prod wpi_if wpi_return wp_mono [OF Suc])
       (auto intro: published_now published_back [OF later_eight])
qed (simp add: wpi_return)

lemma readStableSnapshot_shows:
  assumes "\<And>ok s w'. quiet w w' \<Longrightarrow> (ok \<Longrightarrow> published s w w') \<Longrightarrow> Q (ok, s) w'"
  shows "wp (readStableSnapshot M s0) Q w"
  unfolding readStableSnapshot_def
  by (rule wp_read_only [OF diagnostics_read(2) readSnapshotAttempts_shows]) (use assms in auto)

lemma rxCount_next:
  assumes "\<And>ok c w'. quiet w w' \<Longrightarrow> (ok \<Longrightarrow> c = n + 1) \<Longrightarrow> Q (ok, c) w'"
  shows "wp (waitForNextRxCount M n c0) Q w"
proof -
  have "wp (waitForNextRxCount M n c0) (\<lambda>(ok, c) w'. ok \<longrightarrow> c = n + 1) w"
    unfolding waitForNextRxCount_def rxCountBody_def Let_def
    by (intro wp_intro wp_deadline_do_while [where I = "\<lambda>_ _. True"]) (auto simp: host_wp)
  then show ?thesis
    by (rule wp_read_only [OF diagnostics_read(4)]) (use assms in auto)
qed

text \<open>Calls that change nothing, for the lists of changes.\<close>

lemma stack_reads_quiet:
  "(\<And>c r w'. quiet w w' \<Longrightarrow> Q1 (c, r) w') \<Longrightarrow> wp (emcy_peek M) Q1 w"
  "(\<And>r w'. quiet w w' \<Longrightarrow> Q2 r w') \<Longrightarrow> wp (localEmcyHistoryCount M c) Q2 w"
   apply (rule wpi_local_services, auto simp: quiet_def)[1]
  apply (rule wp_quiet [OF stack_reads_touch(1)], blast)
  done

lemma quiet_push:
  "quiet u v \<Longrightarrow> hist w = EvEmcyPush c r d ok # hist v \<Longrightarrow> does u [EmcyPush c r d] w"
  unfolding does_quiet using does_trans does_event(1) by fastforce

lemma emitTestEmcy_does:
  "wp (emitTestEmcy M st vec) (\<lambda>(ok, st') w'. ok \<longrightarrow>
     does w [EmcyPush (tv_error_code vec) (tv_error_register vec) (tv_msef vec)] w' \<and>
     st' = st\<lparr>host_error_active := True, expected_host_error_count := expected_host_error_count st + 1\<rparr>) w"
  unfolding emitTestEmcy_def pushLocalEmcy_def Let_def
  apply (intro wpi_bind stack_reads_quiet wpi_local_services wpi_case_prod wpi_if wpi_return)
  apply (auto intro: quiet_push quiet_trans)
  done

text \<open>The effect of a step of a passing run.\<close>

abbreviation emcy_push_of :: "EmcyTestVector \<Rightarrow> mutation" where
  "emcy_push_of vec \<equiv> EmcyPush (tv_error_code vec) (tv_error_register vec) (tv_msef vec)"

abbreviation pushed_once :: "EmcyConsumerRuntimeState \<Rightarrow> EmcyConsumerRuntimeState" where
  "pushed_once st \<equiv> st\<lparr>host_error_active := True, expected_host_error_count := expected_host_error_count st + 1\<rparr>"

abbreviation cleared_state :: "EmcyConsumerRuntimeState \<Rightarrow> EmcyConsumerRuntimeState" where
  "cleared_state st \<equiv> st\<lparr>host_error_active := False, expected_host_error_count := 0\<rparr>"

definition matches_vector :: "EmcyConsumerSnapshot \<Rightarrow> EmcyTestVector \<Rightarrow> bool" where
  "matches_vector s vec \<longleftrightarrow> ec_source_node_id s = 127 \<and> ec_cob_id s = 0xFF \<and> ec_error_code s = tv_error_code vec \<and>
     ec_error_register s = tv_error_register vec \<and> ec_error_bit s = tv_expected_error_bit vec \<and>
     ec_info_code s = tv_expected_info_code vec"

definition matches_recovery :: "EmcyConsumerSnapshot \<Rightarrow> bool" where
  "matches_recovery s \<longleftrightarrow> ec_source_node_id s = 127 \<and> ec_cob_id s = 0xFF \<and> ec_error_code s = 0 \<and>
     ec_error_register s = 0 \<and> ec_error_bit s = 0 \<and> ec_info_code s = 0"

lemma expected_can_id: "(ucast (c :: u16) :: u32) = kExpectedHostEmcyCanId \<longleftrightarrow> c = 0xFF"
proof -
  have "(ucast c :: u32) = 0xFF \<longleftrightarrow> c = 0xFF"
    by (simp add: word_unat_eq_iff)
  then show ?thesis by (simp add: kExpectedHostEmcyCanId_def CANOPEN_MASTER_NODE_ID_def)
qed

lemma validateVectorSnapshot_iff:
  "validateVectorSnapshot s n vec \<longleftrightarrow> ec_rx_count s = n \<and> matches_vector s vec"
  by (auto simp: validateVectorSnapshot_def Let_def matches_vector_def expected_can_id CANOPEN_MASTER_NODE_ID_def)

lemma validateRecoverySnapshot_iff:
  "validateRecoverySnapshot s n \<longleftrightarrow> ec_rx_count s = n \<and> matches_recovery s"
  by (auto simp: validateRecoverySnapshot_def matches_recovery_def expected_can_id CANOPEN_MASTER_NODE_ID_def)

lemma validateResetPreservedSnapshot_iff: "validateResetPreservedSnapshot a b \<longleftrightarrow> a = b"
  by (auto simp: validateResetPreservedSnapshot_def)

definition delivered_vector :: "EmcyTestVector \<Rightarrow> world \<Rightarrow> EmcyConsumerSnapshot \<Rightarrow> world \<Rightarrow> EmcyConsumerSnapshot \<Rightarrow> bool" where
  "delivered_vector vec w s w' s' \<longleftrightarrow> does w [emcy_push_of vec] w' \<and> published s' w w' \<and>
     ec_rx_count s' = ec_rx_count s + 1 \<and> matches_vector s' vec"

lemma does_quiet_end: "does u xs v \<Longrightarrow> quiet v w \<Longrightarrow> does u xs w"
  unfolding does_quiet using does_trans [of u xs v "[]" w] by simp

lemma shown_after:
  assumes "does u xs v" and "quiet v x" and "quiet x w" and "published s x w"
  shows "does u xs w \<and> published s u w"
  using does_quiet_end [OF does_quiet_end [OF assms(1,2)] assms(3)] assms(4)
    published_back [OF later_trans [OF does_later [OF assms(1)] quiet_later [OF assms(2)]]] by blast

lemma emitAndValidateVector_passing:
  "wp (emitAndValidateVector M st s vec) (\<lambda>(ok, st', s') w'. ok \<longrightarrow>
     st' = pushed_once st \<and> delivered_vector vec w s w' s') w"
  unfolding emitAndValidateVector_def Let_def validateVectorSnapshot_iff
  apply (intro wpi_bind wp_mono [OF emitTestEmcy_does] rxCount_next readStableSnapshot_shows wpi_case_prod wpi_if wpi_return)
     apply (simp_all add: delivered_vector_def)
  apply (blast dest: shown_after)
  done

definition clears :: "mutation list set" where
  "clears = {[EmcyClear], []}"

definition recovered :: "world \<Rightarrow> EmcyConsumerSnapshot \<Rightarrow> world \<Rightarrow> EmcyConsumerSnapshot \<Rightarrow> mutation list \<Rightarrow> bool" where
  "recovered w s w' s' cs \<longleftrightarrow> cs \<in> clears \<and> does w cs w' \<and> published s' w w' \<and>
     ec_rx_count s' = ec_rx_count s + 1 \<and> matches_recovery s'"

lemma clearLocalEmcy_does:
  "wp (clearLocalEmcy M st) (\<lambda>(ok, st') w'. ok \<longrightarrow> st' = cleared_state st \<and> (does w [EmcyClear] w' \<or> does w [] w')) w"
  unfolding clearLocalEmcy_def peekLocalEmcy_def clearLocalEmcyStack_def Let_def
  by (intro wpi_bind wpi_readLocalObject wpi_local_services wpi_case_prod wpi_if wpi_return)
     (auto intro: does_short)

lemma clearAndValidateRecovery_passing:
  "wp (clearAndValidateRecovery M st s) (\<lambda>(ok, st', s') w'. ok \<longrightarrow>
     st' = cleared_state st \<and> (\<exists>cs. recovered w s w' s' cs)) w"
  unfolding clearAndValidateRecovery_def Let_def validateRecoverySnapshot_iff
  apply (intro wpi_bind wp_mono [OF clearLocalEmcy_does] rxCount_next readStableSnapshot_shows wpi_case_prod wpi_if wpi_return)
     apply (simp_all add: recovered_def)
  apply (elim conjE disjE)
   apply (frule (3) shown_after, metis clears_def insertCI)
  apply (frule (3) shown_after, metis clears_def insertCI)
  done


section \<open>A passing run\<close>

lemma wp_then:
  assumes "wp m (\<lambda>(ok, st', s') w'. ok \<longrightarrow> P st' s' w') w"
    and "\<And>st' s' w'. P st' s' w' \<Longrightarrow> wp (f st' s') (\<lambda>(ok, st', s') w'. ok \<longrightarrow> R st' s' w') w'"
  shows "wp (State_Monad.bind m (\<lambda>(ok, st, current). if \<not> ok then return (False, st, current) else f st current))
     (\<lambda>(ok, st', s') w'. ok \<longrightarrow> R st' s' w') w"
  by (rule wpi_bind, rule wp_mono [OF assms(1)]) (auto intro!: wpi_return assms(2))

text \<open>The effect of a step on what a passing run has done since \<open>u\<close>, \<open>n\<close> publications after \<open>s0\<close>.\<close>

definition gone :: "world \<Rightarrow> EmcyConsumerSnapshot \<Rightarrow> nat \<Rightarrow> mutation list \<Rightarrow> EmcyConsumerSnapshot \<Rightarrow> world \<Rightarrow> bool" where
  "gone u s0 n xs s w \<longleftrightarrow> does u xs w \<and> ec_rx_count s = ec_rx_count s0 + of_nat n"

lemma wp_emit:
  assumes "gone u s0 n xs s w"
  shows "wp (emitAndValidateVector M st s vec) (\<lambda>(ok, st', s') w'. ok \<longrightarrow> st' = pushed_once st \<and>
     gone u s0 (Suc n) (xs @ [emcy_push_of vec]) s' w' \<and> does w [emcy_push_of vec] w' \<and>
     published s' w w' \<and> matches_vector s' vec) w"
  by (rule wp_mono [OF emitAndValidateVector_passing])
     (use assms in \<open>auto simp: delivered_vector_def gone_def intro: does_trans\<close>)

lemma wp_recover:
  assumes "gone u s0 n xs s w"
  shows "wp (clearAndValidateRecovery M st s) (\<lambda>(ok, st', s') w'. ok \<longrightarrow> st' = cleared_state st \<and>
     (\<exists>cs \<in> clears. gone u s0 (Suc n) (xs @ cs) s' w') \<and> published s' w w' \<and> matches_recovery s') w"
proof (rule wp_mono [OF clearAndValidateRecovery_passing], clarify)
  fix ok st' s' w' cs
  assume "recovered w s w' s' cs"
  with assms have "gone u s0 (Suc n) (xs @ cs) s' w'" "cs \<in> clears" "published s' w w'" "matches_recovery s'"
    by (auto simp: recovered_def gone_def intro: does_trans)
  then show "cleared_state st = cleared_state st \<and> (\<exists>cs \<in> clears. gone u s0 (Suc n) (xs @ cs) s' w') \<and>
      published s' w w' \<and> matches_recovery s'" by blast
qed

abbreviation deliveries :: "mutation list \<Rightarrow> mutation list \<Rightarrow> mutation list" where
  "deliveries c1 c2 \<equiv> [emcy_push_of kVectorA, emcy_push_of kVectorB] @ c1 @
     [emcy_push_of kVectorA, emcy_push_of kVectorA] @ c2"

lemma deliverVectors_passing:
  "wp (deliverVectors M st s) (\<lambda>(ok, st', s') w'. ok \<longrightarrow> st' = cleared_state st \<and>
     (\<exists>c1 \<in> clears. \<exists>c2 \<in> clears. gone w s 6 (deliveries c1 c2) s' w')) w"
proof -
  have start: "gone w s 0 [] s w" by (simp add: gone_def)
  show ?thesis
    unfolding deliverVectors_def
    apply (rule wp_then [OF wp_emit [OF start]], elim conjE)
    apply (rule wp_then [OF wp_emit], assumption, elim conjE)
    apply (rule wp_then [OF wp_recover], assumption, elim conjE bexE)
    apply (rule wp_then [OF wp_emit], assumption, elim conjE)
    apply (rule wp_then [OF wp_emit], assumption, elim conjE)
    apply (rule wp_mono [OF wp_recover], assumption, auto simp: eval_nat_numeral)
    done
qed


text \<open>The reset case: the marker snapshot is read again, unchanged, between the reset and the next
  change.\<close>

abbreviation rebinds :: "mutation list \<Rightarrow> mutation list \<Rightarrow> mutation list" where
  "rebinds c3 t \<equiv> [emcy_push_of kVectorA, Nmt RESET_COMM CANOPEN_SLAVE_NODE_ID, emcy_push_of kVectorB] @ c3 @ t"

definition restarts :: "mutation list set" where
  "restarts = {[Nmt START CANOPEN_SLAVE_NODE_ID], []}"

definition survives :: "world \<Rightarrow> world \<Rightarrow> bool" where
  "survives w w' \<longleftrightarrow> (\<exists>m v x y. does w [emcy_push_of kVectorA] v \<and> matches_vector m kVectorA \<and> published m w v \<and>
     does v [Nmt RESET_COMM CANOPEN_SLAVE_NODE_ID] x \<and> published m x y \<and> does x [] y \<and> later y w')"

lemma gone_quiet: "gone u s0 n xs s v \<Longrightarrow> quiet v w \<Longrightarrow> gone u s0 n xs s w"
  by (auto simp: gone_def intro: does_quiet_end)

lemma gone_later: "gone u s0 n xs s w \<Longrightarrow> later u w"
  by (auto simp: gone_def dest: does_later)

lemma published_later: "published s u w \<Longrightarrow> later u w"
  unfolding published_def by (auto simp: later_def)

lemma published_chain: "published s u v \<Longrightarrow> published s' v w \<Longrightarrow> published s' u w"
  by (blast intro: published_back published_later)

lemma gone_start:
  "gone u s0 n xs s v \<Longrightarrow> does v [x] w \<Longrightarrow> gone u s0 n (xs @ [x]) s w"
  by (auto simp: gone_def intro: does_trans)

text \<open>Start, unless the Boot already confirmed the operational state.\<close>

lemma restart_passing:
  assumes "gone u s0 n xs s w"
  shows "wp (if \<not> remote_operational_restored st then do {
         started \<leftarrow> issueNmtCommandAndWaitForState M START CANOPEN_SLAVE_NODE_ID nmt_START CANOPEN_WAIT_TIMEOUT_MS;
         if \<not> started then return (False, st, s)
         else return (True, st\<lparr>remote_operational_restored := True\<rparr>, s) }
       else return (True, st, s))
     (\<lambda>(ok, st', s') w'. ok \<longrightarrow> host_error_active st' = host_error_active st \<and>
        reset_communication_issued st' = reset_communication_issued st \<and> remote_operational_restored st' \<and>
        s' = s \<and> later w w' \<and> (\<exists>t \<in> restarts. gone u s0 n (xs @ t) s w')) w"
  using assms
  by (intro wpi_bind wp_mono [OF issueNmtCommandAndWaitForState_does] wpi_if wpi_return)
     (auto simp: restarts_def intro: gone_start dest: does_later)

lemma reboundConsumer_passing:
  assumes "gone u s0 n xs s w" and "reset_communication_issued st"
  shows "wp (reboundConsumer M st s) (\<lambda>(ok, st', s') w'. ok \<longrightarrow> \<not> host_error_active st' \<and>
     reset_communication_issued st' \<and> remote_operational_restored st' \<and> matches_recovery s' \<and>
     (\<exists>y z. published s w y \<and> does w [] y \<and> later y z \<and> published s' y z \<and> later z w') \<and>
     (\<exists>c3 \<in> clears. \<exists>t \<in> restarts. gone u s0 (n + 2) (xs @ [emcy_push_of kVectorB] @ c3 @ t) s' w')) w"
    (is "wp _ ?post w")
proof -
  have rest: "wp (do {
       (ok, st, current) \<leftarrow> emitAndValidateVector M st s kVectorB;
       if \<not> ok then return (False, st, current)
       else do {
         (ok, st, current) \<leftarrow> clearAndValidateRecovery M st current;
         if \<not> ok then return (False, st, current)
         else if \<not> remote_operational_restored st then do {
           started \<leftarrow> issueNmtCommandAndWaitForState M START CANOPEN_SLAVE_NODE_ID nmt_START
                        CANOPEN_WAIT_TIMEOUT_MS;
           if \<not> started then return (False, st, current)
           else return (True, st\<lparr>remote_operational_restored := True\<rparr>, current) }
         else return (True, st, current) } }) ?post y"
    if y: "quiet w y" "published s w y" for y
    apply (rule wp_then [OF wp_emit [OF gone_quiet [OF assms(1) y(1)]]], elim conjE)
    apply (rule wp_then [OF wp_recover], assumption, elim conjE bexE)
    apply (rule wp_mono [OF restart_passing], assumption)
    apply (clarsimp, intro conjI)
      apply (rule assms(2))
     apply (rule exI [of _ y], use y in \<open>simp flip: does_quiet\<close>, blast intro: published_chain published_later)
    apply auto
    done
  show ?thesis
    unfolding reboundConsumer_def Let_def validateResetPreservedSnapshot_iff
    apply (rule wpi_bind, rule readStableSnapshot_shows, rule wpi_case_prod, rule wpi_if, rule wpi_return, simp)
    apply (rule wpi_if, rule wpi_return, simp, elim Pair_inject, simp only: not_not, hypsubst, rule rest, simp_all)
    done
qed


lemma does_quiet_start: "quiet u v \<Longrightarrow> does v xs w \<Longrightarrow> does u xs w"
  unfolding does_quiet using does_trans [of u "[]" v xs w] by simp

lemma published_rebound:
  assumes "published m w v" "quiet v v1" "does v1 xs v2" "quiet v2 x" "does x [] y" "published s y z"
  shows "published s w z"
  using published_later [OF assms(1)] quiet_later [OF assms(2)] does_later [OF assms(3)] quiet_later [OF assms(4)]
    does_later [OF assms(5)] assms(6) by (blast intro: published_back)

lemma survivesI:
  assumes "does w [emcy_push_of kVectorA] v" "matches_vector m kVectorA" "published m w v" "quiet v v1"
    and "does v1 [Nmt RESET_COMM CANOPEN_SLAVE_NODE_ID] v2" "quiet v2 x" "published m x y" "does x [] y" "later y z" "later z w'"
  shows "survives w w'"
proof -
  have "does v [Nmt RESET_COMM CANOPEN_SLAVE_NODE_ID] x"
    using does_trans [of v "[]" v1] assms(4,5) by (intro does_quiet_end [OF _ assms(6)]) (simp add: does_quiet)
  moreover have "later y w'" using assms(9,10) by (rule later_trans)
  ultimately show ?thesis
    unfolding survives_def using assms(1-3,7,8) by blast
qed

lemma validateResetRebind_passing:
  assumes "gone u s0 n xs s w"
  shows "wp (validateResetRebind_ec M st s) (\<lambda>(ok, st', s') w'. ok \<longrightarrow> \<not> host_error_active st' \<and>
     reset_communication_issued st' \<and> remote_operational_restored st' \<and> matches_recovery s' \<and> survives w w' \<and>
     (\<exists>z. published s' w z \<and> later z w') \<and>
     (\<exists>c3 \<in> clears. \<exists>t \<in> restarts. gone u s0 (n + 3) (xs @ rebinds c3 t) s' w')) w"
proof -
  have quiet: "wp prepareBootWait (\<lambda>_ w'. quiet w w') w" "wp (waitForBootCompletionState M t b) (\<lambda>_ w'. quiet w w') w" for t b w
    by (rule wp_quiet, rule emits_intro, assumption)+
  show ?thesis
    unfolding validateResetRebind_ec_def Let_def
    apply (rule wpi_if, rule wpi_return, simp)
    apply (rule wp_then [OF wp_emit [OF assms]], elim conjE)
    apply (rule wpi_bind, rule wp_mono [OF quiet(1)])
    apply (rule wpi_bind, rule wp_mono [OF issueNmtCommand_does], rule wpi_if, rule wpi_return, simp)
    apply (rule wpi_bind, rule wp_mono [OF quiet(2)], rule wpi_case_prod, rule wpi_if, rule wpi_return, simp)
    apply (rule wp_mono [OF reboundConsumer_passing])
    apply (rule gone_quiet [OF gone_start [OF gone_quiet]], assumption, assumption, simp, assumption, simp)
    apply (clarsimp, intro conjI)
      apply (rule survivesI; assumption)
     apply (rule exI, rule conjI, rule published_rebound; assumption)
    apply (auto simp: eval_nat_numeral)
    done
qed


text \<open>The changes of a passing run: nine publications, three recoveries, one reset.\<close>

definition emcy_consumer_changes :: "mutation list \<Rightarrow> mutation list \<Rightarrow> mutation list \<Rightarrow> mutation list \<Rightarrow> mutation list" where
  "emcy_consumer_changes c1 c2 c3 t = deliveries c1 c2 @ rebinds c3 t"

definition consumer_evidence :: "world \<Rightarrow> world \<Rightarrow> bool" where
  "consumer_evidence w w' \<longleftrightarrow> (\<exists>s0 s1 x v z. does w [] x \<and> published s0 w x \<and> later x v \<and> survives v w' \<and>
     published s1 v z \<and> later z w' \<and> matches_recovery s1 \<and> ec_rx_count s1 = ec_rx_count s0 + 9)"

lemma consumer_done:
  assumes "quiet w w1" "published s0 w w1" "gone w1 s0 6 xs s2 w2" "quiet w2 v" "survives v w'"
    and "published s1 v z" "later z w'" "matches_recovery s1" "gone w1 s0 9 ys s1 w'"
  shows "consumer_evidence w w' \<and> does w ys w'"
proof
  have "later w1 v"
    using gone_later [OF assms(3)] quiet_later [OF assms(4)] by (rule later_trans)
  moreover have "ec_rx_count s1 = ec_rx_count s0 + 9"
    using assms(9) by (simp add: gone_def)
  ultimately show "consumer_evidence w w'"
    using assms unfolding consumer_evidence_def by (blast intro: does_quiet [THEN iffD1])
  show "does w ys w'"
    using assms(9) by (auto simp: gone_def intro: does_quiet_start [OF assms(1)])
qed

lemma runEmcyConsumer_passing:
  "wp (runEmcyConsumerValidation M st) (\<lambda>(ok, st') w'. ok \<longrightarrow> \<not> host_error_active st' \<and>
     reset_communication_issued st' \<and> remote_operational_restored st' \<and>
     consumer_evidence w w' \<and> (\<exists>c1 \<in> clears. \<exists>c2 \<in> clears. \<exists>c3 \<in> clears. \<exists>t \<in> restarts.
        does w (emcy_consumer_changes c1 c2 c3 t) w')) w"
proof -
  have health: "wp (validateSdoHealth M) (\<lambda>_ w'. quiet w w') w" for w
    unfolding validateSdoHealth_def by (rule wp_quiet, intro emits_intro, assumption)
  show ?thesis
    unfolding runEmcyConsumerValidation_def
    apply (rule wpi_bind, rule readStableSnapshot_shows, rule wpi_case_prod, rule wpi_if, rule wpi_return, simp)
    apply (rule wpi_bind, rule wp_mono [OF deliverVectors_passing], rule wpi_case_prod, rule wpi_case_prod, rule wpi_if, rule wpi_return, simp)
    apply (rule wpi_bind, rule wp_mono [OF health], rule wpi_if, rule wpi_return, simp)
    apply clarsimp
    apply (rule wpi_bind, rule wp_mono [OF validateResetRebind_passing], rule gone_quiet, assumption, assumption)
    apply (rule wpi_case_prod, rule wpi_case_prod, rule wpi_return)
    apply clarsimp
    apply (frule (8) consumer_done)
    apply (unfold emcy_consumer_changes_def append.simps append_assoc, blast)
    done
qed


lemma consumer_evidence_back: "quiet w u \<Longrightarrow> consumer_evidence u w' \<Longrightarrow> consumer_evidence w w'"
  unfolding consumer_evidence_def by (blast intro: does_quiet_start published_back quiet_later)

lemma emcyConsumerProcess_passing:
  "wp (emcyConsumerProcess M) (\<lambda>r w'. r = 1 \<or> r = 0 \<and> consumer_evidence w w' \<and>
     (\<exists>c1 \<in> clears. \<exists>c2 \<in> clears. \<exists>c3 \<in> clears. \<exists>t \<in> restarts.
        does w (emcy_consumer_changes c1 c2 c3 t) w')) w"
proof -
  have preflight: "wp (validateProducerPreflight M) (\<lambda>_ w'. quiet w w') w"
    unfolding validateProducerPreflight_def by (rule wp_quiet, intro emits_intro, assumption)
  have clean: "cleanupEmcyConsumerValidation M st = return (True, st)"
    if "\<not> host_error_active st" "reset_communication_issued st" "remote_operational_restored st" for st
    using that by (simp add: cleanupEmcyConsumerValidation_def)
  have failed: "wp (cleanupEmcyConsumerValidation M st) (\<lambda>_ _. True) w" for st w
    by (rule wpI) simp
  show ?thesis
    unfolding emcyConsumerProcess_def Let_def
    apply (rule wpi_bind, rule wp_mono [OF preflight], rule wpi_if, rule wpi_return, simp)
    apply (rule wpi_bind, rule wp_mono [OF runEmcyConsumer_passing], rule wpi_case_prod)
    subgoal for ready u r v validated st
      apply (cases validated)
       apply (simp add: clean)
       apply (rule wpi_return, blast intro: consumer_evidence_back does_quiet_start)
      apply (rule wpi_bind, rule wp_mono [OF failed], rule wpi_case_prod, rule wpi_return, simp)
      done
    done
qed


section \<open>Footprint and transactions\<close>

fun consumer_objects :: "mutation \<Rightarrow> bool" where
  "consumer_objects (EmcyPush code reg msef) \<longleftrightarrow> (code = 0xFF01 \<or> code = 0xFF02) \<and> reg = 0x81 \<and> length msef = 5"
| "consumer_objects EmcyClear \<longleftrightarrow> True"
| "consumer_objects (Nmt cmd node) \<longleftrightarrow> (cmd = RESET_COMM \<or> cmd = START) \<and> node = CANOPEN_SLAVE_NODE_ID"
| "consumer_objects _ \<longleftrightarrow> False"

lemma vector_touch: "touches consumer_objects (emitTestEmcy M st kVectorA)" "touches consumer_objects (emitTestEmcy M st kVectorB)"
  unfolding emitTestEmcy_def pushLocalEmcy_def Let_def
  by (intro emits_intro; simp add: kVectorA_def kVectorB_def kErrorCodeA_def kErrorCodeB_def kErrorRegister_def)+

lemma consumer_steps_touch [emits_intro]:
  "touches consumer_objects (clearLocalEmcy M st)" "touches consumer_objects (emitAndValidateVector M st s kVectorA)"
  "touches consumer_objects (emitAndValidateVector M st s kVectorB)" "touches S (validateSdoHealth M)"
  "touches S (validateProducerPreflight M)"
  unfolding clearLocalEmcy_def clearLocalEmcyStack_def emitAndValidateVector_def validateSdoHealth_def
    validateProducerPreflight_def Let_def
  by (intro emits_intro vector_touch; simp)+

lemma consumer_stages_touch [emits_intro]:
  "touches consumer_objects (clearAndValidateRecovery M st s)"
  "touches consumer_objects (cleanupEmcyConsumerValidation M st)"
  unfolding clearAndValidateRecovery_def cleanupEmcyConsumerValidation_def Let_def
  by (intro emits_intro; simp)+

lemma emcyConsumerProcess_touches: "touches consumer_objects (emcyConsumerProcess M)"
  unfolding emcyConsumerProcess_def runEmcyConsumerValidation_def deliverVectors_def validateResetRebind_ec_def
    reboundConsumer_def Let_def
  by (intro emits_intro; simp)

text \<open>The process stops at the first upload that does not succeed.\<close>

lemma orderly_imp: "orderly_since u w known \<Longrightarrow> (known' \<Longrightarrow> known) \<Longrightarrow> orderly_since u w known'"
  by (auto simp: orderly_since_def)

lemma readRemoteDiagnostic_orderly:
  assumes "orderly_since u w True" and "\<And>ok v w'. orderly_since u w' ok \<Longrightarrow> Q (ok, v) w'"
  shows "wp (readRemoteDiagnostic T M i s v0) Q w"
  unfolding readRemoteDiagnostic_def
  by (rule wpi_bind, rule readRemoteSdo_orderly [OF assms(1)], rule wpi_case_prod, rule wpi_if; rule wpi_return, rule assms(2))
     (auto elim: orderly_imp)

lemma diagnostic_then:
  assumes "orderly_since u w True" and "\<And>v w'. orderly_since u w' False \<Longrightarrow> wp (g v) Q w'"
    and "\<And>v w'. orderly_since u w' True \<Longrightarrow> wp (f v) Q w'"
  shows "wp (State_Monad.bind (readRemoteDiagnostic T M i s v0) (\<lambda>(ok, v). if \<not> ok then g v else f v)) Q w"
  by (rule wpi_bind, rule readRemoteDiagnostic_orderly [OF assms(1)]) (auto intro: assms(2,3))

lemma readSnapshotAttempts_orderly:
  "orderly_since u w True \<Longrightarrow> wp (readSnapshotAttempts M n s0) (\<lambda>(ok, s) w'. orderly_since u w' ok) w"
proof (induction n arbitrary: w)
  case (Suc n)
  note step = diagnostic_then [where g = "\<lambda>_. return (False, s0)"]
  show ?case
    unfolding readSnapshotAttempts.simps
    by (rule step, rule Suc.prems, rule wpi_return, simp, (rule step, assumption, rule wpi_return, simp)+)
       (auto intro: wpi_return Suc.IH)
qed (auto intro: wpi_return orderly_imp)

lemma orderly_clock: "orderly_since u w True \<Longrightarrow> orderly_since u (occur M (EvNow t) d w) True"
  by (rule orderly_traffic) auto

lemma diagnostics_orderly:
  assumes "orderly_since u w True" and "\<And>ok x w'. orderly_since u w' ok \<Longrightarrow> Q1 (ok, x) w'"
    and "\<And>ok x w'. orderly_since u w' ok \<Longrightarrow> Q2 (ok, x) w'"
  shows "wp (readStableSnapshot M s0) Q1 w" "wp (waitForNextRxCount M b c) Q2 w"
proof -
  show "wp (readStableSnapshot M s0) Q1 w"
    unfolding readStableSnapshot_def
    by (rule wp_mono [OF readSnapshotAttempts_orderly [OF assms(1)]]) (auto intro: assms(2))
  have body: "wp (rxCountBody M b c ()) (\<lambda>r w'. case r of Inl s \<Rightarrow> orderly_since u w' True | Inr (ok, x) \<Rightarrow> orderly_since u w' ok) v"
    if "orderly_since u v True" for v
    unfolding rxCountBody_def Let_def
    by (rule diagnostic_then [OF that]; (intro wpi_bind wpi_if wpi_return orderly_quiet [OF _ silent_calls(3)])?)
       (auto elim: orderly_imp)
  show "wp (waitForNextRxCount M b c) Q2 w"
    unfolding waitForNextRxCount_def Let_def
    apply (rule wpi_bind, rule orderly_quiet [OF assms(1)], rule silent_calls, rule wpi_bind)
    apply (rule wp_deadline_do_while [where I = "\<lambda>_ v. orderly_since u v True"])
       apply (erule orderly_clock)
      apply (simp, rule wp_mono [OF body], assumption)
      apply (auto split: sum.splits intro!: wpi_return assms(3) elim: orderly_imp)
    done
qed

lemmas snapshot_orderly = diagnostics_orderly(1) [where ?Q2.0 = "\<lambda>_ _. True", OF _ _ TrueI]
lemmas count_orderly = diagnostics_orderly(2) [where ?Q1.0 = "\<lambda>_ _. True", OF _ TrueI]

text \<open>Triples: an operation that succeeds leaves the channel known.\<close>

lemma known_then:
  assumes "wp m (\<lambda>(ok, st', s') w'. orderly_since u w' ok) w"
    and "\<And>st' s' w'. orderly_since u w' True \<Longrightarrow> wp (f st' s') (\<lambda>(ok, st', s') w'. orderly_since u w' ok) w'"
  shows "wp (State_Monad.bind m (\<lambda>(ok, st, current). if \<not> ok then return (False, st, current) else f st current))
     (\<lambda>(ok, st', s') w'. orderly_since u w' ok) w"
  by (rule wpi_bind, rule wp_mono [OF assms(1)]) (auto intro!: wpi_return assms(2))

lemma local_emcy_silent [emits_intro]:
  "silent (emitTestEmcy M st vec)" "silent (clearLocalEmcy M st)" "silent (validateProducerPreflight M)"
  "silent (cleanupEmcyConsumerValidation M st)"
  unfolding emitTestEmcy_def pushLocalEmcy_def localEmcyHistoryCount_def clearLocalEmcy_def clearLocalEmcyStack_def
    peekLocalEmcy_def readLocalObject_def validateProducerPreflight_def cleanupEmcyConsumerValidation_def Let_def
  by (intro emits_intro)+

lemma observation_orderly:
  assumes "orderly_since u w True"
  shows "wp (State_Monad.bind (waitForNextRxCount M n c) (\<lambda>(counted, observed_count). if \<not> counted then return (False, st, s)
     else State_Monad.bind (readStableSnapshot M d) (\<lambda>(ok, next_snapshot).
       if \<not> ok \<or> \<not> V next_snapshot observed_count then return (False, st, s) else return (True, st, next_snapshot))))
     (\<lambda>(ok, st', s') w'. orderly_since u w' ok) w"
  by (rule wpi_bind, rule count_orderly [OF assms], simp_all, intro conjI impI wpi_return wpi_bind)
     (auto elim: orderly_imp intro!: snapshot_orderly wpi_return)

lemma consumer_orderly:
  assumes "orderly_since u w True"
  shows "wp (emitAndValidateVector M st s vec) (\<lambda>(ok, st', s') w'. orderly_since u w' ok) w"
    "wp (clearAndValidateRecovery M st s) (\<lambda>(ok, st', s') w'. orderly_since u w' ok) w"
  unfolding emitAndValidateVector_def clearAndValidateRecovery_def Let_def
   apply (rule wpi_bind, rule orderly_quiet [OF assms], rule local_emcy_silent)
   apply (rule wpi_case_prod, rule wpi_if, rule wpi_return, simp add: orderly_weaken)
   apply (erule observation_orderly)
  apply (rule wpi_if, rule wpi_return, use assms in \<open>simp add: orderly_weaken\<close>)
  apply (rule wpi_bind, rule orderly_quiet [OF assms], rule local_emcy_silent)
  apply (rule wpi_case_prod, rule wpi_if, rule wpi_return, simp add: orderly_weaken)
  apply (erule observation_orderly)
  done

lemma delivery_orderly:
  assumes "orderly_since u w True"
  shows "wp (deliverVectors M st s) (\<lambda>(ok, st', s') w'. orderly_since u w' ok) w"
  unfolding deliverVectors_def
  by (intro known_then consumer_orderly assms)

lemma rebound_orderly:
  assumes "orderly_since u w True"
  shows "wp (reboundConsumer M st s) (\<lambda>(ok, st', s') w'. orderly_since u w' ok) w"
  unfolding reboundConsumer_def Let_def
  apply (rule wpi_bind, rule snapshot_orderly [OF assms], rule wpi_case_prod)
   apply (rule wpi_if, rule wpi_return, simp add: orderly_weaken)
   apply (rule wpi_if, rule wpi_return, simp add: orderly_weaken)
  apply (intro known_then consumer_orderly, simp, assumption)
  apply (rule wpi_if, rule wpi_bind, erule orderly_quiet, rule nmt_no_traffic)
   apply (auto intro!: wpi_return elim: orderly_imp)
  done

lemma silent_boot [emits_intro]: "silent prepareBootWait" "silent (waitForBootCompletionState M t b)"
  unfolding prepareBootWait_def waitForBootCompletionState_def waitForBootResult_def
  by ((intro emits_intro; simp add: memory_wf_def clearBoot_def))+

lemma reset_orderly:
  assumes "orderly_since u w True"
  shows "wp (validateResetRebind_ec M st s) (\<lambda>(ok, st', s') w'. orderly_since u w' ok) w"
  unfolding validateResetRebind_ec_def Let_def
  apply (rule wpi_if, rule wpi_return, use assms in \<open>simp add: orderly_weaken\<close>)
  apply (rule known_then [OF consumer_orderly(1) [OF assms]])
  apply (rule wpi_bind, erule orderly_quiet, rule silent_boot)
  apply (rule wpi_bind, erule orderly_quiet, rule nmt_no_traffic, rule wpi_if, rule wpi_return, simp add: orderly_weaken)
  apply (rule wpi_bind, erule orderly_quiet, rule silent_boot, rule wpi_case_prod, rule wpi_if, rule wpi_return, simp add: orderly_weaken)
  apply (erule rebound_orderly)
  done

lemma health_orderly: "orderly_since u w True \<Longrightarrow> wp (validateSdoHealth M) (\<lambda>ok w'. orderly_since u w' ok) w"
  unfolding validateSdoHealth_def
  by (intro wpi_bind readRemoteSdo_orderly wpi_case_prod wpi_if wpi_return) (auto elim: orderly_imp)

lemma emcyConsumerProcess_orderly:
  "wp (emcyConsumerProcess M) (\<lambda>r w'. \<exists>es. hist w' = es @ hist w \<and> stops_when_unknown es) w"
proof -
  have run: "wp (runEmcyConsumerValidation M st) (\<lambda>(ok, st') w'. orderly_since w w' False) v" if "orderly_since w v True" for st v
    unfolding runEmcyConsumerValidation_def
    apply (rule wpi_bind, rule snapshot_orderly [OF that], rule wpi_case_prod, rule wpi_if, rule wpi_return, simp)
    apply (rule wpi_bind, rule wp_mono [OF delivery_orderly], simp, rule wpi_case_prod, rule wpi_case_prod, rule wpi_if, rule wpi_return, simp)
    apply (rule wpi_bind, rule wp_mono [OF health_orderly], simp, rule wpi_if, rule wpi_return, simp)
    apply (rule wpi_bind, rule wp_mono [OF reset_orderly], simp)
    apply (auto elim: orderly_imp intro!: wpi_return)
    done
  have "wp (emcyConsumerProcess M) (\<lambda>r w'. orderly_since w w' False) w"
    unfolding emcyConsumerProcess_def Let_def
    apply (rule wpi_bind, rule orderly_quiet [OF orderly_refl], rule local_emcy_silent, rule wpi_if, rule wpi_return, simp add: orderly_weaken)
    apply (rule wpi_bind, rule wp_mono [OF run], assumption, rule wpi_case_prod, rule wpi_bind, rule orderly_quiet)
      prefer 2 apply (rule local_emcy_silent)
    apply (auto intro!: wpi_return wpi_case_prod)
    done
  then show ?thesis by (rule wp_mono) (auto simp: orderly_since_def)
qed


section \<open>Only own errors are cleared\<close>

text \<open>The pushes since the last clear, newest first as the history.\<close>

fun own_pushes :: "history \<Rightarrow> nat" where
  "own_pushes [] = 0"
| "own_pushes (EvEmcyPush code reg msef ok # es) = Suc (own_pushes es)"
| "own_pushes (EvEmcyClear ok # es) = 0"
| "own_pushes (_ # es) = own_pushes es"

text \<open>Right before every clear the depth of the stack was read as at most the number of own pushes, and its
  top as an error of the test.\<close>

fun clears_own :: "history \<Rightarrow> bool" where
  "clears_own [] \<longleftrightarrow> True"
| "clears_own (EvEmcyClear ok # es) \<longleftrightarrow> clears_own es \<and>
     (\<exists>code n rest. es = EvEmcyPeek code 0x81 # EvLocalRead 0x1003 0 (V8 n) NoError # rest \<and>
        (code = 0xFF01 \<or> code = 0xFF02) \<and> unat n \<le> own_pushes rest)"
| "clears_own (_ # es) \<longleftrightarrow> clears_own es"

definition owns :: "world \<Rightarrow> EmcyConsumerRuntimeState \<Rightarrow> world \<Rightarrow> bool" where
  "owns u st w \<longleftrightarrow> (\<exists>es. hist w = es @ hist u \<and> clears_own es \<and> expected_host_error_count st \<le> own_pushes es)"

fun stack_free :: "event \<Rightarrow> bool" where
  "stack_free (EvEmcyPush code reg msef ok) \<longleftrightarrow> False"
| "stack_free (EvEmcyClear ok) \<longleftrightarrow> False"
| "stack_free _ \<longleftrightarrow> True"

lemma stack_free_append:
  "list_all stack_free fs \<Longrightarrow> own_pushes (fs @ es) = own_pushes es \<and> clears_own (fs @ es) = clears_own es"
proof (induction fs)
  case (Cons f fs)
  then show ?case by (cases f) auto
qed simp

fun no_stack :: "mutation \<Rightarrow> bool" where
  "no_stack (EmcyPush code reg msef) \<longleftrightarrow> False"
| "no_stack EmcyClear \<longleftrightarrow> False"
| "no_stack _ \<longleftrightarrow> True"

lemma owns_free:
  assumes "owns u st w" and "touches no_stack m" and "\<And>a w'. owns u st w' \<Longrightarrow> Q a w'"
  shows "wp m Q w"
  using assms(2)
proof (rule wp_touches)
  fix a fs
  fix w' :: world
  assume h: "hist w' = fs @ hist w" and free: "list_all no_stack (mutations fs)"
  have "stack_free e" if "allowed no_stack e" for e using that by (cases e) simp_all
  then have "list_all stack_free fs"
    using free unfolding list_all_allowed [symmetric] by (auto elim: list.pred_mono_strong)
  from stack_free_append [OF this] assms(1) h show "Q a w'"
    by (intro assms(3)) (auto simp: owns_def)
qed

lemma owns_push:
  "owns u st w \<Longrightarrow> (\<And>ok w'. owns u (pushed_once st) w' \<Longrightarrow> Q ok w') \<Longrightarrow> wp (submit_push M c r d) Q w"
  by (rule wpi_local_services) (auto simp: owns_def)

lemma owns_reads:
  "owns u st w \<Longrightarrow> (\<And>a w'. owns u st w' \<Longrightarrow> Q1 a w') \<Longrightarrow> wp (emcy_peek M) Q1 w"
  "owns u st w \<Longrightarrow> (\<And>a w'. owns u st w' \<Longrightarrow> Q2 a w') \<Longrightarrow> wp (emcy_available M) Q2 w"
  "owns u st w \<Longrightarrow> (\<And>a w'. owns u st w' \<Longrightarrow> Q3 a w') \<Longrightarrow> wp (localEmcyHistoryCount M n) Q3 w"
  by (erule owns_free, intro emits_intro, blast)+

lemma owns_less: "owns u st w \<Longrightarrow> expected_host_error_count st' \<le> expected_host_error_count st \<Longrightarrow> owns u st' w"
  by (auto simp: owns_def)

lemma emit_owns:
  assumes "owns u st w"
  shows "wp (emitTestEmcy M st vec) (\<lambda>(ok, st') w'. owns u st' w') w"
  unfolding emitTestEmcy_def pushLocalEmcy_def Let_def
  by (insert assms, rule wpi_bind wpi_case_prod wpi_if wpi_return | erule owns_reads owns_push | (auto intro: owns_less; fail))+

text \<open>The clear follows the two readings that guard it.\<close>

lemma owns_clear:
  assumes "owns u st w" and "hist w' = EvEmcyClear ok # EvEmcyPeek c r # EvLocalRead 0x1003 0 (V8 n) e # hist w"
    and "\<not> failed e" "unat n = expected_host_error_count st" "r = 0x81" "c = 0xFF01 \<or> c = 0xFF02"
    and "expected_host_error_count st' = 0"
  shows "owns u st' w'"
proof -
  obtain es where es: "hist w = es @ hist u" "clears_own es" "expected_host_error_count st \<le> own_pushes es"
    using assms(1) by (auto simp: owns_def)
  have "e = NoError" using assms(3) by (simp add: failed_def)
  then show ?thesis
    unfolding owns_def using assms(2-7) es
    by (intro exI [of _ "EvEmcyClear ok # EvEmcyPeek c r # EvLocalRead 0x1003 0 (V8 n) e # es"]) auto
qed

lemma owns_read_ahead:
  assumes "owns u st w" and "hist w' = f # e # hist w \<or> hist w' = e # hist w" and "stack_free e" "stack_free f"
    and "expected_host_error_count st' \<le> expected_host_error_count st"
  shows "owns u st' w'"
proof -
  obtain es where es: "hist w = es @ hist u" "clears_own es" "expected_host_error_count st \<le> own_pushes es"
    using assms(1) by (auto simp: owns_def)
  from assms(2) obtain fs where "hist w' = fs @ es @ hist u" "list_all stack_free fs"
    using assms(3,4) es(1) by (elim disjE) (fastforce intro: that [of "[f, e]"] that [of "[e]"])+
  with es assms(5) stack_free_append [of fs es] show ?thesis
    unfolding owns_def by (intro exI [of _ "fs @ es"]) auto
qed

lemma clear_owns:
  assumes "owns u st w"
  shows "wp (clearLocalEmcy M st) (\<lambda>(ok, st') w'. owns u st' w') w"
  unfolding clearLocalEmcy_def peekLocalEmcy_def clearLocalEmcyStack_def readLocalObject_def Let_def
    kLocalErrorHistoryIndex_def kScalarSubindex_ec_def kErrorCodeA_def kErrorCodeB_def kErrorRegister_def
  apply (intro wpi_bind wpi_case_prod wpi_if wpi_return wpi_local_read wpi_local_services)
  apply (simp_all add: if_distrib split: if_splits)
  apply (auto intro: owns_read_ahead [OF assms] owns_read_ahead [where f = "EvNow 0", OF assms] owns_clear [OF assms])
  done


lemma owns_then:
  assumes "wp m (\<lambda>(ok, st', s') w'. owns u st' w') w"
    and "\<And>st' s' w'. owns u st' w' \<Longrightarrow> wp (f st' s') (\<lambda>(ok, st', s') w'. owns u st' w') w'"
  shows "wp (State_Monad.bind m (\<lambda>(ok, st, current). if \<not> ok then return (False, st, current) else f st current))
     (\<lambda>(ok, st', s') w'. owns u st' w') w"
  by (rule wpi_bind, rule wp_mono [OF assms(1)]) (auto intro!: wpi_return assms(2))

lemma observation_owns:
  assumes "owns u st w"
  shows "wp (State_Monad.bind (waitForNextRxCount M n c) (\<lambda>(counted, observed_count). if \<not> counted then return (False, st, s)
     else State_Monad.bind (readStableSnapshot M d) (\<lambda>(ok, next_snapshot).
       if \<not> ok \<or> \<not> V next_snapshot observed_count then return (False, st, s) else return (True, st, next_snapshot))))
     (\<lambda>(ok, st', s') w'. owns u st' w') w"
  by (rule wpi_bind, rule owns_free [OF assms diagnostics_read(4)], rule wpi_case_prod, rule wpi_if, rule wpi_return, simp)
     (rule wpi_bind, erule owns_free [OF _ diagnostics_read(3)], auto intro!: wpi_case_prod wpi_return)

lemma consumer_owns:
  assumes "owns u st w"
  shows "wp (emitAndValidateVector M st s vec) (\<lambda>(ok, st', s') w'. owns u st' w') w"
    "wp (clearAndValidateRecovery M st s) (\<lambda>(ok, st', s') w'. owns u st' w') w"
  unfolding emitAndValidateVector_def clearAndValidateRecovery_def Let_def
   apply (rule wpi_bind, rule wp_mono [OF emit_owns [OF assms]], rule wpi_case_prod, rule wpi_if, rule wpi_return, simp)
   apply (rule observation_owns, simp)
  apply (rule wpi_if, rule wpi_return, use assms in simp)
  apply (rule wpi_bind, rule wp_mono [OF clear_owns [OF assms]], rule wpi_case_prod, rule wpi_if, rule wpi_return, simp)
  apply (rule observation_owns, simp)
  done

lemma start_no_stack: "touches no_stack (issueNmtCommandAndWaitForState M c n st t)" "touches no_stack (issueNmtCommand M c n)"
  "touches no_stack prepareBootWait" "touches no_stack (waitForBootCompletionState M t b)"
  by (intro emits_intro; simp)+

lemma rebound_owns:
  assumes "owns u st w"
  shows "wp (reboundConsumer M st s) (\<lambda>(ok, st', s') w'. owns u st' w') w"
  unfolding reboundConsumer_def Let_def
  apply (rule wpi_bind, rule owns_free [OF assms diagnostics_read(3)], rule wpi_case_prod)
  apply (rule wpi_if, rule wpi_return, simp, rule wpi_if, rule wpi_return, simp)
  apply (intro owns_then consumer_owns, assumption, assumption)
  apply (rule wpi_if, rule wpi_bind, erule owns_free, rule start_no_stack)
   apply (auto intro!: wpi_return intro: owns_less)
  done

lemma reset_owns:
  assumes "owns u st w"
  shows "wp (validateResetRebind_ec M st s) (\<lambda>(ok, st', s') w'. owns u st' w') w"
  unfolding validateResetRebind_ec_def Let_def
  apply (rule wpi_if, rule wpi_return, use assms in simp)
  apply (rule owns_then [OF consumer_owns(1) [OF assms]])
  apply (rule wpi_bind, erule owns_free, rule start_no_stack)
  apply (rule wpi_bind, erule owns_free, rule start_no_stack, rule wpi_if, rule wpi_return, simp)
  apply (rule wpi_bind, erule owns_free, rule start_no_stack, rule wpi_case_prod, rule wpi_if, rule wpi_return)
   apply (simp, erule owns_less, simp)
  apply (rule rebound_owns, erule owns_less, simp)
  done

lemma cleanup_owns:
  assumes "owns u st w"
  shows "wp (cleanupEmcyConsumerValidation M st) (\<lambda>(ok, st') w'. owns u st' w') w"
  unfolding cleanupEmcyConsumerValidation_def Let_def
  apply (rule wpi_bind, rule wp_mono [where Q = "\<lambda>(ok, st') w'. owns u st' w'"])
   apply (rule wpi_if, rule wpi_bind, rule wp_mono [OF clear_owns [OF assms]])
    apply (use assms in \<open>auto intro!: wpi_return\<close>)
  apply (rule wpi_bind, erule owns_free, rule start_no_stack)
  apply (auto intro!: wpi_return intro: owns_less)
  done

lemma run_owns:
  assumes "owns u st w"
  shows "wp (runEmcyConsumerValidation M st) (\<lambda>(ok, st') w'. owns u st' w') w"
proof -
  have deliver: "wp (deliverVectors M st s) (\<lambda>(ok, st', s') w'. owns u st' w') v" if "owns u st v" for s v
    unfolding deliverVectors_def by (intro owns_then consumer_owns that)
  have health: "touches no_stack (validateSdoHealth M)"
    by (intro emits_intro)
  show ?thesis
    unfolding runEmcyConsumerValidation_def
    apply (rule wpi_bind, rule owns_free [OF assms diagnostics_read(3)], rule wpi_case_prod, rule wpi_if, rule wpi_return, simp)
    apply (rule wpi_bind, rule wp_mono [OF deliver], assumption, rule wpi_case_prod, rule wpi_case_prod, rule wpi_if, rule wpi_return, simp)
    apply (rule wpi_bind, rule owns_free [OF _ health], simp, rule wpi_if, rule wpi_return, simp)
    apply (rule wpi_bind, rule wp_mono [OF reset_owns], assumption, auto intro!: wpi_return)
    done
qed

lemma emcyConsumerProcess_clears_own:
  "wp (emcyConsumerProcess M) (\<lambda>r w'. \<exists>es. hist w' = es @ hist w \<and> clears_own es) w"
proof -
  have start: "owns w default_emcy_runtime w"
    by (simp add: owns_def default_emcy_runtime_def)
  have preflight: "touches no_stack (validateProducerPreflight M)"
    by (intro emits_intro)
  have "wp (emcyConsumerProcess M) (\<lambda>r w'. \<exists>st. owns w st w') w"
    unfolding emcyConsumerProcess_def Let_def
    apply (rule wpi_bind, rule owns_free [OF start preflight], rule wpi_if, rule wpi_return, blast)
    apply (rule wpi_bind, rule wp_mono [OF run_owns], assumption, rule wpi_case_prod)
    apply (rule wpi_bind, rule wp_mono [OF cleanup_owns], simp, auto intro!: wpi_return)
    done
  then show ?thesis by (rule wp_mono) (auto simp: owns_def)
qed

end
