(* ===== verification/Phases.thy ===== *)
theory Phases
  imports Sdo_Channel
begin

text \<open>
  Runs described by phases that follow one another: what was read, written and commanded, with one rule per
  way to combine operations.  A phase is a relation between the world before and after.
\<close>

section \<open>Chains\<close>

text \<open>\<open>a && b && c\<close> over operations, and over reads that fill an output structure.\<close>

fun allM :: "bool host list \<Rightarrow> bool host" where
  "allM [] = return True"
| "allM (m # rest) = andM m (allM rest)"

fun readAll :: "('r \<Rightarrow> (bool \<times> 'r) host) list \<Rightarrow> 'r \<Rightarrow> (bool \<times> 'r) host" where
  "readAll [] r = return (True, r)"
| "readAll (f # fs) r = do { (ok, r') \<leftarrow> f r; if ok then readAll fs r' else return (False, r') }"

text \<open>One field of a structure read through the given reader.\<close>

definition readField ::
    "('a \<Rightarrow> (bool \<times> 'a) host) \<Rightarrow> ('r \<Rightarrow> 'a) \<Rightarrow> ('a \<Rightarrow> 'r \<Rightarrow> 'r) \<Rightarrow> 'r \<Rightarrow> (bool \<times> 'r) host" where
  "readField rd get put r = do { (ok, v) \<leftarrow> rd (get r); return (ok, put v r) }"

lemma allM_emits: "list_all (emits P) ops \<Longrightarrow> emits P (allM ops)"
  by (induction ops) (auto intro!: emits_intro)

lemma allM_touches [emits_intro]: "list_all (\<lambda>m. touches S m) ops \<Longrightarrow> touches S (allM ops)"
  by (rule allM_emits) simp

lemma readAll_touches [emits_intro]:
  "list_all (\<lambda>f. \<forall>r. touches S (f r)) fs \<Longrightarrow> touches S (readAll fs r)"
  by (induction fs arbitrary: r) (auto intro!: emits_intro)

lemma readField_touches [emits_intro]: "(\<And>v. touches S (rd v)) \<Longrightarrow> touches S (readField rd get put r)"
  unfolding readField_def by (intro emits_intro)

section \<open>Readings\<close>

text \<open>The values read, in the order of the reads, as addresses with values.\<close>

type_synonym reading = "u16 \<times> u8 \<times> sdo_value"

definition shown :: "world \<Rightarrow> world \<Rightarrow> reading list \<Rightarrow> bool" where
  "shown u w xs \<longleftrightarrow> (\<exists>es. hist w = es @ hist u \<and>
     list_all (\<lambda>(i, s, v). list_ex (saw CANOPEN_SLAVE_NODE_ID i s v) es) xs)"

lemma shown_refl [simp]: "shown w w []"
  by (auto simp: shown_def)

lemma shown_trans: "shown u v xs \<Longrightarrow> shown v w ys \<Longrightarrow> shown u w (xs @ ys)"
proof -
  assume "shown u v xs" "shown v w ys"
  then obtain es fs where "hist v = es @ hist u" "hist w = fs @ hist v"
    "list_all (\<lambda>(i, s, v). list_ex (saw CANOPEN_SLAVE_NODE_ID i s v) es) xs"
    "list_all (\<lambda>(i, s, v). list_ex (saw CANOPEN_SLAVE_NODE_ID i s v) fs) ys"
    by (auto simp: shown_def)
  then show ?thesis
    unfolding shown_def by (intro exI [of _ "fs @ es"]) (auto simp: list_all_iff)
qed

lemma shown_later: "shown u w xs \<Longrightarrow> later u w"
  by (auto simp: shown_def later_def)

lemma shown_add: "shown u v xs \<Longrightarrow> later v w \<Longrightarrow> shown u w xs"
proof -
  assume "shown u v xs" "later v w"
  moreover from this(2) have "shown v w []" by (auto simp: shown_def later_def)
  ultimately show ?thesis using shown_trans by fastforce
qed

section \<open>Phases\<close>

text \<open>A run that goes through phases one after the other.\<close>

type_synonym phase = "world \<Rightarrow> world \<Rightarrow> bool"

fun stages :: "phase list \<Rightarrow> phase" where
  "stages [] w w' \<longleftrightarrow> w = w'"
| "stages (P # Ps) w w' \<longleftrightarrow> (\<exists>v. P w v \<and> stages Ps v w')"

text \<open>\<open>m\<close> performs a phase: whenever it succeeds the phase has passed.\<close>

definition performs :: "bool host \<Rightarrow> phase \<Rightarrow> bool" where
  "performs m P \<longleftrightarrow> (\<forall>w. wp m (\<lambda>ok w'. ok \<longrightarrow> P w w') w)"

lemma performsI: "(\<And>w. wp m (\<lambda>ok w'. ok \<longrightarrow> P w w') w) \<Longrightarrow> performs m P"
  by (simp add: performs_def)

lemma performs_wp: "performs m P \<Longrightarrow> wp m (\<lambda>ok w'. ok \<longrightarrow> P w w') w"
  by (simp add: performs_def)

lemma performs_andM:
  assumes "performs m P" and "performs n R" and "\<And>w v w'. P w v \<Longrightarrow> R v w' \<Longrightarrow> S w w'"
  shows "performs (andM m n) S"
proof (rule performsI, rule wpi_andM, rule wp_mono [OF performs_wp [OF assms(1)]])
  fix w ok v assume P: "ok \<longrightarrow> P w v"
  show "if ok then wp n (\<lambda>ok w'. ok \<longrightarrow> S w w') v else False \<longrightarrow> S w v"
    using P assms(3) by (auto intro: wp_mono [OF performs_wp [OF assms(2)]])
qed

lemma performs_all:
  "performs (allM []) (stages [])"
  "performs m P \<Longrightarrow> performs (allM ops) (stages Ps) \<Longrightarrow> performs (allM (m # ops)) (stages (P # Ps))"
  by (simp add: performs_def host_wp) (simp only: allM.simps, erule performs_andM, assumption, auto)

lemma performs_weaken: "performs m P \<Longrightarrow> (\<And>w w'. P w w' \<Longrightarrow> R w w') \<Longrightarrow> performs m R"
  unfolding performs_def by (blast intro: wp_mono)

lemma stages_later: "list_all (\<lambda>P. \<forall>w w'. P w w' \<longrightarrow> later w w') Ps \<Longrightarrow> stages Ps w w' \<Longrightarrow> later w w'"
  by (induction Ps arbitrary: w) (auto intro: later_trans)

lemma stages_snoc: "stages Ps w v \<Longrightarrow> P v w' \<Longrightarrow> stages (Ps @ [P]) w w'"
  by (induction Ps arbitrary: w) auto

section \<open>Single phases\<close>

definition commanded :: "nmt_command \<Rightarrow> phase" where
  "commanded cmd w w' \<longleftrightarrow> does w [Nmt cmd CANOPEN_SLAVE_NODE_ID] w'"

text \<open>A communication reset; a node that boots into another state is started.\<close>

definition rebooted :: phase where
  "rebooted w w' \<longleftrightarrow> does w [Nmt RESET_COMM CANOPEN_SLAVE_NODE_ID] w' \<or>
     does w [Nmt RESET_COMM CANOPEN_SLAVE_NODE_ID, Nmt START CANOPEN_SLAVE_NODE_ID] w'"

text \<open>The values are stored one after the other, each write confirmed, and nothing else happens.\<close>

definition stored :: "reading list \<Rightarrow> phase" where
  "stored xs w w' \<longleftrightarrow> (\<exists>es. hist w' = rev es @ hist w \<and>
     list_all2 (\<lambda>(i, s, v) e. wrote CANOPEN_SLAVE_NODE_ID i s v e) xs es)"

definition sent :: "mutation list \<Rightarrow> phase" where
  "sent xs w w' \<longleftrightarrow> does w xs w'"

definition paused :: "nat \<Rightarrow> phase" where
  "paused duration w w' \<longleftrightarrow> hist w' = EvSleep (ms duration) # hist w \<and> clock w + ms duration < clock w'"

text \<open>Nothing is changed, and the phase ends with an answer that shows the value.\<close>

definition displays :: "u16 \<Rightarrow> u8 \<Rightarrow> sdo_value \<Rightarrow> phase" where
  "displays i s v w w' \<longleftrightarrow> (\<exists>e es. hist w' = e # es @ hist w \<and> mutations es = [] \<and> saw CANOPEN_SLAVE_NODE_ID i s v e)"

lemma stored_Nil [simp]: "stored [] w w' \<longleftrightarrow> hist w' = hist w"
  by (auto simp: stored_def)

lemma stored_append: "stored xs u v \<Longrightarrow> stored ys v w \<Longrightarrow> stored (xs @ ys) u w"
  unfolding stored_def by (metis append_assoc list_all2_appendI rev_append)

lemma stored_does: "stored xs w w' \<Longrightarrow> does w (map (\<lambda>(i, s, v). RemoteWrite CANOPEN_SLAVE_NODE_ID i s v) xs) w'"
proof -
  assume "stored xs w w'"
  then obtain es where es: "hist w' = rev es @ hist w"
    "list_all2 (\<lambda>(i, s, v) e. wrote CANOPEN_SLAVE_NODE_ID i s v e) xs es" by (auto simp: stored_def)
  have "wrote n i s v e \<Longrightarrow> mutation_of e = Some (RemoteWrite n i s v)" for n i s v e by (cases e) auto
  with es(2) have "rev (mutations (rev es)) = map (\<lambda>(i, s, v). RemoteWrite CANOPEN_SLAVE_NODE_ID i s v) xs"
    by (induction rule: list_all2_induct) (auto split: prod.splits)
  with es(1) show ?thesis by (auto simp: does_def)
qed

definition exhibits :: "reading list \<Rightarrow> phase" where
  "exhibits xs w w' \<longleftrightarrow> quiet w w' \<and> shown w w' xs"

lemma saw_quiet: "saw n i s v e \<Longrightarrow> mutation_of e = None"
  by (cases e) auto

lemma displays_exhibits: "displays i s v w w' \<Longrightarrow> exhibits [(i, s, v)] w w'"
proof -
  assume "displays i s v w w'"
  then obtain e es where "hist w' = e # es @ hist w" "mutations es = []" "saw CANOPEN_SLAVE_NODE_ID i s v e"
    by (auto simp: displays_def)
  then show ?thesis
    by (auto simp: exhibits_def quiet_def shown_def saw_quiet intro!: exI [of _ "e # es"])
qed

lemma exhibits_trans: "exhibits xs u v \<Longrightarrow> exhibits ys v w \<Longrightarrow> exhibits (xs @ ys) u w"
  by (auto simp: exhibits_def intro: quiet_trans shown_trans)

lemma performs_exhibits:
  assumes "read_only m" and "\<And>w. wp m (\<lambda>ok w'. ok \<longrightarrow> shown w w' xs) w"
  shows "performs m (exhibits xs)"
  unfolding exhibits_def by (rule performsI, rule wp_read_only [OF assms]) simp

lemma readAll_step:
  "wp (rd (get r)) (\<lambda>(ok, v) w'. if ok then wp (readAll fs (put v r)) Q w' else Q (False, put v r) w') w \<Longrightarrow>
     wp (readAll (readField rd get put # fs) r) Q w"
  by (auto simp: readField_def host_wp split: if_splits elim!: wp_mono)

lemma readAll_end: "Q (True, r) w \<Longrightarrow> wp (readAll [] r) Q w"
  by (simp add: host_wp)

section \<open>Steps tried\<close>

text \<open>Steps with what a confirmed and what any attempt does: a run that stops has confirmed every step before the
  one it stopped at.\<close>

fun stops :: "(phase \<times> phase) list \<Rightarrow> phase" where
  "stops [] w w' \<longleftrightarrow> False"
| "stops ((P, T) # steps) w w' \<longleftrightarrow> T w w' \<or> (\<exists>v. P w v \<and> stops steps v w')"

definition tries :: "mutation list \<Rightarrow> phase" where
  "tries xs w w' \<longleftrightarrow> (\<exists>k. does w (take k xs) w')"

text \<open>\<open>m\<close> takes a step: it performs it or tries it.\<close>

definition takes :: "bool host \<Rightarrow> phase \<times> phase \<Rightarrow> bool" where
  "takes m s \<longleftrightarrow> (\<forall>w. wp m (\<lambda>ok w'. if ok then fst s w w' else snd s w w') w)"

lemma takes_all:
  "list_all2 takes ops steps \<Longrightarrow> wp (allM ops) (\<lambda>ok w'. if ok then stages (map fst steps) w w' else stops steps w w') w"
proof (induction arbitrary: w rule: list_all2_induct)
  case Nil
  then show ?case by (simp add: host_wp)
next
  case (Cons m ops s steps)
  have "wp m (\<lambda>ok w'. if ok then fst s w w' else snd s w w') w" using Cons.hyps(1) by (simp add: takes_def)
  then show ?case
    unfolding allM.simps wp_andM
  proof (rule wp_mono)
    fix ok v assume v: "if ok then fst s w v else snd s w v"
    show "if ok then wp (allM ops) (\<lambda>ok w'. if ok then stages (map fst (s # steps)) w w' else stops (s # steps) w w') v
      else if False then stages (map fst (s # steps)) w v else stops (s # steps) w v"
      using v by (cases s) (auto intro!: wp_mono [OF Cons.IH [of v]] split: if_splits)
  qed
qed

lemma wp_allM_append: "wp (allM (xs @ ys)) Q w = wp (andM (allM xs) (allM ys)) Q w"
  by (induction xs arbitrary: w) (simp_all add: host_wp if_distribR cong: if_cong)

lemma tries_short:
  "does w [] w' \<Longrightarrow> tries xs w w'" "does w [x] w' \<Longrightarrow> tries (x # xs) w w'" "does w [x, y] w' \<Longrightarrow> tries (x # y # xs) w w'"
  unfolding tries_def
  by (rule exI [of _ 0], simp) (rule exI [of _ 1], simp, rule exI [of _ 2], simp)

lemma tries_quiet: "tries xs u v \<Longrightarrow> quiet v w \<Longrightarrow> tries xs u w"
  unfolding tries_def does_quiet by (metis append_Nil2 does_trans)

lemma takesI:
  assumes "performs m P" and "\<And>w. wp m (\<lambda>ok w'. T w w') w"
  shows "takes m (P, T)"
  unfolding takes_def
proof
  fix w
  show "wp m (\<lambda>ok w'. if ok then fst (P, T) w w' else snd (P, T) w w') w"
    using performs_wp [OF assms(1), of w] assms(2) [of w] by (auto simp: wp_def split: prod.splits)
qed

end
