(* ===== verification/Srdo_Wire.thy ===== *)
theory Srdo_Wire
  imports Phases
begin

text \<open>
  The wire side of the SRDO validation of \<open>src/srdo_process.cpp\<close>: the profile constants, the safety
  channel with its send and capture operations, the synchroniser that pairs the normal and the
  inverted frame of a transmission, and the scopes of the two helper threads.

  The frames the helper threads themselves send or read are not part of the history: their passes run
  during the calls of the control thread, as the callbacks do, and reach it through the flags of
  \<open>worker_mem\<close>.
\<close>

section \<open>Constants\<close>

definition kRxNormalCanId :: u32 where "kRxNormalCanId = 0x101"
definition kRxInvertedCanId :: u32 where "kRxInvertedCanId = 0x102"
definition kTxNormalCanId :: u32 where "kTxNormalCanId = 0x103"
definition kTxInvertedCanId :: u32 where "kTxInvertedCanId = 0x104"
definition kPayloadLength :: u8 where "kPayloadLength = 4"
definition kProbeNormal :: u32 where "kProbeNormal = 0x12345678"
definition kProbeInverted :: u32 where "kProbeInverted = NOT kProbeNormal"
definition kRxPairDelay :: nat where "kRxPairDelay = 5"
definition kDiagnosticPoll_srdo :: nat where "kDiagnosticPoll_srdo = 10"
definition kWireTimeout :: nat where "kWireTimeout = 1500"
definition kRegressionRxPeriod :: nat where "kRegressionRxPeriod = 40"
definition kPairDeadline :: nat where "kPairDeadline = 50"

lemmas wire_const_defs = kRxNormalCanId_def kRxInvertedCanId_def kTxNormalCanId_def kTxInvertedCanId_def
  kPayloadLength_def kProbeNormal_def kProbeInverted_def

section \<open>The safety channel\<close>

record WireFrame =
  wf_message :: can_frame
  wf_timestamp :: nat

definition empty_frame :: WireFrame where
  "empty_frame = \<lparr>wf_message = \<lparr>can_id = 0, can_flags = 0, can_len = 0, can_data = replicate 8 0\<rparr>, wf_timestamp = 0\<rparr>"

text \<open>What is left to a deadline in milliseconds, at least one while it is not reached.\<close>

definition remainingBudget :: "lely \<Rightarrow> nat \<Rightarrow> nat host" where
  "remainingBudget M deadline = do {
     now \<leftarrow> steady_now M;
     if deadline \<le> now then return 0
     else do {
       let remaining = (deadline - now) div 1000000;
       return (if remaining = 0 then 1 else remaining)
     } }"

definition boundedTimeoutMs_srdo :: "nat \<Rightarrow> nat" where
  "boundedTimeoutMs_srdo timeout =
     (if timeout \<le> 0 then 1 else if timeout > 2147483647 then 2147483647 else timeout)"

definition drainBody :: "lely \<Rightarrow> unit \<Rightarrow> (unit + bool) host" where
  "drainBody M u = do {
     answer \<leftarrow> channel_read M 0;
     case answer of
       WireFault error \<Rightarrow> if isWouldBlock error then return (Inr True) else return (Inr False)
     | WireNone \<Rightarrow> return (Inl ())
     | WireFrame message timestamp \<Rightarrow> return (Inl ()) }"

definition drain_srdo :: "lely \<Rightarrow> bool host" where
  "drain_srdo M = do {
     start \<leftarrow> steady_now M;
     r \<leftarrow> deadline_loop M (start + ms kWireTimeout) (drainBody M) ();
     case r of Inr drained \<Rightarrow> return drained | Inl u \<Rightarrow> return False }"

definition srdoFrame :: "u32 \<Rightarrow> u8 list \<Rightarrow> u8 \<Rightarrow> can_frame" where
  "srdoFrame frame_id data dlc = \<lparr>can_id = frame_id, can_flags = 0, can_len = dlc,
     can_data = take (unat dlc) data @ replicate (8 - unat dlc) 0\<rparr>"

definition sendRx :: "lely \<Rightarrow> u32 \<Rightarrow> u8 list \<Rightarrow> u8 \<Rightarrow> bool host" where
  "sendRx M frame_id data dlc =
     (if (frame_id \<noteq> kRxNormalCanId \<and> frame_id \<noteq> kRxInvertedCanId) \<or> dlc > 8 then return False
      else do {
        error \<leftarrow> channel_write M (srdoFrame frame_id data dlc);
        return (\<not> failed error) })"

definition encodeU32 :: "u32 \<Rightarrow> u8 list" where
  "encodeU32 v = [ucast (v AND 0xFF), ucast (drop_bit 8 v AND 0xFF), ucast (drop_bit 16 v AND 0xFF),
     ucast (drop_bit 24 v AND 0xFF)]"

definition sendPair :: "lely \<Rightarrow> u32 \<Rightarrow> u32 \<Rightarrow> bool host" where
  "sendPair M normal inverted = do {
     sent \<leftarrow> sendRx M kRxNormalCanId (encodeU32 normal) kPayloadLength;
     if \<not> sent then return False
     else do {
       sleep_for M (ms kRxPairDelay);
       sendRx M kRxInvertedCanId (encodeU32 inverted) kPayloadLength
     } }"

definition anyTxBody :: "lely \<Rightarrow> nat \<Rightarrow> WireFrame \<Rightarrow> unit \<Rightarrow> (unit + WireWaitResult \<times> WireFrame) host" where
  "anyTxBody M deadline frame u = do {
     budget \<leftarrow> remainingBudget M deadline;
     answer \<leftarrow> channel_read M (boundedTimeoutMs_srdo budget);
     case answer of
       WireFault error \<Rightarrow>
         if isWouldBlock error then return (Inr (TIMEOUT, frame)) else return (Inr (ERROR, frame))
     | WireNone \<Rightarrow> return (Inl ())
     | WireFrame message timestamp \<Rightarrow>
         if can_id message = kTxNormalCanId \<or> can_id message = kTxInvertedCanId
         then return (Inr (FRAME, \<lparr>wf_message = message, wf_timestamp = timestamp\<rparr>))
         else return (Inl ()) }"

definition waitForAnyTxUntil :: "lely \<Rightarrow> nat \<Rightarrow> WireFrame \<Rightarrow> (WireWaitResult \<times> WireFrame) host" where
  "waitForAnyTxUntil M deadline frame = do {
     r \<leftarrow> deadline_loop M deadline (anyTxBody M deadline frame) ();
     case r of Inr waited \<Rightarrow> return waited | Inl u \<Rightarrow> return (TIMEOUT, frame) }"

section \<open>Pairing\<close>

datatype PairSyncState = EXPECT_NORMAL | EXPECT_INVERTED

record TxPairSynchronizer =
  allow_initial_resync :: bool
  synchronized :: bool
  initial_resync_used :: bool
  sync_state :: PairSyncState
  normal_frame :: WireFrame
  normal_deadline :: nat

definition newSynchronizer :: "bool \<Rightarrow> TxPairSynchronizer" where
  "newSynchronizer allow = \<lparr>allow_initial_resync = allow, synchronized = False,
     initial_resync_used = False, sync_state = EXPECT_NORMAL, normal_frame = empty_frame,
     normal_deadline = 0\<rparr>"

text \<open>One keep-alive pair during a capture: the time of the next one, or nothing if it failed.\<close>

definition serviceKeepalive :: "lely \<Rightarrow> nat option host" where
  "serviceKeepalive M = do {
     sent \<leftarrow> sendPair M kProbeNormal kProbeInverted;
     if \<not> sent then return None
     else do { now \<leftarrow> steady_now M; return (Some (now + ms kRegressionRxPeriod)) } }"

definition dueKeepalive :: "lely \<Rightarrow> bool \<Rightarrow> nat \<Rightarrow> nat option host" where
  "dueKeepalive M keep_rx_alive next_keepalive =
     (if \<not> keep_rx_alive then return (Some next_keepalive)
      else do {
        now \<leftarrow> steady_now M;
        if next_keepalive \<le> now then serviceKeepalive M else return (Some next_keepalive) })"

definition readDeadline :: "TxPairSynchronizer \<Rightarrow> bool \<Rightarrow> nat \<Rightarrow> nat \<Rightarrow> nat" where
  "readDeadline y keep_rx_alive next_keepalive overall =
     (let d = (if sync_state y = EXPECT_INVERTED then min overall (normal_deadline y) else overall)
      in if keep_rx_alive then min d next_keepalive else d)"

definition keepaliveReached :: "TxPairSynchronizer \<Rightarrow> bool \<Rightarrow> nat \<Rightarrow> nat \<Rightarrow> nat \<Rightarrow> bool" where
  "keepaliveReached y keep_rx_alive read_deadline next_keepalive overall \<longleftrightarrow>
     keep_rx_alive \<and> read_deadline = next_keepalive \<and> next_keepalive < overall \<and>
     (sync_state y \<noteq> EXPECT_INVERTED \<or> next_keepalive < normal_deadline y)"

text \<open>What one captured frame does: go on with a new state, or the result and the state left behind.\<close>

definition pairFrame ::
    "lely \<Rightarrow> TxPairSynchronizer \<Rightarrow> WireFrame \<Rightarrow>
       (TxPairSynchronizer + (WireFrame \<times> WireFrame) option \<times> TxPairSynchronizer) host" where
  "pairFrame M y frame =
     (if sync_state y = EXPECT_NORMAL then
        if can_id (wf_message frame) = kTxInvertedCanId then
          if allow_initial_resync y \<and> \<not> synchronized y \<and> \<not> initial_resync_used y
          then return (Inl (y\<lparr>initial_resync_used := True\<rparr>))
          else return (Inr (None, y))
        else do {
          now \<leftarrow> steady_now M;
          return (Inl (y\<lparr>normal_frame := frame, normal_deadline := now + ms kPairDeadline,
                         sync_state := EXPECT_INVERTED\<rparr>)) }
      else if can_id (wf_message frame) = kTxNormalCanId then return (Inr (None, y))
      else return (Inr (Some (normal_frame y, frame), y\<lparr>sync_state := EXPECT_NORMAL, synchronized := True\<rparr>)))"

definition nextPairBody ::
    "lely \<Rightarrow> nat \<Rightarrow> bool \<Rightarrow> TxPairSynchronizer \<times> nat \<Rightarrow>
       ((TxPairSynchronizer \<times> nat) + (WireFrame \<times> WireFrame) option \<times> TxPairSynchronizer) host" where
  "nextPairBody M overall keep_rx_alive st = (case st of (y, next_keepalive) \<Rightarrow> do {
     due \<leftarrow> dueKeepalive M keep_rx_alive next_keepalive;
     case due of
       None \<Rightarrow> return (Inr (None, y))
     | Some next_keepalive \<Rightarrow> do {
         let read_deadline = readDeadline y keep_rx_alive next_keepalive overall;
         (waited, frame) \<leftarrow> waitForAnyTxUntil M read_deadline empty_frame;
         if waited = ERROR then return (Inr (None, y))
         else if waited = TIMEOUT then
           if keepaliveReached y keep_rx_alive read_deadline next_keepalive overall then do {
             serviced \<leftarrow> serviceKeepalive M;
             case serviced of
               None \<Rightarrow> return (Inr (None, y))
             | Some next_keepalive \<Rightarrow> return (Inl (y, next_keepalive)) }
           else return (Inr (None, y))
         else do {
           r \<leftarrow> pairFrame M y frame;
           case r of
             Inr result \<Rightarrow> return (Inr result)
           | Inl y \<Rightarrow> return (Inl (y, next_keepalive)) }
       } })"

text \<open>The two frames, or nothing; the synchroniser is left in its new state.\<close>

definition nextPair ::
    "lely \<Rightarrow> nat \<Rightarrow> bool \<Rightarrow> TxPairSynchronizer \<Rightarrow>
       ((WireFrame \<times> WireFrame) option \<times> TxPairSynchronizer) host" where
  "nextPair M timeout keep_rx_alive y = do {
     start \<leftarrow> steady_now M;
     next_keepalive \<leftarrow> steady_now M;
     r \<leftarrow> deadline_loop M (start + ms timeout) (nextPairBody M (start + ms timeout) keep_rx_alive) (y, next_keepalive);
     case r of Inr result \<Rightarrow> return result | Inl (y, next_keepalive) \<Rightarrow> return (None, y) }"

section \<open>Checks of a captured pair\<close>

definition decodeU32 :: "can_frame \<Rightarrow> u32" where
  "decodeU32 message = ucast (can_data message ! 0) OR push_bit 8 (ucast (can_data message ! 1)) OR
     push_bit 16 (ucast (can_data message ! 2)) OR push_bit 24 (ucast (can_data message ! 3))"

definition validateWirePair :: "WireFrame \<Rightarrow> WireFrame \<Rightarrow> u32 \<Rightarrow> bool" where
  "validateWirePair normal inverted expected_normal \<longleftrightarrow>
     \<not> (can_id (wf_message normal) \<noteq> kTxNormalCanId \<or> can_id (wf_message inverted) \<noteq> kTxInvertedCanId \<or>
        can_flags (wf_message normal) \<noteq> 0 \<or> can_flags (wf_message inverted) \<noteq> 0 \<or>
        can_len (wf_message normal) \<noteq> kPayloadLength \<or> can_len (wf_message inverted) \<noteq> kPayloadLength) \<and>
     list_all (\<lambda>i. \<not> can_data (wf_message inverted) ! i \<noteq> NOT (can_data (wf_message normal) ! i))
       [0..<unat kPayloadLength] \<and>
     \<not> decodeU32 (wf_message normal) \<noteq> expected_normal \<and>
     \<not> wf_timestamp inverted < wf_timestamp normal"

text \<open>\<open>duration_cast<microseconds>\<close> of the difference of two receive timestamps.\<close>

definition elapsedUs :: "nat \<Rightarrow> nat \<Rightarrow> int" where
  "elapsedUs t1 t0 = (if t0 \<le> t1 then int ((t1 - t0) div 1000) else - int ((t0 - t1) div 1000))"

section \<open>The scopes of the helper threads\<close>

text \<open>Joining a thread takes time, in which its last pass ends.\<close>

definition joinThread :: "lely \<Rightarrow> unit host" where
  "joinThread M = sleep_for M 0"

definition keepaliveOk :: "bool host" where
  "keepaliveOk = read_mem (\<lambda>m. wk_ok (workers m))"

definition observerOk :: "bool host" where
  "observerOk = read_mem (\<lambda>m. ob_ok (workers m))"

definition observerUnexpectedId :: "u32 host" where
  "observerUnexpectedId = read_mem (\<lambda>m. ob_unexpected (workers m))"

text \<open>\<open>stop\<close>: the thread is joinable until it was stopped once.\<close>

definition stopRxPairWorker :: "lely \<Rightarrow> unit host" where
  "stopRxPairWorker M = do {
     joinable \<leftarrow> read_mem (\<lambda>m. wk_running (workers m));
     (if joinable then joinThread M else return ());
     update_mem (\<lambda>m. m\<lparr>workers := stopKeepalive (workers m)\<rparr>) }"

definition stopTxSilenceObserver :: "lely \<Rightarrow> unit host" where
  "stopTxSilenceObserver M = do {
     joinable \<leftarrow> read_mem (\<lambda>m. ob_running (workers m));
     (if joinable then joinThread M else return ());
     update_mem (\<lambda>m. m\<lparr>workers := stopObserver (workers m)\<rparr>) }"

text \<open>A scope that holds a worker: it is constructed at the start and stopped on every way out.\<close>

definition withRxPairWorker :: "lely \<Rightarrow> 'a host \<Rightarrow> 'a host" where
  "withRxPairWorker M body = do {
     update_mem (\<lambda>m. m\<lparr>workers := startKeepalive (workers m)\<rparr>);
     r \<leftarrow> body;
     stopRxPairWorker M;
     return r }"

definition withTxSilenceObserver :: "lely \<Rightarrow> 'a host \<Rightarrow> 'a host" where
  "withTxSilenceObserver M body = do {
     update_mem (\<lambda>m. m\<lparr>workers := startObserver (workers m)\<rparr>);
     r \<leftarrow> body;
     stopTxSilenceObserver M;
     return r }"

section \<open>Footprints\<close>

definition rx_frame :: "can_frame \<Rightarrow> bool" where
  "rx_frame message \<longleftrightarrow> (can_id message = 0x101 \<or> can_id message = 0x102) \<and> can_flags message = 0 \<and> can_len message \<le> 8"

lemma wire_memory_wf [simp]:
  "memory_wf m \<Longrightarrow> memory_wf (m\<lparr>workers := startKeepalive (workers m)\<rparr>)"
  "memory_wf m \<Longrightarrow> memory_wf (m\<lparr>workers := stopKeepalive (workers m)\<rparr>)"
  "memory_wf m \<Longrightarrow> memory_wf (m\<lparr>workers := startObserver (workers m)\<rparr>)"
  "memory_wf m \<Longrightarrow> memory_wf (m\<lparr>workers := stopObserver (workers m)\<rparr>)"
  by (simp_all add: memory_wf_def workers_wf_steps)

lemma drainBody_touches [emits_intro]: "touches S (drainBody M u)"
  unfolding drainBody_def by (intro emits_intro) (auto split: wire_answer.split intro!: emits_intro)

lemma wire_reads_touch [emits_intro]:
  "touches S (remainingBudget M d)" "touches S (drain_srdo M)" "touches S keepaliveOk" "touches S observerOk"
  "touches S observerUnexpectedId" "touches S (joinThread M)"
  unfolding remainingBudget_def drain_srdo_def keepaliveOk_def observerOk_def observerUnexpectedId_def
    joinThread_def Let_def
  by (intro emits_intro)+

lemma anyTxBody_touches [emits_intro]: "touches S (anyTxBody M d f u)"
  unfolding anyTxBody_def by (intro emits_intro) (auto split: wire_answer.split intro!: emits_intro)

lemma wire_captures_touch [emits_intro]:
  "touches S (waitForAnyTxUntil M d f)" "touches S (pairFrame M y f)"
  "touches S (stopRxPairWorker M)" "touches S (stopTxSilenceObserver M)"
  unfolding waitForAnyTxUntil_def pairFrame_def stopRxPairWorker_def stopTxSilenceObserver_def
  by (intro emits_intro; simp)+

lemma wire_scopes_touch [emits_intro]:
  "touches S m \<Longrightarrow> touches S (withRxPairWorker M m)" "touches S m \<Longrightarrow> touches S (withTxSilenceObserver M m)"
  unfolding withRxPairWorker_def withTxSilenceObserver_def by (intro emits_intro; simp)+

lemma wire_sends_touch [emits_intro]:
  assumes "\<And>message. rx_frame message \<Longrightarrow> S (Wire message)"
  shows "touches S (sendRx M i d n)" "touches S (sendPair M v v')"
proof -
  show rx: "touches S (sendRx M i d n)" for i d n
  proof (cases "(i \<noteq> kRxNormalCanId \<and> i \<noteq> kRxInvertedCanId) \<or> n > 8")
    case False
    then have "S (Wire (srdoFrame i d n))"
      by (intro assms) (auto simp: rx_frame_def srdoFrame_def kRxNormalCanId_def kRxInvertedCanId_def)
    then show ?thesis unfolding sendRx_def by (intro emits_intro)
  qed (simp add: sendRx_def emits_intro)
  show "touches S (sendPair M v v')" unfolding sendPair_def by (intro emits_intro rx)
qed

lemma pairing_touches [emits_intro]:
  assumes "\<And>message. rx_frame message \<Longrightarrow> S (Wire message)"
  shows "touches S (serviceKeepalive M)" "touches S (dueKeepalive M k t)" "touches S (nextPairBody M o' k st)"
    "touches S (nextPair M t k y)"
  unfolding nextPair_def nextPairBody_def dueKeepalive_def serviceKeepalive_def Let_def
  by (intro emits_intro assms; assumption)+

text \<open>Without keep-alive a capture changes nothing.\<close>

lemma nextPair_read_only: "touches S (nextPair M t False y)"
proof -
  have body: "touches S (nextPairBody M d False st)" for d st
    unfolding nextPairBody_def dueKeepalive_def keepaliveReached_def Let_def
    by (cases st) (simp cong: if_cong, intro emits_intro)
  show ?thesis
    unfolding nextPair_def
    by (intro emits_bind allowed_intro emits_case_sum emits_case_prod emits_return body)
qed

section \<open>What is sent\<close>

abbreviation rx_message :: "u32 \<Rightarrow> u8 list \<Rightarrow> u8 \<Rightarrow> mutation" where
  "rx_message i d n \<equiv> Wire (srdoFrame i d n)"

definition rx_pair :: "u32 \<Rightarrow> u32 \<Rightarrow> mutation list" where
  "rx_pair normal inverted = [rx_message 0x101 (encodeU32 normal) 4, rx_message 0x102 (encodeU32 inverted) 4]"

lemma sendRx_does:
  "wp (sendRx M i d n) (\<lambda>ok w'. ok \<longrightarrow> does w [rx_message i d n] w') w"
  unfolding sendRx_def by (intro wp_intro) (auto intro: does_short)

lemma sendPair_does:
  "wp (sendPair M v v') (\<lambda>ok w'. ok \<longrightarrow> does w (rx_pair v v') w') w"
  unfolding sendPair_def sendRx_def wire_const_defs
  by (intro wp_intro) (auto simp: rx_pair_def intro: does_short)

section \<open>What is captured\<close>

text \<open>The transmitted frames that reads of the channel delivered, oldest first.\<close>

fun tx_frame :: "event \<Rightarrow> WireFrame option" where
  "tx_frame (EvWireRead t (WireFrame message timestamp)) =
     (if can_id message = 0x103 \<or> can_id message = 0x104
      then Some \<lparr>wf_message = message, wf_timestamp = timestamp\<rparr> else None)"
| "tx_frame _ = None"

definition tx_frames :: "history \<Rightarrow> WireFrame list" where
  "tx_frames es = rev (List.map_filter tx_frame es)"

lemma tx_frames_simps [simp]:
  "tx_frames [] = []" "tx_frames (es @ fs) = tx_frames fs @ tx_frames es"
  "tx_frames (e # es) = tx_frames es @ (case tx_frame e of None \<Rightarrow> [] | Some f \<Rightarrow> [f])"
  by (simp_all add: tx_frames_def map_filter_def split: option.split)

definition captures :: "world \<Rightarrow> WireFrame list \<Rightarrow> world \<Rightarrow> bool" where
  "captures u fs w \<longleftrightarrow> (\<exists>es. hist w = es @ hist u \<and> tx_frames es = fs)"

lemma captures_refl [simp]: "captures w [] w"
  by (auto simp: captures_def)

lemma captures_trans: "captures u fs v \<Longrightarrow> captures v gs w \<Longrightarrow> captures u (fs @ gs) w"
  unfolding captures_def by (metis append_assoc tx_frames_simps(2))

lemma captures_add:
  "captures u fs v \<Longrightarrow> hist w = e # hist v \<Longrightarrow> tx_frame e = None \<Longrightarrow> captures u fs w"
  "captures u fs v \<Longrightarrow> hist w = e # hist v \<Longrightarrow> tx_frame e = Some f \<Longrightarrow> captures u (fs @ [f]) w"
  unfolding captures_def by (metis append_Cons tx_frames_simps(3) option.case append_Nil2)+

lemma captures_occur [simp]: "captures u fs v \<Longrightarrow> tx_frame e = None \<Longrightarrow> captures u fs (occur M e d v)"
  by (erule captures_add(1)) auto

abbreviation unread :: "'a host \<Rightarrow> bool" where
  "unread m \<equiv> emits (\<lambda>e. tx_frame e = None) m"

lemma unread_captures:
  assumes "unread m" and "captures u fs w" and "\<And>a w'. captures u fs w' \<Longrightarrow> Q a w'"
  shows "wp m Q w"
proof (rule wpI)
  fix a w' assume run: "run_state m w = (a, w')"
  obtain es where es: "hist w' = es @ hist w" "list_all (\<lambda>e. tx_frame e = None) es"
    using emitsD [OF assms(1) run] by auto
  have "tx_frames es = []" using es(2) by (induction es) auto
  with es(1) have "captures w [] w'" by (auto simp: captures_def)
  from captures_trans [OF assms(2) this] show "Q a w'" by (intro assms(3)) simp
qed

lemma unread_calls [emits_intro]:
  "unread (steady_now M)" "unread (sleep_for M d)" "unread (channel_write M f)"
  by (rule emits_steady_now emits_sleep_for emits_channel; simp)+

lemma unread_pauses [emits_intro]:
  "unread (remainingBudget M d)" "unread (sendRx M i data n)" "unread (sendPair M v v')" "unread (serviceKeepalive M)"
  "unread (dueKeepalive M k t)"
  unfolding remainingBudget_def sendRx_def sendPair_def serviceKeepalive_def dueKeepalive_def Let_def
  by (intro emits_intro)+

text \<open>A wait for a transmitted frame reads on past every other frame and stops at the first one.\<close>

lemma waitForAnyTxUntil_first:
  assumes "captures u fs w"
  shows "wp (waitForAnyTxUntil M d f0) (\<lambda>(waited, frame) w'. if waited = FRAME
      then captures u (fs @ [frame]) w' \<and> (can_id (wf_message frame) = 0x103 \<or> can_id (wf_message frame) = 0x104)
      else captures u fs w') w"
  unfolding waitForAnyTxUntil_def
proof (rule wpi_bind, rule wp_deadline_loop [where I = "\<lambda>_ v. captures u fs v"])
  fix v and x :: unit assume "captures u fs v"
  then show "wp (anyTxBody M d f0 x) (\<lambda>r w'. case r of Inl s' \<Rightarrow> captures u fs w'
       | Inr a \<Rightarrow> wp (case Inr a of Inr waited \<Rightarrow> return waited | Inl u \<Rightarrow> return (TIMEOUT, f0))
           (\<lambda>(waited, frame) w'. if waited = FRAME then captures u (fs @ [frame]) w' \<and>
              (can_id (wf_message frame) = 0x103 \<or> can_id (wf_message frame) = 0x104) else captures u fs w') w') v"
    unfolding anyTxBody_def
    apply (intro wpi_bind)
    apply (rule unread_captures [rotated], assumption)
     apply (rule wpi_bind, rule wpi_channel(2))
    subgoal for a b x c
      by (cases x)
        (auto simp: host_wp wire_const_defs elim: captures_add)
    apply (rule emits_intro)
    done
qed (use assms in \<open>auto simp: host_wp\<close>)

section \<open>Pairs\<close>

definition is_normal :: "WireFrame \<Rightarrow> bool" where "is_normal f \<longleftrightarrow> can_id (wf_message f) = 0x103"
definition is_inverted :: "WireFrame \<Rightarrow> bool" where "is_inverted f \<longleftrightarrow> can_id (wf_message f) = 0x104"

lemma kinds_exclusive [simp]: "is_normal f \<Longrightarrow> \<not> is_inverted f"
  by (simp add: is_normal_def is_inverted_def)

text \<open>\<open>y\<close> may discard \<open>lead\<close> before its first pair; \<open>used\<close> says whether it has.\<close>

definition discards :: "TxPairSynchronizer \<Rightarrow> WireFrame list \<Rightarrow> bool \<Rightarrow> bool" where
  "discards y lead used \<longleftrightarrow> lead = [] \<and> used = initial_resync_used y \<or>
     (\<exists>f. lead = [f] \<and> is_inverted f \<and> allow_initial_resync y \<and> \<not> synchronized y \<and>
        \<not> initial_resync_used y \<and> used)"

definition pairing :: "TxPairSynchronizer \<Rightarrow> world \<Rightarrow> TxPairSynchronizer \<Rightarrow> world \<Rightarrow> bool" where
  "pairing y0 u y w \<longleftrightarrow> allow_initial_resync y = allow_initial_resync y0 \<and> synchronized y = synchronized y0 \<and>
     (\<exists>lead. discards y0 lead (initial_resync_used y) \<and>
        (case sync_state y of EXPECT_NORMAL \<Rightarrow> captures u lead w
         | EXPECT_INVERTED \<Rightarrow> captures u (lead @ [normal_frame y]) w \<and> is_normal (normal_frame y)))"

definition paired :: "TxPairSynchronizer \<Rightarrow> world \<Rightarrow> (WireFrame \<times> WireFrame) option \<times> TxPairSynchronizer \<Rightarrow> world \<Rightarrow> bool" where
  "paired y0 u r w \<longleftrightarrow> (case r of (None, y) \<Rightarrow> True
     | (Some (n, i), y) \<Rightarrow> is_normal n \<and> is_inverted i \<and> synchronized y \<and> sync_state y = EXPECT_NORMAL \<and>
         allow_initial_resync y = allow_initial_resync y0 \<and>
         (\<exists>lead. discards y0 lead (initial_resync_used y) \<and> captures u (lead @ [n, i]) w))"

lemma paired_None [simp]: "paired y0 u (None, y) w"
  by (simp add: paired_def)

lemma pairing_unread:
  assumes "unread m" and "pairing y0 u y w" and "\<And>a w'. pairing y0 u y w' \<Longrightarrow> Q a w'"
  shows "wp m Q w"
  using assms(2)
  by (cases "sync_state y")
     (auto simp: pairing_def intro!: assms(3) elim!: unread_captures [OF assms(1)])

lemma pairing_occur: "pairing y0 u y w \<Longrightarrow> tx_frame e = None \<Longrightarrow> pairing y0 u y (occur M e d w)"
  by (auto simp: pairing_def split: PairSyncState.splits)

lemma pairFrame_pairing:
  assumes y: "pairing y0 u y v" and w: "if sync_state y = EXPECT_NORMAL
      then \<exists>lead. discards y0 lead (initial_resync_used y) \<and> captures u (lead @ [f]) w
      else \<exists>lead. discards y0 lead (initial_resync_used y) \<and> captures u (lead @ [normal_frame y, f]) w"
    and f: "is_normal f \<or> is_inverted f"
  shows "wp (pairFrame M y f) (\<lambda>r w'. case r of Inl y' \<Rightarrow> pairing y0 u y' w' | Inr x \<Rightarrow> paired y0 u x w') w"
proof (cases "sync_state y")
  case EXPECT_NORMAL
  with w obtain lead where lead: "discards y0 lead (initial_resync_used y)" "captures u (lead @ [f]) w" by auto
  show ?thesis
  proof (cases "is_inverted f")
    case True
    with EXPECT_NORMAL lead y show ?thesis
      by (auto simp: pairFrame_def host_wp is_inverted_def kTxInvertedCanId_def pairing_def discards_def)
  next
    case False
    then have keep: "pairing y0 u (y\<lparr>normal_frame := f, normal_deadline := d, sync_state := EXPECT_INVERTED\<rparr>) w'"
      if "hist w' = EvNow t # hist w" for d t w'
      using lead y f captures_add(1) [OF lead(2) that] by (auto simp: pairing_def)
    from EXPECT_NORMAL False show ?thesis
      unfolding pairFrame_def
      by (auto simp: host_wp is_inverted_def kTxInvertedCanId_def intro!: wpi_steady_now keep)
  qed
next
  case EXPECT_INVERTED
  with w y f show ?thesis
    by (auto simp: pairFrame_def host_wp kTxNormalCanId_def is_normal_def pairing_def paired_def)
qed

lemma waitForAnyTxUntil_pairing:
  assumes "pairing y0 u y w"
  shows "wp (waitForAnyTxUntil M d f0) (\<lambda>(waited, f) w'. if waited = FRAME
      then (is_normal f \<or> is_inverted f) \<and> (if sync_state y = EXPECT_NORMAL
        then \<exists>lead. discards y0 lead (initial_resync_used y) \<and> captures u (lead @ [f]) w'
        else \<exists>lead. discards y0 lead (initial_resync_used y) \<and> captures u (lead @ [normal_frame y, f]) w')
      else pairing y0 u y w') w"
proof -
  obtain lead where lead: "discards y0 lead (initial_resync_used y)"
    "captures u (if sync_state y = EXPECT_NORMAL then lead else lead @ [normal_frame y]) w"
    using assms by (cases "sync_state y") (auto simp: pairing_def)
  show ?thesis
    by (rule wp_mono [OF waitForAnyTxUntil_first [OF lead(2)]])
       (use assms lead in \<open>cases "sync_state y"; auto simp: pairing_def is_normal_def is_inverted_def
          split: if_splits\<close>)
qed

lemma dueKeepalive_unread: "unread (dueKeepalive M k t)"
  by (rule unread_pauses)

lemma nextPairBody_pairing:
  assumes "pairing y0 u y v"
  shows "wp (nextPairBody M overall keep (y, n)) (\<lambda>r w'. case r of
     Inl (y', n') \<Rightarrow> pairing y0 u y' w' | Inr x \<Rightarrow> paired y0 u x w') v"
  unfolding nextPairBody_def prod.case Let_def
  apply (intro wpi_bind)
  apply (rule pairing_unread [OF unread_pauses(5) assms])
  apply (rule wpi_case_option)
   apply (simp add: host_wp)
  apply (rule wpi_bind, rule wp_mono, erule waitForAnyTxUntil_pairing)
  apply (rule wpi_case_prod)
  subgoal premises prems for due w1 next' p w2 waited f
  proof (cases waited)
    case FRAME
    with prems have "wp (pairFrame M y f) (\<lambda>r w'. case r of Inl y' \<Rightarrow> pairing y0 u y' w' | Inr x \<Rightarrow> paired y0 u x w') w2"
      by (intro pairFrame_pairing [OF assms]) (auto split: if_splits)
    then show ?thesis
      using FRAME by (auto simp: host_wp split: sum.split elim!: wp_mono)
  next
    case TIMEOUT
    with prems show ?thesis
      by (auto simp: host_wp intro!: pairing_unread [OF unread_pauses(4), of y0 u y] split: option.split)
  qed (simp add: host_wp)
  done

text \<open>A delivered pair: the transmitted frames read in this call are exactly the two, in order, after at
  most one discarded inverted frame, and none is discarded once a pair was delivered.\<close>

lemma nextPair_paired:
  assumes "sync_state y = EXPECT_NORMAL"
  shows "wp (nextPair M t keep y) (\<lambda>r w'. paired y w r w') w"
  unfolding nextPair_def
proof (rule wpi_bind, rule wpi_steady_now, rule wpi_bind, rule wpi_steady_now, rule wpi_bind,
    rule wp_deadline_loop [where I = "\<lambda>st v. pairing y w (fst st) v"])
  fix a b and v v' :: world
  assume "hist v = EvNow a # hist w" "hist v' = EvNow b # hist v"
  then have "captures w [] v'" by (auto simp: captures_def)
  with assms show "pairing y w (fst (y, b)) v'"
    by (auto simp: pairing_def discards_def)
next
  fix a v and s :: "TxPairSynchronizer \<times> nat"
  assume "pairing y w (fst s) v"
  then show "wp (nextPairBody M (a + ms t) keep s) (\<lambda>r w'. case r of Inl s' \<Rightarrow> pairing y w (fst s') w'
     | Inr x \<Rightarrow> wp (case Inr x of Inr result \<Rightarrow> return result | Inl (y, next_keepalive) \<Rightarrow> return (None, y))
         (paired y w) w') v"
    by (cases s) (auto simp: host_wp split: sum.split elim!: wp_mono [OF nextPairBody_pairing])
qed (auto simp: pairing_occur host_wp)

section \<open>The payload\<close>

text \<open>The bytes of a frame as bits of the value, least significant byte first.\<close>

lemma mask8: "(0xFF :: u32) = mask 8"
  by (simp add: mask_eq_exp_minus_1)

lemma payload_bits: "bit (ucast (drop_bit k v AND 0xFF) :: u8) n \<longleftrightarrow> n < 8 \<and> bit v (k + n)" for v :: u32
  unfolding mask8 by (auto simp: bit_simps)

lemma byte_high: "8 \<le> n \<Longrightarrow> \<not> bit (b :: u8) n"
  by (auto dest: bit_imp_le_length)

lemma assemble_bits:
  "bit (ucast (b0 :: u8) OR push_bit 8 (ucast (b1 :: u8)) OR push_bit 16 (ucast (b2 :: u8)) OR push_bit 24 (ucast (b3 :: u8)) :: u32) n
     \<longleftrightarrow> n < 32 \<and> bit ([b0, b1, b2, b3] ! (n div 8)) (n mod 8)"
proof -
  have split: "bit (ucast b0 OR push_bit 8 (ucast b1) OR push_bit 16 (ucast b2) OR push_bit 24 (ucast b3) :: u32) n \<longleftrightarrow>
      n < 32 \<and> (bit b0 n \<or> 8 \<le> n \<and> bit b1 (n - 8) \<or> 16 \<le> n \<and> bit b2 (n - 16) \<or> 24 \<le> n \<and> bit b3 (n - 24))"
    by (auto simp: bit_or_iff bit_push_bit_iff bit_ucast_iff)
  obtain q r where n: "n = 8 * q + r" "r < 8" by (metis mult_div_mod_eq mod_less_divisor zero_less_numeral)
  then have "n div 8 = q" "n mod 8 = r" by simp_all
  moreover have "q = 0 \<or> q = 1 \<or> q = 2 \<or> q = 3 \<or> 4 \<le> q" by linarith
  ultimately show ?thesis
    unfolding split using n by (elim disjE) (simp_all add: byte_high)
qed

lemma decode_bits:
  "bit (decodeU32 message) n \<longleftrightarrow> n < 32 \<and> bit (can_data message ! (n div 8)) (n mod 8)"
proof -
  have "[can_data message ! 0, can_data message ! 1, can_data message ! 2, can_data message ! 3] ! k = can_data message ! k"
    if "k < 4" for k using that by (auto simp: less_Suc_eq numeral_eq_Suc)
  then show ?thesis unfolding decodeU32_def assemble_bits by auto
qed

lemma inverted_bytes:
  "(\<forall>k < 4. can_data i ! k = NOT (can_data n ! k)) \<longleftrightarrow> decodeU32 i = NOT (decodeU32 n)"
proof
  assume b: "\<forall>k < 4. can_data i ! k = NOT (can_data n ! k)"
  show "decodeU32 i = NOT (decodeU32 n)"
    by (rule bit_eqI) (use b in \<open>auto simp: decode_bits bit_not_iff\<close>)
next
  assume d: "decodeU32 i = NOT (decodeU32 n)"
  show "\<forall>k < 4. can_data i ! k = NOT (can_data n ! k)"
  proof (intro allI impI bit_eqI)
    fix k j :: nat assume k: "k < 4" and "possible_bit TYPE(u8) j"
    then have j: "j < 8" by simp
    from d have "bit (decodeU32 i) (8 * k + j) \<longleftrightarrow> bit (NOT (decodeU32 n)) (8 * k + j)" by simp
    with k j show "bit (can_data i ! k) j \<longleftrightarrow> bit (NOT (can_data n ! k)) j"
      by (simp add: decode_bits bit_not_iff)
  qed
qed

lemma decode_encode: "decodeU32 (srdoFrame i (encodeU32 v) 4) = v"
proof (rule bit_eqI)
  fix n
  have e: "encodeU32 v = map (\<lambda>k. ucast (drop_bit (8 * k) v AND 0xFF)) [0, 1, 2, 3]" by (simp add: encodeU32_def)
  have "bit (can_data (srdoFrame i (encodeU32 v) 4) ! (n div 8)) (n mod 8) \<longleftrightarrow> bit v n" if "n < 32"
  proof -
    from that have "n div 8 \<in> {0, 1, 2, 3}" by auto
    then have "can_data (srdoFrame i (encodeU32 v) 4) ! (n div 8) = ucast (drop_bit (8 * (n div 8)) v AND 0xFF)"
      by (auto simp: srdoFrame_def e)
    then show ?thesis by (simp add: payload_bits)
  qed
  moreover have "bit v n \<Longrightarrow> n < 32" by (auto dest: bit_imp_le_length)
  ultimately show "bit (decodeU32 (srdoFrame i (encodeU32 v) 4)) n \<longleftrightarrow> bit v n"
    by (auto simp: decode_bits)
qed

lemma validateWirePair_iff:
  "validateWirePair n i e \<longleftrightarrow> can_id (wf_message n) = 0x103 \<and> can_id (wf_message i) = 0x104 \<and>
     can_flags (wf_message n) = 0 \<and> can_flags (wf_message i) = 0 \<and> can_len (wf_message n) = 4 \<and> can_len (wf_message i) = 4 \<and>
     decodeU32 (wf_message n) = e \<and> decodeU32 (wf_message i) = NOT e \<and> wf_timestamp n \<le> wf_timestamp i"
proof -
  have "list_all (\<lambda>k. \<not> can_data (wf_message i) ! k \<noteq> NOT (can_data (wf_message n) ! k)) [0..<unat kPayloadLength] \<longleftrightarrow>
      decodeU32 (wf_message i) = NOT (decodeU32 (wf_message n))"
    unfolding inverted_bytes [symmetric] by (auto simp: list_all_iff kPayloadLength_def)
  then show ?thesis
    unfolding validateWirePair_def by (auto simp: wire_const_defs)
qed

lemma srdoFrame_fields [simp]:
  "can_id (srdoFrame i d n) = i" "can_flags (srdoFrame i d n) = 0" "can_len (srdoFrame i d n) = n"
  by (simp_all add: srdoFrame_def)

end
