(* ===== verification/Srdo_Process.thy ===== *)
theory Srdo_Process
  imports Srdo_Wire Storage_Process Pdo_Process Sync_Pdo_Process
begin

text \<open>
  The SRDO validation of \<open>src/srdo_process.cpp\<close> above the wire: budgeted SDO access, the diagnostic
  object, the profile and its checksum, the restoration of the baseline, the transmission requests with
  their busy retry, and the functional checks.  The fault cases and the process are in
  \<open>Srdo_Faults\<close>.
\<close>

section \<open>Constants\<close>

definition kSrdo1CommIndex :: u16 where "kSrdo1CommIndex = 0x1301"
definition kSrdo2CommIndex :: u16 where "kSrdo2CommIndex = 0x1302"
definition kSrdo1MapIndex :: u16 where "kSrdo1MapIndex = 0x1381"
definition kSrdo2MapIndex :: u16 where "kSrdo2MapIndex = 0x1382"
definition kSrdoConfigValidIndex :: u16 where "kSrdoConfigValidIndex = 0x13FE"
definition kSrdoChecksumIndex :: u16 where "kSrdoChecksumIndex = 0x13FF"
definition kSrdoDiagnosticIndex :: u16 where "kSrdoDiagnosticIndex = 0x2306"
definition kProfileSctMs :: u16 where "kProfileSctMs = 100"
definition kProfileSrvtMs :: u8 where "kProfileSrvtMs = 20"
definition kProfileTransmissionType :: u8 where "kProfileTransmissionType = 254"
definition kRxNormalMap :: u32 where "kRxNormalMap = 0x23060120"
definition kRxInvertedMap :: u32 where "kRxInvertedMap = 0x23060220"
definition kTxNormalMap :: u32 where "kTxNormalMap = 0x23060320"
definition kTxInvertedMap :: u32 where "kTxInvertedMap = 0x23060420"
definition kWrongInverted :: u32 where "kWrongInverted = 0xAAAAAAAA"
definition kStateTimeout :: nat where "kStateTimeout = 1500"
definition kResetTimeout :: nat where "kResetTimeout = CANOPEN_WAIT_TIMEOUT_MS"
definition kEstablishedHold :: nat where "kEstablishedHold = 130"
definition kTxPairSamples :: nat where "kTxPairSamples = 200"
definition kResetNaturalPairSamples :: nat where "kResetNaturalPairSamples = 3"
definition kTxBusyMaxRetries :: nat where "kTxBusyMaxRetries = 4"
definition kCycleMinUs :: int where "kCycleMinUs = 50000"
definition kCycleMaxUs :: int where "kCycleMaxUs = 150000"
definition kCycleAverageMinUs :: int where "kCycleAverageMinUs = 80000"
definition kCycleAverageMaxUs :: int where "kCycleAverageMaxUs = 120000"
definition kPairMaxUs :: int where "kPairMaxUs = 30000"

text \<open>Signed 32-bit results and signed 8-bit states carry the bits of the C++ values.\<close>

definition kTxRequestResultIdle :: u32 where "kTxRequestResultIdle = 0x80000000"
definition kTxRequestResultBusy :: u32 where "kTxRequestResultBusy = - 15"
definition kStateErrorConfiguration :: u8 where "kStateErrorConfiguration = - 9"
definition kStateTxNotInverted :: u8 where "kStateTxNotInverted = - 6"
definition kStateRxTimeoutSrvt :: u8 where "kStateRxTimeoutSrvt = - 4"
definition kStateRxTimeoutSct :: u8 where "kStateRxTimeoutSct = - 3"
definition kStateRxNotInverted :: u8 where "kStateRxNotInverted = - 2"
definition kStateRxShort :: u8 where "kStateRxShort = - 1"
definition kStateNmtNotOperational :: u8 where "kStateNmtNotOperational = 1"
definition kStateEstablished :: u8 where "kStateEstablished = 3"

lemmas srdo_index_defs = kSrdo1CommIndex_def kSrdo2CommIndex_def kSrdo1MapIndex_def kSrdo2MapIndex_def
  kSrdoConfigValidIndex_def kSrdoChecksumIndex_def kSrdoDiagnosticIndex_def

lemmas srdo_profile_defs = kProfileSctMs_def kProfileSrvtMs_def kProfileTransmissionType_def
  kRxNormalMap_def kRxInvertedMap_def kTxNormalMap_def kTxInvertedMap_def

section \<open>Data\<close>

record SrdoDiagnostic =
  dg_rx_normal :: u32
  dg_rx_inverted :: u32
  dg_tx_normal :: u32
  dg_tx_inverted :: u32
  dg_aggregate_state :: u8
  dg_rx_state :: u8
  dg_tx_state :: u8
  dg_state_seq :: u32
  dg_tx_request_seq :: u32
  dg_tx_complete_seq :: u32
  dg_tx_request_result :: u32

definition default_srdo_diagnostic :: SrdoDiagnostic where
  "default_srdo_diagnostic = \<lparr>dg_rx_normal = 0, dg_rx_inverted = 0, dg_tx_normal = 0, dg_tx_inverted = 0,
     dg_aggregate_state = 0, dg_rx_state = 0, dg_tx_state = 0, dg_state_seq = 0, dg_tx_request_seq = 0,
     dg_tx_complete_seq = 0, dg_tx_request_result = 0\<rparr>"

record TxRequestOutcome =
  tq_sequence :: u32
  tq_result :: u32
  tq_busy_retries :: nat

record SrdoCommProfile =
  cm_direction :: u8
  cm_sct_ms :: u16
  cm_srvt_ms :: u8
  cm_transmission_type :: u8
  cm_normal_id :: u32
  cm_inverted_id :: u32

definition default_comm :: SrdoCommProfile where
  "default_comm = \<lparr>cm_direction = 0, cm_sct_ms = 0, cm_srvt_ms = 0, cm_transmission_type = 0,
     cm_normal_id = 0, cm_inverted_id = 0\<rparr>"

record SrdoMapProfile =
  mp_count :: u8
  mp_entry :: "u32 list"

definition default_map :: SrdoMapProfile where
  "default_map = \<lparr>mp_count = 0, mp_entry = [0, 0]\<rparr>"

text \<open>The arrays have two elements, the receive SRDO and the transmit SRDO.\<close>

record SrdoProfile =
  pf_configuration_valid :: u8
  pf_checksum_count :: u8
  pf_checksum :: "u16 list"
  pf_comm :: "SrdoCommProfile list"
  pf_map :: "SrdoMapProfile list"

definition default_profile :: SrdoProfile where
  "default_profile = \<lparr>pf_configuration_valid = 0, pf_checksum_count = 0, pf_checksum = [0, 0],
     pf_comm = [default_comm, default_comm], pf_map = [default_map, default_map]\<rparr>"

section \<open>SDO access within a budget\<close>

text \<open>\<open>wait_until\<close>: the wait lasts to the deadline, counted from the submission.\<close>

definition submit_upload_until :: "'a sdo_type \<Rightarrow> lely \<Rightarrow> sdo_request \<Rightarrow> nat \<Rightarrow> 'a submission host" where
  "submit_upload_until T M rq deadline =
     State (\<lambda>w. run_state (submit_upload T M rq (deadline - clock w)) w)"

definition readRemoteUntil ::
    "'a sdo_type \<Rightarrow> lely \<Rightarrow> u16 \<Rightarrow> u8 \<Rightarrow> nat \<Rightarrow> 'a \<Rightarrow> (bool \<times> 'a) host" where
  "readRemoteUntil T M index sub deadline v = do {
     budget \<leftarrow> remainingBudget M deadline;
     if budget \<le> 0 then return (False, v)
     else do {
       submitted \<leftarrow> submit_upload_until T M (sdoRequest Normal CANOPEN_SLAVE_NODE_ID index sub budget) deadline;
       case submitted of
         Rejected e \<Rightarrow> return (False, v)
       | Accepted completion \<Rightarrow>
           (let st = runCompletion readCompletion completion
                      \<lparr>rs_completed = False, rs_error = NoError, rs_value = v\<rparr>
            in if \<not> rs_completed st then return (False, v)
               else if failed (rs_error st) then return (False, v)
               else return (True, rs_value st))
     } }"

definition readRemote_srdo :: "'a sdo_type \<Rightarrow> lely \<Rightarrow> u16 \<Rightarrow> u8 \<Rightarrow> 'a \<Rightarrow> (bool \<times> 'a) host" where
  "readRemote_srdo T M index sub v = do {
     start \<leftarrow> steady_now M;
     readRemoteUntil T M index sub (start + ms kStateTimeout) v }"

definition writeRemote_srdo :: "lely \<Rightarrow> u16 \<Rightarrow> u8 \<Rightarrow> sdo_value \<Rightarrow> bool host" where
  "writeRemote_srdo M index sub v = do {
     result \<leftarrow> writeRemoteSdoFor M CANOPEN_SLAVE_NODE_ID index sub v 500 100;
     return (result = SUCCESS) }"

text \<open>\<open>SdoErrc::PARAM_VAL\<close> and \<open>SdoErrc::PDO_LEN\<close> of CiA 301.\<close>

definition abort_PARAM_VAL :: u32 where "abort_PARAM_VAL = 0x06090030"
definition abort_PDO_LEN :: u32 where "abort_PDO_LEN = 0x06040042"

definition sdoCategory :: "ecode \<Rightarrow> bool" where
  "sdoCategory e \<longleftrightarrow> (\<exists>c. e = SdoCategory c)"

lemma sdoCategory_simps [simp, code]:
  "sdoCategory NoError \<longleftrightarrow> False" "sdoCategory (SdoCategory c) \<longleftrightarrow> True" "sdoCategory (OtherCategory n) \<longleftrightarrow> False"
  by (simp_all add: sdoCategory_def)

definition requireWriteRejected :: "lely \<Rightarrow> u16 \<Rightarrow> u8 \<Rightarrow> sdo_value \<Rightarrow> u32 \<Rightarrow> bool host" where
  "requireWriteRejected M index sub v expected_abort = do {
     submitted \<leftarrow> submit_download M (sdoRequest Normal CANOPEN_SLAVE_NODE_ID index sub 500) v (ms 600);
     case submitted of
       Rejected e \<Rightarrow> return False
     | Accepted completion \<Rightarrow>
         (let st = runCompletion writeCompletion completion \<lparr>ws_completed = False, ws_error = NoError\<rparr>
          in if \<not> ws_completed st then return False
             else if \<not> failed (ws_error st) then return False
             else if \<not> sdoCategory (ws_error st) then return False
             else let abort = sdo_errc M (ws_error st)
                  in if abort = sdoErrc_TIMEOUT then return False
                     else if abort \<noteq> expected_abort then return False
                     else return True) }"

section \<open>The diagnostic object\<close>

definition diagnosticFields :: "lely \<Rightarrow> nat \<Rightarrow> (SrdoDiagnostic \<Rightarrow> (bool \<times> SrdoDiagnostic) host) list" where
  "diagnosticFields M deadline = [
     readField (readRemoteUntil tU32 M kSrdoDiagnosticIndex 0x01 deadline) dg_rx_normal (\<lambda>v d. d\<lparr>dg_rx_normal := v\<rparr>),
     readField (readRemoteUntil tU32 M kSrdoDiagnosticIndex 0x02 deadline) dg_rx_inverted (\<lambda>v d. d\<lparr>dg_rx_inverted := v\<rparr>),
     readField (readRemoteUntil tU32 M kSrdoDiagnosticIndex 0x03 deadline) dg_tx_normal (\<lambda>v d. d\<lparr>dg_tx_normal := v\<rparr>),
     readField (readRemoteUntil tU32 M kSrdoDiagnosticIndex 0x04 deadline) dg_tx_inverted (\<lambda>v d. d\<lparr>dg_tx_inverted := v\<rparr>),
     readField (readRemoteUntil tI8 M kSrdoDiagnosticIndex 0x05 deadline) dg_aggregate_state (\<lambda>v d. d\<lparr>dg_aggregate_state := v\<rparr>),
     readField (readRemoteUntil tI8 M kSrdoDiagnosticIndex 0x06 deadline) dg_rx_state (\<lambda>v d. d\<lparr>dg_rx_state := v\<rparr>),
     readField (readRemoteUntil tI8 M kSrdoDiagnosticIndex 0x07 deadline) dg_tx_state (\<lambda>v d. d\<lparr>dg_tx_state := v\<rparr>),
     readField (readRemoteUntil tU32 M kSrdoDiagnosticIndex 0x09 deadline) dg_tx_request_seq (\<lambda>v d. d\<lparr>dg_tx_request_seq := v\<rparr>),
     readField (readRemoteUntil tU32 M kSrdoDiagnosticIndex 0x0A deadline) dg_tx_complete_seq (\<lambda>v d. d\<lparr>dg_tx_complete_seq := v\<rparr>),
     readField (readRemoteUntil tI32 M kSrdoDiagnosticIndex 0x0B deadline) dg_tx_request_result (\<lambda>v d. d\<lparr>dg_tx_request_result := v\<rparr>)]"

fun diagnosticAttempts :: "nat \<Rightarrow> lely \<Rightarrow> nat \<Rightarrow> SrdoDiagnostic \<Rightarrow> (bool \<times> SrdoDiagnostic) host" where
  "diagnosticAttempts 0 M deadline d = return (False, d)"
| "diagnosticAttempts (Suc n) M deadline d = do {
     now \<leftarrow> steady_now M;
     if \<not> now < deadline then return (False, d)
     else do {
       (ok, seq_begin) \<leftarrow> readRemoteUntil tU32 M kSrdoDiagnosticIndex 0x08 deadline 0;
       if \<not> ok then return (False, d)
       else do {
         (ok, d) \<leftarrow> readAll (diagnosticFields M deadline) d;
         if \<not> ok then return (False, d)
         else do {
           (ok, seq_end) \<leftarrow> readRemoteUntil tU32 M kSrdoDiagnosticIndex 0x08 deadline 0;
           if \<not> ok then return (False, d)
           else if seq_begin = seq_end then return (True, d\<lparr>dg_state_seq := seq_end\<rparr>)
           else diagnosticAttempts n M deadline d
         } } } }"

definition readDiagnosticUntil :: "lely \<Rightarrow> nat \<Rightarrow> SrdoDiagnostic \<Rightarrow> (bool \<times> SrdoDiagnostic) host" where
  "readDiagnosticUntil M deadline d = diagnosticAttempts 4 M deadline d"

definition readDiagnostic_srdo :: "lely \<Rightarrow> SrdoDiagnostic \<Rightarrow> (bool \<times> SrdoDiagnostic) host" where
  "readDiagnostic_srdo M d = do {
     start \<leftarrow> steady_now M;
     readDiagnosticUntil M (start + ms kStateTimeout) d }"

text \<open>\<open>sleep_for(min(kDiagnosticPoll, remainingBudget(deadline)))\<close>.\<close>

definition pollPause :: "lely \<Rightarrow> nat \<Rightarrow> unit host" where
  "pollPause M deadline = do {
     budget \<leftarrow> remainingBudget M deadline;
     sleep_for M (ms (min kDiagnosticPoll_srdo budget)) }"

definition diagnosticStateBody :: "lely \<Rightarrow> u8 \<Rightarrow> u8 \<Rightarrow> u8 \<Rightarrow> nat \<Rightarrow> unit \<Rightarrow> (unit + bool) host" where
  "diagnosticStateBody M expected_rx expected_tx expected_aggregate deadline u = do {
     (ok, rx_state) \<leftarrow> readRemoteUntil tI8 M kSrdoDiagnosticIndex 0x06 deadline 0;
     if \<not> ok then return (Inr False)
     else do {
       (ok, tx_state) \<leftarrow> readRemoteUntil tI8 M kSrdoDiagnosticIndex 0x07 deadline 0;
       if \<not> ok then return (Inr False)
       else do {
         (ok, aggregate_state) \<leftarrow> readRemoteUntil tI8 M kSrdoDiagnosticIndex 0x05 deadline 0;
         if \<not> ok then return (Inr False)
         else if rx_state = expected_rx \<and> tx_state = expected_tx \<and> aggregate_state = expected_aggregate
         then return (Inr True)
         else do { pollPause M deadline; return (Inl ()) }
       } } }"

definition waitForDiagnosticState :: "lely \<Rightarrow> u8 \<Rightarrow> u8 \<Rightarrow> u8 \<Rightarrow> bool host" where
  "waitForDiagnosticState M expected_rx expected_tx expected_aggregate = do {
     start \<leftarrow> steady_now M;
     r \<leftarrow> deadline_loop M (start + ms kStateTimeout)
            (diagnosticStateBody M expected_rx expected_tx expected_aggregate (start + ms kStateTimeout)) ();
     case r of Inr reached \<Rightarrow> return reached | Inl u \<Rightarrow> return False }"

definition stateBody :: "lely \<Rightarrow> u8 \<Rightarrow> u8 \<Rightarrow> nat \<Rightarrow> unit \<Rightarrow> (unit + bool) host" where
  "stateBody M sub expected deadline u = do {
     (ok, state) \<leftarrow> readRemoteUntil tI8 M kSrdoDiagnosticIndex sub deadline 0;
     if \<not> ok then return (Inr False)
     else if state = expected then return (Inr True)
     else if sint state < 0 \<and> state \<noteq> expected then return (Inr False)
     else do { pollPause M deadline; return (Inl ()) } }"

definition waitForRxState :: "lely \<Rightarrow> u8 \<Rightarrow> nat \<Rightarrow> bool host" where
  "waitForRxState M expected timeout = do {
     start \<leftarrow> steady_now M;
     r \<leftarrow> deadline_loop M (start + ms timeout) (stateBody M 0x06 expected (start + ms timeout)) ();
     case r of Inr reached \<Rightarrow> return reached | Inl u \<Rightarrow> return False }"

definition waitForTxState :: "lely \<Rightarrow> u8 \<Rightarrow> nat \<Rightarrow> bool host" where
  "waitForTxState M expected timeout = do {
     start \<leftarrow> steady_now M;
     r \<leftarrow> deadline_loop M (start + ms timeout) (stateBody M 0x07 expected (start + ms timeout)) ();
     case r of Inr reached \<Rightarrow> return reached | Inl u \<Rightarrow> return False }"

section \<open>NMT\<close>

definition enterPreOperational_srdo :: "lely \<Rightarrow> bool host" where
  "enterPreOperational_srdo M =
     issueNmtCommandAndWaitForState M ENTER_PREOP CANOPEN_SLAVE_NODE_ID nmt_PREOP kResetTimeout"

definition enterOperational :: "lely \<Rightarrow> bool host" where
  "enterOperational M =
     issueNmtCommandAndWaitForState M START CANOPEN_SLAVE_NODE_ID nmt_START kResetTimeout"

definition resetCommunication :: "lely \<Rightarrow> bool host" where
  "resetCommunication M = do {
     prepareBootWait;
     issued \<leftarrow> issueNmtCommand M RESET_COMM CANOPEN_SLAVE_NODE_ID;
     if \<not> issued then return False
     else do {
       (booted, state) \<leftarrow> waitForBootCompletionState M kResetTimeout nmt_BOOTUP;
       if \<not> booted then return False
       else if state = nmt_START then return True
       else enterOperational M } }"

section \<open>Checksum and profile\<close>

definition crcShift :: "u16 \<Rightarrow> u16" where
  "crcShift crc = (if crc AND 0x8000 \<noteq> 0 then push_bit 1 crc XOR 0x1021 else push_bit 1 crc)"

definition crc16CcittByte :: "u16 \<Rightarrow> u8 \<Rightarrow> u16" where
  "crc16CcittByte crc byte = (crcShift ^^ 8) (crc XOR push_bit 8 (ucast byte))"

definition crcAppendU16Le :: "u16 \<Rightarrow> u16 \<Rightarrow> u16" where
  "crcAppendU16Le crc v =
     crc16CcittByte (crc16CcittByte crc (ucast (v AND 0xFF))) (ucast (drop_bit 8 v AND 0xFF))"

definition crcAppendU32Le :: "u16 \<Rightarrow> u32 \<Rightarrow> u16" where
  "crcAppendU32Le crc v =
     foldl (\<lambda>crc shift. crc16CcittByte crc (ucast (drop_bit shift v AND 0xFF))) crc [0, 8, 16, 24]"

definition crcEntries :: "u16 \<Rightarrow> SrdoMapProfile \<Rightarrow> u16" where
  "crcEntries crc map_profile =
     foldl (\<lambda>crc i. crcAppendU32Le (crc16CcittByte crc (of_nat (i + 1))) (mp_entry map_profile ! i)) crc
       [0..<min (unat (mp_count map_profile)) (length (mp_entry map_profile))]"

definition calculateSrdoChecksum :: "SrdoCommProfile \<Rightarrow> SrdoMapProfile \<Rightarrow> u16" where
  "calculateSrdoChecksum comm map_profile =
     (let crc = crc16CcittByte 0 (cm_direction comm);
          crc = crcAppendU16Le crc (cm_sct_ms comm);
          crc = crc16CcittByte crc (cm_srvt_ms comm);
          crc = crcAppendU32Le crc (cm_normal_id comm);
          crc = crcAppendU32Le crc (cm_inverted_id comm);
          crc = crc16CcittByte crc (mp_count map_profile)
      in crcEntries crc map_profile)"

definition readComm :: "lely \<Rightarrow> u16 \<Rightarrow> SrdoCommProfile \<Rightarrow> (bool \<times> SrdoCommProfile) host" where
  "readComm M index = readAll [
     readField (readRemote_srdo tU8 M index 0x01) cm_direction (\<lambda>v c. c\<lparr>cm_direction := v\<rparr>),
     readField (readRemote_srdo tU16 M index 0x02) cm_sct_ms (\<lambda>v c. c\<lparr>cm_sct_ms := v\<rparr>),
     readField (readRemote_srdo tU8 M index 0x03) cm_srvt_ms (\<lambda>v c. c\<lparr>cm_srvt_ms := v\<rparr>),
     readField (readRemote_srdo tU8 M index 0x04) cm_transmission_type (\<lambda>v c. c\<lparr>cm_transmission_type := v\<rparr>),
     readField (readRemote_srdo tU32 M index 0x05) cm_normal_id (\<lambda>v c. c\<lparr>cm_normal_id := v\<rparr>),
     readField (readRemote_srdo tU32 M index 0x06) cm_inverted_id (\<lambda>v c. c\<lparr>cm_inverted_id := v\<rparr>)]"

definition readMapEntry :: "lely \<Rightarrow> u16 \<Rightarrow> nat \<Rightarrow> SrdoMapProfile \<Rightarrow> (bool \<times> SrdoMapProfile) host" where
  "readMapEntry M index i = readField (readRemote_srdo tU32 M index (of_nat (i + 1)))
     (\<lambda>m. mp_entry m ! i) (\<lambda>v m. m\<lparr>mp_entry := (mp_entry m)[i := v]\<rparr>)"

definition readMap :: "lely \<Rightarrow> u16 \<Rightarrow> SrdoMapProfile \<Rightarrow> (bool \<times> SrdoMapProfile) host" where
  "readMap M index m = do {
     (ok, m) \<leftarrow> readField (readRemote_srdo tU8 M index 0x00) mp_count (\<lambda>v m. m\<lparr>mp_count := v\<rparr>) m;
     if \<not> ok \<or> mp_count m \<noteq> 2 then return (False, m)
     else readAll [readMapEntry M index 0, readMapEntry M index 1] m }"

definition readProfile :: "lely \<Rightarrow> SrdoProfile \<Rightarrow> (bool \<times> SrdoProfile) host" where
  "readProfile M = readAll [
     readField (readRemote_srdo tU8 M kSrdoConfigValidIndex 0x00) pf_configuration_valid
       (\<lambda>v p. p\<lparr>pf_configuration_valid := v\<rparr>),
     readField (readRemote_srdo tU8 M kSrdoChecksumIndex 0x00) pf_checksum_count (\<lambda>v p. p\<lparr>pf_checksum_count := v\<rparr>),
     readField (readRemote_srdo tU16 M kSrdoChecksumIndex 0x01) (\<lambda>p. pf_checksum p ! 0)
       (\<lambda>v p. p\<lparr>pf_checksum := (pf_checksum p)[0 := v]\<rparr>),
     readField (readRemote_srdo tU16 M kSrdoChecksumIndex 0x02) (\<lambda>p. pf_checksum p ! 1)
       (\<lambda>v p. p\<lparr>pf_checksum := (pf_checksum p)[1 := v]\<rparr>),
     readField (readComm M kSrdo1CommIndex) (\<lambda>p. pf_comm p ! 0) (\<lambda>v p. p\<lparr>pf_comm := (pf_comm p)[0 := v]\<rparr>),
     readField (readComm M kSrdo2CommIndex) (\<lambda>p. pf_comm p ! 1) (\<lambda>v p. p\<lparr>pf_comm := (pf_comm p)[1 := v]\<rparr>),
     readField (readMap M kSrdo1MapIndex) (\<lambda>p. pf_map p ! 0) (\<lambda>v p. p\<lparr>pf_map := (pf_map p)[0 := v]\<rparr>),
     readField (readMap M kSrdo2MapIndex) (\<lambda>p. pf_map p ! 1) (\<lambda>v p. p\<lparr>pf_map := (pf_map p)[1 := v]\<rparr>)]"

definition exactProfile :: "SrdoProfile \<Rightarrow> bool" where
  "exactProfile p \<longleftrightarrow>
     (let rx = pf_comm p ! 0; tx = pf_comm p ! 1; rx_map = pf_map p ! 0; tx_map = pf_map p ! 1 in
      pf_configuration_valid p = 0xA5 \<and> pf_checksum_count p \<ge> 2 \<and>
      cm_direction rx = 2 \<and> cm_direction tx = 1 \<and>
      cm_sct_ms rx = kProfileSctMs \<and> cm_sct_ms tx = kProfileSctMs \<and>
      cm_srvt_ms rx = kProfileSrvtMs \<and> cm_srvt_ms tx = kProfileSrvtMs \<and>
      cm_transmission_type rx = kProfileTransmissionType \<and> cm_transmission_type tx = kProfileTransmissionType \<and>
      cm_normal_id rx = kRxNormalCanId \<and> cm_inverted_id rx = kRxInvertedCanId \<and>
      cm_normal_id tx = kTxNormalCanId \<and> cm_inverted_id tx = kTxInvertedCanId \<and>
      mp_entry rx_map ! 0 = kRxNormalMap \<and> mp_entry rx_map ! 1 = kRxInvertedMap \<and>
      mp_entry tx_map ! 0 = kTxNormalMap \<and> mp_entry tx_map ! 1 = kTxInvertedMap \<and>
      pf_checksum p ! 0 = calculateSrdoChecksum rx rx_map \<and> pf_checksum p ! 1 = calculateSrdoChecksum tx tx_map)"

definition validateProfile :: "lely \<Rightarrow> SrdoProfile \<Rightarrow> (bool \<times> SrdoProfile) host" where
  "validateProfile M p = do {
     (ok, p) \<leftarrow> readProfile M p;
     if \<not> ok then return (False, p)
     else if \<not> exactProfile p then return (False, p)
     else return (True, p) }"

definition writeSrdo1Baseline :: "lely \<Rightarrow> SrdoProfile \<Rightarrow> bool host" where
  "writeSrdo1Baseline M p = (let comm = pf_comm p ! 0; map_profile = pf_map p ! 0 in allM [
     writeRemote_srdo M kSrdo1CommIndex 0x01 (V8 0),
     writeRemote_srdo M kSrdo1MapIndex 0x00 (V8 0),
     writeRemote_srdo M kSrdo1MapIndex 0x01 (V32 (mp_entry map_profile ! 0)),
     writeRemote_srdo M kSrdo1MapIndex 0x02 (V32 (mp_entry map_profile ! 1)),
     writeRemote_srdo M kSrdo1MapIndex 0x00 (V8 (mp_count map_profile)),
     writeRemote_srdo M kSrdo1CommIndex 0x02 (V16 (cm_sct_ms comm)),
     writeRemote_srdo M kSrdo1CommIndex 0x03 (V8 (cm_srvt_ms comm)),
     writeRemote_srdo M kSrdo1CommIndex 0x04 (V8 (cm_transmission_type comm)),
     writeRemote_srdo M kSrdo1CommIndex 0x05 (V32 (cm_normal_id comm)),
     writeRemote_srdo M kSrdo1CommIndex 0x06 (V32 (cm_inverted_id comm)),
     writeRemote_srdo M kSrdo1CommIndex 0x01 (V8 (cm_direction comm)),
     writeRemote_srdo M kSrdoChecksumIndex 0x01 (V16 (pf_checksum p ! 0)),
     writeRemote_srdo M kSrdoConfigValidIndex 0x00 (V8 0xA5)])"

definition prepareCleanOperational :: "lely \<Rightarrow> SrdoProfile \<Rightarrow> bool host" where
  "prepareCleanOperational M p =
     allM [enterPreOperational_srdo M, writeSrdo1Baseline M p, resetCommunication M]"

section \<open>Transmission requests\<close>

text \<open>The result the device reports for the request, once it is completed.\<close>

definition txCompletionBody :: "lely \<Rightarrow> u32 \<Rightarrow> nat \<Rightarrow> u32 \<Rightarrow> (u32 + bool \<times> u32) host" where
  "txCompletionBody M request_seq deadline result = do {
     (ok, complete_seq) \<leftarrow> readRemoteUntil tU32 M kSrdoDiagnosticIndex 0x0A deadline 0;
     if \<not> ok then return (Inr (False, result))
     else if complete_seq = request_seq then do {
       r \<leftarrow> readRemoteUntil tI32 M kSrdoDiagnosticIndex 0x0B deadline result;
       return (Inr r) }
     else do { pollPause M deadline; return (Inl result) } }"

definition waitForTxCompletion :: "lely \<Rightarrow> u32 \<Rightarrow> u32 \<Rightarrow> (bool \<times> u32) host" where
  "waitForTxCompletion M request_seq result = do {
     start \<leftarrow> steady_now M;
     r \<leftarrow> deadline_loop M (start + ms kStateTimeout)
            (txCompletionBody M request_seq (start + ms kStateTimeout)) result;
     case r of Inr completed \<Rightarrow> return completed | Inl result \<Rightarrow> return (False, result) }"

definition busyPhaseBody :: "lely \<Rightarrow> nat \<Rightarrow> bool \<Rightarrow> (bool + bool) host" where
  "busyPhaseBody M deadline normal_seen = do {
     (waited, frame) \<leftarrow> waitForAnyTxUntil M deadline empty_frame;
     if waited = ERROR then return (Inr False)
     else if waited = TIMEOUT then return (Inr False)
     else if can_id (wf_message frame) = kTxNormalCanId then
       if normal_seen then return (Inr False) else return (Inl True)
     else return (Inr True) }"

definition synchronizeTxPhaseAfterBusy :: "lely \<Rightarrow> bool host" where
  "synchronizeTxPhaseAfterBusy M = do {
     sent \<leftarrow> sendPair M kProbeNormal kProbeInverted;
     if \<not> sent then return False
     else do {
       start \<leftarrow> steady_now M;
       r \<leftarrow> deadline_loop M (start + ms kPairDeadline) (busyPhaseBody M (start + ms kPairDeadline)) False;
       case r of Inr synced \<Rightarrow> return synced | Inl normal_seen \<Rightarrow> return False } }"

text \<open>\<open>left\<close> retries are left: the loop over the attempts.\<close>

fun requestAttempts :: "nat \<Rightarrow> lely \<Rightarrow> TxRequestOutcome \<Rightarrow> (bool \<times> TxRequestOutcome) host" where
  "requestAttempts left M q = do {
     let q = q\<lparr>tq_sequence := tq_sequence q + 1\<rparr>;
     written \<leftarrow> writeRemote_srdo M kSrdoDiagnosticIndex 0x09 (V32 (tq_sequence q));
     if \<not> written then return (False, q)
     else do {
       (completed, result) \<leftarrow> waitForTxCompletion M (tq_sequence q) (tq_result q);
       let q = q\<lparr>tq_result := result\<rparr>;
       if \<not> completed then return (False, q)
       else if tq_result q \<noteq> kTxRequestResultBusy then return (True, q)
       else case left of
           0 \<Rightarrow> return (True, q)
         | Suc n \<Rightarrow> do {
             let q = q\<lparr>tq_busy_retries := tq_busy_retries q + 1\<rparr>;
             synced \<leftarrow> synchronizeTxPhaseAfterBusy M;
             if \<not> synced then return (False, q) else requestAttempts n M q }
     } }"

declare requestAttempts.simps [simp del]

definition requestTxWithBusyRetry :: "lely \<Rightarrow> u32 \<Rightarrow> (bool \<times> TxRequestOutcome) host" where
  "requestTxWithBusyRetry M completed_seq =
     requestAttempts kTxBusyMaxRetries M
       \<lparr>tq_sequence = completed_seq, tq_result = kTxRequestResultIdle, tq_busy_retries = 0\<rparr>"

text \<open>The capture of the pair: the two flags say which frame outputs the caller passed.  The result is the
  return value, the request's result and the frames if they were captured.\<close>

definition captureTriggered :: "lely \<Rightarrow> bool \<Rightarrow> bool \<Rightarrow> (bool \<times> (WireFrame \<times> WireFrame) option) host" where
  "captureTriggered M wants_normal wants_inverted =
     (if wants_normal \<or> wants_inverted then
        if \<not> wants_normal \<or> \<not> wants_inverted then return (False, None)
        else do {
          (captured, y) \<leftarrow> nextPair M kWireTimeout False (newSynchronizer False);
          return (captured \<noteq> None, captured) }
      else return (True, None))"

definition triggerTx ::
    "lely \<Rightarrow> u32 \<Rightarrow> u32 \<Rightarrow> bool \<Rightarrow> bool \<Rightarrow> (bool \<times> u32 \<times> (WireFrame \<times> WireFrame) option) host" where
  "triggerTx M normal_value inverted_value wants_normal wants_inverted = do {
     (ok, d) \<leftarrow> readDiagnostic_srdo M default_srdo_diagnostic;
     if \<not> ok \<or> dg_tx_request_seq d \<noteq> dg_tx_complete_seq d then return (False, kTxRequestResultIdle, None)
     else do {
       prepared \<leftarrow> allM [writeRemote_srdo M kSrdoDiagnosticIndex 0x03 (V32 normal_value),
         writeRemote_srdo M kSrdoDiagnosticIndex 0x04 (V32 inverted_value), drain_srdo M];
       if \<not> prepared then return (False, kTxRequestResultIdle, None)
       else do {
         (requested, q) \<leftarrow> requestTxWithBusyRetry M (dg_tx_request_seq d);
         if \<not> requested then return (False, kTxRequestResultIdle, None)
         else if tq_result q \<noteq> 0 then return (True, tq_result q, None)
         else do {
           (ok, captured) \<leftarrow> captureTriggered M wants_normal wants_inverted;
           return (ok, tq_result q, captured) }
       } } }"

section \<open>Functional checks\<close>

definition validateNmtNonOperational :: "lely \<Rightarrow> bool host" where
  "validateNmtNonOperational M = andM (enterPreOperational_srdo M)
     (waitForDiagnosticState M kStateNmtNotOperational kStateNmtNotOperational kStateNmtNotOperational)"

definition validateRxPair :: "lely \<Rightarrow> bool host" where
  "validateRxPair M = do {
     sent \<leftarrow> sendPair M kProbeNormal kProbeInverted;
     if \<not> sent then return False
     else withRxPairWorker M (do {
       reached \<leftarrow> waitForRxState M kStateEstablished kStateTimeout;
       if \<not> reached then return False
       else do {
         (ok, rx_normal) \<leftarrow> readRemote_srdo tU32 M kSrdoDiagnosticIndex 0x01 0;
         if \<not> ok then return False
         else do {
           (ok, rx_inverted) \<leftarrow> readRemote_srdo tU32 M kSrdoDiagnosticIndex 0x02 0;
           if \<not> ok then return False
           else do {
             alive \<leftarrow> keepaliveOk;
             return (\<not> (\<not> alive \<or> rx_normal \<noteq> kProbeNormal \<or> rx_inverted \<noteq> kProbeInverted))
           } } } }) }"

definition validateTxPair :: "lely \<Rightarrow> bool host" where
  "validateTxPair M = do {
     (triggered, request_result, captured) \<leftarrow> triggerTx M kProbeNormal kProbeInverted True True;
     case (if \<not> triggered \<or> request_result \<noteq> 0 then None else captured) of
       None \<Rightarrow> return False
     | Some (normal, inverted) \<Rightarrow>
         if \<not> validateWirePair normal inverted kProbeNormal then return False
         else if elapsedUs (wf_timestamp inverted) (wf_timestamp normal) > kPairMaxUs then return False
         else waitForTxState M kStateEstablished kStateTimeout }"

definition holdBody :: "lely \<Rightarrow> nat \<Rightarrow> unit \<Rightarrow> (unit + bool) host" where
  "holdBody M hold_deadline u = do {
     alive \<leftarrow> keepaliveOk;
     if \<not> alive then return (Inr False)
     else do {
       budget \<leftarrow> remainingBudget M hold_deadline;
       sleep_for M (ms (min 10 budget));
       return (Inl ()) } }"

definition validateEstablishedWindow :: "lely \<Rightarrow> bool host" where
  "validateEstablishedWindow M = withRxPairWorker M (do {
     reached \<leftarrow> waitForDiagnosticState M kStateEstablished kStateEstablished kStateEstablished;
     if \<not> reached then return False
     else do {
       start \<leftarrow> steady_now M;
       r \<leftarrow> deadline_loop M (start + ms kEstablishedHold) (holdBody M (start + ms kEstablishedHold)) ();
       case r of
         Inr held \<Rightarrow> return held
       | Inl u \<Rightarrow> do {
           alive \<leftarrow> keepaliveOk;
           if \<not> alive then return False
           else do {
             (ok, d) \<leftarrow> readDiagnostic_srdo M default_srdo_diagnostic;
             return (\<not> (\<not> ok \<or> dg_rx_state d \<noteq> kStateEstablished \<or> dg_tx_state d \<noteq> kStateEstablished \<or>
               dg_aggregate_state d \<noteq> kStateEstablished \<or> dg_rx_normal d \<noteq> kProbeNormal \<or>
               dg_rx_inverted d \<noteq> kProbeInverted)) } } } })"

text \<open>The samples from number \<open>i\<close> on, with the intervals collected so far, oldest first.\<close>

fun txCycleSamples ::
    "nat \<Rightarrow> lely \<Rightarrow> nat \<Rightarrow> TxPairSynchronizer \<Rightarrow> nat \<Rightarrow> int list \<Rightarrow> int list \<Rightarrow> (bool \<times> int list \<times> int list) host" where
  "txCycleSamples 0 M i y previous_normal pairs cycles = return (True, pairs, cycles)"
| "txCycleSamples (Suc n) M i y previous_normal pairs cycles = do {
     (captured, y) \<leftarrow> nextPair M kWireTimeout False y;
     case captured of
       None \<Rightarrow> return (False, pairs, cycles)
     | Some (normal, inverted) \<Rightarrow>
         if \<not> validateWirePair normal inverted kProbeNormal then return (False, pairs, cycles)
         else (let pair_delta = elapsedUs (wf_timestamp inverted) (wf_timestamp normal) in
           if pair_delta < 0 \<or> pair_delta > kPairMaxUs then return (False, pairs, cycles)
           else let pairs = pairs @ [pair_delta];
                    cycle = elapsedUs (wf_timestamp normal) previous_normal in
             if i \<noteq> 0 \<and> (cycle < kCycleMinUs \<or> cycle > kCycleMaxUs) then return (False, pairs, cycles)
             else let cycles = (if i \<noteq> 0 then cycles @ [cycle] else cycles)
                  in txCycleSamples n M (i + 1) y (wf_timestamp normal) pairs cycles) }"

text \<open>Every interval collected is positive, so the truncating division of the code is \<open>div\<close>.\<close>

definition cycleAverageOk :: "int list \<Rightarrow> bool" where
  "cycleAverageOk cycles \<longleftrightarrow> (let cycle_avg = sum_list cycles div int (length cycles)
     in \<not> (cycle_avg < kCycleAverageMinUs \<or> cycle_avg > kCycleAverageMaxUs))"

definition validateTxCycles :: "lely \<Rightarrow> bool host" where
  "validateTxCycles M = do {
     drained \<leftarrow> drain_srdo M;
     if \<not> drained then return False
     else do {
       (ok, pairs, cycles) \<leftarrow> txCycleSamples kTxPairSamples M 0 (newSynchronizer True) 0 [] [];
       if \<not> ok then return False
       else if \<not> cycleAverageOk cycles then return False
       else waitForTxState M kStateEstablished kStateTimeout } }"

definition requestUntouched :: "SrdoDiagnostic \<Rightarrow> SrdoDiagnostic \<Rightarrow> bool" where
  "requestUntouched before after \<longleftrightarrow>
     \<not> (dg_tx_request_seq after \<noteq> dg_tx_request_seq before \<or> dg_tx_complete_seq after \<noteq> dg_tx_complete_seq before \<or>
        dg_tx_request_seq after \<noteq> dg_tx_complete_seq after \<or> dg_tx_request_result after \<noteq> kTxRequestResultIdle)"

definition requestWitness :: "lely \<Rightarrow> SrdoDiagnostic \<Rightarrow> bool host" where
  "requestWitness M before = withRxPairWorker M (do {
     (snapshot_ok, after) \<leftarrow> readDiagnostic_srdo M default_srdo_diagnostic;
     stopRxPairWorker M;
     alive \<leftarrow> keepaliveOk;
     return (\<not> (\<not> snapshot_ok \<or> \<not> alive \<or> \<not> requestUntouched before after)) })"

fun naturalPairs :: "nat \<Rightarrow> lely \<Rightarrow> TxPairSynchronizer \<Rightarrow> bool host" where
  "naturalPairs 0 M y = return True"
| "naturalPairs (Suc n) M y = do {
     (captured, y) \<leftarrow> nextPair M kWireTimeout True y;
     case captured of
       None \<Rightarrow> return False
     | Some (normal, inverted) \<Rightarrow>
         if \<not> validateWirePair normal inverted kProbeNormal then return False else naturalPairs n M y }"

definition validateResetRebind_srdo :: "lely \<Rightarrow> bool host" where
  "validateResetRebind_srdo M = do {
     (ok, before) \<leftarrow> readDiagnostic_srdo M default_srdo_diagnostic;
     if \<not> ok \<or> dg_tx_request_seq before \<noteq> dg_tx_complete_seq before then return False
     else allM [enterPreOperational_srdo M, drain_srdo M, resetCommunication M, requestWitness M before,
       naturalPairs kResetNaturalPairSamples M (newSynchronizer True), requestWitness M before,
       validateRxPair M, validateEstablishedWindow M, validateTxPair M] }"

definition validateRegression :: "lely \<Rightarrow> bool host" where
  "validateRegression M = withRxPairWorker M (do {
     pdo_result \<leftarrow> pdoProcess M;
     sync_result \<leftarrow> (if pdo_result = 0 then syncPdoProcess M else return 1);
     alive \<leftarrow> keepaliveOk;
     if \<not> alive \<or> pdo_result \<noteq> 0 \<or> sync_result \<noteq> 0 then return False
     else do {
       (ok, device_type) \<leftarrow> readRemote_srdo tU32 M 0x1000 0x00 0;
       return ok } })"

section \<open>Footprint\<close>

text \<open>What the SRDO process writes to the device: the parameters of SRDO1, its mapping and checksum, the
  configuration-valid mark, and the transmit values and request of the diagnostic object.\<close>

fun srdo_writes :: "u16 \<Rightarrow> u8 \<Rightarrow> sdo_value \<Rightarrow> bool" where
  "srdo_writes index sub v \<longleftrightarrow>
     index = 0x1301 \<and> (sub = 1 \<and> v \<in> {V8 0, V8 2} \<or> sub = 2 \<and> v \<in> {V16 100, V16 101} \<or> sub = 3 \<and> v = V8 20 \<or>
       sub = 4 \<and> v = V8 254 \<or> sub = 5 \<and> v \<in> {V32 0x101, V32 0x102, V32 0x181} \<or>
       sub = 6 \<and> v \<in> {V32 0x102, V32 0x103, V32 0x106}) \<or>
     index = 0x1381 \<and> (sub = 0 \<and> v \<in> {V8 0, V8 1, V8 2} \<or> sub = 1 \<and> v = V32 0x23060120 \<or>
       sub = 2 \<and> v \<in> {V32 0x23060220, V32 0x23060210}) \<or>
     index = 0x13FF \<and> sub = 1 \<and> (\<exists>c. v = V16 c) \<or>
     index = 0x13FE \<and> sub = 0 \<and> v = V8 0xA5 \<or>
     index = 0x2306 \<and> (sub = 3 \<and> v = V32 kProbeNormal \<or> sub = 4 \<and> v \<in> {V32 kProbeInverted, V32 kWrongInverted} \<or>
       sub = 9 \<and> (\<exists>q. v = V32 q))"

fun srdo_own :: "mutation \<Rightarrow> bool" where
  "srdo_own (RemoteWrite node index sub v) \<longleftrightarrow> node = CANOPEN_SLAVE_NODE_ID \<and> srdo_writes index sub v"
| "srdo_own (Nmt cmd node) \<longleftrightarrow> node = CANOPEN_SLAVE_NODE_ID \<and> (cmd = ENTER_PREOP \<or> cmd = START \<or> cmd = RESET_COMM)"
| "srdo_own (Wire message) \<longleftrightarrow> rx_frame message"
| "srdo_own _ \<longleftrightarrow> False"

text \<open>The regression check runs the PDO and the SYNC process.\<close>

definition srdo_objects :: "mutation \<Rightarrow> bool" where
  "srdo_objects x \<longleftrightarrow> srdo_own x \<or> pdo_objects x \<or> sync_objects x"

lemma upload_until_touches [emits_intro]: "touches S (submit_upload_until T M rq d)"
proof (rule emitsI)
  fix w a w'
  assume "run_state (submit_upload_until T M rq d) w = (a, w')"
  then have "run_state (submit_upload T M rq (d - clock w)) w = (a, w')" by (simp add: submit_upload_until_def)
  moreover have "touches S (submit_upload T M rq (d - clock w))" by (intro emits_intro)
  ultimately show "steps_to (allowed S) w w'" by (rule emits_steps [rotated])
qed

lemma srdo_access_touch [emits_intro]:
  "touches S (readRemoteUntil T M i s d v)" "touches S (readRemote_srdo T M i s v')"
  "S (RemoteWrite CANOPEN_SLAVE_NODE_ID i s x) \<Longrightarrow> touches S (writeRemote_srdo M i s x)"
  "S (RemoteWrite CANOPEN_SLAVE_NODE_ID i s x) \<Longrightarrow> touches S (requireWriteRejected M i s x c)"
  unfolding readRemoteUntil_def readRemote_srdo_def writeRemote_srdo_def requireWriteRejected_def Let_def
  by (intro emits_intro; auto split: submission.split intro!: emits_intro)+

lemma diagnosticAttempts_touches [emits_intro]: "touches S (diagnosticAttempts n M d v)"
  by (induction n arbitrary: v) (auto simp: diagnosticFields_def Let_def intro!: emits_intro)

lemma srdo_polls_touch [emits_intro]:
  "touches S (readDiagnostic_srdo M v)" "touches S (pollPause M d)"
  unfolding readDiagnostic_srdo_def readDiagnosticUntil_def pollPause_def by (intro emits_intro)+

lemma srdo_waits_touch [emits_intro]:
  "touches S (waitForDiagnosticState M a b c)" "touches S (waitForRxState M e t)" "touches S (waitForTxState M e t)"
  "touches S (waitForTxCompletion M q r)"
  unfolding waitForDiagnosticState_def diagnosticStateBody_def waitForRxState_def waitForTxState_def stateBody_def
    waitForTxCompletion_def txCompletionBody_def
  by (intro emits_intro)+

lemma srdo_nmt_touch [emits_intro]:
  "touches srdo_own (enterPreOperational_srdo M)" "touches srdo_own (enterOperational M)"
  "touches srdo_own (resetCommunication M)"
  unfolding enterPreOperational_srdo_def enterOperational_def resetCommunication_def
  by (intro emits_intro; simp)+

lemma readMap_touches [emits_intro]: "touches S (readMap M i m)"
  unfolding readMap_def readMapEntry_def by (intro emits_intro) (simp add: emits_intro)

lemma readComm_touches [emits_intro]: "touches S (readComm M i c)"
  unfolding readComm_def by (intro emits_intro) (simp add: emits_intro)

lemma validateProfile_touches [emits_intro]: "touches S (validateProfile M p)"
  unfolding validateProfile_def readProfile_def by (intro emits_intro) (simp add: emits_intro)

lemma srdo_wire_touch [emits_intro]:
  "touches srdo_own (sendRx M i d n)" "touches srdo_own (sendPair M v v')" "touches srdo_own (nextPair M t k y)"
  by (rule wire_sends_touch pairing_touches, simp)+

lemma busyPhaseBody_touches [emits_intro]: "touches S (busyPhaseBody M d b)"
  unfolding busyPhaseBody_def by (intro emits_intro)

lemma synchronizeTxPhaseAfterBusy_touches [emits_intro]: "touches srdo_own (synchronizeTxPhaseAfterBusy M)"
  unfolding synchronizeTxPhaseAfterBusy_def by (intro emits_intro)

lemma requestAttempts_touches [emits_intro]: "touches srdo_own (requestAttempts n M q)"
proof (induction n arbitrary: q)
  case 0
  show ?case
    by (subst requestAttempts.simps) (auto simp: Let_def kSrdoDiagnosticIndex_def intro!: emits_intro)
next
  case (Suc n)
  then show ?case
    by (subst requestAttempts.simps) (auto simp: Let_def kSrdoDiagnosticIndex_def intro!: emits_intro)
qed

lemma captureTriggered_touches [emits_intro]: "touches S (captureTriggered M a b)"
  unfolding captureTriggered_def by (auto intro!: emits_bind nextPair_read_only emits_case_prod emits_return)

lemma srdo_tx_touch [emits_intro]:
  "touches srdo_own (triggerTx M kProbeNormal kProbeInverted a b)"
  unfolding triggerTx_def requestTxWithBusyRetry_def
  by (intro emits_intro) (simp add: kSrdoDiagnosticIndex_def emits_intro)

lemma holdBody_touches [emits_intro]: "touches S (holdBody M d u)"
  unfolding holdBody_def by (intro emits_intro)

lemma validateEstablishedWindow_touches [emits_intro]: "touches S (validateEstablishedWindow M)"
  unfolding validateEstablishedWindow_def by (intro emits_intro)

lemma txCycleSamples_touches [emits_intro]: "touches S (txCycleSamples n M i y t ps cs)"
proof (induction n arbitrary: i y t ps cs)
  case (Suc n)
  then show ?case
    by (auto simp: Let_def intro!: emits_bind nextPair_read_only emits_case_prod emits_case_option emits_return)
qed (simp add: emits_intro)

lemma naturalPairs_touches [emits_intro]: "touches srdo_own (naturalPairs n M y)"
  by (induction n arbitrary: y) (auto intro!: emits_intro)

lemma srdo_checks_touch [emits_intro]:
  "touches srdo_own (validateNmtNonOperational M)" "touches srdo_own (validateRxPair M)"
  "touches srdo_own (validateTxPair M)" "touches srdo_own (validateTxCycles M)" "touches S (requestWitness M v)"
  unfolding validateNmtNonOperational_def validateRxPair_def validateTxPair_def validateTxCycles_def requestWitness_def
  by (intro emits_intro)+

lemma validateResetRebind_srdo_touches [emits_intro]: "touches srdo_own (validateResetRebind_srdo M)"
  unfolding validateResetRebind_srdo_def by (intro emits_intro) (simp add: emits_intro)

lemma validateRegression_touches: "touches srdo_objects (validateRegression M)"
  unfolding validateRegression_def
  by (intro emits_intro touches_weaken [OF pdoProcess_touches] touches_weaken [OF syncPdoProcess_touches])
     (auto simp: srdo_objects_def)

end
