(* ===== verification/Srdo_Faults.thy ===== *)
theory Srdo_Faults
  imports Srdo_Process
begin

text \<open>
  The fault cases of the SRDO validation and the process that runs all its checks
  (\<open>src/srdo_process.cpp\<close>): each fault starts from the restored baseline, provokes one error and waits for
  the state the device has to report for it.
\<close>

section \<open>Constants\<close>

definition kF05StateSampleBudget :: nat where "kF05StateSampleBudget = 25"
definition kSrvtFaultWait :: nat where "kSrvtFaultWait = 30"
definition kSctFaultWait :: nat where "kSctFaultWait = 130"
definition kNoTxObservation :: nat where "kNoTxObservation = 150"

section \<open>Receive faults\<close>

definition validateF01 :: "lely \<Rightarrow> SrdoProfile \<Rightarrow> bool host" where
  "validateF01 M p = allM [prepareCleanOperational M p, sendPair M kProbeNormal kProbeNormal,
     waitForRxState M kStateRxNotInverted kStateTimeout]"

definition pause :: "lely \<Rightarrow> nat \<Rightarrow> bool host" where
  "pause M duration = do { sleep_for M (ms duration); return True }"

definition validateF02 :: "lely \<Rightarrow> SrdoProfile \<Rightarrow> bool host" where
  "validateF02 M p = allM [prepareCleanOperational M p,
     sendRx M kRxNormalCanId [0x78, 0x56, 0x34, 0x12] kPayloadLength, pause M kSrvtFaultWait,
     waitForRxState M kStateRxTimeoutSrvt 500]"

definition validateF03 :: "lely \<Rightarrow> SrdoProfile \<Rightarrow> bool host" where
  "validateF03 M p = allM [prepareCleanOperational M p, sendPair M kProbeNormal kProbeInverted,
     waitForRxState M kStateEstablished kStateTimeout, pause M kSctFaultWait,
     waitForRxState M kStateRxTimeoutSct 500]"

definition validateF04 :: "lely \<Rightarrow> SrdoProfile \<Rightarrow> bool host" where
  "validateF04 M p = allM [prepareCleanOperational M p, sendRx M kRxNormalCanId [0x78, 0x56] 2,
     waitForRxState M kStateRxShort kStateTimeout]"

definition invertedFirstBody :: "lely \<Rightarrow> nat \<Rightarrow> unit \<Rightarrow> (unit + bool) host" where
  "invertedFirstBody M deadline u = do {
     now \<leftarrow> steady_now M;
     let sample_deadline = min deadline (now + ms kF05StateSampleBudget);
     (ok, rx_state) \<leftarrow> readRemoteUntil tI8 M kSrdoDiagnosticIndex 0x06 sample_deadline 0;
     if \<not> ok then return (Inr False)
     else if rx_state = kStateEstablished then return (Inr False)
     else if rx_state = kStateRxTimeoutSct then return (Inr True)
     else do { pollPause M deadline; return (Inl ()) } }"

definition invertedFirstTimesOut :: "lely \<Rightarrow> bool host" where
  "invertedFirstTimesOut M = do {
     start \<leftarrow> steady_now M;
     let deadline = start + ms kSctFaultWait + ms 500;
     r \<leftarrow> deadline_loop M deadline (invertedFirstBody M deadline) ();
     case r of Inr timed_out \<Rightarrow> return timed_out | Inl u \<Rightarrow> return False }"

definition validateF05 :: "lely \<Rightarrow> SrdoProfile \<Rightarrow> bool host" where
  "validateF05 M p = allM [prepareCleanOperational M p,
     sendRx M kRxInvertedCanId [0x87, 0xA9, 0xCB, 0xED] kPayloadLength, invertedFirstTimesOut M,
     prepareCleanOperational M p,
     sendRx M kRxNormalCanId [0x78, 0x56, 0x34, 0x12] kPayloadLength, pause M kRxPairDelay,
     sendRx M kRxNormalCanId [0x78, 0x56, 0x34, 0x12] kPayloadLength, pause M kSrvtFaultWait,
     waitForRxState M kStateRxTimeoutSrvt 500]"

section \<open>Configuration faults\<close>

text \<open>\<open>readRemote(...) && value == expected\<close>.\<close>

definition requireRemote :: "'a sdo_type \<Rightarrow> lely \<Rightarrow> u16 \<Rightarrow> u8 \<Rightarrow> 'a \<Rightarrow> 'a \<Rightarrow> bool host" where
  "requireRemote T M index sub v expected = do {
     (ok, v) \<leftarrow> readRemote_srdo T M index sub v;
     return (\<not> (\<not> ok \<or> v \<noteq> expected)) }"

definition validateF06 :: "lely \<Rightarrow> SrdoProfile \<Rightarrow> bool host" where
  "validateF06 M p = allM [prepareCleanOperational M p, enterPreOperational_srdo M,
     writeRemote_srdo M kSrdoChecksumIndex 0x01 (V16 (pf_checksum p ! 0 XOR 0x0001)),
     writeRemote_srdo M kSrdoConfigValidIndex 0x00 (V8 0xA5),
     enterOperational M, waitForRxState M kStateErrorConfiguration kStateTimeout,
     requireRemote tU8 M kSrdoConfigValidIndex 0x00 0xFF 0]"

definition validateF07 :: "lely \<Rightarrow> SrdoProfile \<Rightarrow> bool host" where
  "validateF07 M p = (let sct = cm_sct_ms (pf_comm p ! 0) in
     allM [prepareCleanOperational M p, enterPreOperational_srdo M,
     writeRemote_srdo M kSrdo1CommIndex 0x02 (V16 (sct + 1)),
     requireRemote tU8 M kSrdoConfigValidIndex 0x00 0xFF 0,
     writeRemote_srdo M kSrdo1CommIndex 0x02 (V16 sct),
     writeRemote_srdo M kSrdoChecksumIndex 0x01 (V16 (pf_checksum p ! 0)),
     writeRemote_srdo M kSrdoConfigValidIndex 0x00 (V8 0xA5),
     enterOperational M])"

text \<open>Both identifiers are read before either is compared.\<close>

definition requireCanIds :: "lely \<Rightarrow> u32 \<Rightarrow> u32 \<Rightarrow> bool host" where
  "requireCanIds M normal_id inverted_id = do {
     (ok, current_normal) \<leftarrow> readRemote_srdo tU32 M kSrdo1CommIndex 0x05 0;
     if \<not> ok then return False
     else do {
       (ok, current_inverted) \<leftarrow> readRemote_srdo tU32 M kSrdo1CommIndex 0x06 0;
       return (\<not> (\<not> ok \<or> current_normal \<noteq> normal_id \<or> current_inverted \<noteq> inverted_id)) } }"

definition validateF08 :: "lely \<Rightarrow> SrdoProfile \<Rightarrow> bool host" where
  "validateF08 M p = (let comm = pf_comm p ! 0; nonconsecutive = comm\<lparr>cm_inverted_id := 0x106\<rparr>;
       checksum = calculateSrdoChecksum nonconsecutive (pf_map p ! 0) in
     allM [prepareCleanOperational M p, enterPreOperational_srdo M,
     requireWriteRejected M kSrdo1CommIndex 0x05 (V32 0x102) abort_PARAM_VAL,
     requireWriteRejected M kSrdo1CommIndex 0x06 (V32 0x103) abort_PARAM_VAL,
     requireWriteRejected M kSrdo1CommIndex 0x05 (V32 0x181) abort_PARAM_VAL,
     requireCanIds M (cm_normal_id comm) (cm_inverted_id comm),
     writeRemote_srdo M kSrdo1CommIndex 0x06 (V32 (cm_inverted_id nonconsecutive)),
     writeRemote_srdo M kSrdoChecksumIndex 0x01 (V16 checksum),
     writeRemote_srdo M kSrdoConfigValidIndex 0x00 (V8 0xA5),
     enterOperational M, waitForRxState M kStateErrorConfiguration kStateTimeout])"

definition validateF09 :: "lely \<Rightarrow> SrdoProfile \<Rightarrow> bool host" where
  "validateF09 M p = allM [prepareCleanOperational M p, enterPreOperational_srdo M,
     writeRemote_srdo M kSrdo1CommIndex 0x01 (V8 0),
     requireWriteRejected M kSrdo1MapIndex 0x00 (V8 1) abort_PDO_LEN,
     requireRemote tU8 M kSrdo1MapIndex 0x00 0 (mp_count (pf_map p ! 0)),
     writeRemote_srdo M kSrdo1CommIndex 0x01 (V8 (cm_direction (pf_comm p ! 0))),
     writeRemote_srdo M kSrdoChecksumIndex 0x01 (V16 (pf_checksum p ! 0)),
     writeRemote_srdo M kSrdoConfigValidIndex 0x00 (V8 0xA5),
     enterOperational M]"

definition validateF10 :: "lely \<Rightarrow> SrdoProfile \<Rightarrow> bool host" where
  "validateF10 M p = (let map_profile = pf_map p ! 0;
       mismatched = map_profile\<lparr>mp_entry := (mp_entry map_profile)[1 := 0x23060210]\<rparr>;
       checksum = calculateSrdoChecksum (pf_comm p ! 0) mismatched in
     allM [prepareCleanOperational M p, enterPreOperational_srdo M,
     writeRemote_srdo M kSrdo1CommIndex 0x01 (V8 0),
     writeRemote_srdo M kSrdo1MapIndex 0x00 (V8 0),
     writeRemote_srdo M kSrdo1MapIndex 0x01 (V32 (mp_entry mismatched ! 0)),
     writeRemote_srdo M kSrdo1MapIndex 0x02 (V32 (mp_entry mismatched ! 1)),
     writeRemote_srdo M kSrdo1MapIndex 0x00 (V8 (mp_count mismatched)),
     writeRemote_srdo M kSrdo1CommIndex 0x01 (V8 (cm_direction (pf_comm p ! 0))),
     writeRemote_srdo M kSrdoChecksumIndex 0x01 (V16 checksum),
     writeRemote_srdo M kSrdoConfigValidIndex 0x00 (V8 0xA5),
     enterOperational M, waitForRxState M kStateErrorConfiguration kStateTimeout,
     requireRemote tU8 M kSrdoConfigValidIndex 0x00 0xFF 0])"

section \<open>Transmission fault\<close>

definition observerSilent :: "bool host" where
  "observerSilent = do {
     alive \<leftarrow> observerOk;
     if \<not> alive then return False
     else do { unexpected_id \<leftarrow> observerUnexpectedId; return (unexpected_id = 0) } }"

definition txFaultBody :: "lely \<Rightarrow> nat \<Rightarrow> unit \<Rightarrow> (unit + bool) host" where
  "txFaultBody M deadline u = do {
     undisturbed \<leftarrow> observerSilent;
     if \<not> undisturbed then return (Inr False)
     else do {
       (ok, tx_state) \<leftarrow> readRemoteUntil tI8 M kSrdoDiagnosticIndex 0x07 deadline 0;
       if \<not> ok then return (Inr False)
       else if tx_state = kStateTxNotInverted then return (Inr True)
       else if sint tx_state < 0 then return (Inr False)
       else do { pollPause M deadline; return (Inl ()) } } }"

definition waitForTxFault :: "lely \<Rightarrow> bool host" where
  "waitForTxFault M = do {
     start \<leftarrow> steady_now M;
     r \<leftarrow> deadline_loop M (start + ms kStateTimeout) (txFaultBody M (start + ms kStateTimeout)) ();
     case r of Inr fault_seen \<Rightarrow> return fault_seen | Inl u \<Rightarrow> return False }"

definition silenceBody :: "lely \<Rightarrow> nat \<Rightarrow> unit \<Rightarrow> (unit + bool) host" where
  "silenceBody M deadline u = do {
     undisturbed \<leftarrow> observerSilent;
     if \<not> undisturbed then return (Inr False)
     else do { pollPause M deadline; return (Inl ()) } }"

definition holdSilence :: "lely \<Rightarrow> bool host" where
  "holdSilence M = do {
     start \<leftarrow> steady_now M;
     r \<leftarrow> deadline_loop M (start + ms kNoTxObservation) (silenceBody M (start + ms kNoTxObservation)) ();
     case r of Inr held \<Rightarrow> return held | Inl u \<Rightarrow> return True }"

definition stopAndCheckSilence :: "lely \<Rightarrow> bool host" where
  "stopAndCheckSilence M = do { stopTxSilenceObserver M; observerSilent }"

definition validateF11 :: "lely \<Rightarrow> SrdoProfile \<Rightarrow> bool host" where
  "validateF11 M p = do {
     prepared \<leftarrow> allM [prepareCleanOperational M p, enterPreOperational_srdo M, drain_srdo M,
       writeRemote_srdo M kSrdoDiagnosticIndex 0x03 (V32 kProbeNormal),
       writeRemote_srdo M kSrdoDiagnosticIndex 0x04 (V32 kWrongInverted)];
     if \<not> prepared then return False
     else withTxSilenceObserver M
       (allM [enterOperational M, waitForTxFault M, holdSilence M, stopAndCheckSilence M]) }"

section \<open>Recovery and process\<close>

definition validateF12 :: "lely \<Rightarrow> SrdoProfile \<Rightarrow> bool host" where
  "validateF12 M p = allM [prepareCleanOperational M p, validateEstablishedWindow M]"

definition srdoChecks :: "lely \<Rightarrow> SrdoProfile \<Rightarrow> bool host" where
  "srdoChecks M baseline = allM [enterOperational M, validateRxPair M, validateEstablishedWindow M,
     validateTxPair M, validateTxCycles M, validateResetRebind_srdo M, validateRegression M,
     validateF01 M baseline, validateF02 M baseline, validateF03 M baseline, validateF04 M baseline,
     validateF05 M baseline, validateF06 M baseline, validateF07 M baseline, validateF08 M baseline,
     validateF09 M baseline, validateF10 M baseline, validateF11 M baseline, validateF12 M baseline]"

definition srdoProcess :: "lely \<Rightarrow> int host" where
  "srdoProcess M = do {
     idle \<leftarrow> allM [drain_srdo M, validateNmtNonOperational M];
     if \<not> idle then return 1
     else do {
       (accepted, baseline) \<leftarrow> validateProfile M default_profile;
       if \<not> accepted then return 1
       else do {
         passed \<leftarrow> srdoChecks M baseline;
         if \<not> passed then do {
           restored \<leftarrow> prepareCleanOperational M baseline;
           return 1 }
         else return 0 } } }"

end
