(* ===== verification/Worker_Watch.thy ===== *)
theory Worker_Watch
  imports Srdo_Wire
begin

text \<open>
  What a run says about the passes of a helper thread.  The two threads of the SRDO validation share one
  contract: while a thread is active a pass in trouble leaves a report, and a report stays.  The interface
  \<open>reporter\<close> states it and carries it through the operations of the control thread; it is interpreted on
  the keep-alive worker and on the silence observer.
\<close>

section \<open>Passes that took effect\<close>

text \<open>A wait that succeeds ends at the first callback that satisfies it, so of the callbacks offered to it
  nothing is known; those offered to every other call have run.\<close>

fun offered :: "event \<Rightarrow> callback list \<Rightarrow> callback list" where
  "offered (EvWait t True) cs = []"
| "offered _ cs = cs"

fun surely :: "lely \<Rightarrow> history \<Rightarrow> history \<Rightarrow> callback list" where
  "surely M [] h = []"
| "surely M (e # es) h = surely M es h @ offered e (callbacks M (es @ h))"

lemma surely_append [simp]: "surely M (fs @ es) h = surely M es h @ surely M fs (es @ h)"
  by (induction fs) simp_all

lemma set_offered: "c \<in> set (offered e cs) \<Longrightarrow> c \<in> set cs"
  by (cases "(e, cs)" rule: offered.cases) auto

text \<open>\<open>watch A R T M u w\<close>: from \<open>u\<close> to \<open>w\<close> an active worker stayed active, kept its report and has
  one if a pass in trouble (\<open>T\<close>) ran.\<close>

definition watch ::
    "(memory \<Rightarrow> bool) \<Rightarrow> (memory \<Rightarrow> bool) \<Rightarrow> (callback \<Rightarrow> bool) \<Rightarrow> lely \<Rightarrow> world \<Rightarrow> world \<Rightarrow> bool" where
  "watch A R T M u w \<longleftrightarrow> (\<exists>es. hist w = es @ hist u \<and> (A (mem u) \<longrightarrow> A (mem w) \<and>
     (R (mem u) \<or> list_ex T (surely M es (hist u)) \<longrightarrow> R (mem w))))"

definition watched ::
    "(memory \<Rightarrow> bool) \<Rightarrow> (memory \<Rightarrow> bool) \<Rightarrow> (callback \<Rightarrow> bool) \<Rightarrow> lely \<Rightarrow> 'a host \<Rightarrow> bool" where
  "watched A R T M m \<longleftrightarrow> (\<forall>w. wp m (\<lambda>a w'. watch A R T M w w') w)"

lemma watch_refl [simp]: "watch A R T M w w"
  by (auto simp: watch_def)

lemma watch_trans: "watch A R T M u v \<Longrightarrow> watch A R T M v w \<Longrightarrow> watch A R T M u w"
proof -
  assume "watch A R T M u v" "watch A R T M v w"
  then obtain es fs where es: "hist v = es @ hist u"
      "A (mem u) \<longrightarrow> A (mem v) \<and> (R (mem u) \<or> list_ex T (surely M es (hist u)) \<longrightarrow> R (mem v))"
    and fs: "hist w = fs @ hist v"
      "A (mem v) \<longrightarrow> A (mem w) \<and> (R (mem v) \<or> list_ex T (surely M fs (hist v)) \<longrightarrow> R (mem w))"
    unfolding watch_def by blast
  have "hist w = (fs @ es) @ hist u" using es(1) fs(1) by simp
  moreover have "surely M (fs @ es) (hist u) = surely M es (hist u) @ surely M fs (hist v)"
    using es(1) by simp
  ultimately show ?thesis
    using es(2) fs(2) unfolding watch_def by (metis list_ex_append)
qed

locale reporter =
  fixes active :: "memory \<Rightarrow> bool"
    and reported :: "memory \<Rightarrow> bool"
    and trouble :: "callback \<Rightarrow> bool"
  assumes stays_active: "active m \<Longrightarrow> active (dispatch t c m)"
    and stays_reported: "active m \<Longrightarrow> reported m \<Longrightarrow> reported (dispatch t c m)"
    and reports: "active m \<Longrightarrow> trouble c \<Longrightarrow> reported (dispatch t c m)"
begin

lemma run_callbacks:
  "active m \<Longrightarrow> active (fold (dispatch t) cs m) \<and>
     (reported m \<or> list_ex trouble cs \<longrightarrow> reported (fold (dispatch t) cs m))"
  by (induction cs arbitrary: m) (auto simp: stays_active stays_reported reports)

lemma watch_step:
  assumes "hist w' = e # hist w" and "mem w' = fold (dispatch t) cs (mem w)"
    and "set (offered e (callbacks M (hist w))) \<subseteq> set cs"
  shows "watch active reported trouble M w w'"
  unfolding watch_def
  by (rule exI [of _ "[e]"]) (use assms run_callbacks [of "mem w" t cs] in \<open>auto simp: list_ex_iff\<close>)

lemma watched_call:
  assumes "\<And>w. \<exists>a e d. run_state m w = (a, occur M e d w)"
  shows "watched active reported trouble M m"
  unfolding watched_def wp_def
proof
  fix w
  obtain a e d where "run_state m w = (a, occur M e d w)" using assms by blast
  then show "case run_state m w of (a, w') \<Rightarrow> watch active reported trouble M w w'"
    by (auto intro!: watch_step [where e = e and t = "clock w" and cs = "callbacks M (hist w)"]
        simp: occur_def dest: set_offered)
qed

lemma watched_wait_for: "watched active reported trouble M (wait_for M t p)"
  unfolding watched_def
proof (intro allI wpI)
  fix w a w' assume run: "run_state (wait_for M t p) w = (a, w')"
  obtain ok m where wr: "wait_run (clock w) p (callbacks M (hist w)) (mem w) = (ok, m)" by fastforce
  with run have *: "mem w' = m" "a = ok" by (auto simp: wait_for_def Let_def)
  obtain cs cs' where "callbacks M (hist w) = cs @ cs'" "m = fold (dispatch (clock w)) cs (mem w)" "\<not> ok \<longrightarrow> cs' = []"
    using wait_run_fold [OF wr] by blast
  with * hist_wait_for [OF run] show "watch active reported trouble M w w'"
    by (intro watch_step [where e = "EvWait t a" and cs = cs]) (cases a; auto)+
qed

lemma watched_bind:
  "watched active reported trouble M m \<Longrightarrow> (\<And>a. watched active reported trouble M (f a)) \<Longrightarrow>
     watched active reported trouble M (State_Monad.bind m f)"
  unfolding watched_def wp_bind by (blast intro: wp_mono watch_trans)

lemma watched_pure:
  "watched active reported trouble M (return a)" "watched active reported trouble M (read_mem g)"
  by (simp_all add: watched_def host_wp)

lemma watched_update:
  "(\<And>m. active (g m) = active m \<and> reported (g m) = reported m) \<Longrightarrow> watched active reported trouble M (update_mem g)"
  by (simp add: watched_def watch_def host_wp)

lemma watched_cases:
  "watched active reported trouble M m \<Longrightarrow> watched active reported trouble M n \<Longrightarrow>
     watched active reported trouble M (if c then m else n)"
  "(\<And>a b. watched active reported trouble M (f a b)) \<Longrightarrow>
     watched active reported trouble M (case p of (a, b) \<Rightarrow> f a b)"
  "(\<And>a. watched active reported trouble M (g a)) \<Longrightarrow> (\<And>b. watched active reported trouble M (h b)) \<Longrightarrow>
     watched active reported trouble M (case s of Inl a \<Rightarrow> g a | Inr b \<Rightarrow> h b)"
  "(\<And>e. watched active reported trouble M (g' e)) \<Longrightarrow> (\<And>r. watched active reported trouble M (h' r)) \<Longrightarrow>
     watched active reported trouble M (case x of Rejected e \<Rightarrow> g' e | Accepted r \<Rightarrow> h' r)"
  by (simp_all split: prod.split sum.split submission.split)

lemma watched_andM:
  "watched active reported trouble M a \<Longrightarrow> watched active reported trouble M b \<Longrightarrow>
     watched active reported trouble M (andM a b)"
  unfolding andM_def by (intro watched_bind watched_cases watched_pure)

lemma watched_calls:
  "watched active reported trouble M (steady_now M)" "watched active reported trouble M (sleep_for M d)"
  "watched active reported trouble M (submit_upload T M rq k)" "watched active reported trouble M (local_read L M i s)"
  "watched active reported trouble M (submit_command M cmd n)"
  by (rule watched_call, auto simp: run_steady_now run_sleep_for run_submit_upload run_local_read run_submit_command
      prod_eq_iff)+

lemma watched_loop:
  assumes "\<And>s. watched active reported trouble M (body s)"
  shows "watched active reported trouble M (deadline_loop M d body s)"
  unfolding watched_def
proof (intro allI, rule wp_deadline_loop [where I = "\<lambda>s v. watch active reported trouble M w v" for w])
  fix w s v t k
  assume "watch active reported trouble M w v"
  moreover have "watch active reported trouble M v (occur M (EvNow t) k v)"
    by (rule watch_step [where e = "EvNow t" and t = "clock v" and cs = "callbacks M (hist v)"])
       (auto simp: occur_def)
  ultimately show "watch active reported trouble M w (occur M (EvNow t) k v)" by (rule watch_trans)
next
  fix w s v
  assume "watch active reported trouble M w v"
  moreover have "wp (body s) (\<lambda>r w'. watch active reported trouble M v w') v"
    using assms [of s] by (simp add: watched_def)
  ultimately show "wp (body s) (\<lambda>r w'. case r of Inl s' \<Rightarrow> watch active reported trouble M w w'
      | Inr a \<Rightarrow> watch active reported trouble M w w') v"
    by (auto split: sum.split intro: watch_trans elim: wp_mono)
qed auto

lemma watched_prefix: "watched active reported trouble M (State (\<lambda>w. run_state (m (f w)) w))"
  if "\<And>x. watched active reported trouble M (m x)"
  using that by (simp add: watched_def wp_def)

lemmas watched_intro = watched_bind watched_pure watched_cases watched_andM watched_calls watched_wait_for
  watched_loop

end

section \<open>The two threads\<close>

definition keepalive_active :: "memory \<Rightarrow> bool" where
  "keepalive_active m \<longleftrightarrow> wk_running (workers m) \<and> (wk_ok (workers m) \<longleftrightarrow> \<not> wk_returned (workers m))"

definition keepalive_failed :: "memory \<Rightarrow> bool" where
  "keepalive_failed m \<longleftrightarrow> \<not> wk_ok (workers m)"

definition observer_active :: "memory \<Rightarrow> bool" where
  "observer_active m \<longleftrightarrow> ob_running (workers m) \<and>
     (ob_ok (workers m) \<and> ob_unexpected (workers m) = 0 \<longleftrightarrow> \<not> ob_returned (workers m))"

definition observer_disturbed :: "memory \<Rightarrow> bool" where
  "observer_disturbed m \<longleftrightarrow> \<not> (ob_ok (workers m) \<and> ob_unexpected (workers m) = 0)"

text \<open>A pass that could not send its pair; a pass that captured a transmitted frame or failed.\<close>

fun unsent :: "callback \<Rightarrow> bool" where
  "unsent (CbKeepalive ok) \<longleftrightarrow> \<not> ok"
| "unsent _ \<longleftrightarrow> False"

fun disturbance :: "callback \<Rightarrow> bool" where
  "disturbance (CbObserver waited captured) \<longleftrightarrow> waited = ERROR \<or> waited = FRAME \<and> txIdentifier captured"
| "disturbance _ \<longleftrightarrow> False"

interpretation keepalive: reporter keepalive_active keepalive_failed unsent
proof
  fix m t c
  assume "keepalive_active m"
  then show "keepalive_active (dispatch t c m)"
    by (cases c) (auto simp: keepalive_active_def keepaliveStep_def observerStep_def split: WireWaitResult.split)
  show "keepalive_failed m \<Longrightarrow> keepalive_failed (dispatch t c m)"
    by (cases c) (auto simp: keepalive_failed_def keepaliveStep_def observerStep_def split: WireWaitResult.split)
  show "unsent c \<Longrightarrow> keepalive_failed (dispatch t c m)"
    using \<open>keepalive_active m\<close>
    by (cases c) (auto simp: keepalive_failed_def keepalive_active_def keepaliveStep_def)
qed

interpretation observer: reporter observer_active observer_disturbed disturbance
proof
  fix m t c
  assume "observer_active m"
  then show "observer_active (dispatch t c m)"
    by (cases c) (auto simp: observer_active_def keepaliveStep_def observerStep_def txIdentifier_def
        split: WireWaitResult.split)
  show "observer_disturbed m \<Longrightarrow> observer_disturbed (dispatch t c m)"
    using \<open>observer_active m\<close>
    by (cases c) (auto simp: observer_disturbed_def observer_active_def keepaliveStep_def observerStep_def
        split: WireWaitResult.split)
  show "disturbance c \<Longrightarrow> observer_disturbed (dispatch t c m)"
    using \<open>observer_active m\<close>
    by (cases c) (auto simp: observer_disturbed_def observer_active_def observerStep_def txIdentifier_def)
qed

end
