(* ===== verification/Srdo_Runs.thy ===== *)
theory Srdo_Runs
  imports Srdo_Faults Worker_Watch
begin

text \<open>
  What runs of the SRDO validation show: the readings of the device, the profile they establish, the
  changes of each check in order, and the restoration of the baseline.
\<close>

lemma wpi_upload_until:
  assumes "\<And>r w'. hist w' = EvUpload rq (map_submission (t_value T) r) # hist w \<Longrightarrow> Q r w'"
  shows "wp (submit_upload_until T M rq d) Q w"
  using assms by (simp add: submit_upload_until_def wp_def run_submit_upload)

text \<open>A read within a budget: it fails with the value unchanged, or its last event shows the value.\<close>

lemma wpi_readRemoteUntil:
  assumes "\<And>ok v w'. quiet w w' \<Longrightarrow>
     (ok \<Longrightarrow> \<exists>e t. hist w' = [e, EvNow t] @ hist w \<and> saw CANOPEN_SLAVE_NODE_ID i s (t_value T v) e) \<Longrightarrow>
     (\<not> ok \<Longrightarrow> v = v0) \<Longrightarrow> Q (ok, v) w'"
  shows "wp (readRemoteUntil T M i s d v0) Q w"
proof -
  let ?rq = "\<lambda>b. sdoRequest Normal CANOPEN_SLAVE_NODE_ID i s b"
  have upload: "wp (submit_upload_until T M (?rq b) d) (\<lambda>r. wp (case r of Rejected e \<Rightarrow> return (False, v0)
       | Accepted completion \<Rightarrow>
           (let st = runCompletion readCompletion completion \<lparr>rs_completed = False, rs_error = NoError, rs_value = v0\<rparr>
            in if \<not> rs_completed st then return (False, v0)
               else if failed (rs_error st) then return (False, v0) else return (True, rs_value st))) Q) u"
    if u: "hist u = EvNow t # hist w" for b t u
  proof (rule wpi_upload_until)
    fix r and w' :: world assume h: "hist w' = EvUpload (?rq b) (map_submission (t_value T) r) # hist u"
    with u have "quiet w w'" by (auto simp: quiet_def)
    note Q = assms [OF this]
    show "wp (case r of Rejected e \<Rightarrow> return (False, v0)
       | Accepted completion \<Rightarrow>
           (let st = runCompletion readCompletion completion \<lparr>rs_completed = False, rs_error = NoError, rs_value = v0\<rparr>
            in if \<not> rs_completed st then return (False, v0)
               else if failed (rs_error st) then return (False, v0) else return (True, rs_value st))) Q w'"
      by (cases r rule: completion_cases)
         (use h u in \<open>auto simp: host_wp runCompletion_def readCompletion_def failed_def intro!: Q\<close>)
  qed
  show ?thesis
    unfolding readRemoteUntil_def remainingBudget_def
    by (intro wpi_bind wpi_steady_now wpi_if wpi_return wpi_Let upload)
       (auto simp: quiet_def intro!: assms)
qed

section \<open>An accepted profile\<close>

text \<open>The profile that was accepted, with the two mapping counts the reading requires.\<close>

definition sound_profile :: "SrdoProfile \<Rightarrow> bool" where
  "sound_profile p \<longleftrightarrow> exactProfile p \<and> mp_count (pf_map p ! 0) = 2 \<and> mp_count (pf_map p ! 1) = 2 \<and>
     length (mp_entry (pf_map p ! 0)) = 2 \<and> length (mp_entry (pf_map p ! 1)) = 2"

lemma readRemoteUntil_shown:
  assumes "shown u w xs"
    and "\<And>v w'. shown u w' (xs @ [(i, s, t_value T v)]) \<Longrightarrow> Q (True, v) w'" and "\<And>w'. Q (False, v0) w'"
  shows "wp (readRemoteUntil T M i s d v0) Q w"
proof (rule wpi_readRemoteUntil)
  fix ok v and w' :: world
  assume ok: "ok \<Longrightarrow> \<exists>e t. hist w' = [e, EvNow t] @ hist w \<and> saw CANOPEN_SLAVE_NODE_ID i s (t_value T v) e"
    and other: "\<not> ok \<Longrightarrow> v = v0"
  show "Q (ok, v) w'"
  proof (cases ok)
    case True
    with ok have "shown w w' [(i, s, t_value T v)]"
      unfolding shown_def by fastforce
    with True shown_trans [OF assms(1)] assms(2) show ?thesis by simp
  qed (use other assms(3) in simp)
qed

lemma readRemote_shown:
  assumes "shown u w xs"
    and "\<And>v w'. shown u w' (xs @ [(i, s, t_value T v)]) \<Longrightarrow> Q (True, v) w'" and "\<And>w'. Q (False, v0) w'"
  shows "wp (readRemote_srdo T M i s v0) Q w"
  unfolding readRemote_srdo_def
proof (rule wpi_bind, rule wpi_steady_now)
  fix t and v :: world assume "hist v = EvNow t # hist w"
  with assms(1) have "shown u v xs" by (auto intro: shown_add later_Cons)
  then show "wp (readRemoteUntil T M i s (t + ms kStateTimeout) v0) Q v"
    by (rule readRemoteUntil_shown) (use assms in auto)
qed

section \<open>The profile\<close>

definition comm_readings :: "u16 \<Rightarrow> SrdoCommProfile \<Rightarrow> reading list" where
  "comm_readings i c = [(i, 1, V8 (cm_direction c)), (i, 2, V16 (cm_sct_ms c)), (i, 3, V8 (cm_srvt_ms c)),
     (i, 4, V8 (cm_transmission_type c)), (i, 5, V32 (cm_normal_id c)), (i, 6, V32 (cm_inverted_id c))]"

definition map_readings :: "u16 \<Rightarrow> SrdoMapProfile \<Rightarrow> reading list" where
  "map_readings i m = [(i, 0, V8 (mp_count m)), (i, 1, V32 (mp_entry m ! 0)), (i, 2, V32 (mp_entry m ! 1))]"

definition profile_readings :: "SrdoProfile \<Rightarrow> reading list" where
  "profile_readings p = [(0x13FE, 0, V8 (pf_configuration_valid p)), (0x13FF, 0, V8 (pf_checksum_count p)),
     (0x13FF, 1, V16 (pf_checksum p ! 0)), (0x13FF, 2, V16 (pf_checksum p ! 1))] @
     comm_readings 0x1301 (pf_comm p ! 0) @ comm_readings 0x1302 (pf_comm p ! 1) @
     map_readings 0x1381 (pf_map p ! 0) @ map_readings 0x1382 (pf_map p ! 1)"

lemma readAll_shown:
  assumes "shown u w xs" and "\<And>r w'. Q (False, r) w'"
    and "\<And>v w'. shown u w' (xs @ [(i, s, t_value T v)]) \<Longrightarrow> wp (readAll fs (put v r)) Q w'"
  shows "wp (readAll (readField (readRemote_srdo T M i s) get put # fs) r) Q w"
  by (rule readAll_step, rule readRemote_shown [OF assms(1)]) (simp_all add: assms(2,3))

lemma readComm_shown:
  assumes start: "shown u w xs" and fin: "\<And>c w'. shown u w' (xs @ comm_readings i c) \<Longrightarrow> Q (True, c) w'"
    and fail: "\<And>c w'. Q (False, c) w'"
  shows "wp (readComm M i c0) Q w"
  unfolding readComm_def
  by (rule readAll_shown [OF start], rule fail)
     (erule readAll_shown, rule fail | rule readAll_end, rule fin, simp add: comm_readings_def)+

lemma readMap_shown:
  assumes start: "shown u w xs" and n: "length (mp_entry m0) = 2"
    and fin: "\<And>m w'. shown u w' (xs @ map_readings i m) \<Longrightarrow> mp_count m = 2 \<Longrightarrow> length (mp_entry m) = 2 \<Longrightarrow> Q (True, m) w'"
    and fail: "\<And>m w'. Q (False, m) w'"
  shows "wp (readMap M i m0) Q w"
  unfolding readMap_def readField_def
  apply (simp only: bind_assoc)
  apply (rule wpi_bind, rule readRemote_shown [OF start])
   prefer 2 apply (simp add: host_wp fail)
  apply (simp only: host_wp prod.case)
  apply (simp only: not_True_eq_False simp_thms split: if_split, intro conjI impI, rule fail)
  unfolding readMapEntry_def
  apply (erule readAll_shown, rule fail)
  apply (erule readAll_shown, rule fail)
  apply (rule readAll_end, rule fin)
  using n by (auto simp: map_readings_def)

lemma readProfile_shown:
  assumes fin: "\<And>p w'. shown w w' (profile_readings p) \<Longrightarrow> mp_count (pf_map p ! 0) = 2 \<Longrightarrow> mp_count (pf_map p ! 1) = 2 \<Longrightarrow>
      length (mp_entry (pf_map p ! 0)) = 2 \<Longrightarrow> length (mp_entry (pf_map p ! 1)) = 2 \<Longrightarrow> Q (True, p) w'"
    and fail: "\<And>p w'. Q (False, p) w'"
  shows "wp (readProfile M default_profile) Q w"
  unfolding readProfile_def srdo_index_defs
  apply (rule readAll_shown [OF shown_refl], rule fail)
  apply (erule readAll_shown, rule fail)+
  apply (rule readAll_step, erule readComm_shown)
   prefer 2 apply (simp add: fail)
  apply (simp only: prod.case if_True)
  apply (rule readAll_step, erule readComm_shown)
   prefer 2 apply (simp add: fail)
  apply (simp only: prod.case if_True)
  apply (rule readAll_step, erule readMap_shown)
    apply (simp add: default_profile_def default_map_def)
   prefer 2 apply (simp add: fail)
  apply (simp only: prod.case if_True)
  apply (rule readAll_step, erule readMap_shown)
    apply (simp add: default_profile_def default_map_def)
   prefer 2 apply (simp add: fail)
  apply (simp only: prod.case if_True)
  apply (rule readAll_end, rule fin)
  by (simp_all add: profile_readings_def default_profile_def)

text \<open>Acceptance is exact: the run has just shown every value of the profile, and changed nothing.\<close>

lemma validateProfile_sound:
  "wp (validateProfile M default_profile) (\<lambda>(ok, p) w'. quiet w w' \<and>
     (ok \<longrightarrow> sound_profile p \<and> shown w w' (profile_readings p))) w"
proof -
  have "wp (validateProfile M default_profile) (\<lambda>(ok, p) w'.
     ok \<longrightarrow> sound_profile p \<and> shown w w' (profile_readings p)) w"
    unfolding validateProfile_def
    by (rule wpi_bind, rule readProfile_shown) (auto simp: host_wp sound_profile_def)
  then show ?thesis
    by (rule wp_read_only [OF validateProfile_touches]) auto
qed

section \<open>The checksum\<close>

lemma crcShift_eq: "crcShift = crcBit"
  by (rule ext) (simp add: crcShift_def crcBit_def)

lemma crc16CcittByte_eq: "crc16CcittByte = crcByte"
  by (intro ext) (simp add: crc16CcittByte_def crcByte_def crcShift_eq)

definition le16 :: "u16 \<Rightarrow> u8 list" where
  "le16 v = [ucast (v AND 0xFF), ucast (drop_bit 8 v AND 0xFF)]"

text \<open>The image the checksum is defined over: parameters and mapping, least significant byte first.\<close>

definition entry_image :: "nat \<Rightarrow> u32 list \<Rightarrow> u8 list" where
  "entry_image n es = concat (map (\<lambda>i. of_nat (i + 1) # encodeU32 (es ! i)) [0..<min n (length es)])"

definition srdo_image :: "SrdoCommProfile \<Rightarrow> SrdoMapProfile \<Rightarrow> u8 list" where
  "srdo_image c m = [cm_direction c] @ le16 (cm_sct_ms c) @ [cm_srvt_ms c] @ encodeU32 (cm_normal_id c) @
     encodeU32 (cm_inverted_id c) @ [mp_count m] @ entry_image (unat (mp_count m)) (mp_entry m)"

lemma crcAppend_foldl:
  "crcAppendU16Le c v = foldl crcByte c (le16 v)" "crcAppendU32Le c u = foldl crcByte c (encodeU32 u)"
  by (simp_all add: crcAppendU16Le_def crcAppendU32Le_def le16_def encodeU32_def crc16CcittByte_eq)

lemma crcEntries_foldl: "crcEntries c m = foldl crcByte c (entry_image (unat (mp_count m)) (mp_entry m))"
proof -
  have "foldl (\<lambda>crc i. crcAppendU32Le (crc16CcittByte crc (of_nat (i + 1))) (es ! i)) c is =
      foldl crcByte c (concat (map (\<lambda>i. of_nat (i + 1) # encodeU32 (es ! i)) is))" for "is" es
    by (induction "is" arbitrary: c) (simp_all add: crcAppend_foldl crc16CcittByte_eq)
  then show ?thesis by (simp add: crcEntries_def entry_image_def)
qed

text \<open>The checksum of the code is the CRC of the storage protocol over that image.\<close>

lemma calculateSrdoChecksum_crc: "calculateSrdoChecksum c m = crc16Ccitt (srdo_image c m)"
  by (simp add: calculateSrdoChecksum_def crc16Ccitt_def srdo_image_def crcEntries_foldl crcAppend_foldl
      crc16CcittByte_eq Let_def)

text \<open>One byte of the image changed is a checksum changed.\<close>

lemma srdo_checksum_one_byte:
  assumes "srdo_image c m = xs @ x # ys" and "srdo_image c' m' = xs @ y # ys"
  shows "calculateSrdoChecksum c m = calculateSrdoChecksum c' m' \<longleftrightarrow> x = y"
  by (simp add: calculateSrdoChecksum_crc assms crc16_one_byte)

definition rx_comm :: SrdoCommProfile where
  "rx_comm = \<lparr>cm_direction = 2, cm_sct_ms = 100, cm_srvt_ms = 20, cm_transmission_type = 254,
     cm_normal_id = 0x101, cm_inverted_id = 0x102\<rparr>"

definition rx_map :: SrdoMapProfile where
  "rx_map = \<lparr>mp_count = 2, mp_entry = [0x23060120, 0x23060220]\<rparr>"

lemma rx_fields [simp]:
  "cm_direction rx_comm = 2" "cm_sct_ms rx_comm = 100" "cm_srvt_ms rx_comm = 20" "cm_transmission_type rx_comm = 254"
  "cm_normal_id rx_comm = 0x101" "cm_inverted_id rx_comm = 0x102" "mp_count rx_map = 2"
  "mp_entry rx_map = [0x23060120, 0x23060220]"
  by (simp_all add: rx_comm_def rx_map_def)

lemma rx_images:
  "srdo_image rx_comm rx_map = [2, 100, 0, 20, 1, 1, 0, 0, 2, 1, 0, 0, 2, 1, 0x20, 1, 6, 0x23, 2, 0x20, 2, 6, 0x23]"
  "srdo_image (rx_comm\<lparr>cm_inverted_id := 0x106\<rparr>) rx_map =
     [2, 100, 0, 20, 1, 1, 0, 0, 6, 1, 0, 0, 2, 1, 0x20, 1, 6, 0x23, 2, 0x20, 2, 6, 0x23]"
  "srdo_image rx_comm (rx_map\<lparr>mp_entry := (mp_entry rx_map)[1 := 0x23060210]\<rparr>) =
     [2, 100, 0, 20, 1, 1, 0, 0, 2, 1, 0, 0, 2, 1, 0x20, 1, 6, 0x23, 2, 0x10, 2, 6, 0x23]"
  by (simp_all add: srdo_image_def entry_image_def rx_comm_def rx_map_def le16_def encodeU32_def upt_rec)

lemma rx_checksum: "calculateSrdoChecksum rx_comm rx_map = 0xA1B7"
proof -
  have step: "crcByte c b = crcBit (crcBit (crcBit (crcBit (crcBit (crcBit (crcBit (crcBit (c XOR push_bit 8 (ucast b)))))))))"
    for c b by (simp add: crcByte_def numeral_eq_Suc)
  then show ?thesis
    by (simp add: calculateSrdoChecksum_crc rx_images crc16Ccitt_def step crcBit_def)
qed

lemma sound_profile_rx:
  assumes "sound_profile p"
  shows "pf_comm p ! 0 = rx_comm" "pf_map p ! 0 = rx_map" "pf_checksum p ! 0 = 0xA1B7"
proof -
  have two: "xs = [a, b] \<longleftrightarrow> xs ! 0 = a \<and> xs ! 1 = b" if "length xs = 2" for xs :: "u32 list" and a b
    using that by (auto simp: numeral_2_eq_2 length_Suc_conv)
  show c: "pf_comm p ! 0 = rx_comm"
    using assms by (intro SrdoCommProfile.equality)
      (simp_all add: sound_profile_def exactProfile_def Let_def rx_comm_def srdo_profile_defs wire_const_defs)
  show m: "pf_map p ! 0 = rx_map"
    using assms by (intro SrdoMapProfile.equality)
      (simp_all add: sound_profile_def exactProfile_def Let_def rx_map_def srdo_profile_defs two)
  show "pf_checksum p ! 0 = 0xA1B7"
    using assms c m rx_checksum by (simp add: sound_profile_def exactProfile_def Let_def)
qed

abbreviation rx_state_is :: "int \<Rightarrow> phase" where
  "rx_state_is st \<equiv> displays 0x2306 6 (VI8 (of_int st))"

abbreviation tx_state_is :: "int \<Rightarrow> phase" where
  "tx_state_is st \<equiv> displays 0x2306 7 (VI8 (of_int st))"

text \<open>The write was answered with exactly this abort.\<close>

definition refused_with :: "lely \<Rightarrow> u16 \<Rightarrow> u8 \<Rightarrow> sdo_value \<Rightarrow> u32 \<Rightarrow> phase" where
  "refused_with M i s v abort w w' \<longleftrightarrow> (\<exists>t c. sdo_errc M (SdoCategory c) = abort \<and>
     hist w' = EvDownload (sdoRequest Normal CANOPEN_SLAVE_NODE_ID i s t) v (Accepted (Some (SdoCategory c, ()))) # hist w)"

lemma nmt_performs:
  "performs (enterPreOperational_srdo M) (commanded ENTER_PREOP)" "performs (enterOperational M) (commanded START)"
  unfolding enterPreOperational_srdo_def enterOperational_def performs_def commanded_def
  using issueNmtCommandAndWaitForState_does by blast+

lemma reset_performs: "performs (resetCommunication M) rebooted"
proof (rule performsI)
  fix w
  have start: "wp (enterOperational M) (\<lambda>ok v'. ok \<longrightarrow> rebooted w v') v"
    if "does w [Nmt RESET_COMM CANOPEN_SLAVE_NODE_ID] v" for v
    using performs_wp [OF nmt_performs(2) [of M], of v] does_trans [OF that]
    by (auto simp: rebooted_def commanded_def elim!: wp_mono)
  show "wp (resetCommunication M) (\<lambda>ok w'. ok \<longrightarrow> rebooted w w') w"
    unfolding resetCommunication_def prepareBootWait_def
  proof (intro wpi_bind wpi_update_mem)
    fix u :: world assume u: "hist u = hist w"
    show "wp (issueNmtCommand M RESET_COMM CANOPEN_SLAVE_NODE_ID) (\<lambda>issued. wp (if \<not> issued then return False
       else do {
         (booted, state) \<leftarrow> waitForBootCompletionState M kResetTimeout nmt_BOOTUP;
         if \<not> booted then return False else if state = nmt_START then return True else enterOperational M })
       (\<lambda>ok w'. ok \<longrightarrow> rebooted w w')) u"
    proof (rule wp_mono [OF issueNmtCommand_does])
      fix issued v assume "issued \<longrightarrow> does u [Nmt RESET_COMM CANOPEN_SLAVE_NODE_ID] v"
      with u have v: "issued \<longrightarrow> does w [Nmt RESET_COMM CANOPEN_SLAVE_NODE_ID] v" by (simp add: does_def)
      show "wp (if \<not> issued then return False
       else do {
         (booted, state) \<leftarrow> waitForBootCompletionState M kResetTimeout nmt_BOOTUP;
         if \<not> booted then return False else if state = nmt_START then return True else enterOperational M })
       (\<lambda>ok w'. ok \<longrightarrow> rebooted w w') v"
        by (cases issued)
           (use v in \<open>auto simp: host_wp rebooted_def [of w] intro!: wp_does_quiet [OF _ waitForBootCompletion_touches(2)] start [unfolded rebooted_def]\<close>)
    qed
  qed
qed

lemma write_performs: "performs (writeRemote_srdo M i s v) (stored [(i, s, v)])"
  unfolding performs_def writeRemote_srdo_def
  by (intro allI wp_intro) (auto simp: stored_def outcome_SUCCESS_iff intro!: exI [of _ "[e]" for e])

definition srdoWrites :: "lely \<Rightarrow> reading list \<Rightarrow> bool host list" where
  "srdoWrites M xs = map (\<lambda>(i, s, v). writeRemote_srdo M i s v) xs"

lemma writes_perform: "performs (allM (srdoWrites M xs)) (stored xs)"
proof (induction xs)
  case (Cons x xs)
  obtain i s v where x: "x = (i, s, v)" by (cases x)
  show ?case
    using Cons.IH stored_append [of "[x]" _ _ xs]
    by (auto simp: x srdoWrites_def intro: performs_andM [OF write_performs])
qed (simp add: srdoWrites_def performs_def host_wp)

section \<open>The operations of the fault cases\<close>

lemma performs_displays:
  assumes "\<And>t. read_only (f t)"
    and "\<And>t u. hist u = EvNow t # hist w \<Longrightarrow> wp (f t) (\<lambda>ok w'. ok \<longrightarrow> (\<exists>e h. hist w' = e # h \<and> saw CANOPEN_SLAVE_NODE_ID i s v e) \<and> R w') u"
  shows "wp (do { t \<leftarrow> steady_now M; f t }) (\<lambda>ok w'. ok \<longrightarrow> displays i s v w w' \<and> R w') w"
proof (rule wpi_bind, rule wpi_steady_now, rule wp_read_only [OF assms(1) assms(2)], assumption, intro impI)
  fix t ok and u w' :: world
  assume u: "hist u = EvNow t # hist w" and "quiet u w'" and ok: ok
    and "ok \<longrightarrow> (\<exists>e h. hist w' = e # h \<and> saw CANOPEN_SLAVE_NODE_ID i s v e) \<and> R w'"
  then obtain es e h where es: "hist w' = es @ EvNow t # hist w" "mutations es = []"
    and e: "hist w' = e # h" "saw CANOPEN_SLAVE_NODE_ID i s v e" and R: "R w'"
    by (auto simp: quiet_def)
  then show "displays i s v w w' \<and> R w'"
    unfolding displays_def
    by (cases es) (auto intro!: exI [of _ "tl es @ [EvNow t]"] split: option.splits)
qed

text \<open>The wait for a state of one SRDO ends well only on an answer that shows it.\<close>

lemma stateLoop_displays:
  "wp (deadline_loop M d (stateBody M sub st d) ()) (\<lambda>r w'. case r of
     Inr ok \<Rightarrow> ok \<longrightarrow> (\<exists>e h. hist w' = e # h \<and> saw CANOPEN_SLAVE_NODE_ID 0x2306 sub (VI8 st) e) | Inl u \<Rightarrow> True) w"
proof (rule wp_deadline_loop [where I = "\<lambda>_ _. True"])
  fix u v
  show "wp (stateBody M sub st d u) (\<lambda>r w'. case r of Inl s' \<Rightarrow> True
     | Inr a \<Rightarrow> (case Inr a of Inr ok \<Rightarrow> ok \<longrightarrow> (\<exists>e h. hist w' = e # h \<and> saw CANOPEN_SLAVE_NODE_ID 0x2306 sub (VI8 st) e) | Inl u \<Rightarrow> True)) v"
    unfolding stateBody_def kSrdoDiagnosticIndex_def
    by (intro wpi_bind wpi_readRemoteUntil) (auto simp: host_wp intro!: wpI)
qed auto

lemma states_perform:
  "performs (waitForRxState M st t) (displays 0x2306 6 (VI8 st))"
  "performs (waitForTxState M st t) (displays 0x2306 7 (VI8 st))"
proof -
  have loop: "wp (do { r \<leftarrow> deadline_loop M d (stateBody M sub st d) ();
       case r of Inr reached \<Rightarrow> return reached | Inl u \<Rightarrow> return False })
     (\<lambda>ok w'. ok \<longrightarrow> (\<exists>e h. hist w' = e # h \<and> saw CANOPEN_SLAVE_NODE_ID 0x2306 sub (VI8 st) e) \<and> True) w" for d sub w
    by (rule wpi_bind, rule wp_mono [OF stateLoop_displays]) (auto simp: host_wp split: sum.split)
  have reads: "read_only (do { r \<leftarrow> deadline_loop M d (stateBody M sub st d) ();
       case r of Inr reached \<Rightarrow> return reached | Inl u \<Rightarrow> return False })" for d sub
    unfolding stateBody_def by (intro emits_intro)
  show "performs (waitForRxState M st t) (displays 0x2306 6 (VI8 st))"
    unfolding waitForRxState_def
    by (rule performsI, rule wp_mono [OF performs_displays [OF reads loop]]) simp
  show "performs (waitForTxState M st t) (displays 0x2306 7 (VI8 st))"
    unfolding waitForTxState_def
    by (rule performsI, rule wp_mono [OF performs_displays [OF reads loop]]) simp
qed

lemma sends_perform:
  "performs (sendRx M i data n) (sent [rx_message i data n])" "performs (sendPair M v v') (sent (rx_pair v v'))"
  using sendRx_does sendPair_does by (auto simp: performs_def sent_def)

lemma pause_performs: "performs (pause M d) (paused d)"
  unfolding performs_def pause_def paused_def by (intro allI wp_intro) auto

lemma drain_performs: "performs (drain_srdo M) quiet"
  unfolding performs_def by (intro allI wp_quiet [OF wire_reads_touch(2)]) simp

lemma wpi_readRemote_srdo:
  assumes "\<And>ok v w'. quiet w w' \<Longrightarrow> (ok \<Longrightarrow> displays i s (t_value T v) w w') \<Longrightarrow> Q (ok, v) w'"
  shows "wp (readRemote_srdo T M i s v0) Q w"
  unfolding readRemote_srdo_def
proof (intro wpi_bind wpi_steady_now wpi_readRemoteUntil)
  fix t ok v and u w' :: world
  assume u: "hist u = EvNow t # hist w" "quiet u w'"
    and e: "ok \<Longrightarrow> \<exists>e t. hist w' = [e, EvNow t] @ hist u \<and> saw CANOPEN_SLAVE_NODE_ID i s (t_value T v) e"
  from u have "quiet w u" by (auto simp: quiet_def)
  with u(2) have "quiet w w'" by (blast intro: quiet_trans)
  then show "Q (ok, v) w'"
  proof (rule assms)
    assume ok
    with e obtain e k where "hist w' = [e, EvNow k] @ hist u" "saw CANOPEN_SLAVE_NODE_ID i s (t_value T v) e" by blast
    with u(1) show "displays i s (t_value T v) w w'"
      unfolding displays_def by (intro exI [of _ e] exI [of _ "[EvNow k, EvNow t]"]) simp
  qed
qed

lemma requireRemote_performs: "performs (requireRemote T M i s v0 x) (displays i s (t_value T x))"
  unfolding performs_def requireRemote_def
  by (intro allI wpi_bind wpi_readRemote_srdo) (auto simp: host_wp)

text \<open>Both identifiers were shown.\<close>

definition displays_ids :: "u32 \<Rightarrow> u32 \<Rightarrow> phase" where
  "displays_ids n i w w' \<longleftrightarrow> (\<exists>v. displays 0x1301 5 (V32 n) w v \<and> displays 0x1301 6 (V32 i) v w')"

lemma requireCanIds_performs: "performs (requireCanIds M n i) (displays_ids n i)"
  unfolding performs_def requireCanIds_def displays_ids_def kSrdo1CommIndex_def
proof (intro allI wpi_bind wpi_readRemote_srdo)
  fix w w' :: world and ok v
  assume w': "ok \<Longrightarrow> displays 0x1301 5 (t_value tU32 v) w w'"
  show "wp (case (ok, v) of (ok, current_normal) \<Rightarrow> if \<not> ok then return False
     else do {
       (ok, current_inverted) \<leftarrow> readRemote_srdo tU32 M 0x1301 6 0;
       return (\<not> (\<not> ok \<or> current_normal \<noteq> n \<or> current_inverted \<noteq> i)) })
     (\<lambda>ok w'. ok \<longrightarrow> (\<exists>v. displays 0x1301 5 (V32 n) w v \<and> displays 0x1301 6 (V32 i) v w')) w'"
    by (cases ok) (use w' in \<open>auto simp: host_wp intro!: wpi_readRemote_srdo\<close>)
qed

lemma refusal_performs: "performs (requireWriteRejected M i s v abort) (refused_with M i s v abort)"
  unfolding performs_def requireWriteRejected_def refused_with_def wp_bind
proof
  fix w :: world
  let ?r = "down M (hist w) (sdoRequest Normal CANOPEN_SLAVE_NODE_ID i s 500) v"
  show "wp (submit_download M (sdoRequest Normal CANOPEN_SLAVE_NODE_ID i s 500) v (ms 600))
     (\<lambda>submitted. wp (case submitted of Rejected e \<Rightarrow> return False
       | Accepted completion \<Rightarrow>
          (let st = runCompletion writeCompletion completion \<lparr>ws_completed = False, ws_error = NoError\<rparr>
           in if \<not> ws_completed st then return False
              else if \<not> failed (ws_error st) then return False
              else if \<not> sdoCategory (ws_error st) then return False
              else let abort' = sdo_errc M (ws_error st)
                   in if abort' = sdoErrc_TIMEOUT then return False
                      else if abort' \<noteq> abort then return False else return True))
       (\<lambda>ok w'. ok \<longrightarrow> (\<exists>t c. sdo_errc M (SdoCategory c) = abort \<and> hist w' =
          EvDownload (sdoRequest Normal CANOPEN_SLAVE_NODE_ID i s t) v (Accepted (Some (SdoCategory c, ()))) # hist w))) w"
    by (cases ?r rule: completion_cases)
       (auto simp: wp_def run_submit_download runCompletion_def writeCompletion_def sdoCategory_def Let_def)
qed

text \<open>The inverted frame alone: the device times out and was never seen established meanwhile.\<close>

definition never_established :: phase where
  "never_established w w' \<longleftrightarrow> (\<exists>es. hist w' = es @ hist w \<and>
     list_all (\<lambda>e. \<not> saw CANOPEN_SLAVE_NODE_ID 0x2306 6 (VI8 3) e) es)"

lemma never_established_refl [simp]: "never_established w w"
  by (auto simp: never_established_def)

lemma never_established_trans:
  assumes "never_established u v" and "never_established v w"
  shows "never_established u w"
proof -
  let ?P = "\<lambda>e. \<not> saw CANOPEN_SLAVE_NODE_ID 0x2306 6 (VI8 3) e"
  obtain es fs where "hist v = es @ hist u" "list_all ?P es" "hist w = fs @ hist v" "list_all ?P fs"
    using assms by (auto simp: never_established_def)
  then show ?thesis
    unfolding never_established_def by (intro exI [of _ "fs @ es"]) simp
qed

lemma never_established_event:
  "hist w = e # hist v \<Longrightarrow> \<not> saw CANOPEN_SLAVE_NODE_ID 0x2306 6 (VI8 3) e \<Longrightarrow> never_established v w"
  unfolding never_established_def by (rule exI [of _ "[e]"]) simp

lemma never_established_occur:
  "never_established u v \<Longrightarrow> \<not> saw CANOPEN_SLAVE_NODE_ID 0x2306 6 (VI8 3) e \<Longrightarrow> never_established u (occur M e d v)"
  by (erule never_established_trans) (rule never_established_event, simp_all)

lemma never_established_emits:
  assumes "emits (\<lambda>e. \<not> saw CANOPEN_SLAVE_NODE_ID 0x2306 6 (VI8 3) e) m" and "\<And>a w'. never_established w w' \<Longrightarrow> Q a w'"
  shows "wp m Q w"
  by (rule wpI) (use assms in \<open>auto simp: never_established_def dest: emitsD\<close>)

lemma pollPause_emits: "(\<And>t. P (EvNow t)) \<Longrightarrow> (\<And>d. P (EvSleep d)) \<Longrightarrow> emits P (pollPause M d)"
  unfolding pollPause_def remainingBudget_def Let_def
  by (intro emits_bind emits_steady_now emits_sleep_for emits_if emits_return)

lemma upload_only:
  "hist w' = [e, EvNow t] @ hist w \<Longrightarrow> saw n i s v e \<Longrightarrow> v \<noteq> VI8 3 \<Longrightarrow> never_established w w'"
  unfolding never_established_def
  by (intro exI [of _ "[e, EvNow t]"]) (cases e; auto)

lemma invertedFirst_performs:
  "performs (invertedFirstTimesOut M) (\<lambda>w w'. displays 0x2306 6 (VI8 (- 3)) w w' \<and> never_established w w')"
proof -
  have body: "wp (invertedFirstBody M d u) (\<lambda>r w'. case r of Inl s' \<Rightarrow> never_established w w'
      | Inr ok \<Rightarrow> ok \<longrightarrow> never_established w w' \<and> (\<exists>e h. hist w' = e # h \<and> saw CANOPEN_SLAVE_NODE_ID 0x2306 6 (VI8 (- 3)) e)) v"
    if v: "never_established w v" for w v d u
    unfolding invertedFirstBody_def kSrdoDiagnosticIndex_def Let_def
  proof (intro wpi_bind wpi_steady_now wpi_readRemoteUntil)
    fix t ok st and v1 v2 :: world
    assume v1: "hist v1 = EvNow t # hist v"
      and v2: "ok \<Longrightarrow> \<exists>e t. hist v2 = [e, EvNow t] @ hist v1 \<and> saw CANOPEN_SLAVE_NODE_ID 0x2306 6 (t_value tI8 st) e"
    have now: "never_established w v2" if "ok" "st \<noteq> 3"
      using v2 [OF that(1)] that(2) v v1
      by (auto intro!: never_established_trans [OF v] never_established_trans [OF never_established_event [OF v1]] upload_only)
    have pause: "wp (pollPause M d) Q v2" if "ok" "st \<noteq> 3" and "\<And>a w'. never_established w w' \<Longrightarrow> Q a w'" for Q
      by (rule never_established_emits [OF pollPause_emits])
         (auto intro: that(3) never_established_trans [OF now [OF that(1,2)]])
    show "wp (case (ok, st) of (ok, rx_state) \<Rightarrow> if \<not> ok then return (Inr False)
       else if rx_state = kStateEstablished then return (Inr False)
       else if rx_state = kStateRxTimeoutSct then return (Inr True)
       else do { pollPause M d; return (Inl ()) })
     (\<lambda>r w'. case r of Inl s' \<Rightarrow> never_established w w'
      | Inr ok \<Rightarrow> ok \<longrightarrow> never_established w w' \<and> (\<exists>e h. hist w' = e # h \<and> saw CANOPEN_SLAVE_NODE_ID 0x2306 6 (VI8 (- 3)) e)) v2"
      using now v2
      by (auto simp: host_wp kStateEstablished_def kStateRxTimeoutSct_def intro!: pause)
  qed
  have loop: "wp (deadline_loop M d (invertedFirstBody M d) ()) (\<lambda>r w'. case r of Inl s' \<Rightarrow> True
      | Inr ok \<Rightarrow> ok \<longrightarrow> never_established w w' \<and> (\<exists>e h. hist w' = e # h \<and> saw CANOPEN_SLAVE_NODE_ID 0x2306 6 (VI8 (- 3)) e)) v"
    if "never_established w v" for w v d
    by (rule wp_deadline_loop [where I = "\<lambda>_ v. never_established w v"])
       (use that in \<open>auto intro: never_established_occur wp_mono [OF body] split: sum.split\<close>)
  have after: "wp (do { r \<leftarrow> deadline_loop M d (invertedFirstBody M d) ();
       case r of Inr timed_out \<Rightarrow> return timed_out | Inl u \<Rightarrow> return False })
     (\<lambda>ok w'. ok \<longrightarrow> (\<exists>e h. hist w' = e # h \<and> saw CANOPEN_SLAVE_NODE_ID 0x2306 6 (VI8 (- 3)) e) \<and> never_established w w') u"
    if "hist u = EvNow t # hist w" for d t u w
    by (rule wpi_bind, rule wp_mono, rule loop [of w])
       (auto simp: host_wp intro: never_established_event [OF that] split: sum.split)
  have reads: "read_only (do { r \<leftarrow> deadline_loop M d (invertedFirstBody M d) ();
       case r of Inr timed_out \<Rightarrow> return timed_out | Inl u \<Rightarrow> return False })" for d
    unfolding invertedFirstBody_def Let_def by (intro emits_intro)
  show ?thesis
    unfolding invertedFirstTimesOut_def Let_def
    by (rule performsI, rule performs_displays [OF reads after])
qed

section \<open>The baseline\<close>

text \<open>The thirteen values of SRDO1 in the order they are written back.\<close>

definition baseline_writes :: "reading list" where
  "baseline_writes = [(0x1301, 1, V8 0), (0x1381, 0, V8 0), (0x1381, 1, V32 0x23060120),
     (0x1381, 2, V32 0x23060220), (0x1381, 0, V8 2), (0x1301, 2, V16 100), (0x1301, 3, V8 20), (0x1301, 4, V8 254),
     (0x1301, 5, V32 0x101), (0x1301, 6, V32 0x102), (0x1301, 1, V8 2), (0x13FF, 1, V16 0xA1B7), (0x13FE, 0, V8 0xA5)]"

lemma writeSrdo1Baseline_eq:
  "sound_profile p \<Longrightarrow> writeSrdo1Baseline M p = allM (srdoWrites M baseline_writes)"
  by (simp add: writeSrdo1Baseline_def Let_def sound_profile_rx srdoWrites_def baseline_writes_def srdo_index_defs)

text \<open>A clean start: Pre-operational, every value of the baseline confirmed, communication reset.\<close>

definition clean :: phase where
  "clean = stages [commanded ENTER_PREOP, stored baseline_writes, rebooted]"

lemma clean_performs: "sound_profile p \<Longrightarrow> performs (prepareCleanOperational M p) clean"
  unfolding prepareCleanOperational_def clean_def
  by (intro performs_all nmt_performs reset_performs) (simp add: writeSrdo1Baseline_eq writes_perform)

section \<open>The faults\<close>

definition fault01 :: phase where
  "fault01 = stages [clean, sent (rx_pair kProbeNormal kProbeNormal), rx_state_is (- 2)]"

definition fault02 :: phase where
  "fault02 = stages [clean, sent [rx_message 0x101 [0x78, 0x56, 0x34, 0x12] 4], paused 30, rx_state_is (- 4)]"

definition fault03 :: phase where
  "fault03 = stages [clean, sent (rx_pair kProbeNormal kProbeInverted), rx_state_is 3, paused 130, rx_state_is (- 3)]"

definition fault04 :: phase where
  "fault04 = stages [clean, sent [rx_message 0x101 [0x78, 0x56] 2], rx_state_is (- 1)]"

definition fault05 :: phase where
  "fault05 = stages [clean, sent [rx_message 0x102 [0x87, 0xA9, 0xCB, 0xED] 4],
     (\<lambda>w w'. displays 0x2306 6 (VI8 (- 3)) w w' \<and> never_established w w'), clean,
     sent [rx_message 0x101 [0x78, 0x56, 0x34, 0x12] 4], paused 5,
     sent [rx_message 0x101 [0x78, 0x56, 0x34, 0x12] 4], paused 30, rx_state_is (- 4)]"

definition fault06 :: phase where
  "fault06 = stages [clean, commanded ENTER_PREOP, stored [(0x13FF, 1, V16 0xA1B6)], stored [(0x13FE, 0, V8 0xA5)],
     commanded START, rx_state_is (- 9), displays 0x13FE 0 (V8 0)]"

definition fault07 :: phase where
  "fault07 = stages [clean, commanded ENTER_PREOP, stored [(0x1301, 2, V16 101)], displays 0x13FE 0 (V8 0),
     stored [(0x1301, 2, V16 100)], stored [(0x13FF, 1, V16 0xA1B7)], stored [(0x13FE, 0, V8 0xA5)], commanded START]"

definition fault08 :: "lely \<Rightarrow> phase" where
  "fault08 M = stages [clean, commanded ENTER_PREOP, refused_with M 0x1301 5 (V32 0x102) 0x06090030,
     refused_with M 0x1301 6 (V32 0x103) 0x06090030, refused_with M 0x1301 5 (V32 0x181) 0x06090030, displays_ids 0x101 0x102,
     stored [(0x1301, 6, V32 0x106)],
     stored [(0x13FF, 1, V16 (calculateSrdoChecksum (rx_comm\<lparr>cm_inverted_id := 0x106\<rparr>) rx_map))],
     stored [(0x13FE, 0, V8 0xA5)], commanded START, rx_state_is (- 9)]"

definition fault09 :: "lely \<Rightarrow> phase" where
  "fault09 M = stages [clean, commanded ENTER_PREOP, stored [(0x1301, 1, V8 0)], refused_with M 0x1381 0 (V8 1) 0x06040042,
     displays 0x1381 0 (V8 2), stored [(0x1301, 1, V8 2)], stored [(0x13FF, 1, V16 0xA1B7)],
     stored [(0x13FE, 0, V8 0xA5)], commanded START]"

definition fault10 :: phase where
  "fault10 = stages [clean, commanded ENTER_PREOP, stored [(0x1301, 1, V8 0)], stored [(0x1381, 0, V8 0)],
     stored [(0x1381, 1, V32 0x23060120)], stored [(0x1381, 2, V32 0x23060210)], stored [(0x1381, 0, V8 2)],
     stored [(0x1301, 1, V8 2)],
     stored [(0x13FF, 1, V16 (calculateSrdoChecksum rx_comm (rx_map\<lparr>mp_entry := [0x23060120, 0x23060210]\<rparr>)))],
     stored [(0x13FE, 0, V8 0xA5)], commanded START, rx_state_is (- 9), displays 0x13FE 0 (V8 0)]"

lemmas state_defs = kStateErrorConfiguration_def kStateTxNotInverted_def kStateRxTimeoutSrvt_def
  kStateRxTimeoutSct_def kStateRxNotInverted_def kStateRxShort_def kStateEstablished_def kStateNmtNotOperational_def

lemmas phase_performs = performs_all nmt_performs reset_performs write_performs refusal_performs
  requireCanIds_performs pause_performs sends_perform invertedFirst_performs drain_performs

lemma states_named:
  "performs (waitForRxState M (of_int st) t) (rx_state_is st)" "performs (waitForTxState M (of_int st) t) (tx_state_is st)"
  by (rule states_perform)+

lemma require_performs_u8: "performs (requireRemote tU8 M i s v0 x) (displays i s (V8 x))"
  using requireRemote_performs [of tU8 M i s v0 x] by simp

lemma receive_faults:
  assumes "sound_profile p"
  shows "performs (validateF01 M p) fault01" "performs (validateF02 M p) fault02" "performs (validateF03 M p) fault03"
    "performs (validateF04 M p) fault04" "performs (validateF05 M p) fault05"
proof -
  note clean = clean_performs [OF assms, of M]
  have rx: "performs (waitForRxState M st t) (rx_state_is i)" if "st = of_int i" for st t i
    using states_perform(1) that by simp
  show "performs (validateF01 M p) fault01"
    unfolding validateF01_def fault01_def by (intro phase_performs clean rx) (simp add: state_defs)
  show "performs (validateF02 M p) fault02"
    unfolding validateF02_def fault02_def wire_const_defs kSrvtFaultWait_def
    by (intro phase_performs clean rx) (simp add: state_defs)
  show "performs (validateF03 M p) fault03"
    unfolding validateF03_def fault03_def kSctFaultWait_def
    by (intro phase_performs clean rx) (simp_all add: state_defs)
  show "performs (validateF04 M p) fault04"
    unfolding validateF04_def fault04_def wire_const_defs
    by (intro phase_performs clean rx) (simp add: state_defs)
  show "performs (validateF05 M p) fault05"
    unfolding validateF05_def fault05_def wire_const_defs kRxPairDelay_def kSrvtFaultWait_def
    by (intro phase_performs clean rx) (simp add: state_defs)
qed

lemma configuration_faults:
  assumes "sound_profile p"
  shows "performs (validateF06 M p) fault06" "performs (validateF07 M p) fault07"
    "performs (validateF08 M p) (fault08 M)" "performs (validateF09 M p) (fault09 M)" "performs (validateF10 M p) fault10"
proof -
  note clean = clean_performs [OF assms, of M]
  note start = srdo_index_defs sound_profile_rx [OF assms] Let_def abort_PARAM_VAL_def abort_PDO_LEN_def state_defs
  show "performs (validateF06 M p) fault06"
    unfolding validateF06_def fault06_def start
    by (simp del: allM.simps stages.simps)
       (intro phase_performs require_performs_u8 clean states_perform)
  show "performs (validateF07 M p) fault07"
    unfolding validateF07_def fault07_def start
    by (simp del: allM.simps stages.simps) (intro phase_performs require_performs_u8 clean states_perform)
  show "performs (validateF08 M p) (fault08 M)"
    unfolding validateF08_def fault08_def start
    by (simp del: allM.simps stages.simps)
       (intro phase_performs require_performs_u8 clean states_perform)
  show "performs (validateF09 M p) (fault09 M)"
    unfolding validateF09_def fault09_def start
    by (simp del: allM.simps stages.simps) (intro phase_performs require_performs_u8 clean states_perform)
  show "performs (validateF10 M p) fault10"
    unfolding validateF10_def fault10_def start
    by (simp del: allM.simps stages.simps)
       (intro phase_performs require_performs_u8 clean states_perform)
qed

section \<open>The silence of the transmitter\<close>

text \<open>The observer watches from before the Start to after the last check: the fault state is shown, the
  hold lasts its time, only the Start is sent, and no pass of the observer captured a transmitted frame or
  failed.\<close>

definition held :: "nat \<Rightarrow> phase" where
  "held duration w w' \<longleftrightarrow> quiet w w' \<and> clock w + ms duration \<le> clock w'"

definition undisturbed :: "lely \<Rightarrow> phase" where
  "undisturbed M w w' \<longleftrightarrow> (\<exists>es. hist w' = es @ hist w \<and> \<not> list_ex disturbance (surely M es (hist w)))"

definition silent_fault :: "lely \<Rightarrow> phase" where
  "silent_fault M w w' \<longleftrightarrow> undisturbed M w w' \<and>
     stages [commanded START, tx_state_is (- 6), held 150, quiet] w w'"

definition fault11 :: "lely \<Rightarrow> phase" where
  "fault11 M = stages [clean, commanded ENTER_PREOP, quiet, stored [(0x2306, 3, V32 kProbeNormal)],
     stored [(0x2306, 4, V32 kWrongInverted)], silent_fault M]"

abbreviation audited :: "lely \<Rightarrow> phase" where
  "audited M \<equiv> watch observer_active observer_disturbed disturbance M"

lemma performs_audited:
  assumes "performs m P" and "watched observer_active observer_disturbed disturbance M m"
  shows "performs m (\<lambda>w w'. P w w' \<and> audited M w w')"
  using assms unfolding performs_def watched_def wp_def by (auto split: prod.splits)

lemma txFault_performs: "performs (waitForTxFault M) (tx_state_is (- 6))"
proof -
  have body: "wp (txFaultBody M d u) (\<lambda>r w'. case r of Inl s' \<Rightarrow> True
      | Inr ok \<Rightarrow> ok \<longrightarrow> (\<exists>e h. hist w' = e # h \<and> saw CANOPEN_SLAVE_NODE_ID 0x2306 7 (VI8 (- 6)) e)) v" for d u v
    unfolding txFaultBody_def observerSilent_def observerOk_def observerUnexpectedId_def kSrdoDiagnosticIndex_def
      kStateTxNotInverted_def
    by (intro wpi_bind wpi_read_mem wpi_if wpi_return wpi_readRemoteUntil wpi_case_prod)
       (auto simp: host_wp intro!: wpI split: if_splits)
  have loop: "wp (do { r \<leftarrow> deadline_loop M d (txFaultBody M d) ();
       case r of Inr fault_seen \<Rightarrow> return fault_seen | Inl u \<Rightarrow> return False })
     (\<lambda>ok w'. ok \<longrightarrow> (\<exists>e h. hist w' = e # h \<and> saw CANOPEN_SLAVE_NODE_ID 0x2306 7 (VI8 (- 6)) e) \<and> True) w" for d w
    by (rule wpi_bind, rule wp_deadline_loop [where I = "\<lambda>_ _. True"])
       (auto simp: host_wp intro!: wp_mono [OF body] split: sum.splits)
  have reads: "read_only (do { r \<leftarrow> deadline_loop M d (txFaultBody M d) ();
       case r of Inr fault_seen \<Rightarrow> return fault_seen | Inl u \<Rightarrow> return False })" for d
    unfolding txFaultBody_def observerSilent_def by (intro emits_intro)
  show ?thesis
    unfolding waitForTxFault_def
    by (rule performsI, rule wp_mono [OF performs_displays [OF reads loop]]) simp
qed

lemma holdSilence_performs: "performs (holdSilence M) (held 150)"
proof -
  have reads: "read_only (silenceBody M d u)" for d u
    unfolding silenceBody_def observerSilent_def by (intro emits_intro)
  have ending: "wp (deadline_loop M d (silenceBody M d) ()) (\<lambda>r w'. r = Inl () \<or> r = Inr False) w" for d w
    by (rule wp_deadline_loop [where I = "\<lambda>_ _. True"])
       (auto simp: silenceBody_def observerSilent_def observerOk_def observerUnexpectedId_def host_wp
          intro!: wpI split: sum.split)
  have time: "wp (deadline_loop M d (silenceBody M d) ()) (\<lambda>r w'. r = Inl () \<longrightarrow> d \<le> clock w') w" for d w
    by (rule wpi_deadline_loop_clock [OF reads]) simp
  have both: "wp (deadline_loop M d (silenceBody M d) ()) (\<lambda>r w'. r = Inl () \<and> d \<le> clock w' \<or> r = Inr False) w" for d w
    using ending [of d w] time [of d w] by (auto simp: wp_def)
  have ends: "wp (holdSilence M) (\<lambda>ok w'. ok \<longrightarrow> clock w + ms 150 \<le> clock w') w" for w
    unfolding holdSilence_def kNoTxObservation_def
    by (intro wpi_bind wpi_steady_now, rule wp_mono [OF both]) (auto simp: host_wp)
  have quiet: "read_only (holdSilence M)"
    unfolding holdSilence_def by (intro emits_intro reads)
  show ?thesis
    unfolding held_def by (rule performsI, rule wp_read_only [OF quiet ends]) auto
qed

lemma observer_watches:
  "watched observer_active observer_disturbed disturbance M (enterOperational M)"
  "watched observer_active observer_disturbed disturbance M (waitForTxFault M)"
  "watched observer_active observer_disturbed disturbance M (holdSilence M)"
proof -
  have upload: "watched observer_active observer_disturbed disturbance M (submit_upload_until T M rq d)" for T rq d
    unfolding submit_upload_until_def by (rule observer.watched_prefix, rule observer.watched_intro)
  show "watched observer_active observer_disturbed disturbance M (enterOperational M)"
    unfolding enterOperational_def issueNmtCommandAndWaitForState_def issueNmtCommand_def readManagedNmtState_def Let_def
    by (intro observer.watched_intro)
  show "watched observer_active observer_disturbed disturbance M (waitForTxFault M)"
    unfolding waitForTxFault_def txFaultBody_def observerSilent_def observerOk_def observerUnexpectedId_def
      readRemoteUntil_def pollPause_def remainingBudget_def Let_def
    by (intro observer.watched_intro upload)
  show "watched observer_active observer_disturbed disturbance M (holdSilence M)"
    unfolding holdSilence_def silenceBody_def observerSilent_def observerOk_def observerUnexpectedId_def
      pollPause_def remainingBudget_def Let_def
    by (intro observer.watched_intro)
qed

text \<open>The final check reads the flags after the thread has been joined.\<close>

lemma stopAndCheck_performs:
  "performs (stopAndCheckSilence M) (\<lambda>w w'. quiet w w' \<and> \<not> ob_running (workers (mem w')) \<and>
     (\<exists>z. hist w' = hist z \<and> audited M w z \<and> \<not> observer_disturbed (mem z)))"
proof (rule performsI)
  fix w
  have join: "audited M w (occur M (EvSleep 0) 0 w)"
    by (rule observer.watch_step [where e = "EvSleep 0" and t = "clock w" and cs = "callbacks M (hist w)"])
       (auto simp: occur_def)
  have sleep: "wp (sleep_for M 0) Q w = Q () (occur M (EvSleep 0) 0 w)" for Q
    by (simp add: wp_def run_sleep_for)
  have flags: "\<not> observer_disturbed m \<longleftrightarrow> ob_ok (workers m) \<and> ob_unexpected (workers m) = 0" for m
    by (simp add: observer_disturbed_def)
  note eval = stopAndCheckSilence_def stopTxSilenceObserver_def joinThread_def observerSilent_def observerOk_def
    observerUnexpectedId_def host_wp flags stopObserver_def quiet_def
  show "wp (stopAndCheckSilence M) (\<lambda>ok w'. ok \<longrightarrow> quiet w w' \<and> \<not> ob_running (workers (mem w')) \<and>
     (\<exists>z. hist w' = hist z \<and> audited M w z \<and> \<not> observer_disturbed (mem z))) w"
  proof (cases "ob_running (workers (mem w))")
    case True
    then show ?thesis
      by (auto simp: eval sleep intro!: exI [of _ "occur M (EvSleep 0) 0 w"] exI [of _ "[EvSleep 0]"] join)
  next
    case False
    then show ?thesis
      by (auto simp: eval intro!: exI [of _ w])
  qed
qed

lemma window_performs:
  assumes "observer_active (mem x)" and "\<not> observer_disturbed (mem x)"
  shows "wp (allM [enterOperational M, waitForTxFault M, holdSilence M, stopAndCheckSilence M])
    (\<lambda>ok w'. ok \<longrightarrow> silent_fault M x w' \<and> \<not> ob_running (workers (mem w'))) x"
proof -
  note steps = performs_audited [OF nmt_performs(2) observer_watches(1)]
    performs_audited [OF txFault_performs observer_watches(2)] performs_audited [OF holdSilence_performs observer_watches(3)]
  have all: "performs (allM [enterOperational M, waitForTxFault M, holdSilence M, stopAndCheckSilence M])
     (stages [\<lambda>w w'. commanded START w w' \<and> audited M w w', \<lambda>w w'. tx_state_is (- 6) w w' \<and> audited M w w',
        \<lambda>w w'. held 150 w w' \<and> audited M w w', \<lambda>w w'. quiet w w' \<and> \<not> ob_running (workers (mem w')) \<and>
          (\<exists>z. hist w' = hist z \<and> audited M w z \<and> \<not> observer_disturbed (mem z))])"
    by (intro performs_all steps stopAndCheck_performs)
  show ?thesis
  proof (rule wp_mono [OF performs_wp [OF all]], intro impI)
    fix ok w'
    assume ok and p: "ok \<longrightarrow> stages [\<lambda>w w'. commanded START w w' \<and> audited M w w', \<lambda>w w'. tx_state_is (- 6) w w' \<and> audited M w w',
        \<lambda>w w'. held 150 w w' \<and> audited M w w', \<lambda>w w'. quiet w w' \<and> \<not> ob_running (workers (mem w')) \<and>
          (\<exists>z. hist w' = hist z \<and> audited M w z \<and> \<not> observer_disturbed (mem z))] x w'"
    then obtain a b c z where chain: "commanded START x a" "tx_state_is (- 6) a b" "held 150 b c" "quiet c w'"
      and "audited M x a" "audited M a b" "audited M b c" "audited M c z"
      and z: "hist w' = hist z" "\<not> observer_disturbed (mem z)" "\<not> ob_running (workers (mem w'))" by auto
    then have "audited M x z" by (blast intro: watch_trans)
    with assms z have "undisturbed M x w'" by (auto simp: watch_def undisturbed_def)
    with chain z(3) show "silent_fault M x w' \<and> \<not> ob_running (workers (mem w'))" by (auto simp: silent_fault_def)
  qed
qed

lemma silent_fault_hist:
  "silent_fault M x v \<Longrightarrow> hist x = hist w \<Longrightarrow> hist v = hist w' \<Longrightarrow> silent_fault M w w'"
  by (simp add: silent_fault_def undisturbed_def commanded_def does_def quiet_def)

lemma observer_scope_performs:
  "performs (withTxSilenceObserver M (allM [enterOperational M, waitForTxFault M, holdSilence M, stopAndCheckSilence M]))
     (silent_fault M)"
proof (rule performsI)
  fix w :: world
  let ?x = "w\<lparr>mem := (mem w)\<lparr>workers := startObserver (workers (mem w))\<rparr>\<rparr>"
  have x: "observer_active (mem ?x)" "\<not> observer_disturbed (mem ?x)"
    by (simp_all add: observer_active_def observer_disturbed_def startObserver_def)
  show "wp (withTxSilenceObserver M (allM [enterOperational M, waitForTxFault M, holdSilence M, stopAndCheckSilence M]))
     (\<lambda>ok w'. ok \<longrightarrow> silent_fault M w w') w"
    unfolding withTxSilenceObserver_def wp_bind wp_update_mem
    by (rule wp_mono [OF window_performs [OF x]])
       (auto simp: stopTxSilenceObserver_def host_wp intro: wpI elim!: silent_fault_hist)
qed

lemma fault11_performs:
  assumes "sound_profile p"
  shows "performs (validateF11 M p) (fault11 M)"
proof (rule performsI)
  fix w :: world
  have prepared: "performs (allM [prepareCleanOperational M p, enterPreOperational_srdo M, drain_srdo M,
       writeRemote_srdo M kSrdoDiagnosticIndex 3 (V32 kProbeNormal), writeRemote_srdo M kSrdoDiagnosticIndex 4 (V32 kWrongInverted)])
     (stages [clean, commanded ENTER_PREOP, quiet, stored [(0x2306, 3, V32 kProbeNormal)], stored [(0x2306, 4, V32 kWrongInverted)]])"
    unfolding kSrdoDiagnosticIndex_def by (intro phase_performs clean_performs assms)
  show "wp (validateF11 M p) (\<lambda>ok w'. ok \<longrightarrow> fault11 M w w') w"
    unfolding validateF11_def wp_bind
  proof (rule wp_mono [OF performs_wp [OF prepared]])
    fix ok v assume "ok \<longrightarrow> stages [clean, commanded ENTER_PREOP, quiet, stored [(0x2306, 3, V32 kProbeNormal)],
      stored [(0x2306, 4, V32 kWrongInverted)]] w v"
    then show "wp (if \<not> ok then return False else withTxSilenceObserver M
        (allM [enterOperational M, waitForTxFault M, holdSilence M, stopAndCheckSilence M]))
      (\<lambda>ok w'. ok \<longrightarrow> fault11 M w w') v"
      by (cases ok; simp add: host_wp del: allM.simps)
         (rule wp_mono [OF performs_wp [OF observer_scope_performs]], simp add: fault11_def, blast)
  qed
qed

end
