(* ===== verification/Srdo_Evidence.thy ===== *)
theory Srdo_Evidence
  imports Srdo_Runs "HOL-Library.Sublist"
begin

text \<open>
  The functional checks of the SRDO validation, what a passing run has shown, and the restoration that
  every run ends with.
\<close>

section \<open>The functional checks\<close>

definition diagnostic_readings :: "SrdoDiagnostic \<Rightarrow> reading list" where
  "diagnostic_readings d = [(0x2306, 8, V32 (dg_state_seq d)), (0x2306, 1, V32 (dg_rx_normal d)),
     (0x2306, 2, V32 (dg_rx_inverted d)), (0x2306, 3, V32 (dg_tx_normal d)), (0x2306, 4, V32 (dg_tx_inverted d)),
     (0x2306, 5, VI8 (dg_aggregate_state d)), (0x2306, 6, VI8 (dg_rx_state d)), (0x2306, 7, VI8 (dg_tx_state d)),
     (0x2306, 9, V32 (dg_tx_request_seq d)), (0x2306, 10, V32 (dg_tx_complete_seq d)),
     (0x2306, 11, VI32 (dg_tx_request_result d)), (0x2306, 8, V32 (dg_state_seq d))]"

lemma readAll_until_shown:
  assumes "shown u w xs" and "\<And>r w'. Q (False, r) w'"
    and "\<And>v w'. shown u w' (xs @ [(i, s, t_value T v)]) \<Longrightarrow> wp (readAll fs (put v r)) Q w'"
  shows "wp (readAll (readField (readRemoteUntil T M i s d) get put # fs) r) Q w"
  by (rule readAll_step, rule readRemoteUntil_shown [OF assms(1)]) (simp_all add: assms(2,3))

lemma diagnosticFields_shown:
  assumes start: "shown u w xs" and fail: "\<And>d w'. Q (False, d) w'"
    and fin: "\<And>d w'. shown u w' (xs @ butlast (tl (diagnostic_readings d))) \<Longrightarrow> Q (True, d) w'"
  shows "wp (readAll (diagnosticFields M deadline) d0) Q w"
  unfolding diagnosticFields_def kSrdoDiagnosticIndex_def
  by (rule readAll_until_shown [OF start], rule fail)
     (erule readAll_until_shown, rule fail | rule readAll_end, rule fin, simp add: diagnostic_readings_def)+

text \<open>A snapshot counts only if the state sequence was the same before and after it.\<close>

lemma diagnosticAttempts_shown:
  "later u w \<Longrightarrow> wp (diagnosticAttempts n M deadline d0) (\<lambda>(ok, d) w'. ok \<longrightarrow> shown u w' (diagnostic_readings d)) w"
proof (induction n arbitrary: d0 w)
  case (Suc n)
  note reads = readRemoteUntil_shown [where T = tU32]
  have base: "shown u w []" using Suc.prems by (simp add: shown_def later_def)
  have again: "shown u w1 xs \<Longrightarrow> wp (diagnosticAttempts n M deadline d) (\<lambda>(ok, d) w'. ok \<longrightarrow> shown u w' (diagnostic_readings d)) w1"
    for w1 xs d by (rule Suc.IH) (rule shown_later)
  show ?case
    unfolding diagnosticAttempts.simps kSrdoDiagnosticIndex_def
  proof (intro wpi_bind wpi_steady_now wpi_if)
    fix t and v :: world assume "hist v = EvNow t # hist w"
    then have v: "shown u v []" using base by (auto intro: shown_add later_Cons)
    show "wp (readRemoteUntil tU32 M 0x2306 8 deadline 0) (\<lambda>a. wp (case a of (ok, seq_begin) \<Rightarrow>
       if \<not> ok then return (False, d0)
       else do {
         (ok, d) \<leftarrow> readAll (diagnosticFields M deadline) d0;
         if \<not> ok then return (False, d)
         else do {
           (ok, seq_end) \<leftarrow> readRemoteUntil tU32 M 0x2306 8 deadline 0;
           if \<not> ok then return (False, d)
           else if seq_begin = seq_end then return (True, d\<lparr>dg_state_seq := seq_end\<rparr>)
           else diagnosticAttempts n M deadline d } })
      (\<lambda>(ok, d) w'. ok \<longrightarrow> shown u w' (diagnostic_readings d))) v"
      apply (rule reads [OF v])
       prefer 2 apply (simp add: host_wp)
      apply (simp only: prod.case not_True_eq_False if_False wp_bind)
      apply (erule diagnosticFields_shown)
       apply (simp add: host_wp)
      apply (simp only: prod.case not_True_eq_False if_False wp_bind)
      apply (erule reads)
       prefer 2 apply (simp add: host_wp)
      apply (simp only: prod.case not_True_eq_False if_False)
      apply (rule wpi_if)
       apply (simp add: host_wp diagnostic_readings_def)
      apply (erule again)
      done
  qed (simp add: host_wp)
qed (simp add: host_wp)

lemma readDiagnostic_exhibits:
  "wp (readDiagnostic_srdo M d0) (\<lambda>(ok, d) w'. quiet w w' \<and> (ok \<longrightarrow> exhibits (diagnostic_readings d) w w')) w"
proof -
  have shows_it: "wp (readDiagnostic_srdo M d0) (\<lambda>(ok, d) w'. ok \<longrightarrow> shown w w' (diagnostic_readings d)) w"
    unfolding readDiagnostic_srdo_def readDiagnosticUntil_def
    by (rule wpi_bind, rule wpi_steady_now, rule diagnosticAttempts_shown) (rule later_Cons)
  show ?thesis
    by (rule wp_read_only [OF srdo_polls_touch(1) shows_it]) (auto simp: exhibits_def)
qed

definition states_are :: "int \<Rightarrow> phase" where
  "states_are st = exhibits [(0x2306, 6, VI8 (of_int st)), (0x2306, 7, VI8 (of_int st)), (0x2306, 5, VI8 (of_int st))]"

lemma states_are_performs: "performs (waitForDiagnosticState M (of_int st) (of_int st) (of_int st)) (states_are st)"
  unfolding states_are_def
proof (rule performs_exhibits)
  let ?xs = "[(0x2306, 6, VI8 (of_int st)), (0x2306, 7, VI8 (of_int st)), (0x2306, 5, VI8 (of_int st))] :: reading list"
  show "read_only (waitForDiagnosticState M (of_int st) (of_int st) (of_int st))" by (rule srdo_waits_touch)
  fix w
  have body: "wp (diagnosticStateBody M (of_int st) (of_int st) (of_int st) d u) (\<lambda>r w'. case r of Inl s' \<Rightarrow> later w w'
      | Inr ok \<Rightarrow> ok \<longrightarrow> shown w w' ?xs) v" if "later w v" for d u v
  proof -
    have v: "shown w v []" using that by (simp add: shown_def later_def)
    have pause: "wp (pollPause M d) Q v'" if "shown w v' xs" "\<And>a x. later w x \<Longrightarrow> Q a x" for v' xs Q
      by (rule wp_later [OF srdo_polls_touch(2)]) (use that in \<open>blast intro: later_trans shown_later\<close>)
    show ?thesis
      unfolding diagnosticStateBody_def kSrdoDiagnosticIndex_def wp_bind
      apply (rule readRemoteUntil_shown [OF v])
       prefer 2 apply (simp add: host_wp)
      apply (simp only: prod.case not_True_eq_False if_False wp_bind)
      apply (erule readRemoteUntil_shown)
       prefer 2 apply (simp add: host_wp)
      apply (simp only: prod.case not_True_eq_False if_False wp_bind)
      apply (erule readRemoteUntil_shown)
       prefer 2 apply (simp add: host_wp)
      apply (auto simp: host_wp elim!: pause)
      done
  qed
  show "wp (waitForDiagnosticState M (of_int st) (of_int st) (of_int st)) (\<lambda>ok w'. ok \<longrightarrow> shown w w' ?xs) w"
    unfolding waitForDiagnosticState_def
    by (rule wpi_bind, rule wpi_steady_now, rule wpi_bind, rule wp_deadline_loop [where I = "\<lambda>_ v. later w v"])
       (auto simp: host_wp later_Cons intro: later_trans wp_mono [OF body] split: sum.splits)
qed

text \<open>A check under the keep-alive worker: the scope adds at most the join of the thread.\<close>

lemma worker_scope:
  assumes "performs m P"
    and "\<And>x w v w'. P x v \<Longrightarrow> hist x = hist w \<Longrightarrow> clock x = clock w \<Longrightarrow> hist w' = hist v \<or> hist w' = EvSleep 0 # hist v \<Longrightarrow> R w w'"
  shows "performs (withRxPairWorker M m) R"
proof (rule performsI)
  fix w
  have stop: "wp (stopRxPairWorker M) (\<lambda>_ w'. hist w' = hist v \<or> hist w' = EvSleep 0 # hist v) v" for v
    unfolding stopRxPairWorker_def joinThread_def by (intro wp_intro) auto
  show "wp (withRxPairWorker M m) (\<lambda>ok w'. ok \<longrightarrow> R w w') w"
    unfolding withRxPairWorker_def wp_bind wp_update_mem
  proof (rule wp_mono [OF performs_wp [OF assms(1)]])
    fix ok v
    assume v: "ok \<longrightarrow> P (w\<lparr>mem := (mem w)\<lparr>workers := startKeepalive (workers (mem w))\<rparr>\<rparr>) v"
    show "wp (stopRxPairWorker M) (\<lambda>a. wp (return ok) (\<lambda>ok w'. ok \<longrightarrow> R w w')) v"
      by (rule wp_mono [OF stop]) (use v in \<open>auto simp: host_wp intro: assms(2)\<close>)
  qed
qed

lemma quiet_end: "hist w' = hist v \<or> hist w' = EvSleep 0 # hist v \<Longrightarrow> quiet v w'"
  unfolding quiet_def by (elim disjE) (simp, intro exI [of _ "[EvSleep 0]"], simp)

lemma exhibits_end:
  assumes "exhibits xs x v" "hist x = hist w" "hist w' = hist v \<or> hist w' = EvSleep 0 # hist v"
  shows "exhibits xs w w'"
proof -
  have "exhibits xs x w'"
    using assms(1) quiet_end [OF assms(3)] unfolding exhibits_def
    by (blast intro: quiet_trans shown_add quiet_later)
  then show ?thesis by (simp add: exhibits_def quiet_def shown_def assms(2))
qed

section \<open>Receive pair and established window\<close>

definition received :: phase where
  "received = stages [sent (rx_pair kProbeNormal kProbeInverted),
     exhibits [(0x2306, 6, VI8 3), (0x2306, 1, V32 kProbeNormal), (0x2306, 2, V32 kProbeInverted)]]"

text \<open>The three states at 3, a hold of at least 130 ms, and a coherent snapshot that still shows them with
  the probe values.\<close>

definition probe_snapshot :: "SrdoDiagnostic \<Rightarrow> bool" where
  "probe_snapshot d \<longleftrightarrow> dg_rx_state d = 3 \<and> dg_tx_state d = 3 \<and> dg_aggregate_state d = 3 \<and>
     dg_rx_normal d = kProbeNormal \<and> dg_rx_inverted d = kProbeInverted"

definition snapshot_of :: "(SrdoDiagnostic \<Rightarrow> bool) \<Rightarrow> phase" where
  "snapshot_of P w w' \<longleftrightarrow> (\<exists>d. P d \<and> exhibits (diagnostic_readings d) w w')"

definition established :: phase where
  "established = stages [states_are 3, held 130, snapshot_of probe_snapshot]"

lemma snapshot_end:
  "snapshot_of P x v \<Longrightarrow> hist x = hist w \<Longrightarrow> hist w' = hist v \<or> hist w' = EvSleep 0 # hist v \<Longrightarrow> snapshot_of P w w'"
  by (auto simp: snapshot_of_def intro: exhibits_end)

lemma keepaliveOk_wp [host_wp]: "wp keepaliveOk Q w = Q (wk_ok (workers (mem w))) w"
  by (simp add: keepaliveOk_def host_wp)

lemma validateRxPair_performs: "performs (validateRxPair M) received"
proof -
  let ?inner = "do {
       reached \<leftarrow> waitForRxState M kStateEstablished kStateTimeout;
       if \<not> reached then return False
       else do {
         (ok, rx_normal) \<leftarrow> readRemote_srdo tU32 M kSrdoDiagnosticIndex 0x01 0;
         if \<not> ok then return False
         else do {
           (ok, rx_inverted) \<leftarrow> readRemote_srdo tU32 M kSrdoDiagnosticIndex 0x02 0;
           if \<not> ok then return False
           else do {
             alive \<leftarrow> keepaliveOk;
             return (\<not> (\<not> alive \<or> rx_normal \<noteq> kProbeNormal \<or> rx_inverted \<noteq> kProbeInverted))
           } } } }"
  let ?xs = "[(0x2306, 6, VI8 3), (0x2306, 1, V32 kProbeNormal), (0x2306, 2, V32 kProbeInverted)] :: reading list"
  have inner: "performs ?inner (exhibits ?xs)"
  proof (rule performs_exhibits)
    show "read_only ?inner" by (intro emits_intro)
    fix w
    have state: "wp (waitForRxState M kStateEstablished kStateTimeout) (\<lambda>ok w'. ok \<longrightarrow> shown w w' [(0x2306, 6, VI8 3)]) w"
      using performs_wp [OF states_perform(1)] unfolding kStateEstablished_def
      by (rule wp_mono) (auto dest: displays_exhibits simp: exhibits_def)
    show "wp ?inner (\<lambda>ok w'. ok \<longrightarrow> shown w w' ?xs) w"
      unfolding wp_bind kSrdoDiagnosticIndex_def
      apply (rule wp_mono [OF state])
      apply (rule wpi_if, simp add: host_wp)
      apply (simp only: wp_bind simp_thms)
      apply (erule readRemote_shown)
       prefer 2 apply (simp add: host_wp)
      apply (simp only: prod.case not_True_eq_False if_False wp_bind)
      apply (erule readRemote_shown)
       prefer 2 apply (simp add: host_wp)
      apply (auto simp: host_wp)
      done
  qed
  have scope: "performs (withRxPairWorker M ?inner) (exhibits ?xs)"
    by (rule worker_scope [OF inner]) (rule exhibits_end)
  show ?thesis
    unfolding validateRxPair_def received_def
  proof (rule performsI, rule wpi_bind, rule wp_mono [OF performs_wp [OF sends_perform(2)]])
    fix w ok v
    assume "ok \<longrightarrow> sent (rx_pair kProbeNormal kProbeInverted) w v"
    then show "wp (if \<not> ok then return False else withRxPairWorker M ?inner)
       (\<lambda>ok w'. ok \<longrightarrow> stages [sent (rx_pair kProbeNormal kProbeInverted), exhibits ?xs] w w') v"
      by (cases ok) (auto simp: host_wp intro: wp_mono [OF performs_wp [OF scope]])
  qed
qed

text \<open>A loop that never says yes ends well only at its deadline.\<close>

lemma holdBody_answer: "wp (holdBody M d u) (\<lambda>r w'. r = Inl () \<or> r = Inr False) w"
  unfolding holdBody_def
  by (intro wpi_bind wpi_if wpi_return) (auto simp: host_wp intro!: wpI split: prod.splits)

lemma hold_performs:
  "wp (deadline_loop M d (holdBody M d) ()) (\<lambda>r w'. quiet w w' \<and> (r = Inl () \<and> d \<le> clock w' \<or> r = Inr False)) w"
proof -
  have reads: "read_only (holdBody M d u)" for u by (rule holdBody_touches)
  have ending: "wp (deadline_loop M d (holdBody M d) ()) (\<lambda>r w'. r = Inl () \<or> r = Inr False) w"
    by (rule wp_deadline_loop [where I = "\<lambda>_ _. True"]) (auto intro: wp_mono [OF holdBody_answer] split: sum.split)
  have time: "wp (deadline_loop M d (holdBody M d) ()) (\<lambda>r w'. r = Inl () \<longrightarrow> d \<le> clock w') w"
    by (rule wpi_deadline_loop_clock [OF reads]) simp
  have both: "wp (deadline_loop M d (holdBody M d) ()) (\<lambda>r w'. r = Inl () \<and> d \<le> clock w' \<or> r = Inr False) w"
    using ending time by (auto simp: wp_def)
  have "read_only (deadline_loop M d (holdBody M d) ())" by (intro emits_intro)
  then show ?thesis by (rule wp_read_only [OF _ both]) simp
qed

lemma snapshot_performs:
  "wp (readDiagnostic_srdo M default_srdo_diagnostic) (\<lambda>a. wp (case a of (ok, d) \<Rightarrow> return (ok \<and> P d))
     (\<lambda>ok w'. ok \<longrightarrow> snapshot_of P v w')) v"
  by (rule wp_mono [OF readDiagnostic_exhibits]) (auto simp: host_wp snapshot_of_def)

lemma validateEstablishedWindow_performs: "performs (validateEstablishedWindow M) established"
  unfolding validateEstablishedWindow_def
proof (rule worker_scope [where P = established])
  have probe: "(\<not> (\<not> ok \<or> dg_rx_state d \<noteq> kStateEstablished \<or> dg_tx_state d \<noteq> kStateEstablished \<or>
      dg_aggregate_state d \<noteq> kStateEstablished \<or> dg_rx_normal d \<noteq> kProbeNormal \<or> dg_rx_inverted d \<noteq> kProbeInverted))
    \<longleftrightarrow> ok \<and> probe_snapshot d" for ok d
    by (auto simp: probe_snapshot_def kStateEstablished_def)
  let ?tail = "do { alive \<leftarrow> keepaliveOk;
     if \<not> alive then return False
     else do { (ok, d) \<leftarrow> readDiagnostic_srdo M default_srdo_diagnostic; return (ok \<and> probe_snapshot d) } }"
  have last_part: "wp ?tail (\<lambda>ok w'. ok \<longrightarrow> established w w') x"
    if "states_are 3 w v" "quiet v x" "clock v + ms 130 \<le> clock x" for w v x
  proof -
    have fin: "established w w'" if "snapshot_of probe_snapshot x w'" for w'
      unfolding established_def stages.simps held_def using that \<open>states_are 3 w v\<close> \<open>quiet v x\<close> \<open>clock v + ms 130 \<le> clock x\<close> by blast
    have snap: "wp (readDiagnostic_srdo M default_srdo_diagnostic) (\<lambda>a. wp (case a of (ok, d) \<Rightarrow> return (ok \<and> probe_snapshot d))
        (\<lambda>ok w'. ok \<longrightarrow> established w w')) x"
      by (rule wp_mono [OF snapshot_performs [where P = probe_snapshot]])
         (auto simp: host_wp intro: fin)
    show ?thesis
      unfolding wp_bind keepaliveOk_wp by (rule wpi_if) (simp_all add: host_wp snap)
  qed
  show "performs (do {
     reached \<leftarrow> waitForDiagnosticState M kStateEstablished kStateEstablished kStateEstablished;
     if \<not> reached then return False
     else do {
       start \<leftarrow> steady_now M;
       r \<leftarrow> deadline_loop M (start + ms kEstablishedHold) (holdBody M (start + ms kEstablishedHold)) ();
       case r of
         Inr kept \<Rightarrow> return kept
       | Inl u \<Rightarrow> do {
           alive \<leftarrow> keepaliveOk;
           if \<not> alive then return False
           else do {
             (ok, d) \<leftarrow> readDiagnostic_srdo M default_srdo_diagnostic;
             return (\<not> (\<not> ok \<or> dg_rx_state d \<noteq> kStateEstablished \<or> dg_tx_state d \<noteq> kStateEstablished \<or>
               dg_aggregate_state d \<noteq> kStateEstablished \<or> dg_rx_normal d \<noteq> kProbeNormal \<or>
               dg_rx_inverted d \<noteq> kProbeInverted)) } } } }) established"
    unfolding kEstablishedHold_def probe
  proof (rule performsI, unfold wp_bind, rule wp_mono)
    fix w :: world
    show "wp (waitForDiagnosticState M kStateEstablished kStateEstablished kStateEstablished)
        (\<lambda>ok w'. ok \<longrightarrow> states_are 3 w w') w"
      using performs_wp [OF states_are_performs [of M 3]] by (simp add: kStateEstablished_def)
  next
    fix w v :: world and reached
    assume v: "reached \<longrightarrow> states_are 3 w v"
    have hold: "wp (deadline_loop M (t + ms 130) (holdBody M (t + ms 130)) ())
        (\<lambda>r. wp (case r of Inl u \<Rightarrow> ?tail | Inr kept \<Rightarrow> return kept) (\<lambda>ok w'. ok \<longrightarrow> established w w')) v2"
      if "states_are 3 w v" "quiet v v2" "clock v \<le> t" for t and v2 :: world
    proof (rule wp_mono [OF hold_performs])
      fix r and x :: world
      assume x: "quiet v2 x \<and> (r = Inl () \<and> t + ms 130 \<le> clock x \<or> r = Inr False)"
      show "wp (case r of Inl u \<Rightarrow> ?tail | Inr kept \<Rightarrow> return kept) (\<lambda>ok w'. ok \<longrightarrow> established w w') x"
      proof (cases r)
        case (Inl u)
        have "wp ?tail (\<lambda>ok w'. ok \<longrightarrow> established w w') x"
          by (rule last_part [of w v]) (use that x Inl in \<open>auto intro: quiet_trans\<close>)
        with Inl show ?thesis by simp
      qed (use x in \<open>simp add: host_wp\<close>)
    qed
    show "wp (if \<not> reached then return False
     else do {
       start \<leftarrow> steady_now M;
       r \<leftarrow> deadline_loop M (start + ms 130) (holdBody M (start + ms 130)) ();
       case r of Inr kept \<Rightarrow> return kept | Inl u \<Rightarrow> ?tail })
      (\<lambda>ok w'. ok \<longrightarrow> established w w') v"
    proof (cases reached)
      case True
      with v have s: "states_are 3 w v" by simp
      from True show ?thesis
        apply (simp only: not_True_eq_False if_False)
        apply (rule wpi_bind, rule wpi_steady_now, rule wpi_bind, rule hold [OF s])
        by (auto simp: quiet_def)
    qed (simp add: host_wp)
  qed
qed (auto simp: established_def states_are_def held_def intro: exhibits_end snapshot_end)

end
