(* ===== verification/Srdo_Transmit.thy ===== *)
theory Srdo_Transmit
  imports Srdo_Evidence
begin

text \<open>
  The transmit side of the SRDO validation: a request with its busy retries, the captured pair, the natural
  cycles of the device and their intervals.
\<close>

section \<open>Requests\<close>

text \<open>The device reports the request completed, with its result.\<close>

definition tx_completed :: "u32 \<Rightarrow> u32 \<Rightarrow> phase" where
  "tx_completed q r = exhibits [(0x2306, 10, V32 q), (0x2306, 11, VI32 r)]"

lemma waitForTxCompletion_completed:
  "wp (waitForTxCompletion M q r0) (\<lambda>(ok, r) w'. ok \<longrightarrow> tx_completed q r w w') w"
proof -
  have body: "wp (txCompletionBody M q d r0) (\<lambda>r w'. case r of Inl s' \<Rightarrow> later w w'
      | Inr (ok, r) \<Rightarrow> ok \<longrightarrow> shown w w' [(0x2306, 10, V32 q), (0x2306, 11, VI32 r)]) v" if "later w v" for d v r0
  proof -
    have v: "shown w v []" using that by (simp add: shown_def later_def)
    have pause: "wp (pollPause M d) Q v'" if "shown w v' xs" "\<And>a x. later w x \<Longrightarrow> Q a x" for v' xs Q
      by (rule wp_later [OF srdo_polls_touch(2)]) (use that in \<open>blast intro: later_trans shown_later\<close>)
    show ?thesis
      unfolding txCompletionBody_def kSrdoDiagnosticIndex_def wp_bind
      apply (rule readRemoteUntil_shown [OF v])
       prefer 2 apply (simp add: host_wp)
      apply (simp only: prod.case not_True_eq_False if_False)
      apply (rule wpi_if)
      subgoal by (simp only: wp_bind, erule readRemoteUntil_shown) (auto simp: host_wp)
      subgoal by (auto simp: host_wp elim!: pause)
      done
  qed
  have loop: "wp (waitForTxCompletion M q r0)
      (\<lambda>(ok, r) w'. ok \<longrightarrow> shown w w' [(0x2306, 10, V32 q), (0x2306, 11, VI32 r)]) w"
    unfolding waitForTxCompletion_def
    by (rule wpi_bind, rule wpi_steady_now, rule wpi_bind, rule wp_deadline_loop [where I = "\<lambda>_ v. later w v"])
       (auto simp: host_wp later_Cons intro: later_trans wp_mono [OF body] split: sum.splits)
  show ?thesis
    by (rule wp_read_only [OF srdo_waits_touch(4) loop]) (auto simp: tx_completed_def exhibits_def)
qed

text \<open>A request that met the device between the two frames of a pair: the receive pair is refreshed and the
  pending inverted frame awaited, after at most one normal frame.\<close>

definition resynchronized :: phase where
  "resynchronized w w' \<longleftrightarrow> quiet w w' \<and> (\<exists>ns i. captures w (ns @ [i]) w' \<and> is_inverted i \<and>
     list_all is_normal ns \<and> length ns \<le> 1)"

lemma synchronize_performs:
  "performs (synchronizeTxPhaseAfterBusy M) (stages [sent (rx_pair kProbeNormal kProbeInverted), resynchronized])"
proof -
  have body: "wp (busyPhaseBody M d s) (\<lambda>r w'. case r of
       Inl s' \<Rightarrow> \<exists>ns. captures u ns w' \<and> list_all is_normal ns \<and> length ns = of_bool s'
     | Inr ok \<Rightarrow> ok \<longrightarrow> (\<exists>ns i. captures u (ns @ [i]) w' \<and> is_inverted i \<and> list_all is_normal ns \<and> length ns \<le> 1)) v"
    if ns: "captures u ns v" "list_all is_normal ns" "length ns = of_bool s" for u ns v d s
    unfolding busyPhaseBody_def wp_bind
  proof (rule wp_mono [OF waitForAnyTxUntil_first [OF ns(1)]], rule wpi_case_prod)
    fix a v' waited f
    assume a: "a = (waited, f)" and "(case a of (waited, f) \<Rightarrow> \<lambda>w'. if waited = FRAME
      then captures u (ns @ [f]) w' \<and> (can_id (wf_message f) = 0x103 \<or> can_id (wf_message f) = 0x104)
      else captures u ns w') v'"
    then have f: "waited = FRAME \<Longrightarrow> captures u (ns @ [f]) v' \<and> (is_normal f \<or> is_inverted f)"
      by (simp add: is_normal_def is_inverted_def)
    have short: "ns = [] \<or> s" "length ns \<le> 1" using ns(3) by (auto split: if_splits)
    show "wp (if waited = ERROR then return (Inr False) else if waited = TIMEOUT then return (Inr False)
        else if can_id (wf_message f) = kTxNormalCanId then if s then return (Inr False) else return (Inl True)
        else return (Inr True)) (\<lambda>r w'. case r of
       Inl s' \<Rightarrow> \<exists>ns. captures u ns w' \<and> list_all is_normal ns \<and> length ns = of_bool s'
     | Inr ok \<Rightarrow> ok \<longrightarrow> (\<exists>ns i. captures u (ns @ [i]) w' \<and> is_inverted i \<and> list_all is_normal ns \<and> length ns \<le> 1)) v'"
      using f short ns(2)
      by (cases waited) (auto simp: host_wp kTxNormalCanId_def is_normal_def is_inverted_def intro: exI [of _ "[f]"])
  qed
  have loop: "performs (do { start \<leftarrow> steady_now M;
       r \<leftarrow> deadline_loop M (start + ms kPairDeadline) (busyPhaseBody M (start + ms kPairDeadline)) False;
       case r of Inr synced \<Rightarrow> return synced | Inl normal_seen \<Rightarrow> return False }) resynchronized"
    (is "performs ?loop _")
  proof (rule performsI)
    fix w :: world
    have reads: "read_only ?loop" by (intro emits_intro)
    have ends: "wp ?loop (\<lambda>ok w'. ok \<longrightarrow> (\<exists>ns i. captures w (ns @ [i]) w' \<and> is_inverted i \<and>
        list_all is_normal ns \<and> length ns \<le> 1)) w"
    proof (rule wpi_bind, rule wpi_steady_now, rule wpi_bind, rule wp_deadline_loop
          [where I = "\<lambda>s v. \<exists>ns. captures w ns v \<and> list_all is_normal ns \<and> length ns = of_bool s"])
      fix t and v :: world assume "hist v = EvNow t # hist w"
      then have "captures w [] v" by (auto simp: captures_def)
      then show "\<exists>ns. captures w ns v \<and> list_all is_normal ns \<and> length ns = of_bool False" by force
    next
      fix t s v assume "\<exists>ns. captures w ns v \<and> list_all is_normal ns \<and> length ns = of_bool s"
      then obtain ns where "captures w ns v" "list_all is_normal ns" "length ns = of_bool s" by blast
      note body = body [OF this]
      show "wp (busyPhaseBody M (t + ms kPairDeadline) s) (\<lambda>r w'. case r of
          Inl s' \<Rightarrow> \<exists>ns. captures w ns w' \<and> list_all is_normal ns \<and> length ns = of_bool s'
        | Inr a \<Rightarrow> wp (case Inr a of Inr synced \<Rightarrow> return synced | Inl normal_seen \<Rightarrow> return False)
            (\<lambda>ok w'. ok \<longrightarrow> (\<exists>ns i. captures w (ns @ [i]) w' \<and> is_inverted i \<and> list_all is_normal ns \<and> length ns \<le> 1)) w') v"
        apply (rule wp_mono [OF body])
        subgoal for r by (cases r) (simp only: sum.case, simp only: sum.case host_wp)
        done
    next
      fix t s v e d assume "\<exists>ns. captures w ns v \<and> list_all is_normal ns \<and> length ns = of_bool s"
      then obtain ns where "captures w ns v" "list_all is_normal ns" "length ns = of_bool s" by blast
      then show "\<exists>ns. captures w ns (occur M (EvNow e) d v) \<and> list_all is_normal ns \<and> length ns = of_bool s"
        by (intro exI [of _ ns]) simp
    qed (simp add: host_wp)
    show "wp ?loop (\<lambda>ok w'. ok \<longrightarrow> resynchronized w w') w"
      by (rule wp_read_only [OF reads ends]) (simp add: resynchronized_def)
  qed
  show ?thesis
    unfolding synchronizeTxPhaseAfterBusy_def
  proof (rule performsI, rule wpi_bind, rule wp_mono [OF performs_wp [OF sends_perform(2)]])
    fix w :: world and ok v
    assume "ok \<longrightarrow> sent (rx_pair kProbeNormal kProbeInverted) w v"
    then show "wp (if \<not> ok then return False else ?loop)
       (\<lambda>ok w'. ok \<longrightarrow> stages [sent (rx_pair kProbeNormal kProbeInverted), resynchronized] w w') v"
      by (cases ok) (auto simp: host_wp simp del: wp_bind intro: wp_mono [OF performs_wp [OF loop]])
  qed
qed

text \<open>One attempt, and the attempts of a request: a number above the last one each time, a new one only
  after the device answered busy and the phase was found again.\<close>

definition attempted :: "u32 \<Rightarrow> u32 \<Rightarrow> phase" where
  "attempted q r = stages [stored [(0x2306, 9, V32 q)], tx_completed q r]"

fun granted :: "nat \<Rightarrow> u32 \<Rightarrow> u32 \<Rightarrow> phase" where
  "granted 0 q r w w' \<longleftrightarrow> attempted (q + 1) r w w'"
| "granted (Suc n) q r w w' \<longleftrightarrow> attempted (q + 1) r w w' \<and> r \<noteq> kTxRequestResultBusy \<or>
     (\<exists>v. stages [attempted (q + 1) kTxRequestResultBusy, sent (rx_pair kProbeNormal kProbeInverted), resynchronized] w v \<and>
        granted n (q + 1) r v w')"

lemma attempt_wp:
  assumes "\<And>ok r w'. (ok \<Longrightarrow> attempted q r w w') \<Longrightarrow> wp (K (ok, r)) Q w'"
    and "\<And>w'. Q (False, q0) w'"
  shows "wp (do { written \<leftarrow> writeRemote_srdo M 0x2306 9 (V32 q);
     if \<not> written then return (False, q0)
     else do { x \<leftarrow> waitForTxCompletion M q r0; K x } }) Q w"
proof (rule wpi_bind, rule wp_mono [OF performs_wp [OF write_performs]])
  fix written v
  assume v: "written \<longrightarrow> stored [(0x2306, 9, V32 q)] w v"
  show "wp (if \<not> written then return (False, q0) else do { x \<leftarrow> waitForTxCompletion M q r0; K x }) Q v"
  proof (cases written)
    case True
    have "wp (waitForTxCompletion M q r0) (\<lambda>x. wp (K x) Q) v"
      by (rule wp_mono [OF waitForTxCompletion_completed])
         (use v True in \<open>auto simp: attempted_def split: prod.splits intro!: assms(1)\<close>)
    with True show ?thesis by (simp add: wp_bind)
  qed (use assms(2) in \<open>simp add: host_wp\<close>)
qed

lemma requestAttempts_granted:
  "wp (requestAttempts n M q) (\<lambda>(ok, q') w'. ok \<longrightarrow> granted n (tq_sequence q) (tq_result q') w w') w"
proof (induction n arbitrary: q w)
  case 0
  show ?case
    unfolding requestAttempts.simps [of 0] Let_def kSrdoDiagnosticIndex_def
    by (rule attempt_wp) (auto simp: host_wp)
next
  case (Suc n)
  show ?case
    unfolding requestAttempts.simps [of "Suc n"] Let_def kSrdoDiagnosticIndex_def
  proof (rule attempt_wp)
    fix ok r v
    assume v: "ok \<Longrightarrow> attempted (tq_sequence (q\<lparr>tq_sequence := tq_sequence q + 1\<rparr>)) r w v"
    let ?q = "q\<lparr>tq_sequence := tq_sequence q + 1, tq_result := r\<rparr>"
    have again: "wp (do { synced \<leftarrow> synchronizeTxPhaseAfterBusy M;
          if \<not> synced then return (False, ?q\<lparr>tq_busy_retries := b\<rparr>) else requestAttempts n M (?q\<lparr>tq_busy_retries := b\<rparr>) })
        (\<lambda>(ok, q') w'. ok \<longrightarrow> granted (Suc n) (tq_sequence q) (tq_result q') w w') v"
      if "ok" "r = kTxRequestResultBusy" for b
    proof (rule wpi_bind, rule wp_mono [OF performs_wp [OF synchronize_performs]])
      fix synced x
      assume "synced \<longrightarrow> stages [sent (rx_pair kProbeNormal kProbeInverted), resynchronized] v x"
      with v that have x: "synced \<Longrightarrow> stages [attempted (tq_sequence q + 1) kTxRequestResultBusy,
        sent (rx_pair kProbeNormal kProbeInverted), resynchronized] w x" by auto
      show "wp (if \<not> synced then return (False, ?q\<lparr>tq_busy_retries := b\<rparr>)
          else requestAttempts n M (?q\<lparr>tq_busy_retries := b\<rparr>))
        (\<lambda>(ok, q') w'. ok \<longrightarrow> granted (Suc n) (tq_sequence q) (tq_result q') w w') x"
        by (cases synced; simp add: host_wp del: stages.simps granted.simps)
           (rule wp_mono [OF Suc.IH], use x in \<open>auto simp del: stages.simps\<close>)
    qed
    show "wp (case (ok, r) of (completed, result) \<Rightarrow>
        if \<not> completed then return (False, q\<lparr>tq_sequence := tq_sequence q + 1\<rparr>\<lparr>tq_result := result\<rparr>)
        else if tq_result (q\<lparr>tq_sequence := tq_sequence q + 1\<rparr>\<lparr>tq_result := result\<rparr>) \<noteq> kTxRequestResultBusy
        then return (True, q\<lparr>tq_sequence := tq_sequence q + 1\<rparr>\<lparr>tq_result := result\<rparr>)
        else (case Suc n of 0 \<Rightarrow> return (True, q\<lparr>tq_sequence := tq_sequence q + 1\<rparr>\<lparr>tq_result := result\<rparr>)
         | Suc n \<Rightarrow> do {
             synced \<leftarrow> synchronizeTxPhaseAfterBusy M;
             if \<not> synced then return (False, q\<lparr>tq_sequence := tq_sequence q + 1\<rparr>\<lparr>tq_result := result\<rparr>
                \<lparr>tq_busy_retries := tq_busy_retries (q\<lparr>tq_sequence := tq_sequence q + 1\<rparr>\<lparr>tq_result := result\<rparr>) + 1\<rparr>)
             else requestAttempts n M (q\<lparr>tq_sequence := tq_sequence q + 1\<rparr>\<lparr>tq_result := result\<rparr>
                \<lparr>tq_busy_retries := tq_busy_retries (q\<lparr>tq_sequence := tq_sequence q + 1\<rparr>\<lparr>tq_result := result\<rparr>) + 1\<rparr>) }))
      (\<lambda>(ok, q') w'. ok \<longrightarrow> granted (Suc n) (tq_sequence q) (tq_result q') w w') v"
      using v again by (auto simp: host_wp simp del: wp_bind stages.simps)
  qed simp
qed

section \<open>A triggered pair\<close>

text \<open>Exactly the two frames were read since the request was granted.\<close>

definition captured_pair :: "WireFrame \<Rightarrow> WireFrame \<Rightarrow> phase" where
  "captured_pair n i w w' \<longleftrightarrow> quiet w w' \<and> captures w [n, i] w'"

definition triggered :: "WireFrame \<Rightarrow> WireFrame \<Rightarrow> phase" where
  "triggered n i w w' \<longleftrightarrow> (\<exists>d. dg_tx_request_seq d = dg_tx_complete_seq d \<and>
     stages [exhibits (diagnostic_readings d), stored [(0x2306, 3, V32 kProbeNormal)],
       stored [(0x2306, 4, V32 kProbeInverted)], quiet, granted 4 (dg_tx_request_seq d) 0, captured_pair n i] w w')"

text \<open>A valid pair on the wire at most 30 ms apart, and then the state of the transmit SRDO shown as 3.\<close>

definition pair_ok :: "WireFrame \<times> WireFrame \<Rightarrow> bool" where
  "pair_ok p \<longleftrightarrow> validateWirePair (fst p) (snd p) kProbeNormal \<and>
     elapsedUs (wf_timestamp (snd p)) (wf_timestamp (fst p)) \<le> 30000"

definition transmitted :: phase where
  "transmitted w w' \<longleftrightarrow> (\<exists>n i. pair_ok (n, i) \<and> stages [triggered n i, tx_state_is 3] w w')"

lemma captureTriggered_captured:
  "wp (captureTriggered M True True) (\<lambda>(ok, captured) w'. ok \<longrightarrow>
     (\<exists>n i. captured = Some (n, i) \<and> captured_pair n i w w')) w"
proof -
  have "wp (captureTriggered M True True) (\<lambda>(ok, captured) w'. ok \<longrightarrow>
      (\<exists>n i. captured = Some (n, i) \<and> captures w [n, i] w')) w"
    unfolding captureTriggered_def
    by (simp only: simp_thms if_True if_False, rule wpi_bind, rule wp_mono [OF nextPair_paired])
       (auto simp: newSynchronizer_def host_wp paired_def discards_def split: option.splits)
  then show ?thesis
    by (rule wp_read_only [OF captureTriggered_touches]) (auto simp: captured_pair_def)
qed

lemma prepared_performs:
  "performs (allM [writeRemote_srdo M 0x2306 3 (V32 kProbeNormal), writeRemote_srdo M 0x2306 4 (V32 kProbeInverted),
     drain_srdo M]) (stages [stored [(0x2306, 3, V32 kProbeNormal)], stored [(0x2306, 4, V32 kProbeInverted)], quiet])"
  by (intro phase_performs)

lemma triggerTx_triggered:
  "wp (triggerTx M kProbeNormal kProbeInverted True True) (\<lambda>(ok, r, captured) w'. ok \<longrightarrow> r = 0 \<longrightarrow>
     (\<exists>n i. captured = Some (n, i) \<and> triggered n i w w')) w" (is "wp _ ?Q _")
proof -
  have capture: "wp (do { (ok, captured) \<leftarrow> captureTriggered M True True; return (ok, r, captured) }) ?Q v"
    if d: "dg_tx_request_seq d = dg_tx_complete_seq d" and
       s: "stages [exhibits (diagnostic_readings d), stored [(0x2306, 3, V32 kProbeNormal)],
       stored [(0x2306, 4, V32 kProbeInverted)], quiet, granted 4 (dg_tx_request_seq d) 0] w v" for d v r
  proof (rule wpi_bind, rule wp_mono [OF captureTriggered_captured])
    fix a v' assume "(case a of (ok, captured) \<Rightarrow> \<lambda>w'. ok \<longrightarrow> (\<exists>n i. captured = Some (n, i) \<and> captured_pair n i v w')) v'"
    then show "wp (case a of (ok, captured) \<Rightarrow> return (ok, r, captured)) ?Q v'"
    proof (cases a)
      case (Pair ok captured)
      have "triggered n i w v'" if "captured_pair n i v v'" for n i
        using d stages_snoc [OF s, of "captured_pair n i"] that unfolding triggered_def by auto
      then show ?thesis
        using Pair \<open>(case a of (ok, captured) \<Rightarrow> _) v'\<close> by (simp add: host_wp) blast
    qed
  qed
  have request: "wp (do { (requested, q) \<leftarrow> requestTxWithBusyRetry M (dg_tx_request_seq d);
       if \<not> requested then return (False, kTxRequestResultIdle, None)
       else if tq_result q \<noteq> 0 then return (True, tq_result q, None)
       else do { (ok, captured) \<leftarrow> captureTriggered M True True; return (ok, tq_result q, captured) } }) ?Q v"
    if d: "dg_tx_request_seq d = dg_tx_complete_seq d" and
       s: "stages [exhibits (diagnostic_readings d), stored [(0x2306, 3, V32 kProbeNormal)],
       stored [(0x2306, 4, V32 kProbeInverted)], quiet] w v" for d v
    unfolding requestTxWithBusyRetry_def kTxBusyMaxRetries_def
  proof (rule wpi_bind, rule wp_mono [OF requestAttempts_granted])
    fix a v'
    assume a: "(case a of (ok, q') \<Rightarrow> \<lambda>w'. ok \<longrightarrow> granted 4 (tq_sequence
       \<lparr>tq_sequence = dg_tx_request_seq d, tq_result = kTxRequestResultIdle, tq_busy_retries = 0\<rparr>) (tq_result q') v w') v'"
    obtain ok q where p: "a = (ok, q)" by (cases a)
    have fin: "wp (do { (ok, captured) \<leftarrow> captureTriggered M True True; return (ok, tq_result q, captured) }) ?Q v'"
      if "ok" "tq_result q = 0"
      by (rule capture [OF d]) (use s a p that in auto)
    show "wp (case a of (requested, q) \<Rightarrow> if \<not> requested then return (False, kTxRequestResultIdle, None)
       else if tq_result q \<noteq> 0 then return (True, tq_result q, None)
       else do { (ok, captured) \<leftarrow> captureTriggered M True True; return (ok, tq_result q, captured) }) ?Q v'"
      unfolding p prod.case by (intro wpi_if wpi_return) (use fin in auto)
  qed
  show ?thesis
    unfolding triggerTx_def kSrdoDiagnosticIndex_def
  proof (rule wpi_bind, rule wp_mono [OF readDiagnostic_exhibits], rule wpi_case_prod, rule wpi_if, rule wpi_return)
    fix a v ok d
    assume v: "(case a of (ok, d) \<Rightarrow> \<lambda>w'. quiet w w' \<and> (ok \<longrightarrow> exhibits (diagnostic_readings d) w w')) v"
      and a: "a = (ok, d)" and run: "\<not> (\<not> ok \<or> dg_tx_request_seq d \<noteq> dg_tx_complete_seq d)"
    show "wp (do {
       prepared \<leftarrow> allM [writeRemote_srdo M 0x2306 3 (V32 kProbeNormal),
         writeRemote_srdo M 0x2306 4 (V32 kProbeInverted), drain_srdo M];
       if \<not> prepared then return (False, kTxRequestResultIdle, None)
       else do {
         (requested, q) \<leftarrow> requestTxWithBusyRetry M (dg_tx_request_seq d);
         if \<not> requested then return (False, kTxRequestResultIdle, None)
         else if tq_result q \<noteq> 0 then return (True, tq_result q, None)
         else do {
           (ok, captured) \<leftarrow> captureTriggered M True True;
           return (ok, tq_result q, captured) }
       } }) ?Q v"
    proof (rule wpi_bind, rule wp_mono [OF performs_wp [OF prepared_performs]], rule wpi_if, rule wpi_return)
      fix prepared x
      assume "prepared \<longrightarrow> stages [stored [(0x2306, 3, V32 kProbeNormal)], stored [(0x2306, 4, V32 kProbeInverted)], quiet] v x"
        and "\<not> \<not> prepared"
      with v a run show "wp (do {
         (requested, q) \<leftarrow> requestTxWithBusyRetry M (dg_tx_request_seq d);
         if \<not> requested then return (False, kTxRequestResultIdle, None)
         else if tq_result q \<noteq> 0 then return (True, tq_result q, None)
         else do {
           (ok, captured) \<leftarrow> captureTriggered M True True;
           return (ok, tq_result q, captured) } }) ?Q x"
        by (intro request) auto
    qed simp
  qed simp
qed

lemma established_tx: "performs (waitForTxState M kStateEstablished t) (tx_state_is 3)"
  using states_named(2) [of M 3] by (simp add: kStateEstablished_def)

lemma validateTxPair_performs: "performs (validateTxPair M) transmitted"
proof (rule performsI)
  fix w :: world
  have state: "wp (waitForTxState M kStateEstablished kStateTimeout) (\<lambda>ok w'. ok \<longrightarrow> transmitted w w') v"
    if "triggered n i w v" "pair_ok (n, i)" for n i v
    by (rule wp_mono [OF performs_wp [OF established_tx]]) (use that in \<open>auto simp: transmitted_def\<close>)
  show "wp (validateTxPair M) (\<lambda>ok w'. ok \<longrightarrow> transmitted w w') w"
    unfolding validateTxPair_def
    by (rule wpi_bind, rule wp_mono [OF triggerTx_triggered])
       (auto simp: host_wp kPairMaxUs_def pair_ok_def intro!: state split: prod.splits option.splits)
qed

section \<open>Natural cycles\<close>

definition flat :: "(WireFrame \<times> WireFrame) list \<Rightarrow> WireFrame list" where
  "flat ps = concat (map (\<lambda>(n, i). [n, i]) ps)"

lemma flat_simps [simp]: "flat [] = []" "flat ((n, i) # ps) = n # i # flat ps"
  by (simp_all add: flat_def)

text \<open>The intervals between successive times, in microseconds.\<close>

fun gaps :: "nat list \<Rightarrow> int list" where
  "gaps (a # b # ts) = elapsedUs b a # gaps (b # ts)"
| "gaps _ = []"

lemma length_gaps [simp]: "length (gaps ts) = length ts - 1"
  by (induction ts rule: gaps.induct) auto

abbreviation normal_times :: "(WireFrame \<times> WireFrame) list \<Rightarrow> nat list" where
  "normal_times ps \<equiv> map (\<lambda>p. wf_timestamp (fst p)) ps"

text \<open>The transmitted frames read are these pairs, one after the other without a frame between them, after at
  most one inverted frame at the start.\<close>

definition reads_pairs :: "(WireFrame \<times> WireFrame) list \<Rightarrow> world \<Rightarrow> world \<Rightarrow> bool" where
  "reads_pairs ps w w' \<longleftrightarrow> (\<exists>lead. list_all is_inverted lead \<and> length lead \<le> 1 \<and> captures w (lead @ flat ps) w')"

text \<open>What a synchroniser may still skip.\<close>

definition led :: "TxPairSynchronizer \<Rightarrow> WireFrame list \<Rightarrow> bool" where
  "led y lead \<longleftrightarrow> lead = [] \<or> \<not> synchronized y \<and> list_all is_inverted lead \<and> length lead \<le> 1"

lemma nextPair_led:
  assumes "sync_state y = EXPECT_NORMAL" and "captures u fs w"
    and "\<And>y' w'. Q (None, y') w'"
    and "\<And>n i y' lead w'. led y lead \<Longrightarrow> captures u (fs @ lead @ [n, i]) w' \<Longrightarrow> sync_state y' = EXPECT_NORMAL \<Longrightarrow>
      synchronized y' \<Longrightarrow> Q (Some (n, i), y') w'"
  shows "wp (nextPair M t k y) Q w"
proof (rule wp_mono [OF nextPair_paired [OF assms(1)]])
  fix r w'
  assume p: "paired y w r w'"
  obtain c y' where r: "r = (c, y')" by (cases r)
  show "Q r w'"
  proof (cases c)
    case None
    with assms(3) r show ?thesis by simp
  next
    case (Some p)
    obtain n i where c: "c = Some (n, i)" using Some by (cases p) auto
    with p r obtain lead where lead: "discards y lead (initial_resync_used y')" "captures w (lead @ [n, i]) w'"
      "sync_state y' = EXPECT_NORMAL" "synchronized y'"
      by (auto simp: paired_def)
    then have "led y lead" by (auto simp: led_def discards_def)
    with lead captures_trans [OF assms(2) lead(2)] assms(4) c r show ?thesis by auto
  qed
qed

text \<open>The samples, from any sample on: valid pairs, and every interval within its bounds.\<close>

abbreviation cycle_ok :: "int \<Rightarrow> bool" where
  "cycle_ok c \<equiv> 50000 \<le> c \<and> c \<le> 150000"

lemma txCycleSamples_pairs:
  assumes "sync_state y = EXPECT_NORMAL" and "captures u fs w"
  shows "wp (txCycleSamples n M k y t ds cs) (\<lambda>(ok, ds', cs') w'. ok \<longrightarrow> (\<exists>lead ps. led y lead \<and>
     captures u (fs @ lead @ flat ps) w' \<and> length ps = n \<and> list_all pair_ok ps \<and>
     (let g = gaps ((if k = 0 then [] else [t]) @ normal_times ps) in cs' = cs @ g \<and> list_all cycle_ok g))) w"
  using assms
proof (induction n arbitrary: k y t ds cs fs w)
  case 0
  then show ?case by (auto simp: host_wp led_def intro!: exI [of _ "[]"])
next
  case (Suc n)
  show ?case
    unfolding txCycleSamples.simps
  proof (rule wpi_bind, rule nextPair_led [OF Suc.prems])
    fix p i lead w' and y' :: TxPairSynchronizer
    assume lead: "led y lead" and w': "captures u (fs @ lead @ [p, i]) w'" and y': "sync_state y' = EXPECT_NORMAL" "synchronized y'"
    let ?c = "elapsedUs (wf_timestamp p) t"
    let ?ds = "ds @ [elapsedUs (wf_timestamp i) (wf_timestamp p)]"
    let ?cs = "if k \<noteq> 0 then cs @ [?c] else cs"
    have more: "wp (txCycleSamples n M (k + 1) y' (wf_timestamp p) ?ds ?cs) (\<lambda>(ok, ds', cs') w'. ok \<longrightarrow> (\<exists>lead ps. led y lead \<and>
       captures u (fs @ lead @ flat ps) w' \<and> length ps = Suc n \<and> list_all pair_ok ps \<and>
       (let g = gaps ((if k = 0 then [] else [t]) @ normal_times ps) in cs' = cs @ g \<and> list_all cycle_ok g))) w'"
      if ok: "pair_ok (p, i)" "k \<noteq> 0 \<Longrightarrow> cycle_ok ?c"
    proof (rule wp_mono [OF Suc.IH [OF y'(1) w']])
      fix r v
      assume r: "(case r of (ok, ds', cs') \<Rightarrow> \<lambda>w'. ok \<longrightarrow> (\<exists>lead' ps. led y' lead' \<and>
         captures u ((fs @ lead @ [p, i]) @ lead' @ flat ps) w' \<and> length ps = n \<and> list_all pair_ok ps \<and>
         (let g = gaps ((if k + 1 = 0 then [] else [wf_timestamp p]) @ normal_times ps) in cs' = ?cs @ g \<and> list_all cycle_ok g))) v"
      obtain ok' ds' cs' where split: "r = (ok', ds', cs')" by (cases r) auto
      show "(case r of (ok, ds', cs') \<Rightarrow> \<lambda>w'. ok \<longrightarrow> (\<exists>lead ps. led y lead \<and>
         captures u (fs @ lead @ flat ps) w' \<and> length ps = Suc n \<and> list_all pair_ok ps \<and>
         (let g = gaps ((if k = 0 then [] else [t]) @ normal_times ps) in cs' = cs @ g \<and> list_all cycle_ok g))) v"
        unfolding split prod.case
      proof
        assume ok'
        with r y'(2) obtain ps where ps: "captures u (fs @ lead @ flat ((p, i) # ps)) v" "length ps = n" "list_all pair_ok ps"
          "cs' = ?cs @ gaps (wf_timestamp p # normal_times ps)" "list_all cycle_ok (gaps (wf_timestamp p # normal_times ps))"
          by (auto simp: split led_def Let_def)
        with lead ok show "\<exists>lead ps. led y lead \<and>
         captures u (fs @ lead @ flat ps) v \<and> length ps = Suc n \<and> list_all pair_ok ps \<and>
         (let g = gaps ((if k = 0 then [] else [t]) @ normal_times ps) in cs' = cs @ g \<and> list_all cycle_ok g)"
          by (intro exI [of _ lead] exI [of _ "(p, i) # ps"]) (auto simp: Let_def)
      qed
    qed
    show "wp (case (Some (p, i), y') of (captured, y) \<Rightarrow> (case captured of
         None \<Rightarrow> return (False, ds, cs)
       | Some (normal, inverted) \<Rightarrow>
         if \<not> validateWirePair normal inverted kProbeNormal then return (False, ds, cs)
         else (let pair_delta = elapsedUs (wf_timestamp inverted) (wf_timestamp normal) in
           if pair_delta < 0 \<or> pair_delta > kPairMaxUs then return (False, ds, cs)
           else let ds = ds @ [pair_delta]; cycle = elapsedUs (wf_timestamp normal) t in
             if k \<noteq> 0 \<and> (cycle < kCycleMinUs \<or> cycle > kCycleMaxUs) then return (False, ds, cs)
             else let cs = (if k \<noteq> 0 then cs @ [cycle] else cs)
                  in txCycleSamples n M (k + 1) y (wf_timestamp normal) ds cs)))
      (\<lambda>(ok, ds', cs') w'. ok \<longrightarrow> (\<exists>lead ps. led y lead \<and>
       captures u (fs @ lead @ flat ps) w' \<and> length ps = Suc n \<and> list_all pair_ok ps \<and>
       (let g = gaps ((if k = 0 then [] else [t]) @ normal_times ps) in cs' = cs @ g \<and> list_all cycle_ok g))) w'"
      unfolding prod.case option.case Let_def kPairMaxUs_def kCycleMinUs_def kCycleMaxUs_def
      by (intro wpi_if wpi_return more [unfolded Let_def]) (auto simp: pair_ok_def)
  qed (simp add: host_wp)
qed

lemma led_pairs: "led y lead \<Longrightarrow> captures w (lead @ flat ps) w' \<Longrightarrow> reads_pairs ps w w'"
  unfolding led_def reads_pairs_def by (intro exI [of _ lead]) auto

text \<open>Two hundred pairs with the profile's cycle.\<close>

definition timed :: "(WireFrame \<times> WireFrame) list \<Rightarrow> bool" where
  "timed ps \<longleftrightarrow> length ps = 200 \<and> list_all pair_ok ps \<and> list_all cycle_ok (gaps (normal_times ps)) \<and>
     cycleAverageOk (gaps (normal_times ps))"

lemma timed_total:
  assumes "timed ps"
  shows "199 * 80000 \<le> sum_list (gaps (normal_times ps)) \<and> sum_list (gaps (normal_times ps)) < 199 * 120001"
proof -
  have "length (gaps (normal_times ps)) = 199" using assms by (simp add: timed_def)
  then have "80000 \<le> sum_list (gaps (normal_times ps)) div 199" "sum_list (gaps (normal_times ps)) div 199 \<le> 120000"
    using assms by (simp_all add: timed_def cycleAverageOk_def Let_def kCycleAverageMinUs_def kCycleAverageMaxUs_def)
  then show ?thesis by linarith
qed

definition observes_cycles :: phase where
  "observes_cycles w w' \<longleftrightarrow> quiet w w' \<and> (\<exists>ps. timed ps \<and> reads_pairs ps w w')"

definition cycled :: phase where
  "cycled = stages [quiet, observes_cycles, tx_state_is 3]"

lemma samples_observed:
  "wp (txCycleSamples 200 M 0 (newSynchronizer True) 0 [] []) (\<lambda>(ok, ds, cs) w'. ok \<longrightarrow> cycleAverageOk cs \<longrightarrow>
     observes_cycles w w') w"
proof -
  have sync: "sync_state (newSynchronizer True) = EXPECT_NORMAL" by (simp add: newSynchronizer_def)
  have "wp (txCycleSamples 200 M 0 (newSynchronizer True) 0 [] []) (\<lambda>(ok, ds, cs) w'. ok \<longrightarrow> cycleAverageOk cs \<longrightarrow>
      (\<exists>ps. timed ps \<and> reads_pairs ps w w')) w"
    by (rule wp_mono [OF txCycleSamples_pairs [OF sync captures_refl]])
       (auto simp: timed_def Let_def intro: led_pairs)
  then show ?thesis
    by (rule wp_read_only [OF txCycleSamples_touches]) (auto simp: observes_cycles_def)
qed

lemma validateTxCycles_performs: "performs (validateTxCycles M) cycled"
proof (rule performsI)
  fix w :: world
  have state: "wp (waitForTxState M kStateEstablished kStateTimeout) (\<lambda>ok w'. ok \<longrightarrow> cycled w w') x"
    if "quiet w v" "observes_cycles v x" for v x
    by (rule wp_mono [OF performs_wp [OF established_tx]]) (use that in \<open>auto simp: cycled_def\<close>)
  have rest: "wp (do { (ok, pairs, cycles) \<leftarrow> txCycleSamples 200 M 0 (newSynchronizer True) 0 [] [];
       if \<not> ok then return False
       else if \<not> cycleAverageOk cycles then return False
       else waitForTxState M kStateEstablished kStateTimeout }) (\<lambda>ok w'. ok \<longrightarrow> cycled w w') v" if "quiet w v" for v
    by (rule wpi_bind, rule wp_mono [OF samples_observed])
       (use that in \<open>auto simp: host_wp intro!: state split: prod.splits\<close>)
  show "wp (validateTxCycles M) (\<lambda>ok w'. ok \<longrightarrow> cycled w w') w"
    unfolding validateTxCycles_def kTxPairSamples_def
    by (rule wpi_bind, rule wp_mono [OF performs_wp [OF drain_performs]], rule wpi_if, rule wpi_return)
       (auto intro: rest)
qed

section \<open>Reset and rebind\<close>

text \<open>Natural pairs while the receive side is refreshed; nothing but receive frames is sent.\<close>

fun rx_only :: "mutation \<Rightarrow> bool" where
  "rx_only (Wire message) \<longleftrightarrow> rx_frame message"
| "rx_only _ \<longleftrightarrow> False"

definition natural :: phase where
  "natural w w' \<longleftrightarrow> keeps rx_only w w' \<and> (\<exists>ps. length ps = 3 \<and> reads_pairs ps w w' \<and>
     list_all (\<lambda>p. validateWirePair (fst p) (snd p) kProbeNormal) ps)"

lemma naturalPairs_pairs:
  assumes "sync_state y = EXPECT_NORMAL" and "captures u fs w"
  shows "wp (naturalPairs n M y) (\<lambda>ok w'. ok \<longrightarrow> (\<exists>lead ps. led y lead \<and> captures u (fs @ lead @ flat ps) w' \<and>
     length ps = n \<and> list_all (\<lambda>p. validateWirePair (fst p) (snd p) kProbeNormal) ps)) w"
  using assms
proof (induction n arbitrary: y fs w)
  case 0
  then show ?case by (auto simp: host_wp led_def intro!: exI [of _ "[]"])
next
  case (Suc n)
  show ?case
    unfolding naturalPairs.simps
  proof (rule wpi_bind, rule nextPair_led [OF Suc.prems])
    fix p i lead w' and y' :: TxPairSynchronizer
    assume lead: "led y lead" and w': "captures u (fs @ lead @ [p, i]) w'" and y': "sync_state y' = EXPECT_NORMAL" "synchronized y'"
    have "wp (naturalPairs n M y') (\<lambda>ok w'. ok \<longrightarrow> (\<exists>lead ps. led y lead \<and> captures u (fs @ lead @ flat ps) w' \<and>
       length ps = Suc n \<and> list_all (\<lambda>p. validateWirePair (fst p) (snd p) kProbeNormal) ps)) w'"
      if ok: "validateWirePair p i kProbeNormal"
    proof (rule wp_mono [OF Suc.IH [OF y'(1) w']], intro impI)
      fix ok v
      assume "ok \<longrightarrow> (\<exists>lead' ps. led y' lead' \<and> captures u ((fs @ lead @ [p, i]) @ lead' @ flat ps) v \<and>
        length ps = n \<and> list_all (\<lambda>p. validateWirePair (fst p) (snd p) kProbeNormal) ps)" and ok
      with y'(2) obtain ps where "captures u (fs @ lead @ flat ((p, i) # ps)) v" "length ps = n"
        "list_all (\<lambda>p. validateWirePair (fst p) (snd p) kProbeNormal) ps"
        by (auto simp: led_def)
      with lead that show "\<exists>lead ps. led y lead \<and> captures u (fs @ lead @ flat ps) v \<and> length ps = Suc n \<and>
        list_all (\<lambda>p. validateWirePair (fst p) (snd p) kProbeNormal) ps"
        by (intro exI [of _ lead] exI [of _ "(p, i) # ps"]) auto
    qed
    then show "wp (case (Some (p, i), y') of (captured, y) \<Rightarrow> (case captured of None \<Rightarrow> return False
         | Some (normal, inverted) \<Rightarrow>
           if \<not> validateWirePair normal inverted kProbeNormal then return False else naturalPairs n M y))
      (\<lambda>ok w'. ok \<longrightarrow> (\<exists>lead ps. led y lead \<and> captures u (fs @ lead @ flat ps) w' \<and>
       length ps = Suc n \<and> list_all (\<lambda>p. validateWirePair (fst p) (snd p) kProbeNormal) ps)) w'"
      by (simp add: host_wp)
  qed (simp add: host_wp)
qed

lemma naturalPairs_performs: "performs (naturalPairs 3 M (newSynchronizer True)) natural"
proof (rule performsI)
  fix w :: world
  have sync: "sync_state (newSynchronizer True) = EXPECT_NORMAL" by (simp add: newSynchronizer_def)
  have rx: "touches rx_only (naturalPairs n M y)" for n y
    by (induction n arbitrary: y) (auto intro!: emits_intro)
  have "wp (naturalPairs 3 M (newSynchronizer True)) (\<lambda>ok w'. ok \<longrightarrow> (\<exists>ps. length ps = 3 \<and> reads_pairs ps w w' \<and>
     list_all (\<lambda>p. validateWirePair (fst p) (snd p) kProbeNormal) ps)) w"
    by (rule wp_mono [OF naturalPairs_pairs [OF sync captures_refl]]) (auto intro: led_pairs)
  then show "wp (naturalPairs 3 M (newSynchronizer True)) (\<lambda>ok w'. ok \<longrightarrow> natural w w') w"
    by (rule wp_keeps [OF rx]) (auto simp: natural_def)
qed

text \<open>The request counters and the idle result are the same as before, seen in a coherent snapshot.\<close>

lemma requestWitness_performs: "performs (requestWitness M before) (snapshot_of (requestUntouched before))"
  unfolding requestWitness_def
proof (rule worker_scope)
  have stop: "wp (stopRxPairWorker M) (\<lambda>_ w'. hist w' = hist v \<or> hist w' = EvSleep 0 # hist v) v" for v
    unfolding stopRxPairWorker_def joinThread_def by (intro wp_intro) auto
  show "performs (do {
     (snapshot_ok, after) \<leftarrow> readDiagnostic_srdo M default_srdo_diagnostic;
     stopRxPairWorker M;
     alive \<leftarrow> keepaliveOk;
     return (\<not> (\<not> snapshot_ok \<or> \<not> alive \<or> \<not> requestUntouched before after)) }) (snapshot_of (requestUntouched before))"
  proof (rule performsI, rule wpi_bind, rule wp_mono [OF readDiagnostic_exhibits], rule wpi_case_prod, rule wpi_bind)
    fix w v a snapshot_ok after
    assume "(case a of (ok, d) \<Rightarrow> \<lambda>w'. quiet w w' \<and> (ok \<longrightarrow> exhibits (diagnostic_readings d) w w')) v"
      and "a = (snapshot_ok, after)"
    then show "wp (stopRxPairWorker M) (\<lambda>_. wp (do { alive \<leftarrow> keepaliveOk;
         return (\<not> (\<not> snapshot_ok \<or> \<not> alive \<or> \<not> requestUntouched before after)) })
       (\<lambda>ok w'. ok \<longrightarrow> snapshot_of (requestUntouched before) w w')) v"
      by (intro wp_mono [OF stop]) (auto simp: host_wp keepaliveOk_wp snapshot_of_def intro: exhibits_end)
  qed
qed (rule snapshot_end)

definition rebound :: phase where
  "rebound w w' \<longleftrightarrow> (\<exists>d. dg_tx_request_seq d = dg_tx_complete_seq d \<and>
     stages [exhibits (diagnostic_readings d), commanded ENTER_PREOP, quiet, rebooted,
       snapshot_of (requestUntouched d), natural, snapshot_of (requestUntouched d), received, established,
       transmitted] w w')"

lemma validateResetRebind_srdo_performs: "performs (validateResetRebind_srdo M) rebound"
proof (rule performsI)
  fix w :: world
  have all: "performs (allM [enterPreOperational_srdo M, drain_srdo M, resetCommunication M, requestWitness M before,
       naturalPairs kResetNaturalPairSamples M (newSynchronizer True), requestWitness M before,
       validateRxPair M, validateEstablishedWindow M, validateTxPair M])
     (stages [commanded ENTER_PREOP, quiet, rebooted, snapshot_of (requestUntouched before), natural,
       snapshot_of (requestUntouched before), received, established, transmitted])" for before
    unfolding kResetNaturalPairSamples_def
    by (intro phase_performs requestWitness_performs naturalPairs_performs validateRxPair_performs
        validateEstablishedWindow_performs validateTxPair_performs)
  show "wp (validateResetRebind_srdo M) (\<lambda>ok w'. ok \<longrightarrow> rebound w w') w"
    unfolding validateResetRebind_srdo_def
  proof (rule wpi_bind, rule wp_mono [OF readDiagnostic_exhibits], rule wpi_case_prod, rule wpi_if, rule wpi_return, simp)
    fix a v ok before
    assume a: "(case a of (ok, d) \<Rightarrow> \<lambda>w'. quiet w w' \<and> (ok \<longrightarrow> exhibits (diagnostic_readings d) w w')) v"
      "a = (ok, before)" "\<not> (\<not> ok \<or> dg_tx_request_seq before \<noteq> dg_tx_complete_seq before)"
    show "wp (allM [enterPreOperational_srdo M, drain_srdo M, resetCommunication M, requestWitness M before,
       naturalPairs kResetNaturalPairSamples M (newSynchronizer True), requestWitness M before,
       validateRxPair M, validateEstablishedWindow M, validateTxPair M]) (\<lambda>ok w'. ok \<longrightarrow> rebound w w') v"
    proof (rule wp_mono [OF performs_wp [OF all [of before]]], rule impI)
      fix ok w'
      assume "ok \<longrightarrow> stages [commanded ENTER_PREOP, quiet, rebooted, snapshot_of (requestUntouched before), natural,
         snapshot_of (requestUntouched before), received, established, transmitted] v w'" and ok
      with a show "rebound w w'"
        unfolding rebound_def stages.simps(2) [of "exhibits _"] by blast
    qed
  qed
qed

section \<open>Regression\<close>

text \<open>The PDO and the SYNC process pass with their evidence, and the device type is read.\<close>

definition pdo_passed :: phase where
  "pdo_passed w w' \<longleftrightarrow> pdo_run 0 w w' \<and> (\<exists>u y. hist u = hist w \<and> observed u y \<and> later y w')"

definition sync_passed :: phase where
  "sync_passed w w' \<longleftrightarrow> (\<exists>p c v. baselineOk c \<and> sync_evidence w p c v \<and> does w (sync_changes p c) w' \<and>
     sync_restored v p c w')"

definition regression :: phase where
  "regression w w' \<longleftrightarrow> (\<exists>u t. hist u = hist w \<and> stages [pdo_passed, sync_passed, exhibits [(0x1000, 0, V32 t)]] u w')"

lemma pdoProcess_passed: "wp (pdoProcess M) (\<lambda>r w'. r = 0 \<longrightarrow> pdo_passed w w') w"
proof -
  have "wp (pdoProcess M) (\<lambda>r w'. pdo_run r w w' \<and> (r = 0 \<longrightarrow> (\<exists>u y. hist u = hist w \<and> observed u y \<and> later y w'))) w"
    unfolding wp_conj using pdoProcess_run pdoProcess_observed by blast
  then show ?thesis by (rule wp_mono) (auto simp: pdo_passed_def)
qed

lemma syncPdoProcess_passed: "wp (syncPdoProcess M) (\<lambda>r w'. r = 0 \<longrightarrow> sync_passed w w') w"
  by (rule wp_mono [OF syncPdoProcess_passing]) (auto simp: sync_passed_def)

lemma regression_end:
  assumes "\<exists>t. stages [pdo_passed, sync_passed, exhibits [(0x1000, 0, V32 t)]] x v" and x: "hist x = hist w"
    and v: "hist w' = hist v \<or> hist w' = EvSleep 0 # hist v"
  shows "regression w w'"
proof -
  obtain t a b where "pdo_passed x a" "sync_passed a b" "exhibits [(0x1000, 0, V32 t)] b v" using assms(1) by auto
  moreover from this(3) have "exhibits [(0x1000, 0, V32 t)] b w'" by (rule exhibits_end [OF _ refl v])
  ultimately show ?thesis
    unfolding regression_def using x by (intro exI [of _ x] exI [of _ t]) auto
qed

lemma validateRegression_performs: "performs (validateRegression M) regression"
  unfolding validateRegression_def
proof (rule worker_scope [where P = "\<lambda>x v. \<exists>t. stages [pdo_passed, sync_passed, exhibits [(0x1000, 0, V32 t)]] x v"])
  have device_type: "wp (do { (ok, device_type) \<leftarrow> readRemote_srdo tU32 M 0x1000 0 0; return ok })
     (\<lambda>ok w'. ok \<longrightarrow> (\<exists>t. exhibits [(0x1000, 0, V32 t)] w w')) w" for w
    by (rule wpi_bind, rule wpi_readRemote_srdo) (auto simp: host_wp dest: displays_exhibits)
  have sync: "wp (do {
     sync_result \<leftarrow> (if pdo_result = 0 then syncPdoProcess M else return 1);
     alive \<leftarrow> keepaliveOk;
     if \<not> alive \<or> pdo_result \<noteq> 0 \<or> sync_result \<noteq> 0 then return False
     else do { (ok, device_type) \<leftarrow> readRemote_srdo tU32 M 0x1000 0x00 0; return ok } })
    (\<lambda>ok w'. ok \<longrightarrow> (\<exists>t. stages [pdo_passed, sync_passed, exhibits [(0x1000, 0, V32 t)]] w w')) v"
    if v: "pdo_result = 0 \<longrightarrow> pdo_passed w v" for w v and pdo_result :: int
  proof (cases "pdo_result = 0")
    case True
    have fin: "wp (do { alive \<leftarrow> keepaliveOk;
       if \<not> alive \<or> pdo_result \<noteq> 0 \<or> sync_result \<noteq> 0 then return False
       else do { (ok, device_type) \<leftarrow> readRemote_srdo tU32 M 0x1000 0x00 0; return ok } })
      (\<lambda>ok w'. ok \<longrightarrow> (\<exists>t. stages [pdo_passed, sync_passed, exhibits [(0x1000, 0, V32 t)]] w w')) x"
      if x: "sync_result = 0 \<longrightarrow> sync_passed v x" for x and sync_result :: int
    proof -
      have "wp (do { (ok, device_type) \<leftarrow> readRemote_srdo tU32 M 0x1000 0x00 0; return ok })
        (\<lambda>ok w'. ok \<longrightarrow> (\<exists>t. stages [pdo_passed, sync_passed, exhibits [(0x1000, 0, V32 t)]] w w')) x"
        if "sync_result = 0"
        by (rule wp_mono [OF device_type]) (use v True x that in auto)
      then show ?thesis
        unfolding wp_bind keepaliveOk_wp by (intro wpi_if wpi_return) (auto simp: wp_bind)
    qed
    have "wp (syncPdoProcess M) (\<lambda>sync_result. wp (do { alive \<leftarrow> keepaliveOk;
       if \<not> alive \<or> pdo_result \<noteq> 0 \<or> sync_result \<noteq> 0 then return False
       else do { (ok, device_type) \<leftarrow> readRemote_srdo tU32 M 0x1000 0x00 0; return ok } })
      (\<lambda>ok w'. ok \<longrightarrow> (\<exists>t. stages [pdo_passed, sync_passed, exhibits [(0x1000, 0, V32 t)]] w w'))) v"
      by (rule wp_mono [OF syncPdoProcess_passed]) (rule fin)
    then show ?thesis
      unfolding if_P [OF True] by (rule wpi_bind)
  qed (simp add: host_wp keepaliveOk_wp)
  show "performs (do {
     pdo_result \<leftarrow> pdoProcess M;
     sync_result \<leftarrow> (if pdo_result = 0 then syncPdoProcess M else return 1);
     alive \<leftarrow> keepaliveOk;
     if \<not> alive \<or> pdo_result \<noteq> 0 \<or> sync_result \<noteq> 0 then return False
     else do { (ok, device_type) \<leftarrow> readRemote_srdo tU32 M 0x1000 0x00 0; return ok } })
    (\<lambda>w w'. \<exists>t. stages [pdo_passed, sync_passed, exhibits [(0x1000, 0, V32 t)]] w w')"
    by (rule performsI, rule wpi_bind, rule wp_mono [OF pdoProcess_passed]) (rule sync)
qed (rule regression_end)

end
