(* ===== verification/Srdo_Checks.thy ===== *)
theory Srdo_Checks
  imports Srdo_Transmit
begin

text \<open>
  The SRDO process as a whole: what a passing run has shown, what a failing run leaves behind, and what
  any run can change.
\<close>

section \<open>Footprint\<close>

lemma clean_touches:
  assumes "sound_profile p"
  shows "touches srdo_own (prepareCleanOperational M p)"
proof -
  have "touches srdo_own (allM (srdoWrites M baseline_writes))"
    by (intro emits_intro) (simp add: srdoWrites_def baseline_writes_def emits_intro)
  then have "touches srdo_own (writeSrdo1Baseline M p)" by (simp add: writeSrdo1Baseline_eq [OF assms])
  then show ?thesis
    unfolding prepareCleanOperational_def by (intro emits_intro) (simp add: emits_intro)
qed

lemma requireRemote_touches [emits_intro]:
  "touches S (requireRemote T M i s v x)" "touches S (requireCanIds M a b)" "touches S (pause M d)"
  "touches S (invertedFirstTimesOut M)" "touches S observerSilent" "touches S (waitForTxFault M)"
  "touches S (holdSilence M)" "touches S (stopAndCheckSilence M)"
  unfolding requireRemote_def requireCanIds_def pause_def invertedFirstTimesOut_def invertedFirstBody_def observerSilent_def
    waitForTxFault_def txFaultBody_def holdSilence_def silenceBody_def stopAndCheckSilence_def Let_def
  by (intro emits_intro)+

lemma faults_touch:
  assumes "sound_profile p"
  shows "touches srdo_own (validateF01 M p)" "touches srdo_own (validateF02 M p)" "touches srdo_own (validateF03 M p)"
    "touches srdo_own (validateF04 M p)" "touches srdo_own (validateF05 M p)" "touches srdo_own (validateF06 M p)"
    "touches srdo_own (validateF07 M p)" "touches srdo_own (validateF08 M p)" "touches srdo_own (validateF09 M p)"
    "touches srdo_own (validateF10 M p)" "touches srdo_own (validateF11 M p)" "touches srdo_own (validateF12 M p)"
  unfolding validateF01_def validateF02_def validateF03_def validateF04_def validateF05_def validateF06_def validateF07_def
    validateF08_def validateF09_def validateF10_def validateF11_def validateF12_def Let_def srdo_index_defs sound_profile_rx [OF assms]
  by ((rule allM_touches emits_bind emits_if emits_return wire_scopes_touch)+;
      simp add: emits_intro clean_touches [OF assms] srdo_index_defs)+

lemma srdoChecks_touches:
  assumes "sound_profile p"
  shows "touches srdo_objects (srdoChecks M p)"
proof -
  have own: "touches srdo_objects m" if "touches srdo_own m" for m :: "bool host"
    using that by (rule touches_weaken) (simp add: srdo_objects_def)
  show ?thesis
    unfolding srdoChecks_def
    by (rule allM_touches) (simp add: own faults_touch [OF assms] srdo_checks_touch srdo_nmt_touch
        validateEstablishedWindow_touches validateResetRebind_srdo_touches validateRegression_touches)
qed

lemma srdoProcess_touches: "touches srdo_objects (srdoProcess M)"
proof -
  have own: "touches srdo_objects m" if "touches srdo_own m" for m :: "bool host"
    using that by (rule touches_weaken) (simp add: srdo_objects_def)
  have idle: "touches srdo_objects (allM [drain_srdo M, validateNmtNonOperational M])"
    by (rule allM_touches) (simp add: own srdo_checks_touch wire_reads_touch)
  have rest: "touches srdo_objects (if \<not> accepted then return 1
     else do {
       passed \<leftarrow> srdoChecks M p;
       if \<not> passed then do { restored \<leftarrow> prepareCleanOperational M p; return 1 } else return 0 })"
    if "accepted \<longrightarrow> sound_profile p" for accepted p
  proof (cases accepted)
    case True
    with that have p: "sound_profile p" by simp
    have "touches srdo_objects (do {
       passed \<leftarrow> srdoChecks M p;
       if \<not> passed then do { restored \<leftarrow> prepareCleanOperational M p; return 1 } else return 0 })"
      by (intro emits_bind emits_if emits_return srdoChecks_touches own [OF clean_touches] p)
    with True show ?thesis by simp
  qed (simp add: emits_intro)
  show ?thesis
    unfolding srdoProcess_def
    by (rule emits_bind [OF idle], rule emits_if, rule emits_return,
        rule emits_bind_wp [where R = "\<lambda>(ok, p). ok \<longrightarrow> sound_profile p"], rule validateProfile_touches,
        rule wp_mono [OF validateProfile_sound])
       (auto intro!: rest emits_case_prod)
qed

section \<open>A passing run\<close>

definition fault12 :: phase where
  "fault12 = stages [clean, established]"

definition srdo_checked :: "lely \<Rightarrow> phase" where
  "srdo_checked M = stages [commanded START, received, established, transmitted, cycled, rebound, regression,
     fault01, fault02, fault03, fault04, fault05, fault06, fault07, fault08 M, fault09 M, fault10, fault11 M, fault12]"

lemma srdoChecks_performs:
  assumes "sound_profile p"
  shows "performs (srdoChecks M p) (srdo_checked M)"
proof -
  have f12: "performs (validateF12 M p) fault12"
    unfolding validateF12_def fault12_def
    by (intro phase_performs clean_performs assms validateEstablishedWindow_performs)
  show ?thesis
    unfolding srdoChecks_def srdo_checked_def
    by (intro phase_performs validateRxPair_performs validateEstablishedWindow_performs validateTxPair_performs
        validateTxCycles_performs validateResetRebind_srdo_performs validateRegression_performs
        receive_faults configuration_faults fault11_performs f12 assms)
qed

definition idle_shown :: phase where
  "idle_shown = stages [quiet, commanded ENTER_PREOP, states_are 1]"

lemma idle_performs: "performs (allM [drain_srdo M, validateNmtNonOperational M]) idle_shown"
proof -
  have states: "performs (waitForDiagnosticState M kStateNmtNotOperational kStateNmtNotOperational kStateNmtNotOperational)
      (states_are 1)"
    using states_are_performs [of M 1] by (simp add: kStateNmtNotOperational_def)
  have "performs (validateNmtNonOperational M) (stages [commanded ENTER_PREOP, states_are 1])"
    unfolding validateNmtNonOperational_def by (rule performs_andM [OF nmt_performs(1) states]) auto
  from performs_all(2) [OF drain_performs performs_all(2) [OF this performs_all(1)]] show ?thesis
    by (rule performs_weaken) (auto simp: idle_shown_def)
qed

section \<open>Restoration\<close>

definition write_step :: "reading \<Rightarrow> phase \<times> phase" where
  "write_step x = (stored [x], tries [case x of (i, s, v) \<Rightarrow> RemoteWrite CANOPEN_SLAVE_NODE_ID i s v])"

definition restoration_steps :: "(phase \<times> phase) list" where
  "restoration_steps = (commanded ENTER_PREOP, tries [Nmt ENTER_PREOP CANOPEN_SLAVE_NODE_ID]) #
     map write_step baseline_writes @
     [(rebooted, tries [Nmt RESET_COMM CANOPEN_SLAVE_NODE_ID, Nmt START CANOPEN_SLAVE_NODE_ID])]"

lemma write_takes: "takes (writeRemote_srdo M i s v) (write_step (i, s, v))"
proof -
  have "wp (writeRemote_srdo M i s v) (\<lambda>ok w'. tries [RemoteWrite CANOPEN_SLAVE_NODE_ID i s v] w w') w" for w
    unfolding writeRemote_srdo_def
    by (intro wp_intro) (rule tries_short(2), rule does_short(1), assumption, simp add: sdoRequest_def)
  then show ?thesis
    unfolding write_step_def prod.case by (intro takesI write_performs)
qed

lemma nmt_tries: "wp (issueNmtCommandAndWaitForState M cmd node st t) (\<lambda>ok w'. does w [Nmt cmd node] w' \<or> \<not> ok \<and> does w [] w') w"
  unfolding issueNmtCommandAndWaitForState_def issueNmtCommand_def readManagedNmtState_def Let_def
  by (intro wp_intro) (auto intro: does_short)

lemma nmt_takes: "takes (enterPreOperational_srdo M) (commanded ENTER_PREOP, tries [Nmt ENTER_PREOP CANOPEN_SLAVE_NODE_ID])"
  unfolding enterPreOperational_srdo_def
  by (rule takesI [OF nmt_performs(1) [unfolded enterPreOperational_srdo_def]], rule wp_mono [OF nmt_tries])
     (auto intro: tries_short)

lemma reset_takes:
  "takes (resetCommunication M) (rebooted, tries [Nmt RESET_COMM CANOPEN_SLAVE_NODE_ID, Nmt START CANOPEN_SLAVE_NODE_ID])"
proof (rule takesI [OF reset_performs])
  fix w :: world
  let ?t = "tries [Nmt RESET_COMM CANOPEN_SLAVE_NODE_ID, Nmt START CANOPEN_SLAVE_NODE_ID] w"
  have start: "wp (enterOperational M) (\<lambda>ok w'. ?t w') v" if "does w [Nmt RESET_COMM CANOPEN_SLAVE_NODE_ID] v" for v
    unfolding enterOperational_def
    by (rule wp_mono [OF nmt_tries]) (use does_trans [OF that] in \<open>force intro: tries_short\<close>)
  have wait: "wp (do { (booted, state) \<leftarrow> waitForBootCompletionState M kResetTimeout nmt_BOOTUP;
       if \<not> booted then return False else if state = nmt_START then return True else enterOperational M }) (\<lambda>ok w'. ?t w') v"
    if "does w [Nmt RESET_COMM CANOPEN_SLAVE_NODE_ID] v" for v
    by (rule wpi_bind, rule wp_does_quiet [OF that waitForBootCompletion_touches(2)])
       (auto simp: host_wp intro: start tries_short split: prod.splits)
  have issue: "wp (issueNmtCommand M cmd node) (\<lambda>ok w'. does v [Nmt cmd node] w' \<or> \<not> ok \<and> does v [] w') v" for v cmd node
    unfolding issueNmtCommand_def by (intro wp_intro) (auto intro: does_short)
  show "wp (resetCommunication M) (\<lambda>ok w'. ?t w') w"
    unfolding resetCommunication_def prepareBootWait_def
  proof (intro wpi_bind wpi_update_mem)
    fix u :: world assume u: "hist u = hist w"
    show "wp (issueNmtCommand M RESET_COMM CANOPEN_SLAVE_NODE_ID) (\<lambda>issued. wp (if \<not> issued then return False
       else do {
         (booted, state) \<leftarrow> waitForBootCompletionState M kResetTimeout nmt_BOOTUP;
         if \<not> booted then return False else if state = nmt_START then return True else enterOperational M })
       (\<lambda>ok w'. ?t w')) u"
    proof (rule wp_mono [OF issue], rule wpi_if, rule wpi_return)
      fix issued v
      assume v: "does u [Nmt RESET_COMM CANOPEN_SLAVE_NODE_ID] v \<or> \<not> issued \<and> does u [] v"
      with u have w: "does w [Nmt RESET_COMM CANOPEN_SLAVE_NODE_ID] v \<or> \<not> issued \<and> does w [] v" by (simp add: does_def)
      then show "?t v" by (auto intro: tries_short)
      assume "\<not> \<not> issued"
      with w show "wp (do { (booted, state) \<leftarrow> waitForBootCompletionState M kResetTimeout nmt_BOOTUP;
         if \<not> booted then return False else if state = nmt_START then return True else enterOperational M })
       (\<lambda>ok w'. ?t w') v"
        by (intro wait) simp
    qed
  qed
qed

lemma restoration_runs:
  assumes "sound_profile p"
  shows "wp (prepareCleanOperational M p) (\<lambda>ok w'. if ok then clean w w' else stops restoration_steps w w') w"
proof -
  let ?ops = "enterPreOperational_srdo M # srdoWrites M baseline_writes @ [resetCommunication M]"
  have writes: "list_all2 takes (srdoWrites M xs) (map write_step xs)" for xs
    by (induction xs) (auto simp: srdoWrites_def intro: write_takes)
  have steps: "list_all2 takes ?ops restoration_steps"
    unfolding restoration_steps_def by (intro list.rel_intros list_all2_appendI writes nmt_takes reset_takes)
  have ops: "wp (prepareCleanOperational M p) Q v = wp (allM ?ops) Q v" for Q v
    by (simp add: prepareCleanOperational_def writeSrdo1Baseline_eq [OF assms] wp_allM_append host_wp if_distribR cong: if_cong)
  have "wp (prepareCleanOperational M p) (\<lambda>ok w'. ok \<or> stops restoration_steps w w') w"
    unfolding ops by (rule wp_mono [OF takes_all [OF steps]]) (simp split: if_splits)
  then show ?thesis
    using performs_wp [OF clean_performs [OF assms, of M], of w] unfolding wp_def by (auto split: prod.splits)
qed

section \<open>Every run\<close>

text \<open>A run fails before it accepted a profile, after nothing but Enter Pre-operational; or it accepted one and
  passes every check, or ends with the restoration of the baseline, done or stopped at a step.\<close>

definition srdo_run :: "lely \<Rightarrow> int \<Rightarrow> phase" where
  "srdo_run M r w w' \<longleftrightarrow>
     r = 1 \<and> tries [Nmt ENTER_PREOP CANOPEN_SLAVE_NODE_ID] w w' \<or>
     (\<exists>p u v. idle_shown w u \<and> sound_profile p \<and> exhibits (profile_readings p) u v \<and>
        (r = 0 \<and> srdo_checked M v w' \<or>
         r = 1 \<and> (\<exists>x. keeps srdo_objects v x \<and> (clean x w' \<or> stops restoration_steps x w'))))"

lemma idle_tries:
  "wp (allM [drain_srdo M, validateNmtNonOperational M]) (\<lambda>ok w'. tries [Nmt ENTER_PREOP CANOPEN_SLAVE_NODE_ID] w w') w"
proof -
  have states: "wp (waitForDiagnosticState M a b c) (\<lambda>ok w'. tries [Nmt ENTER_PREOP CANOPEN_SLAVE_NODE_ID] w w') v"
    if "does w [Nmt ENTER_PREOP CANOPEN_SLAVE_NODE_ID] v" for v a b c
    by (rule wp_does_quiet [OF that srdo_waits_touch(1)]) (auto intro: tries_short)
  have enter: "wp (validateNmtNonOperational M) (\<lambda>ok w'. tries [Nmt ENTER_PREOP CANOPEN_SLAVE_NODE_ID] w w') v"
    if q: "does w [] v" for v
    unfolding validateNmtNonOperational_def wp_andM enterPreOperational_srdo_def
    by (rule wp_mono [OF nmt_tries]) (use does_trans [OF q] in \<open>force intro: states tries_short\<close>)
  have "wp (validateNmtNonOperational M) (\<lambda>ok w'. tries [Nmt ENTER_PREOP CANOPEN_SLAVE_NODE_ID] w w') v" if "quiet w v" for v
    using that by (intro enter) (simp add: does_quiet)
  then show ?thesis
    unfolding allM.simps wp_andM
    by (intro wp_quiet [OF wire_reads_touch(2)]) (auto simp: host_wp does_quiet intro: tries_short)
qed

lemma srdoProcess_run: "wp (srdoProcess M) (\<lambda>r w'. srdo_run M r w w') w"
proof -
  have idle: "wp (allM [drain_srdo M, validateNmtNonOperational M]) (\<lambda>ok w'.
      (ok \<longrightarrow> idle_shown w w') \<and> tries [Nmt ENTER_PREOP CANOPEN_SLAVE_NODE_ID] w w') w"
    unfolding wp_conj using idle_tries performs_wp [OF idle_performs] by blast
  have checks: "wp (do {
       passed \<leftarrow> srdoChecks M p;
       if \<not> passed then do { restored \<leftarrow> prepareCleanOperational M p; return 1 } else return 0 }) (\<lambda>r w'. srdo_run M r w w') v"
    if run: "idle_shown w u" "sound_profile p" "exhibits (profile_readings p) u v" for p u v
  proof (rule wpi_bind, rule wp_keeps [OF srdoChecks_touches performs_wp [OF srdoChecks_performs]], rule run(2), rule run(2),
      rule wpi_if)
    fix passed x assume x: "keeps srdo_objects v x" and "\<not> passed"
    show "wp (do { restored \<leftarrow> prepareCleanOperational M p; return 1 }) (\<lambda>r w'. srdo_run M r w w') x"
      by (rule wpi_bind, rule wp_mono [OF restoration_runs [OF run(2)]], rule wpi_return)
         (use run x in \<open>auto simp: srdo_run_def split: if_splits\<close>)
  next
    fix passed x assume "passed \<longrightarrow> srdo_checked M v x" and "\<not> \<not> passed"
    then show "wp (return 0) (\<lambda>r w'. srdo_run M r w w') x"
      using run by (auto simp: host_wp srdo_run_def)
  qed
  show ?thesis
    unfolding srdoProcess_def
  proof (rule wpi_bind, rule wp_mono [OF idle], rule wpi_if, rule wpi_return)
    fix idle u
    assume u: "(idle \<longrightarrow> idle_shown w u) \<and> tries [Nmt ENTER_PREOP CANOPEN_SLAVE_NODE_ID] w u"
    then show "srdo_run M 1 w u" by (simp add: srdo_run_def)
    assume "\<not> \<not> idle"
    with u have u: "idle_shown w u" "tries [Nmt ENTER_PREOP CANOPEN_SLAVE_NODE_ID] w u" by auto
    show "wp (do {
       (accepted, baseline) \<leftarrow> validateProfile M default_profile;
       if \<not> accepted then return 1
       else do {
         passed \<leftarrow> srdoChecks M baseline;
         if \<not> passed then do { restored \<leftarrow> prepareCleanOperational M baseline; return 1 } else return 0 } })
      (\<lambda>r w'. srdo_run M r w w') u"
    proof (rule wpi_bind, rule wp_mono [OF validateProfile_sound], rule wpi_case_prod, rule wpi_if, rule wpi_return)
      fix a v accepted p
      assume v: "(case a of (ok, p) \<Rightarrow> \<lambda>w'. quiet u w' \<and> (ok \<longrightarrow> sound_profile p \<and> shown u w' (profile_readings p))) v"
        and a: "a = (accepted, p)"
      then have "tries [Nmt ENTER_PREOP CANOPEN_SLAVE_NODE_ID] w v" by (auto intro: tries_quiet [OF u(2)])
      then show "srdo_run M 1 w v" by (simp add: srdo_run_def)
      assume "\<not> \<not> accepted"
      with v a show "wp (do {
         passed \<leftarrow> srdoChecks M p;
         if \<not> passed then do { restored \<leftarrow> prepareCleanOperational M p; return 1 } else return 0 })
        (\<lambda>r w'. srdo_run M r w w') v"
        by (intro checks [OF u(1)]) (auto simp: exhibits_def)
    qed
  qed
qed

end
