(* ===== verification/Host_Sdo_Server_Fixture.thy ===== *)
theory Host_Sdo_Server_Fixture
  imports Phases
begin

text \<open>
  The test objects that the master's own SDO server offers during the SDO client validation
  (\<open>src/host_sdo_server_fixture.cpp\<close>): installation, removal and access under the master's lock.  The
  lock only excludes the callbacks, which the model lets run at every call.
\<close>

section \<open>State\<close>

definition kU32Index :: u16 where "kU32Index = 0x2F00"
definition kOctetsIndex :: u16 where "kOctetsIndex = 0x2F01"
definition kReadOnlyIndex :: u16 where "kReadOnlyIndex = 0x2F02"
definition kSubindex :: u8 where "kSubindex = 0"
definition kInitialU32 :: u32 where "kInitialU32 = 0x13579BDF"
definition kInitialOctet :: u8 where "kInitialOctet = 0x5A"
definition kReadOnlyValue :: u32 where "kReadOnlyValue = 0xA5A55A5A"

lemmas fixture_const_defs = kU32Index_def kOctetsIndex_def kReadOnlyIndex_def kSubindex_def kInitialU32_def
  kInitialOctet_def kReadOnlyValue_def

text \<open>Whether the pointers are set: the object each of them owns is named by its index.\<close>

record HostSdoServerFixture =
  u32_object :: bool
  octets_object :: bool
  readonly_object :: bool
  installed :: bool

definition newFixture :: HostSdoServerFixture where
  "newFixture = \<lparr>u32_object = False, octets_object = False, readonly_object = False, installed = False\<rparr>"

section \<open>Operations\<close>

text \<open>\<open>co_obj_destroy\<close> has no result.\<close>

definition destroyObject :: "lely \<Rightarrow> u16 \<Rightarrow> unit host" where
  "destroyObject M index = do { ok \<leftarrow> od_do M (OdDestroy index); return () }"

text \<open>The sub-object of a new object, created, given its access and inserted; a sub-object that belongs to no
  object is destroyed on its own.\<close>

definition createSub :: "lely \<Rightarrow> u16 \<Rightarrow> od_type \<Rightarrow> od_access \<Rightarrow> bool host" where
  "createSub M index type access = do {
     sub \<leftarrow> od_do M (OdCreateSub index kSubindex type);
     ready \<leftarrow> (if \<not> sub then return False else andM (od_do M (OdSetAccess index access)) (od_do M (OdInsertSub index)));
     if \<not> ready then do {
       attached \<leftarrow> (if sub then od_ask M (OdAttached index) else return True);
       (if sub \<and> \<not> attached then do { ok \<leftarrow> od_do M (OdDestroySub index); return () } else return ());
       destroyObject M index;
       return False }
     else return True }"

definition createU32Object :: "lely \<Rightarrow> u16 \<Rightarrow> od_access \<Rightarrow> u32 \<Rightarrow> bool host" where
  "createU32Object M index access v = do {
     candidate \<leftarrow> od_do M (OdCreate index);
     if \<not> candidate then return False
     else do {
       ready \<leftarrow> createSub M index UNSIGNED32 access;
       if \<not> ready then return False
       else do {
         (written, clear) \<leftarrow> od_set M index (V32 v);
         if written \<noteq> 4 then do { destroyObject M index; return False } else return True } } }"

definition createOctetObject :: "lely \<Rightarrow> bool host" where
  "createOctetObject M = do {
     candidate \<leftarrow> od_do M (OdCreate kOctetsIndex);
     if \<not> candidate then return False
     else do {
       ready \<leftarrow> createSub M kOctetsIndex OCTET_STRING ACCESS_RW;
       if \<not> ready then return False
       else do {
         (written, clear) \<leftarrow> od_set M kOctetsIndex (VOctets [kInitialOctet]);
         if written \<noteq> 1 then do { destroyObject M kOctetsIndex; return False } else return True } } }"

definition uninstallLocked :: "lely \<Rightarrow> HostSdoServerFixture \<Rightarrow> HostSdoServerFixture host" where
  "uninstallLocked M fx = do {
     (if readonly_object fx then destroyObject M kReadOnlyIndex else return ());
     (if octets_object fx then destroyObject M kOctetsIndex else return ());
     (if u32_object fx then destroyObject M kU32Index else return ());
     return newFixture }"

text \<open>The objects are created one after the other, each pointer set only by a complete creation, and then
  inserted into the dictionary.\<close>

definition buildObjects :: "lely \<Rightarrow> HostSdoServerFixture \<Rightarrow> (bool \<times> HostSdoServerFixture) host" where
  "buildObjects M fx = do {
     created \<leftarrow> createU32Object M kU32Index ACCESS_RW kInitialU32;
     if \<not> created then return (False, fx)
     else do {
       let fx = fx\<lparr>u32_object := True\<rparr>;
       created \<leftarrow> createOctetObject M;
       if \<not> created then return (False, fx)
       else do {
         let fx = fx\<lparr>octets_object := True\<rparr>;
         created \<leftarrow> createU32Object M kReadOnlyIndex ACCESS_RO kReadOnlyValue;
         if \<not> created then return (False, fx)
         else do {
           let fx = fx\<lparr>readonly_object := True\<rparr>;
           inserted \<leftarrow> allM [od_do M (OdInsert kU32Index), od_do M (OdInsert kOctetsIndex),
             od_do M (OdInsert kReadOnlyIndex)];
           return (inserted, fx) } } } }"

definition anyFound :: "lely \<Rightarrow> bool host" where
  "anyFound M = do {
     u32 \<leftarrow> od_ask M (OdFind kU32Index);
     if u32 then return True
     else do {
       octets \<leftarrow> od_ask M (OdFind kOctetsIndex);
       if octets then return True else od_ask M (OdFind kReadOnlyIndex) } }"

definition install :: "lely \<Rightarrow> HostSdoServerFixture \<Rightarrow> (bool \<times> HostSdoServerFixture) host" where
  "install M fx =
     (if installed fx then return (True, fx)
      else do {
        available \<leftarrow> andM (od_ask M OdDevice) (od_ask M OdServer);
        if \<not> available then return (False, fx)
        else do {
          used \<leftarrow> anyFound M;
          if used then return (False, fx)
          else do {
            (built, fx) \<leftarrow> buildObjects M fx;
            if \<not> built then do { fx \<leftarrow> uninstallLocked M fx; return (False, fx) }
            else return (True, fx\<lparr>installed := True\<rparr>) } } })"

definition uninstall :: "lely \<Rightarrow> HostSdoServerFixture \<Rightarrow> HostSdoServerFixture host" where
  "uninstall M fx = uninstallLocked M fx"

text \<open>Access needs the fixture, the device and the sub-object.\<close>

definition findFixtureSub :: "lely \<Rightarrow> HostSdoServerFixture \<Rightarrow> u16 \<Rightarrow> bool host" where
  "findFixtureSub M fx index =
     (if \<not> installed fx then return False
      else do {
        device \<leftarrow> od_ask M OdDevice;
        if \<not> device then return False else od_ask M (OdFindSub index kSubindex) })"

definition readU32 :: "lely \<Rightarrow> HostSdoServerFixture \<Rightarrow> u32 \<Rightarrow> (bool \<times> u32) host" where
  "readU32 M fx v = do {
     sub \<leftarrow> findFixtureSub M fx kU32Index;
     if \<not> sub then return (False, v)
     else do { v \<leftarrow> od_get_u32 M kU32Index; return (True, v) } }"

definition writeU32 :: "lely \<Rightarrow> HostSdoServerFixture \<Rightarrow> u32 \<Rightarrow> bool host" where
  "writeU32 M fx v = do {
     sub \<leftarrow> findFixtureSub M fx kU32Index;
     if \<not> sub then return False
     else do { (written, clear) \<leftarrow> od_set M kU32Index (V32 v); return (written = 4) } }"

definition readOctets :: "lely \<Rightarrow> HostSdoServerFixture \<Rightarrow> u8 list \<Rightarrow> (bool \<times> u8 list) host" where
  "readOctets M fx v = do {
     sub \<leftarrow> findFixtureSub M fx kOctetsIndex;
     if \<not> sub then return (False, v)
     else do {
       (n, bytes) \<leftarrow> od_get_octets M kOctetsIndex;
       if n = 0 then return (True, [])
       else case bytes of None \<Rightarrow> return (False, v) | Some bs \<Rightarrow> return (True, take n bs) } }"

definition writeOctets :: "lely \<Rightarrow> HostSdoServerFixture \<Rightarrow> u8 list \<Rightarrow> bool host" where
  "writeOctets M fx v = do {
     sub \<leftarrow> findFixtureSub M fx kOctetsIndex;
     if \<not> sub then return False
     else do {
       (written, clear) \<leftarrow> od_set M kOctetsIndex (VOctets v);
       return (written = length v \<and> (written \<noteq> 0 \<or> clear)) } }"

section \<open>Footprint\<close>

text \<open>Everything the fixture changes belongs to its three objects.\<close>

definition fixture_index :: "u16 \<Rightarrow> bool" where
  "fixture_index index \<longleftrightarrow> index = 0x2F00 \<or> index = 0x2F01 \<or> index = 0x2F02"

fun fixture_objects :: "mutation \<Rightarrow> bool" where
  "fixture_objects (Od (OdCreate i)) \<longleftrightarrow> fixture_index i"
| "fixture_objects (Od (OdCreateSub i s T)) \<longleftrightarrow> fixture_index i \<and> s = 0"
| "fixture_objects (Od (OdSetAccess i a)) \<longleftrightarrow> fixture_index i"
| "fixture_objects (Od (OdInsertSub i)) \<longleftrightarrow> fixture_index i"
| "fixture_objects (Od (OdInsert i)) \<longleftrightarrow> fixture_index i"
| "fixture_objects (Od (OdDestroySub i)) \<longleftrightarrow> fixture_index i"
| "fixture_objects (Od (OdDestroy i)) \<longleftrightarrow> fixture_index i"
| "fixture_objects (OdSet i v) \<longleftrightarrow> fixture_index i"
| "fixture_objects _ \<longleftrightarrow> False"

lemma fixture_touch [emits_intro]:
  "touches fixture_objects (install M fx)" "touches fixture_objects (uninstall M fx)"
  "touches fixture_objects (writeU32 M fx v)" "touches fixture_objects (writeOctets M fx bs)"
  "touches S (readU32 M fx v)" "touches S (readOctets M fx bs)"
  unfolding install_def uninstall_def uninstallLocked_def buildObjects_def anyFound_def createU32Object_def createOctetObject_def
    createSub_def destroyObject_def writeU32_def writeOctets_def readU32_def readOctets_def findFixtureSub_def fixture_const_defs Let_def
  by (intro emits_intro; simp add: fixture_index_def emits_intro)+

section \<open>Ownership\<close>

text \<open>How many objects with an index exist that were created and not yet destroyed.\<close>

fun owned :: "u16 \<Rightarrow> history \<Rightarrow> int" where
  "owned i [] = 0"
| "owned i (EvOdCall (OdCreate j) ok # es) = owned i es + (if j = i \<and> ok then 1 else 0)"
| "owned i (EvOdCall (OdDestroy j) ok # es) = owned i es - (if j = i then 1 else 0)"
| "owned i (_ # es) = owned i es"

text \<open>The change of ownership by an operation.\<close>

definition gains :: "world \<Rightarrow> (u16 \<Rightarrow> int) \<Rightarrow> world \<Rightarrow> bool" where
  "gains u f w \<longleftrightarrow> (\<exists>es. hist w = es @ hist u \<and> (\<forall>i. owned i es = f i))"

lemma owned_append [simp]: "owned i (es @ fs) = owned i es + owned i fs"
proof (induction es)
  case (Cons e es)
  then show ?case by (cases e; simp; rename_tac c ok, case_tac c; simp)
qed simp

lemma gains_refl [simp]: "gains w (\<lambda>i. 0) w"
  by (auto simp: gains_def)

lemma gains_trans: "gains u f v \<Longrightarrow> gains v g w \<Longrightarrow> gains u (\<lambda>i. f i + g i) w"
  unfolding gains_def by (fastforce simp: add.commute)

lemma gains_cong: "gains u f w \<Longrightarrow> (\<And>i. f i = g i) \<Longrightarrow> gains u g w"
  by (simp add: gains_def)

abbreviation unowning :: "'a host \<Rightarrow> bool" where
  "unowning m \<equiv> emits (\<lambda>e. \<forall>i. owned i [e] = 0) m"

lemma gains_unowning:
  assumes "unowning m" and "gains u f w" and "\<And>a w'. gains u f w' \<Longrightarrow> Q a w'"
  shows "wp m Q w"
proof (rule wpI)
  fix a w' assume run: "run_state m w = (a, w')"
  obtain es where es: "hist w' = es @ hist w" "list_all (\<lambda>e. \<forall>i. owned i [e] = 0) es"
    using emitsD [OF assms(1) run] by auto
  have "owned i es = 0" for i
    using es(2)
  proof (induction es)
    case (Cons e es)
    then show ?case using owned_append [of i "[e]" es] by simp
  qed simp
  with es(1) have "gains w (\<lambda>i. 0) w'" by (auto simp: gains_def)
  from gains_trans [OF assms(2) this] show "Q a w'" by (intro assms(3)) simp
qed

lemma gains_create:
  assumes "gains u f w" and "\<And>ok w'. gains u (\<lambda>i. f i + of_bool (ok \<and> i = j)) w' \<Longrightarrow> Q ok w'"
  shows "wp (od_do M (OdCreate j)) Q w"
proof (rule wpi_objects)
  fix ok and w' :: world assume "hist w' = EvOdCall (OdCreate j) ok # hist w"
  then have "gains w (\<lambda>i. of_bool (ok \<and> i = j)) w'"
    unfolding gains_def by (intro exI [of _ "[EvOdCall (OdCreate j) ok]"]) auto
  from gains_trans [OF assms(1) this] show "Q ok w'" by (rule assms(2))
qed

lemma gains_destroy:
  assumes "gains u f w" and "\<And>w'. gains u (\<lambda>i. f i - of_bool (i = j)) w' \<Longrightarrow> Q () w'"
  shows "wp (destroyObject M j) Q w"
  unfolding destroyObject_def
proof (rule wpi_bind, rule wpi_objects, rule wpi_return)
  fix ok and w' :: world assume "hist w' = EvOdCall (OdDestroy j) ok # hist w"
  then have "gains w (\<lambda>i. - of_bool (i = j)) w'"
    unfolding gains_def by (intro exI [of _ "[EvOdCall (OdDestroy j) ok]"]) auto
  from gains_trans [OF assms(1) this] show "Q () w'" by (intro assms(2)) simp
qed

lemma unowning_calls [emits_intro]:
  "unowning (od_ask M q)" "unowning (od_set M i v)" "unowning (od_get_u32 M i)" "unowning (od_get_octets M i)"
  "unowning (od_do M (OdCreateSub i s T))" "unowning (od_do M (OdSetAccess i access))" "unowning (od_do M (OdInsertSub i))"
  "unowning (od_do M (OdInsert i))" "unowning (od_do M (OdDestroySub i))"
  by (rule emits_objects; simp)+

lemma unowning_steps [emits_intro]: "unowning (anyFound M)" "unowning (findFixtureSub M fx i)"
  unfolding anyFound_def findFixtureSub_def by (intro emits_intro)+

lemma createSub_gains:
  assumes "gains u f w" and "\<And>ok w'. gains u (\<lambda>i. f i - of_bool (\<not> ok \<and> i = j)) w' \<Longrightarrow> Q ok w'"
  shows "wp (createSub M j T access) Q w"
proof -
  have tail: "wp (do { (if p then do { ok \<leftarrow> od_do M (OdDestroySub j); return () } else return ());
      destroyObject M j; return False }) Q v" if "gains u f v" for p v
    by (rule wpi_bind, rule gains_unowning [OF _ that], (intro emits_intro), rule wpi_bind, erule gains_destroy)
       (use assms(2) [of False] in \<open>simp add: host_wp\<close>)
  show ?thesis
    unfolding createSub_def
    apply (rule wpi_bind, rule gains_unowning [OF _ assms(1)], intro emits_intro)
    apply (rule wpi_bind, rule gains_unowning, (intro emits_intro), assumption)
    apply (rule wpi_if)
    subgoal by (rule wpi_bind, rule gains_unowning, (intro emits_intro), assumption, erule tail)
    subgoal using assms(2) [of True] by (simp add: host_wp)
    done
qed

lemma createObject_gains:
  assumes "gains u f w" and "\<And>ok w'. gains u (\<lambda>i. f i + of_bool (ok \<and> i = j)) w' \<Longrightarrow> Q ok w'"
  shows "wp (do {
     candidate \<leftarrow> od_do M (OdCreate j);
     if \<not> candidate then return False
     else do {
       ready \<leftarrow> createSub M j T access;
       if \<not> ready then return False
       else do {
         (written, clear) \<leftarrow> od_set M j v;
         if written \<noteq> n then do { destroyObject M j; return False } else return True } } }) Q w"
  apply (rule wpi_bind, rule gains_create [OF assms(1)], rule wpi_if, rule wpi_return)
  subgoal using assms(2) [of False] by simp
  apply (rule wpi_bind, erule createSub_gains, rule wpi_if, rule wpi_return)
  subgoal using assms(2) [of False] by simp
  apply (rule wpi_bind, rule gains_unowning, rule emits_intro, assumption, rule wpi_case_prod, rule wpi_if)
  subgoal by (rule wpi_bind, erule gains_destroy, rule wpi_return) (use assms(2) [of False] in simp)
  subgoal using assms(2) [of True] by (simp add: host_wp)
  done

lemma create_gains:
  assumes "gains u f w"
  shows "(\<And>ok w'. gains u (\<lambda>i. f i + of_bool (ok \<and> i = j)) w' \<Longrightarrow> Q ok w') \<Longrightarrow> wp (createU32Object M j access v) Q w"
    and "(\<And>ok w'. gains u (\<lambda>i. f i + of_bool (ok \<and> i = kOctetsIndex)) w' \<Longrightarrow> Q ok w') \<Longrightarrow> wp (createOctetObject M) Q w"
  unfolding createU32Object_def createOctetObject_def by (rule createObject_gains [OF assms], blast)+

text \<open>The objects a fixture owns.\<close>

definition objects_of :: "HostSdoServerFixture \<Rightarrow> u16 \<Rightarrow> int" where
  "objects_of fx i = of_bool (i = kU32Index \<and> u32_object fx) + of_bool (i = kOctetsIndex \<and> octets_object fx) +
     of_bool (i = kReadOnlyIndex \<and> readonly_object fx)"

lemma objects_of_new [simp]: "objects_of newFixture i = 0"
  by (simp add: objects_of_def newFixture_def)

lemma uninstall_gains:
  assumes "gains u (\<lambda>i. f i + objects_of fx i) w" and "\<And>w'. gains u f w' \<Longrightarrow> Q newFixture w'"
  shows "wp (uninstallLocked M fx) Q w"
proof -
  have step: "wp (if own then destroyObject M j else return ()) R v"
    if "gains u (\<lambda>i. g i + of_bool (i = j \<and> own)) v" "\<And>w'. gains u g w' \<Longrightarrow> R () w'" for own j g R v
    by (cases own) (use that in \<open>auto simp: host_wp intro!: gains_destroy [OF that(1)] elim!: gains_cong\<close>)
  show ?thesis
    unfolding uninstallLocked_def
    apply (rule wpi_bind, rule step [where g = "\<lambda>i. f i + of_bool (i = kU32Index \<and> u32_object fx) + of_bool (i = kOctetsIndex \<and> octets_object fx)"])
    subgoal using assms(1) by (simp add: objects_of_def add.assoc)
    apply (rule wpi_bind, rule step [where g = "\<lambda>i. f i + of_bool (i = kU32Index \<and> u32_object fx)"], assumption)
    apply (rule wpi_bind, rule step [where g = f], assumption)
    apply (rule wpi_return, erule assms(2))
    done
qed

lemma buildObjects_gains:
  assumes "gains u f w" and "\<not> u32_object fx" "\<not> octets_object fx" "\<not> readonly_object fx"
    and "\<And>ok fx' w'. gains u (\<lambda>i. f i + objects_of fx' i) w' \<Longrightarrow> (ok \<Longrightarrow> u32_object fx' \<and> octets_object fx' \<and> readonly_object fx') \<Longrightarrow>
      Q (ok, fx') w'"
  shows "wp (buildObjects M fx) Q w"
  unfolding buildObjects_def Let_def
  apply (rule wpi_bind, rule create_gains(1) [OF assms(1)], rule wpi_if, rule wpi_return)
  subgoal by (rule assms(5)) (use assms(2-4) in \<open>auto simp: objects_of_def\<close>)
  apply (rule wpi_bind, erule create_gains(2), rule wpi_if, rule wpi_return)
  subgoal by (rule assms(5)) (use assms(2-4) in \<open>auto simp: objects_of_def elim!: gains_cong\<close>)
  apply (rule wpi_bind, erule create_gains(1), rule wpi_if, rule wpi_return)
  subgoal by (rule assms(5)) (use assms(2-4) in \<open>auto simp: objects_of_def elim!: gains_cong\<close>)
  apply (rule wpi_bind, rule gains_unowning, (simp, intro emits_intro), assumption, rule wpi_return)
  apply (rule assms(5))
  by (auto simp: objects_of_def assms(2-4) elim!: gains_cong)

text \<open>Installation is atomic: it succeeds with exactly the three objects owned, or it leaves none behind.\<close>

lemma install_gains:
  "wp (install M newFixture) (\<lambda>(ok, fx) w'. gains w (objects_of fx) w' \<and> installed fx = ok \<and>
     (if ok then u32_object fx \<and> octets_object fx \<and> readonly_object fx else fx = newFixture)) w"
proof -
  have none: "\<not> installed newFixture" "\<not> u32_object newFixture" "\<not> octets_object newFixture" "\<not> readonly_object newFixture"
    by (simp_all add: newFixture_def)
  have start: "gains v (\<lambda>i. 0) v" for v by simp
  have empty: "gains w (\<lambda>i. 0) v \<Longrightarrow> gains w (objects_of newFixture) v" for v by (erule gains_cong) simp
  show ?thesis
    unfolding install_def if_not_P [OF none(1)]
    apply (rule wpi_bind, rule gains_unowning [OF _ start], intro emits_intro, rule wpi_if, rule wpi_return)
    subgoal using none by (simp add: empty)
    apply (rule wpi_bind, rule gains_unowning [rotated], assumption, rule wpi_if, rule wpi_return)
    subgoal using none by (simp add: empty)
    apply (rule wpi_bind, erule buildObjects_gains, rule none, rule none, rule none)
    apply (rule wpi_case_prod, rule wpi_if, rule wpi_bind, rule uninstall_gains [where u = w and f = "\<lambda>i. 0"])
    subgoal by simp
    subgoal using none by (simp add: host_wp empty)
    subgoal by (auto simp: host_wp objects_of_def elim!: gains_cong)
    apply (intro emits_intro)
    done
qed

end
