(* ===== verification/Sdo_Client_Process.thy ===== *)
theory Sdo_Client_Process
  imports Host_Sdo_Server_Fixture
begin

text \<open>
  The SDO client validation of \<open>src/sdo_client_process.cpp\<close>: the device is asked through its control record to
  act as an SDO client, against its own dictionary, against the master's test objects and against a node that
  does not exist; each outcome is read back from the record and every changed value restored.
\<close>

section \<open>Constants\<close>

definition kControlIndex :: u16 where "kControlIndex = 0x2303"
definition kRequestSeqSub :: u8 where "kRequestSeqSub = 0x01"
definition kCommandSub :: u8 where "kCommandSub = 0x02"
definition kRemoteNodeSub :: u8 where "kRemoteNodeSub = 0x03"
definition kIndexSub :: u8 where "kIndexSub = 0x04"
definition kSubIndexSub :: u8 where "kSubIndexSub = 0x05"
definition kPayloadSizeSub :: u8 where "kPayloadSizeSub = 0x06"
definition kProbeValueSub :: u8 where "kProbeValueSub = 0x07"
definition kFlagsSub :: u8 where "kFlagsSub = 0x08"
definition kActiveSeqSub :: u8 where "kActiveSeqSub = 0x09"
definition kCompleteSeqSub :: u8 where "kCompleteSeqSub = 0x0A"
definition kResultSub :: u8 where "kResultSub = 0x0B"
definition kAbortCodeSub :: u8 where "kAbortCodeSub = 0x0C"
definition kTransferredSizeSub :: u8 where "kTransferredSizeSub = 0x0D"
definition kResultValueSub :: u8 where "kResultValueSub = 0x0E"
definition kChecksumSub :: u8 where "kChecksumSub = 0x0F"
definition kLocalControlIndex :: u16 where "kLocalControlIndex = 0x2200"
definition kMissingLocalIndex :: u16 where "kMissingLocalIndex = 0x2FFF"
definition kDeviceTypeIndex :: u16 where "kDeviceTypeIndex = 0x1000"
definition kMissingNodeId :: u8 where "kMissingNodeId = 126"
definition kUploadCommand :: u8 where "kUploadCommand = 1"
definition kDownloadCommand :: u8 where "kDownloadCommand = 2"
definition kNoFlags :: u8 where "kNoFlags = 0"
definition kBlockFlag :: u8 where "kBlockFlag = 0x01"
definition kU32Size :: u32 where "kU32Size = 4"
definition kSegmentedSize :: u32 where "kSegmentedSize = 48"
definition kSegmentedSeed :: u32 where "kSegmentedSeed = 0xA1B2C3D4"
definition kBlockRegressionSize :: u32 where "kBlockRegressionSize = 2048"
definition kBlockRegressionSeed :: u32 where "kBlockRegressionSeed = 0xB0212C3D"
definition kProbeValue_client :: u32 where "kProbeValue_client = 0x12345678"
definition kAlternateProbeValue_client :: u32 where "kAlternateProbeValue_client = 0x87654321"
definition kCompletionTimeoutMs :: nat where "kCompletionTimeoutMs = 2000"
definition kActiveTimeoutMs :: nat where "kActiveTimeoutMs = 500"
definition kMissingNodeProbeTimeoutMs :: nat where "kMissingNodeProbeTimeoutMs = 500"
definition kMissingNodeProbeMarginMs :: nat where "kMissingNodeProbeMarginMs = 250"
definition kPollIntervalMs :: nat where "kPollIntervalMs = 20"
definition kFnvOffset_client :: u32 where "kFnvOffset_client = 2166136261"
definition kFnvPrime_client :: u32 where "kFnvPrime_client = 16777619"
definition kAbortTimeout :: u32 where "kAbortTimeout = 0x05040000"
definition kAbortReadOnly :: u32 where "kAbortReadOnly = 0x06010002"
definition kAbortNotExist :: u32 where "kAbortNotExist = 0x06020000"

lemmas record_subs = kControlIndex_def kRequestSeqSub_def kCommandSub_def kRemoteNodeSub_def kIndexSub_def kSubIndexSub_def
  kPayloadSizeSub_def kProbeValueSub_def kFlagsSub_def kActiveSeqSub_def kCompleteSeqSub_def kResultSub_def
  kAbortCodeSub_def kTransferredSizeSub_def kResultValueSub_def kChecksumSub_def

section \<open>Data\<close>

text \<open>The terminal results the device publishes, in the order of their numbers.\<close>

datatype McuSdoClientResult = McuNONE | McuSUCCESS | McuABORT | McuTIMEOUT | McuRESET_CANCELLED |
  McuSETUP_ERROR | McuUNSUPPORTED | McuINTERNAL_ERROR

primrec resultCode :: "McuSdoClientResult \<Rightarrow> u32" where
  "resultCode McuNONE = 0"
| "resultCode McuSUCCESS = 1"
| "resultCode McuABORT = 2"
| "resultCode McuTIMEOUT = 3"
| "resultCode McuRESET_CANCELLED = 4"
| "resultCode McuSETUP_ERROR = 5"
| "resultCode McuUNSUPPORTED = 6"
| "resultCode McuINTERNAL_ERROR = 7"

record ClientRequest =
  cr_command :: u8
  cr_remote_node :: u8
  cr_index :: u16
  cr_subindex :: u8
  cr_payload_size :: u32
  cr_probe_value :: u32
  cr_flags :: u8

record ClientStatus =
  cs_active_seq :: u32
  cs_complete_seq :: u32
  cs_result :: u32
  cs_abort_code :: u32
  cs_transferred_size :: u32
  cs_result_value :: u32
  cs_checksum :: u32

definition default_status :: ClientStatus where
  "default_status = \<lparr>cs_active_seq = 0, cs_complete_seq = 0, cs_result = 0, cs_abort_code = 0,
     cs_transferred_size = 0, cs_result_value = 0, cs_checksum = 0\<rparr>"

section \<open>Payloads\<close>

definition patternByte_client :: "u32 \<Rightarrow> u32 \<Rightarrow> u8" where
  "patternByte_client seed offset =
     (let seed_byte = ucast (drop_bit (unat ((offset AND 0x03) * 8)) seed) :: u8
      in seed_byte XOR ucast offset)"

definition makePayload_client :: "u32 \<Rightarrow> u32 \<Rightarrow> u8 list" where
  "makePayload_client n seed = map (\<lambda>i. patternByte_client seed (of_nat i)) [0..<unat n]"

definition makeSegmentedPayload :: "u32 \<Rightarrow> u8 list" where
  "makeSegmentedPayload seed = makePayload_client kSegmentedSize seed"

definition fnvStep :: "u32 \<Rightarrow> u8 \<Rightarrow> u32" where
  "fnvStep v byte = (v XOR ucast byte) * kFnvPrime_client"

definition checksum_client :: "u8 list \<Rightarrow> u32" where
  "checksum_client data = foldl fnvStep kFnvOffset_client data"

section \<open>The control record\<close>

definition readControl :: "'a sdo_type \<Rightarrow> lely \<Rightarrow> u8 \<Rightarrow> 'a \<Rightarrow> (bool \<times> 'a) host" where
  "readControl T M subindex v = do {
     (result, v) \<leftarrow> readRemoteSdo T M CANOPEN_SLAVE_NODE_ID kControlIndex subindex v;
     return (result = SUCCESS, v) }"

definition writeControl :: "lely \<Rightarrow> u8 \<Rightarrow> sdo_value \<Rightarrow> bool host" where
  "writeControl M subindex v = do {
     result \<leftarrow> writeRemoteSdo M CANOPEN_SLAVE_NODE_ID kControlIndex subindex v;
     return (result = SUCCESS) }"

definition nextSequence :: "u32 \<Rightarrow> u32" where
  "nextSequence s = (if s + 1 = 0 then 1 else s + 1)"

definition nextRequestSequence :: "lely \<Rightarrow> u32 \<Rightarrow> (bool \<times> u32) host" where
  "nextRequestSequence M s = do {
     (ok, s) \<leftarrow> readControl tU32 M kRequestSeqSub s;
     if \<not> ok then return (False, s) else return (True, nextSequence s) }"

definition submitRequest :: "lely \<Rightarrow> ClientRequest \<Rightarrow> u32 \<Rightarrow> bool host" where
  "submitRequest M request s = andM
     (allM [writeControl M kCommandSub (V8 (cr_command request)), writeControl M kRemoteNodeSub (V8 (cr_remote_node request)),
        writeControl M kIndexSub (V16 (cr_index request)), writeControl M kSubIndexSub (V8 (cr_subindex request)),
        writeControl M kPayloadSizeSub (V32 (cr_payload_size request)), writeControl M kProbeValueSub (V32 (cr_probe_value request)),
        writeControl M kFlagsSub (V8 (cr_flags request))])
     (writeControl M kRequestSeqSub (V32 s))"

definition statusFields :: "lely \<Rightarrow> (ClientStatus \<Rightarrow> (bool \<times> ClientStatus) host) list" where
  "statusFields M = [
     readField (readControl tU32 M kActiveSeqSub) cs_active_seq (\<lambda>v c. c\<lparr>cs_active_seq := v\<rparr>),
     readField (readControl tI32 M kResultSub) cs_result (\<lambda>v c. c\<lparr>cs_result := v\<rparr>),
     readField (readControl tU32 M kAbortCodeSub) cs_abort_code (\<lambda>v c. c\<lparr>cs_abort_code := v\<rparr>),
     readField (readControl tU32 M kTransferredSizeSub) cs_transferred_size (\<lambda>v c. c\<lparr>cs_transferred_size := v\<rparr>),
     readField (readControl tU32 M kResultValueSub) cs_result_value (\<lambda>v c. c\<lparr>cs_result_value := v\<rparr>),
     readField (readControl tU32 M kChecksumSub) cs_checksum (\<lambda>v c. c\<lparr>cs_checksum := v\<rparr>)]"

fun readStatusAttempts :: "nat \<Rightarrow> lely \<Rightarrow> ClientStatus \<Rightarrow> (bool \<times> ClientStatus) host" where
  "readStatusAttempts 0 M status = return (False, status)"
| "readStatusAttempts (Suc n) M status = do {
     (ok, complete_before) \<leftarrow> readControl tU32 M kCompleteSeqSub 0;
     if \<not> ok then return (False, status)
     else do {
       (ok, candidate) \<leftarrow> readAll (statusFields M) default_status;
       if \<not> ok then return (False, status)
       else do {
         (ok, complete_after) \<leftarrow> readControl tU32 M kCompleteSeqSub 0;
         if \<not> ok then return (False, status)
         else if complete_before = complete_after then return (True, candidate\<lparr>cs_complete_seq := complete_after\<rparr>)
         else readStatusAttempts n M status } } }"

definition readStatus :: "lely \<Rightarrow> ClientStatus \<Rightarrow> (bool \<times> ClientStatus) host" where
  "readStatus M status = readStatusAttempts 3 M status"

definition sequenceBody :: "lely \<Rightarrow> u8 \<Rightarrow> u32 \<Rightarrow> unit \<Rightarrow> (unit + bool) host" where
  "sequenceBody M subindex s u = do {
     (ok, found) \<leftarrow> readControl tU32 M subindex 0;
     if \<not> ok then return (Inr False)
     else if found = s then return (Inr True)
     else do { sleep_for M (ms kPollIntervalMs); return (Inl ()) } }"

definition waitSequence :: "lely \<Rightarrow> u8 \<Rightarrow> u32 \<Rightarrow> nat \<Rightarrow> bool host" where
  "waitSequence M subindex s timeout_ms = do {
     start \<leftarrow> steady_now M;
     r \<leftarrow> deadline_do_while M (start + ms timeout_ms) (sequenceBody M subindex s) ();
     case r of Inr reached \<Rightarrow> return reached | Inl u \<Rightarrow> return False }"

definition activeBody :: "lely \<Rightarrow> u32 \<Rightarrow> unit \<Rightarrow> (unit + bool) host" where
  "activeBody M s u = do {
     (ok, active) \<leftarrow> readControl tU32 M kActiveSeqSub 0;
     if \<not> ok then return (Inr False)
     else do {
       (ok, complete) \<leftarrow> readControl tU32 M kCompleteSeqSub 0;
       if \<not> ok then return (Inr False)
       else if active = s \<and> complete \<noteq> s then return (Inr True)
       else if complete = s then return (Inr False)
       else do { sleep_for M (ms kPollIntervalMs); return (Inl ()) } } }"

definition waitActivePending :: "lely \<Rightarrow> u32 \<Rightarrow> nat \<Rightarrow> bool host" where
  "waitActivePending M s timeout_ms = do {
     start \<leftarrow> steady_now M;
     r \<leftarrow> deadline_do_while M (start + ms timeout_ms) (activeBody M s) ();
     case r of Inr pending \<Rightarrow> return pending | Inl u \<Rightarrow> return False }"

text \<open>The terminal status of a request that completed; nothing where the code returns false.\<close>

definition runTransaction :: "lely \<Rightarrow> ClientRequest \<Rightarrow> ClientStatus option host" where
  "runTransaction M request = do {
     (ok, s) \<leftarrow> nextRequestSequence M 0;
     if \<not> ok then return None
     else do {
       completed \<leftarrow> andM (submitRequest M request s) (waitSequence M kCompleteSeqSub s kCompletionTimeoutMs);
       if \<not> completed then return None
       else do {
         (ok, status) \<leftarrow> readStatus M default_status;
         if \<not> ok \<or> cs_complete_seq status \<noteq> s \<or> cs_active_seq status \<noteq> s then return None
         else return (Some status) } } }"

definition expectU32Success :: "ClientStatus \<Rightarrow> u32 \<Rightarrow> bool" where
  "expectU32Success status expected_value \<longleftrightarrow>
     \<not> (cs_result status \<noteq> resultCode McuSUCCESS \<or> cs_abort_code status \<noteq> 0 \<or>
        cs_transferred_size status \<noteq> kU32Size \<or> cs_result_value status \<noteq> expected_value)"

definition expectFailure :: "ClientStatus \<Rightarrow> McuSdoClientResult \<Rightarrow> u32 \<Rightarrow> bool" where
  "expectFailure status expected_result expected_abort \<longleftrightarrow>
     \<not> (cs_result status \<noteq> resultCode expected_result \<or> cs_abort_code status \<noteq> expected_abort)"

text \<open>\<open>runTransaction(...) && check(status)\<close>.\<close>

definition transactionOk :: "lely \<Rightarrow> ClientRequest \<Rightarrow> (ClientStatus \<Rightarrow> bool) \<Rightarrow> bool host" where
  "transactionOk M request check = do {
     r \<leftarrow> runTransaction M request;
     case r of None \<Rightarrow> return False | Some status \<Rightarrow> return (check status) }"

section \<open>Preconditions and restoration\<close>

definition verifyMissingNodePrecondition :: "lely \<Rightarrow> bool host" where
  "verifyMissingNodePrecondition M = do {
     (result, device_type) \<leftarrow> readRemoteSdoFor tU32 M kMissingNodeId kDeviceTypeIndex 0 0
       kMissingNodeProbeTimeoutMs kMissingNodeProbeMarginMs;
     return (result = SDO_TIMEOUT) }"

definition restoreLocalControl :: "lely \<Rightarrow> u32 \<Rightarrow> bool host" where
  "restoreLocalControl M original = do {
     result \<leftarrow> writeRemoteSdo M CANOPEN_SLAVE_NODE_ID kLocalControlIndex 0 (V32 original);
     if result \<noteq> SUCCESS then return False
     else do {
       (result, restored) \<leftarrow> readRemoteSdo tU32 M CANOPEN_SLAVE_NODE_ID kLocalControlIndex 0 0;
       return (\<not> (result \<noteq> SUCCESS \<or> restored \<noteq> original)) } }"

definition restoreFixtureU32 :: "lely \<Rightarrow> HostSdoServerFixture \<Rightarrow> u32 \<Rightarrow> bool host" where
  "restoreFixtureU32 M fx original = do {
     written \<leftarrow> writeU32 M fx original;
     if \<not> written then return False
     else do {
       (ok, restored) \<leftarrow> readU32 M fx 0;
       return (\<not> (\<not> ok \<or> restored \<noteq> original)) } }"

definition restoreFixtureOctets :: "lely \<Rightarrow> HostSdoServerFixture \<Rightarrow> u8 list \<Rightarrow> bool host" where
  "restoreFixtureOctets M fx original = do {
     written \<leftarrow> writeOctets M fx original;
     if \<not> written then return False
     else do {
       (ok, restored) \<leftarrow> readOctets M fx [];
       return (\<not> (\<not> ok \<or> restored \<noteq> original)) } }"

section \<open>Requests\<close>

definition uploadRequest :: "u8 \<Rightarrow> u16 \<Rightarrow> u8 \<Rightarrow> ClientRequest" where
  "uploadRequest node index flags = \<lparr>cr_command = kUploadCommand, cr_remote_node = node, cr_index = index,
     cr_subindex = 0, cr_payload_size = 0, cr_probe_value = 0, cr_flags = flags\<rparr>"

definition downloadRequest :: "u8 \<Rightarrow> u16 \<Rightarrow> u32 \<Rightarrow> u32 \<Rightarrow> u8 \<Rightarrow> ClientRequest" where
  "downloadRequest node index n v flags = \<lparr>cr_command = kDownloadCommand, cr_remote_node = node, cr_index = index,
     cr_subindex = 0, cr_payload_size = n, cr_probe_value = v, cr_flags = flags\<rparr>"

definition probeFor :: "u32 \<Rightarrow> u32" where
  "probeFor original = (if original = kProbeValue_client then kAlternateProbeValue_client else kProbeValue_client)"

definition transferOk :: "u32 \<Rightarrow> u8 list \<Rightarrow> ClientStatus \<Rightarrow> bool" where
  "transferOk n payload status \<longleftrightarrow> cs_result status = resultCode McuSUCCESS \<and> cs_abort_code status = 0 \<and>
     cs_transferred_size status = n \<and> cs_checksum status = checksum_client payload"

section \<open>Cases\<close>

definition uploadCase :: "lely \<Rightarrow> u8 \<Rightarrow> u16 \<Rightarrow> u32 \<Rightarrow> bool host" where
  "uploadCase M node index expected = transactionOk M (uploadRequest node index kNoFlags) (\<lambda>status. expectU32Success status expected)"

definition localDownloadCase :: "lely \<Rightarrow> u32 \<Rightarrow> bool host" where
  "localDownloadCase M original_local = (let local_probe = probeFor original_local in do {
     local_case_ok \<leftarrow> transactionOk M (downloadRequest CANOPEN_SLAVE_NODE_ID kLocalControlIndex kU32Size local_probe kNoFlags)
       (\<lambda>status. expectU32Success status local_probe);
     local_case_ok \<leftarrow> (if local_case_ok then do {
         (result, local_readback) \<leftarrow> readRemoteSdo tU32 M CANOPEN_SLAVE_NODE_ID kLocalControlIndex 0 0;
         return (result = SUCCESS \<and> local_readback = local_probe) }
       else return False);
     restored \<leftarrow> restoreLocalControl M original_local;
     if \<not> restored then return False else return local_case_ok })"

definition localAbortCase :: "lely \<Rightarrow> u32 \<Rightarrow> bool host" where
  "localAbortCase M original_local = andM
     (transactionOk M (uploadRequest CANOPEN_SLAVE_NODE_ID kMissingLocalIndex kNoFlags)
        (\<lambda>status. expectFailure status McuABORT kAbortNotExist))
     (uploadCase M CANOPEN_SLAVE_NODE_ID kLocalControlIndex original_local)"

definition remoteDownloadCase :: "lely \<Rightarrow> HostSdoServerFixture \<Rightarrow> u32 \<Rightarrow> bool host" where
  "remoteDownloadCase M fx remote_u32 = (let remote_probe = probeFor remote_u32 in do {
     transaction_ok \<leftarrow> transactionOk M (downloadRequest CANOPEN_MASTER_NODE_ID kU32Index kU32Size remote_probe kNoFlags)
       (\<lambda>status. expectU32Success status remote_probe);
     remote_case_ok \<leftarrow> (if transaction_ok then do {
         (ok, remote_readback) \<leftarrow> readU32 M fx 0;
         return (ok \<and> remote_readback = remote_probe) }
       else return False);
     restored \<leftarrow> restoreFixtureU32 M fx remote_u32;
     if \<not> restored then return False else return remote_case_ok })"

text \<open>An upload of a payload put into the test object, and a download checked in it; the block variants differ in
  size, seed and flags.\<close>

definition octetsUpload ::
    "lely \<Rightarrow> HostSdoServerFixture \<Rightarrow> u8 list \<Rightarrow> u32 \<Rightarrow> u8 list \<Rightarrow> u8 \<Rightarrow> bool host" where
  "octetsUpload M fx original n payload flags = do {
     upload_ok \<leftarrow> transactionOk M (uploadRequest CANOPEN_MASTER_NODE_ID kOctetsIndex flags) (transferOk n payload);
     restored \<leftarrow> restoreFixtureOctets M fx original;
     if \<not> restored then return False else return upload_ok }"

definition uploadOctetsCase :: "lely \<Rightarrow> HostSdoServerFixture \<Rightarrow> u32 \<Rightarrow> u32 \<Rightarrow> u8 \<Rightarrow> bool host" where
  "uploadOctetsCase M fx n seed flags = (let payload = makePayload_client n seed in do {
     (ok, original_octets) \<leftarrow> readOctets M fx [];
     if \<not> ok then return False
     else do {
       written \<leftarrow> writeOctets M fx payload;
       if \<not> written then do { restored \<leftarrow> restoreFixtureOctets M fx original_octets; return False }
       else octetsUpload M fx original_octets n payload flags } })"

definition octetsDownload :: "lely \<Rightarrow> HostSdoServerFixture \<Rightarrow> u8 list \<Rightarrow> u32 \<Rightarrow> u32 \<Rightarrow> u8 \<Rightarrow> bool host" where
  "octetsDownload M fx original n seed flags = (let payload = makePayload_client n seed in do {
     transaction_ok \<leftarrow> transactionOk M (downloadRequest CANOPEN_MASTER_NODE_ID kOctetsIndex n seed flags) (transferOk n payload);
     download_ok \<leftarrow> (if transaction_ok then do {
         (ok, downloaded_octets) \<leftarrow> readOctets M fx [];
         return (ok \<and> downloaded_octets = payload) }
       else return False);
     restored \<leftarrow> restoreFixtureOctets M fx original;
     if \<not> restored then return False else return download_ok })"

definition downloadOctetsCase :: "lely \<Rightarrow> HostSdoServerFixture \<Rightarrow> u8 list \<Rightarrow> u32 \<Rightarrow> u32 \<Rightarrow> u8 \<Rightarrow> (bool \<times> u8 list) host" where
  "downloadOctetsCase M fx before n seed flags = do {
     (ok, original_octets) \<leftarrow> readOctets M fx before;
     if \<not> ok then return (False, original_octets)
     else do {
       download_ok \<leftarrow> octetsDownload M fx original_octets n seed flags;
       return (download_ok, original_octets) } }"

definition remoteUpload :: "lely \<Rightarrow> u32 \<Rightarrow> bool host" where
  "remoteUpload M remote_u32 = uploadCase M CANOPEN_MASTER_NODE_ID kU32Index remote_u32"

definition readOnlyCase :: "lely \<Rightarrow> u32 \<Rightarrow> bool host" where
  "readOnlyCase M remote_u32 = andM
     (transactionOk M (downloadRequest CANOPEN_MASTER_NODE_ID kReadOnlyIndex kU32Size kProbeValue_client kNoFlags)
        (\<lambda>status. expectFailure status McuABORT kAbortReadOnly))
     (remoteUpload M remote_u32)"

definition timeoutCase :: "lely \<Rightarrow> u32 \<Rightarrow> bool host" where
  "timeoutCase M remote_u32 = andM
     (transactionOk M (uploadRequest kMissingNodeId kU32Index kNoFlags) (\<lambda>status. expectFailure status McuTIMEOUT kAbortTimeout))
     (remoteUpload M remote_u32)"

definition resetCase :: "lely \<Rightarrow> bool host" where
  "resetCase M = do {
     (ok, s) \<leftarrow> nextRequestSequence M 0;
     if \<not> ok then return False
     else do {
       started \<leftarrow> andM (submitRequest M (uploadRequest kMissingNodeId kU32Index kNoFlags) s)
         (waitActivePending M s kActiveTimeoutMs);
       if \<not> started then return False
       else do {
         prepareBootWait;
         reset \<leftarrow> andM (issueNmtCommand M RESET_COMM CANOPEN_SLAVE_NODE_ID) (waitForBootCompletion M CANOPEN_WAIT_TIMEOUT_MS);
         if \<not> reset then return False
         else do {
           cancelled \<leftarrow> waitSequence M kCompleteSeqSub s kCompletionTimeoutMs;
           if \<not> cancelled then return False
           else do {
             (ok, status) \<leftarrow> readStatus M default_status;
             return (\<not> (\<not> ok \<or> cs_active_seq status \<noteq> s \<or> cs_complete_seq status \<noteq> s \<or>
               cs_result status \<noteq> resultCode McuRESET_CANCELLED \<or> cs_abort_code status \<noteq> 0)) } } } } }"

text \<open>The cases of the block-transfer regression; the last one runs an ordinary segmented upload again.  Its
  failed preparation restores the original unless that is empty.\<close>

definition postBlockCase :: "lely \<Rightarrow> HostSdoServerFixture \<Rightarrow> u8 list \<Rightarrow> bool host" where
  "postBlockCase M fx block_original = (let segmented = makeSegmentedPayload kSegmentedSeed in do {
     (ok, block_original) \<leftarrow> readOctets M fx block_original;
     prepared \<leftarrow> (if ok then writeOctets M fx segmented else return False);
     if \<not> prepared then do {
       (if block_original \<noteq> [] then do { restored \<leftarrow> restoreFixtureOctets M fx block_original; return () } else return ());
       return False }
     else octetsUpload M fx block_original kSegmentedSize segmented kNoFlags })"

definition blockRegression :: "lely \<Rightarrow> HostSdoServerFixture \<Rightarrow> bool host" where
  "blockRegression M fx = do {
     uploaded \<leftarrow> uploadOctetsCase M fx kBlockRegressionSize kBlockRegressionSeed kBlockFlag;
     if \<not> uploaded then return False
     else do {
       (downloaded, block_original) \<leftarrow> downloadOctetsCase M fx [] kBlockRegressionSize kBlockRegressionSeed kBlockFlag;
       if \<not> downloaded then return False else postBlockCase M fx block_original } }"

definition segmentedDownloadCase :: "lely \<Rightarrow> HostSdoServerFixture \<Rightarrow> bool host" where
  "segmentedDownloadCase M fx = do {
     (downloaded, original_octets) \<leftarrow> downloadOctetsCase M fx [] kSegmentedSize kSegmentedSeed kNoFlags;
     return downloaded }"

section \<open>The process\<close>

definition remoteCases :: "lely \<Rightarrow> HostSdoServerFixture \<Rightarrow> bool \<Rightarrow> u32 \<Rightarrow> bool host" where
  "remoteCases M fx block_regression remote_u32 = allM [remoteUpload M remote_u32, remoteDownloadCase M fx remote_u32,
     uploadOctetsCase M fx kSegmentedSize kSegmentedSeed kNoFlags, segmentedDownloadCase M fx,
     readOnlyCase M remote_u32, timeoutCase M remote_u32, resetCase M, remoteUpload M remote_u32,
     if block_regression then blockRegression M fx else return True]"

definition clientCases :: "lely \<Rightarrow> HostSdoServerFixture \<Rightarrow> bool \<Rightarrow> bool host" where
  "clientCases M fx block_regression = do {
     (result, original_local) \<leftarrow> readRemoteSdo tU32 M CANOPEN_SLAVE_NODE_ID kLocalControlIndex 0 0;
     if result \<noteq> SUCCESS then return False
     else do {
       local_ok \<leftarrow> allM [uploadCase M CANOPEN_SLAVE_NODE_ID kLocalControlIndex original_local,
         localDownloadCase M original_local, localAbortCase M original_local];
       if \<not> local_ok then return False
       else do {
         (ok, remote_u32) \<leftarrow> readU32 M fx 0;
         if \<not> ok then return False else remoteCases M fx block_regression remote_u32 } } }"

text \<open>The fixture lives from its construction to every return; its destructor removes the objects.  The flag is
  the build option \<open>CANOPEN_ENABLE_SDO_CLIENT_BLOCK_REGRESSION\<close>.\<close>

definition sdoClientProcess :: "lely \<Rightarrow> bool \<Rightarrow> int host" where
  "sdoClientProcess M block_regression = do {
     missing \<leftarrow> verifyMissingNodePrecondition M;
     if \<not> missing then return 1
     else do {
       (ready, fx) \<leftarrow> install M newFixture;
       passed \<leftarrow> (if \<not> ready then return False else clientCases M fx block_regression);
       fx \<leftarrow> uninstall M fx;
       return (if passed then 0 else 1) } }"

section \<open>Footprint\<close>

text \<open>The cases write the request part of the control record, the device's local control object and the values of
  the test objects, and reset the communication of the device once; only the fixture creates and removes objects.\<close>

fun case_objects :: "mutation \<Rightarrow> bool" where
  "case_objects (RemoteWrite n i s v) \<longleftrightarrow>
     n = CANOPEN_SLAVE_NODE_ID \<and> (i = 0x2303 \<and> 1 \<le> s \<and> s \<le> 8 \<or> i = 0x2200 \<and> s = 0 \<and> (\<exists>x. v = V32 x))"
| "case_objects (Nmt cmd n) \<longleftrightarrow> cmd = RESET_COMM \<and> n = CANOPEN_SLAVE_NODE_ID"
| "case_objects (OdSet i v) \<longleftrightarrow> i = 0x2F00 \<and> (\<exists>x. v = V32 x) \<or> i = 0x2F01 \<and> (\<exists>bs. v = VOctets bs)"
| "case_objects _ \<longleftrightarrow> False"

definition client_objects :: "mutation \<Rightarrow> bool" where
  "client_objects x \<longleftrightarrow> case_objects x \<or> fixture_objects x"

lemma control_touches [emits_intro]:
  "touches S (readControl T M s v)"
  "S (RemoteWrite CANOPEN_SLAVE_NODE_ID 0x2303 s x) \<Longrightarrow> touches S (writeControl M s x)"
  unfolding readControl_def writeControl_def kControlIndex_def by (intro emits_intro | assumption)+

lemma readStatus_touches [emits_intro]: "touches S (readStatus M st)"
proof -
  have fields: "touches S (readAll (statusFields M) v)" for v
    unfolding statusFields_def by (intro emits_intro) (auto intro!: emits_intro)
  have "touches S (readStatusAttempts n M st)" for n
    by (induction n) (auto intro!: emits_intro fields)
  then show ?thesis by (simp add: readStatus_def)
qed

lemma waits_touch [emits_intro]:
  "touches S (nextRequestSequence M s)" "touches S (waitSequence M i s t)" "touches S (waitActivePending M s t)"
  unfolding nextRequestSequence_def waitSequence_def sequenceBody_def waitActivePending_def activeBody_def
  by (intro emits_intro)+

lemma transaction_touches [emits_intro]:
  "touches case_objects (submitRequest M request s)" "touches case_objects (runTransaction M request)"
  "touches case_objects (transactionOk M request check)"
proof -
  show submit: "touches case_objects (submitRequest M request s)" for s
    unfolding submitRequest_def record_subs by (intro emits_intro) (auto intro!: emits_intro)
  show run: "touches case_objects (runTransaction M request)"
    unfolding runTransaction_def by (intro emits_intro submit)
  show "touches case_objects (transactionOk M request check)"
    unfolding transactionOk_def by (intro emits_intro run)
qed

lemma restoration_touches [emits_intro]:
  "touches case_objects (restoreLocalControl M x)" "touches case_objects (restoreFixtureU32 M fx x)"
  "touches case_objects (restoreFixtureOctets M fx bs)" "touches case_objects (writeOctets M fx bs)"
  unfolding restoreLocalControl_def restoreFixtureU32_def restoreFixtureOctets_def writeU32_def writeOctets_def
    findFixtureSub_def kLocalControlIndex_def fixture_const_defs
  by (intro emits_intro; simp add: emits_intro)+

lemma cases_touch [emits_intro]:
  "touches case_objects (uploadCase M n i x)" "touches case_objects (localDownloadCase M x)"
  "touches case_objects (localAbortCase M x)" "touches case_objects (remoteDownloadCase M fx x)"
  "touches case_objects (uploadOctetsCase M fx k seed flags)" "touches case_objects (downloadOctetsCase M fx bs k seed flags)"
  "touches case_objects (readOnlyCase M x)" "touches case_objects (timeoutCase M x)" "touches case_objects (resetCase M)"
  unfolding uploadCase_def localDownloadCase_def localAbortCase_def remoteDownloadCase_def uploadOctetsCase_def
    octetsUpload_def octetsDownload_def downloadOctetsCase_def readOnlyCase_def timeoutCase_def resetCase_def remoteUpload_def Let_def
  by (intro emits_intro; simp add: emits_intro)+

lemma blockRegression_touches [emits_intro]:
  "touches case_objects (blockRegression M fx)" "touches case_objects (remoteUpload M x)"
  "touches case_objects (segmentedDownloadCase M fx)"
  unfolding blockRegression_def postBlockCase_def octetsUpload_def remoteUpload_def segmentedDownloadCase_def Let_def
  by (intro emits_intro)+

lemma clientCases_touches [emits_intro]: "touches case_objects (clientCases M fx b)"
  unfolding clientCases_def remoteCases_def by (intro emits_intro; simp add: emits_intro)

lemma sdoClientProcess_touches: "touches client_objects (sdoClientProcess M b)"
  unfolding sdoClientProcess_def verifyMissingNodePrecondition_def
  by (intro emits_intro touches_weaken [OF fixture_touch(1)] touches_weaken [OF fixture_touch(2)]
      touches_weaken [OF clientCases_touches]; simp add: client_objects_def)

section \<open>Ownership\<close>

lemma touches_unowning:
  assumes "touches S m" and "\<And>c. \<not> S (Od c)"
  shows "unowning m"
proof (rule emits_weaken [OF assms(1)])
  fix e assume "allowed S e"
  then show "\<forall>i. owned i [e] = 0" using assms(2) by (cases e) (auto simp: allowed_def)
qed

text \<open>Every run of the process, whatever the answers, destroys every object it created.\<close>

lemma sdoClientProcess_gains: "wp (sdoClientProcess M b) (\<lambda>r w'. gains w (\<lambda>i. 0) w') w"
proof -
  have start: "gains w (\<lambda>i. 0) w" by simp
  have none: "unowning (verifyMissingNodePrecondition M)"
    by (rule touches_unowning [where S = "\<lambda>_. False"]) (auto simp: verifyMissingNodePrecondition_def intro!: emits_intro)
  have cases: "unowning (if ok then return False else clientCases M fx b)" for ok fx
    by (rule touches_unowning [where S = case_objects]) (auto intro!: emits_intro)
  show ?thesis
    unfolding sdoClientProcess_def
  proof (rule wpi_bind, rule gains_unowning [OF none start], rule wpi_if, rule wpi_return)
    fix v assume v: "gains w (\<lambda>i. 0) v"
    have "wp (install M newFixture) (\<lambda>(ok, fx) u. gains w (objects_of fx) u) v"
    proof (rule wp_mono [OF install_gains], clarify)
      fix ok fx u assume "gains v (objects_of fx) u"
      from gains_trans [OF v this] show "gains w (objects_of fx) u" by simp
    qed
    then show "wp (do { (ready, fx) \<leftarrow> install M newFixture;
        passed \<leftarrow> (if \<not> ready then return False else clientCases M fx b);
        fx \<leftarrow> uninstall M fx;
        return (if passed then 0 else 1) }) (\<lambda>r w'. gains w (\<lambda>i. 0) w') v"
      unfolding uninstall_def
      apply (intro wpi_bind, elim wp_mono, intro wpi_case_prod wpi_bind)
      apply (rule gains_unowning [OF cases], fastforce)
      apply (rule wpi_bind, rule uninstall_gains [where f = "\<lambda>i. 0"], fastforce, rule wpi_return, assumption)
      done
  qed (use start in simp_all)
qed

end
