(* ===== verification/Sdo_Client_Runs.thy ===== *)
theory Sdo_Client_Runs
  imports Sdo_Client_Process
begin

text \<open>
  What runs of the SDO client validation show: the phases of a transaction, of every case and of a whole
  successful run, and the restoration that ends each case that changes a value.
\<close>

section \<open>The control record\<close>

lemma displays_after: "quiet u v \<Longrightarrow> displays i s x v w \<Longrightarrow> displays i s x u w"
  unfolding displays_def quiet_def by (elim exE conjE) (metis append_assoc append_Cons mutations_simps(3) append_Nil)

lemma wpi_readControl:
  assumes "\<And>ok v w'. quiet w w' \<Longrightarrow> (ok \<Longrightarrow> displays 0x2303 s (t_value T v) w w') \<Longrightarrow> Q (ok, v) w'"
  shows "wp (readControl T M s v0) Q w"
  unfolding readControl_def kControlIndex_def
proof (intro wpi_bind wpi_saw_upload wpi_case_prod wpi_return)
  fix r v e x y and w' :: world
  assume h: "hist w' = e # hist w" "mutation_of e = None" "r = SUCCESS \<Longrightarrow> saw CANOPEN_SLAVE_NODE_ID 0x2303 s (t_value T v) e"
    and r: "(r, v) = (x, y)"
  show "Q (x = SUCCESS, y) w'"
    by (rule assms) (use h r in \<open>auto simp: quiet_def displays_def intro: exI [of _ "[e]"] exI [of _ "[]"]\<close>)
qed

lemma writeControl_performs: "performs (writeControl M s v) (stored [(0x2303, s, v)])"
  unfolding performs_def writeControl_def kControlIndex_def
  by (intro allI wp_intro) (auto simp: stored_def outcome_SUCCESS_iff intro!: exI [of _ "[e]" for e])

lemma stored_all: "list_all2 (\<lambda>m x. performs m (stored [x])) ops xs \<Longrightarrow> performs (allM ops) (stored xs)"
proof (induction rule: list_all2_induct)
  case (Cons m ops x xs)
  then show ?case
    using stored_append [of "[x]" _ _ xs] by (auto intro: performs_andM)
qed (simp add: performs_def host_wp)

text \<open>The fields of a request with the sequence last.\<close>

definition request_writes :: "ClientRequest \<Rightarrow> u32 \<Rightarrow> reading list" where
  "request_writes r s = [(0x2303, 2, V8 (cr_command r)), (0x2303, 3, V8 (cr_remote_node r)), (0x2303, 4, V16 (cr_index r)),
     (0x2303, 5, V8 (cr_subindex r)), (0x2303, 6, V32 (cr_payload_size r)), (0x2303, 7, V32 (cr_probe_value r)),
     (0x2303, 8, V8 (cr_flags r)), (0x2303, 1, V32 s)]"

lemma submitRequest_performs: "performs (submitRequest M r s) (stored (request_writes r s))"
  unfolding submitRequest_def
  by (rule performs_andM [OF stored_all [where xs = "butlast (request_writes r s)"] writeControl_performs])
     (auto simp: request_writes_def record_subs writeControl_performs dest: stored_append)

lemma nextRequestSequence_displays:
  "wp (nextRequestSequence M s0) (\<lambda>(ok, s) w'. ok \<longrightarrow> (\<exists>q. s = nextSequence q \<and> displays 0x2303 1 (V32 q) w w')) w"
  unfolding nextRequestSequence_def
  by (rule wpi_bind, rule wpi_readControl) (auto simp: host_wp record_subs)

text \<open>A poll until a deadline: what a round that ends the poll shows holds from its start.\<close>

lemma poll_performs:
  assumes body: "\<And>v. wp (body ()) (\<lambda>r w'. case r of Inl s' \<Rightarrow> quiet v w' | Inr ok \<Rightarrow> ok \<longrightarrow> P v w') v"
    and carry: "\<And>u v w'. quiet u v \<Longrightarrow> P v w' \<Longrightarrow> P u w'"
  shows "performs (do { start \<leftarrow> steady_now M; r \<leftarrow> deadline_do_while M (start + d) body ();
     case r of Inr ok \<Rightarrow> return ok | Inl u \<Rightarrow> return False }) P"
proof (rule performsI)
  fix w :: world
  have loop: "wp (deadline_do_while M deadline body ()) (\<lambda>r w'. case r of Inr ok \<Rightarrow> ok \<longrightarrow> P w w' | Inl u \<Rightarrow> True) u"
    if "quiet w u" for deadline u
  proof (rule wp_deadline_do_while [where I = "\<lambda>_ v. quiet w v"])
    fix x :: unit and v assume v: "quiet w v"
    show "wp (body x) (\<lambda>r w'. case r of Inl s' \<Rightarrow> quiet w w'
        | Inr a \<Rightarrow> (case Inr a of Inr ok \<Rightarrow> ok \<longrightarrow> P w w' | Inl u \<Rightarrow> True)) v"
      unfolding unit_eq [of x] by (rule wp_mono [OF body [of v]]) (auto split: sum.splits intro: quiet_trans [OF v] carry [OF v])
  qed (use that in \<open>auto simp: quiet_def\<close>)
  show "wp (do { start \<leftarrow> steady_now M; r \<leftarrow> deadline_do_while M (start + d) body ();
      case r of Inr ok \<Rightarrow> return ok | Inl u \<Rightarrow> return False }) (\<lambda>ok w'. ok \<longrightarrow> P w w') w"
    by (rule wpi_bind, rule wpi_steady_now, rule wpi_bind, rule wp_mono [OF loop])
       (auto simp: quiet_def host_wp split: sum.splits)
qed

lemma pause_quiet:
  assumes "quiet w v"
  shows "wp (do { sleep_for M t; return (Inl ()) }) (\<lambda>r w'. case r of Inl s' \<Rightarrow> quiet w w' | Inr a \<Rightarrow> R a w') v"
  by (rule wpi_bind, rule wp_quiet [where m = "sleep_for M t"], rule emits_intro)
     (use assms in \<open>auto simp: host_wp intro: quiet_trans\<close>)

lemma waitSequence_performs: "performs (waitSequence M i s t) (displays 0x2303 i (V32 s))"
  unfolding waitSequence_def
proof (rule poll_performs)
  fix v
  show "wp (sequenceBody M i s ()) (\<lambda>r w'. case r of Inl s' \<Rightarrow> quiet v w' | Inr ok \<Rightarrow> ok \<longrightarrow> displays 0x2303 i (V32 s) v w') v"
    unfolding sequenceBody_def
    by (rule wpi_bind, rule wpi_readControl) (auto simp: host_wp intro: pause_quiet [unfolded wp_bind])
qed (rule displays_after)

text \<open>The request is active and not complete.\<close>

definition request_active :: "u32 \<Rightarrow> phase" where
  "request_active s w w' \<longleftrightarrow> (\<exists>c. c \<noteq> s \<and> stages [displays 0x2303 9 (V32 s), displays 0x2303 10 (V32 c)] w w')"

lemma waitActivePending_performs: "performs (waitActivePending M s t) (request_active s)"
  unfolding waitActivePending_def
proof (rule poll_performs)
  fix v
  show "wp (activeBody M s ()) (\<lambda>r w'. case r of Inl s' \<Rightarrow> quiet v w' | Inr ok \<Rightarrow> ok \<longrightarrow> request_active s v w') v"
    unfolding activeBody_def
    apply (rule wpi_bind, rule wpi_readControl, rule wpi_case_prod, rule wpi_if, simp add: host_wp)
    apply (rule wpi_bind, rule wpi_readControl)
    apply (auto simp: host_wp request_active_def record_subs intro!: pause_quiet [unfolded wp_bind] intro: quiet_trans)
    done
qed (auto simp: request_active_def intro: displays_after)

section \<open>Transactions\<close>

text \<open>A coherent snapshot: the completed sequence reads the same before and after the fields.\<close>

definition status_readings :: "ClientStatus \<Rightarrow> reading list" where
  "status_readings c = [(0x2303, 9, V32 (cs_active_seq c)), (0x2303, 11, VI32 (cs_result c)),
     (0x2303, 12, V32 (cs_abort_code c)), (0x2303, 13, V32 (cs_transferred_size c)),
     (0x2303, 14, V32 (cs_result_value c)), (0x2303, 15, V32 (cs_checksum c))]"

definition snapshot :: "ClientStatus \<Rightarrow> phase" where
  "snapshot c = stages [displays 0x2303 10 (V32 (cs_complete_seq c)), exhibits (status_readings c),
     displays 0x2303 10 (V32 (cs_complete_seq c))]"

lemma exhibits_start: "exhibits [] w w"
  by (simp add: exhibits_def)

lemma exhibits_step: "exhibits xs u v \<Longrightarrow> displays i s x v w \<Longrightarrow> exhibits (xs @ [(i, s, x)]) u w"
  using exhibits_trans displays_exhibits by blast

lemma statusFields_exhibit:
  "wp (readAll (statusFields M) c0) (\<lambda>(ok, c) w'. quiet w w' \<and>
     (ok \<longrightarrow> cs_complete_seq c = cs_complete_seq c0 \<and> exhibits (status_readings c) w w')) w"
proof -
  have step: "wp (readControl T M s v0) (\<lambda>(ok, v) w'. if ok then wp (readAll fs (put v c)) Q w' else Q (False, put v c) w') v"
    if "exhibits xs w v" "\<And>x u. quiet w u \<Longrightarrow> Q (False, x) u"
      "\<And>x u. exhibits (xs @ [(0x2303, s, t_value T x)]) w u \<Longrightarrow> wp (readAll fs (put x c)) Q u"
    for T :: "u32 sdo_type" and s v0 fs put c Q v xs
    by (rule wpi_readControl)
       (use that exhibits_step [OF that(1)] in \<open>auto simp: exhibits_def [of _ w v] intro: quiet_trans\<close>)
  show ?thesis
    unfolding statusFields_def record_subs
    apply (rule readAll_step, rule step [OF exhibits_start], simp)
    apply (rule readAll_step, rule step, assumption, simp)+
    apply (rule readAll_end)
    apply (auto simp: status_readings_def exhibits_def default_status_def)
    done
qed

lemma readStatus_snapshot: "wp (readStatus M c0) (\<lambda>(ok, c) w'. quiet w w' \<and> (ok \<longrightarrow> (\<exists>v. quiet w v \<and> snapshot c v w'))) w"
proof -
  have "wp (readStatusAttempts n M c0) (\<lambda>(ok, c) w'. quiet w w' \<and> (ok \<longrightarrow> (\<exists>v. quiet w v \<and> snapshot c v w'))) u"
    if "quiet w u" for n u
    using that
  proof (induction n arbitrary: u)
    case (Suc n)
    have fields: "wp (readAll (statusFields M) default_status) Q v"
      if "\<And>ok c w'. quiet v w' \<Longrightarrow> (ok \<Longrightarrow> exhibits (status_readings c) v w') \<Longrightarrow> Q (ok, c) w'" for Q v
      by (rule wp_mono [OF statusFields_exhibit]) (use that in \<open>auto split: prod.splits\<close>)
    have same: "status_readings (c\<lparr>cs_complete_seq := s\<rparr>) = status_readings c" for c s
      by (simp add: status_readings_def)
    show ?case
      unfolding readStatusAttempts.simps record_subs
      apply (rule wpi_bind, rule wpi_readControl, rule wpi_case_prod, rule wpi_if)
       apply (use Suc.prems in \<open>auto simp: host_wp intro: quiet_trans; fail\<close>)
      apply (rule wpi_bind, rule fields, rule wpi_case_prod, rule wpi_if)
       apply (use Suc.prems in \<open>auto simp: host_wp intro: quiet_trans; fail\<close>)
      apply (rule wpi_bind, rule wpi_readControl, rule wpi_case_prod, rule wpi_if)
       apply (use Suc.prems in \<open>auto simp: host_wp intro: quiet_trans; fail\<close>)
      apply (rule wpi_if, rule wpi_return)
      subgoal by (use Suc.prems in \<open>auto simp: snapshot_def same intro: quiet_trans\<close>)
      subgoal by (rule Suc.IH) (blast intro: quiet_trans Suc.prems)
      done
  qed (simp add: host_wp)
  from this [of w] show ?thesis by (simp add: readStatus_def)
qed

text \<open>A transaction that succeeded: a fresh sequence was stored after the fields of the request, the device
  completed it, and the coherent snapshot, taken after that, carries the sequence and passes the check.\<close>

definition transacted :: "ClientRequest \<Rightarrow> (ClientStatus \<Rightarrow> bool) \<Rightarrow> phase" where
  "transacted request check w w' \<longleftrightarrow> (\<exists>q c. cs_active_seq c = nextSequence q \<and> cs_complete_seq c = nextSequence q \<and> check c \<and>
     stages [displays 0x2303 1 (V32 q), stored (request_writes request (nextSequence q)),
       displays 0x2303 10 (V32 (nextSequence q)), quiet, snapshot c] w w')"

lemma transactionOk_performs: "performs (transactionOk M request check) (transacted request check)"
proof (rule performsI)
  fix w
  have commit: "performs (andM (submitRequest M request s) (waitSequence M 10 s t))
      (stages [stored (request_writes request s), displays 0x2303 10 (V32 s)])" for s t
    by (rule performs_andM [OF submitRequest_performs waitSequence_performs]) auto
  show "wp (transactionOk M request check) (\<lambda>ok w'. ok \<longrightarrow> transacted request check w w') w"
    unfolding transactionOk_def runTransaction_def kCompleteSeqSub_def
    apply (rule wpi_bind, rule wpi_bind, rule wp_mono [OF nextRequestSequence_displays])
    apply (rule wpi_case_prod, rule wpi_if, simp add: host_wp)
    apply (rule wpi_bind, rule wp_mono [OF performs_wp [OF commit]])
    apply (rule wpi_if, simp add: host_wp)
    apply (rule wpi_bind, rule wp_mono [OF readStatus_snapshot])
    apply (auto simp: host_wp transacted_def; blast)
    done
qed

section \<open>The test objects\<close>

text \<open>A fixture object is used only after the device and the sub-object were found.\<close>

definition fixture_use :: "u16 \<Rightarrow> event \<Rightarrow> phase" where
  "fixture_use i e w w' \<longleftrightarrow> hist w' = [e, EvOdQuery (OdFindSub i 0) True, EvOdQuery OdDevice True] @ hist w"

definition fixture_shows :: "u16 \<Rightarrow> sdo_value \<Rightarrow> phase" where
  "fixture_shows i v = fixture_use i (EvOdRead i v)"

definition fixture_takes :: "u16 \<Rightarrow> sdo_value \<Rightarrow> nat \<Rightarrow> phase" where
  "fixture_takes i v n = fixture_use i (EvOdSet i v n)"

lemma wpi_findFixtureSub:
  assumes "\<And>w'. quiet w w' \<Longrightarrow> (hist w' = hist w \<or> (\<exists>q. hd (hist w') = EvOdQuery q False)) \<Longrightarrow> Q False w'"
    and "\<And>w'. installed fx \<Longrightarrow> hist w' = [EvOdQuery (OdFindSub i 0) True, EvOdQuery OdDevice True] @ hist w \<Longrightarrow> Q True w'"
  shows "wp (findFixtureSub M fx i) Q w"
  unfolding findFixtureSub_def kSubindex_def
  by (rule wpi_if, rule wpi_return, rule assms(1), simp, simp, rule wpi_bind, rule wpi_objects, rule wpi_if, rule wpi_return,
      rule assms(1), simp add: quiet_def, simp, rule wpi_objects)
     (rename_tac ok w', case_tac ok; auto intro!: assms simp: quiet_def)

lemma fixture_reads:
  "wp (readU32 M fx v0) (\<lambda>(ok, v) w'. ok \<longrightarrow> fixture_shows 0x2F00 (V32 v) w w') w"
  "wp (readOctets M fx bs0) (\<lambda>(ok, bs) w'. ok \<longrightarrow> fixture_shows 0x2F01 (VOctets bs) w w') w"
  unfolding readU32_def readOctets_def kU32Index_def kOctetsIndex_def
  by (rule wpi_bind, rule wpi_findFixtureSub;
      auto intro!: wpi_bind wpi_objects wpi_return wpi_if wpi_case_prod wpi_case_option
        simp: fixture_shows_def fixture_use_def split: option.splits)+

lemma fixture_writes:
  "performs (writeU32 M fx v) (fixture_takes 0x2F00 (V32 v) 4)"
  "performs (writeOctets M fx bs) (fixture_takes 0x2F01 (VOctets bs) (length bs))"
  unfolding writeU32_def writeOctets_def kU32Index_def kOctetsIndex_def performs_def
  by (intro allI, rule wpi_bind, rule wpi_findFixtureSub;
      auto intro!: wpi_bind wpi_objects wpi_return wpi_if wpi_case_prod simp: fixture_takes_def fixture_use_def)+

section \<open>The cases\<close>

definition local_restored :: "u32 \<Rightarrow> phase" where
  "local_restored v = stages [stored [(0x2200, 0, V32 v)], displays 0x2200 0 (V32 v)]"

definition number_restored :: "u32 \<Rightarrow> phase" where
  "number_restored v = stages [fixture_takes 0x2F00 (V32 v) 4, fixture_shows 0x2F00 (V32 v)]"

definition octets_restored :: "u8 list \<Rightarrow> phase" where
  "octets_restored bs = stages [fixture_takes 0x2F01 (VOctets bs) (length bs), fixture_shows 0x2F01 (VOctets bs)]"

lemma fixture_restored:
  "performs (restoreFixtureU32 M fx v) (number_restored v)" "performs (restoreFixtureOctets M fx bs) (octets_restored bs)"
  unfolding restoreFixtureU32_def restoreFixtureOctets_def number_restored_def octets_restored_def
  by (rule performsI, rule wpi_bind, rule wp_mono [OF performs_wp [OF fixture_writes(1)]],
      auto simp: host_wp intro!: wp_mono [OF fixture_reads(1)])
     (rule performsI, rule wpi_bind, rule wp_mono [OF performs_wp [OF fixture_writes(2)]],
      auto simp: host_wp intro!: wp_mono [OF fixture_reads(2)])

lemma saw_displays: "hist w' = e # hist w \<Longrightarrow> saw CANOPEN_SLAVE_NODE_ID i s v e \<Longrightarrow> displays i s v w w'"
  unfolding displays_def by (rule exI [of _ e], rule exI [of _ "[]"]) simp

lemma wpi_readLocal:
  assumes "\<And>r v w'. (r = SUCCESS \<Longrightarrow> displays i s (t_value T v) w w') \<Longrightarrow> Q (r, v) w'"
  shows "wp (readRemoteSdo T M CANOPEN_SLAVE_NODE_ID i s v0) Q w"
  by (rule wpi_saw_upload) (auto intro!: assms intro: saw_displays)

lemma stored_one: "hist w' = e # hist w \<Longrightarrow> wrote CANOPEN_SLAVE_NODE_ID i s v e \<Longrightarrow> stored [(i, s, v)] w w'"
  unfolding stored_def by (rule exI [of _ "[e]"]) simp

lemma restoreLocalControl_performs: "performs (restoreLocalControl M v) (local_restored v)"
  unfolding restoreLocalControl_def local_restored_def kLocalControlIndex_def
  by (intro performsI wpi_bind wpi_writeRemoteSdoFor)
     (auto simp: host_wp outcome_SUCCESS_iff intro!: wpi_readLocal exI stored_one)

text \<open>A transaction, a check of its effect and the restoration, which runs in any case.\<close>

lemma performs_restoring:
  assumes "performs m P" and "performs n R" and "performs r S"
  shows "performs (do { a \<leftarrow> m; b \<leftarrow> (if a then n else return False); c \<leftarrow> r; if \<not> c then return False else return b })
    (stages [P, R, S])"
proof (rule performsI, rule wpi_bind, rule wp_mono [OF performs_wp [OF assms(1)]])
  fix w a v assume a: "a \<longrightarrow> P w v"
  have last: "wp (do { c \<leftarrow> r; if \<not> c then return False else return b }) (\<lambda>ok w'. ok \<longrightarrow> stages [P, R, S] w w') u"
    if "b \<longrightarrow> (\<exists>v. P w v \<and> R v u)" for b u
    by (rule wpi_bind, rule wp_mono [OF performs_wp [OF assms(3)]]) (use that in \<open>auto simp: host_wp\<close>)
  show "wp (do { b \<leftarrow> (if a then n else return False); c \<leftarrow> r; if \<not> c then return False else return b })
      (\<lambda>ok w'. ok \<longrightarrow> stages [P, R, S] w w') v"
    apply (rule wpi_bind, rule wpi_if)
    subgoal by (rule wp_mono [OF performs_wp [OF assms(2)]], rule last) (use a in auto)
    subgoal by (rule wpi_return, rule last) simp
    done
qed

definition uploaded :: "u8 \<Rightarrow> u16 \<Rightarrow> u32 \<Rightarrow> phase" where
  "uploaded n i v = transacted (uploadRequest n i kNoFlags) (\<lambda>c. expectU32Success c v)"

definition failed_upload :: "u8 \<Rightarrow> u16 \<Rightarrow> McuSdoClientResult \<Rightarrow> u32 \<Rightarrow> phase" where
  "failed_upload n i r code = transacted (uploadRequest n i kNoFlags) (\<lambda>c. expectFailure c r code)"

definition local_download :: "u32 \<Rightarrow> phase" where
  "local_download v = stages [transacted (downloadRequest CANOPEN_SLAVE_NODE_ID 0x2200 4 (probeFor v) kNoFlags)
     (\<lambda>c. expectU32Success c (probeFor v)), displays 0x2200 0 (V32 (probeFor v)), local_restored v]"

definition remote_download :: "u32 \<Rightarrow> phase" where
  "remote_download v = stages [transacted (downloadRequest CANOPEN_MASTER_NODE_ID 0x2F00 4 (probeFor v) kNoFlags)
     (\<lambda>c. expectU32Success c (probeFor v)), fixture_shows 0x2F00 (V32 (probeFor v)), number_restored v]"

definition refused_download :: phase where
  "refused_download = transacted (downloadRequest CANOPEN_MASTER_NODE_ID 0x2F02 4 0x12345678 kNoFlags)
     (\<lambda>c. expectFailure c McuABORT kAbortReadOnly)"

definition octets_uploaded :: "u32 \<Rightarrow> u32 \<Rightarrow> u8 \<Rightarrow> phase" where
  "octets_uploaded n seed flags w w' \<longleftrightarrow> (\<exists>bs. stages [fixture_shows 0x2F01 (VOctets bs),
     fixture_takes 0x2F01 (VOctets (makePayload_client n seed)) (unat n),
     transacted (uploadRequest CANOPEN_MASTER_NODE_ID 0x2F01 flags) (transferOk n (makePayload_client n seed)),
     octets_restored bs] w w')"

definition octets_downloaded :: "u32 \<Rightarrow> u32 \<Rightarrow> u8 \<Rightarrow> phase" where
  "octets_downloaded n seed flags w w' \<longleftrightarrow> (\<exists>bs. stages [fixture_shows 0x2F01 (VOctets bs),
     transacted (downloadRequest CANOPEN_MASTER_NODE_ID 0x2F01 n seed flags) (transferOk n (makePayload_client n seed)),
     fixture_shows 0x2F01 (VOctets (makePayload_client n seed)), octets_restored bs] w w')"

text \<open>The reset comes while the request is active, and the device reports the request as cancelled.\<close>

definition reset_cancelled :: phase where
  "reset_cancelled w w' \<longleftrightarrow> (\<exists>q c. cs_active_seq c = nextSequence q \<and> cs_complete_seq c = nextSequence q \<and>
     cs_result c = resultCode McuRESET_CANCELLED \<and> cs_abort_code c = 0 \<and>
     stages [displays 0x2303 1 (V32 q), stored (request_writes (uploadRequest 126 0x2F00 kNoFlags) (nextSequence q)),
       request_active (nextSequence q), commanded RESET_COMM, displays 0x2303 10 (V32 (nextSequence q)), quiet, snapshot c] w w')"

lemmas client_index_defs = kLocalControlIndex_def kMissingLocalIndex_def kU32Index_def kOctetsIndex_def kReadOnlyIndex_def
  kU32Size_def kMissingNodeId_def kProbeValue_client_def

lemma length_client_payload [simp]: "length (makePayload_client n seed) = unat n"
  by (simp add: makePayload_client_def)

lemma local_performs:
  "performs (uploadCase M n i v) (uploaded n i v)"
  "performs (localDownloadCase M v) (local_download v)"
  "performs (localAbortCase M v) (stages [failed_upload CANOPEN_SLAVE_NODE_ID 0x2FFF McuABORT kAbortNotExist,
     uploaded CANOPEN_SLAVE_NODE_ID 0x2200 v])"
proof -
  show upload: "performs (uploadCase M n i v) (uploaded n i v)" for n i
    unfolding uploadCase_def uploaded_def by (rule transactionOk_performs)
  show "performs (localDownloadCase M v) (local_download v)"
    unfolding localDownloadCase_def local_download_def client_index_defs Let_def
    by (rule performs_restoring [OF transactionOk_performs _ restoreLocalControl_performs])
       (auto simp: host_wp intro!: performsI wpi_readLocal)
  show "performs (localAbortCase M v) (stages [failed_upload CANOPEN_SLAVE_NODE_ID 0x2FFF McuABORT kAbortNotExist,
     uploaded CANOPEN_SLAVE_NODE_ID 0x2200 v])"
    unfolding localAbortCase_def failed_upload_def client_index_defs
    by (rule performs_andM [OF transactionOk_performs upload]) auto
qed

lemma remote_performs:
  "performs (remoteUpload M v) (uploaded CANOPEN_MASTER_NODE_ID 0x2F00 v)"
  "performs (remoteDownloadCase M fx v) (remote_download v)"
  "performs (readOnlyCase M v) (stages [refused_download, uploaded CANOPEN_MASTER_NODE_ID 0x2F00 v])"
  "performs (timeoutCase M v) (stages [failed_upload 126 0x2F00 McuTIMEOUT kAbortTimeout, uploaded CANOPEN_MASTER_NODE_ID 0x2F00 v])"
proof -
  show upload: "performs (remoteUpload M v) (uploaded CANOPEN_MASTER_NODE_ID 0x2F00 v)"
    unfolding remoteUpload_def client_index_defs by (rule local_performs)
  show "performs (remoteDownloadCase M fx v) (remote_download v)"
    unfolding remoteDownloadCase_def remote_download_def client_index_defs Let_def
    by (rule performs_restoring [OF transactionOk_performs _ fixture_restored(1)])
       (auto simp: host_wp intro!: performsI wp_mono [OF fixture_reads(1)])
  show "performs (readOnlyCase M v) (stages [refused_download, uploaded CANOPEN_MASTER_NODE_ID 0x2F00 v])"
    unfolding readOnlyCase_def refused_download_def client_index_defs
    by (rule performs_andM [OF transactionOk_performs upload]) auto
  show "performs (timeoutCase M v) (stages [failed_upload 126 0x2F00 McuTIMEOUT kAbortTimeout, uploaded CANOPEN_MASTER_NODE_ID 0x2F00 v])"
    unfolding timeoutCase_def failed_upload_def client_index_defs
    by (rule performs_andM [OF transactionOk_performs upload]) auto
qed

lemma octetsUpload_performs:
  "performs (octetsUpload M fx bs n payload flags) (stages [transacted (uploadRequest CANOPEN_MASTER_NODE_ID 0x2F01 flags)
     (transferOk n payload), octets_restored bs])"
  unfolding octetsUpload_def client_index_defs
  by (rule performsI, rule wpi_bind, rule wp_mono [OF performs_wp [OF transactionOk_performs]])
     (auto simp: host_wp intro!: wp_mono [OF performs_wp [OF fixture_restored(2)]])

lemma octetsDownload_performs:
  "performs (octetsDownload M fx bs n seed flags) (stages [
     transacted (downloadRequest CANOPEN_MASTER_NODE_ID 0x2F01 n seed flags) (transferOk n (makePayload_client n seed)),
     fixture_shows 0x2F01 (VOctets (makePayload_client n seed)), octets_restored bs])"
  unfolding octetsDownload_def client_index_defs Let_def
  by (rule performs_restoring [OF transactionOk_performs _ fixture_restored(2)])
     (auto simp: host_wp intro!: performsI wp_mono [OF fixture_reads(2)])

lemma octets_performs:
  "performs (uploadOctetsCase M fx n seed flags) (octets_uploaded n seed flags)"
  "wp (downloadOctetsCase M fx before n seed flags) (\<lambda>(ok, bs) w'. ok \<longrightarrow> octets_downloaded n seed flags w w') w"
  "performs (postBlockCase M fx before) (octets_uploaded kSegmentedSize kSegmentedSeed kNoFlags)"
proof -
  let ?p = "makePayload_client n seed"
  have upload: "wp (octetsUpload M fx bs n (makePayload_client n seed) flags) (\<lambda>ok w'. ok \<longrightarrow> octets_uploaded n seed flags w w') u"
    if "fixture_shows 0x2F01 (VOctets bs) w v" "fixture_takes 0x2F01 (VOctets (makePayload_client n seed)) (unat n) v u"
    for bs n seed flags w v u
    by (rule wp_mono [OF performs_wp [OF octetsUpload_performs]]) (use that in \<open>auto simp: octets_uploaded_def\<close>)
  show "performs (uploadOctetsCase M fx n seed flags) (octets_uploaded n seed flags)"
    unfolding uploadOctetsCase_def Let_def
    apply (rule performsI, rule wpi_bind, rule wp_mono [OF fixture_reads(2)], rule wpi_case_prod, rule wpi_if, simp add: host_wp)
    apply (rule wpi_bind, rule wp_mono [OF performs_wp [OF fixture_writes(2)]], rule wpi_if)
     apply (auto simp: host_wp intro: wpI upload)
    done
  show "performs (postBlockCase M fx before) (octets_uploaded kSegmentedSize kSegmentedSeed kNoFlags)"
    unfolding postBlockCase_def Let_def makeSegmentedPayload_def
    apply (rule performsI, rule wpi_bind, rule wp_mono [OF fixture_reads(2)], rule wpi_case_prod, rule wpi_bind, rule wpi_if)
     apply (rule wp_mono [OF performs_wp [OF fixture_writes(2)]], rule wpi_if)
      apply (auto simp: host_wp intro: wpI upload)
    done
  show "wp (downloadOctetsCase M fx before n seed flags) (\<lambda>(ok, bs) w'. ok \<longrightarrow> octets_downloaded n seed flags w w') w"
    unfolding downloadOctetsCase_def
    apply (rule wpi_bind, rule wp_mono [OF fixture_reads(2)], rule wpi_case_prod, rule wpi_if, simp add: host_wp)
    apply (rule wpi_bind, rule wp_mono [OF performs_wp [OF octetsDownload_performs]])
    apply (auto simp: host_wp octets_downloaded_def)
    done
qed

lemma blockRegression_performs:
  "performs (blockRegression M fx) (stages [octets_uploaded kBlockRegressionSize kBlockRegressionSeed kBlockFlag,
     octets_downloaded kBlockRegressionSize kBlockRegressionSeed kBlockFlag,
     octets_uploaded kSegmentedSize kSegmentedSeed kNoFlags])"
  unfolding blockRegression_def
  apply (rule performsI, rule wpi_bind, rule wp_mono [OF performs_wp [OF octets_performs(1)]], rule wpi_if, simp add: host_wp)
  apply (rule wpi_bind, rule wp_mono [OF octets_performs(2)], rule wpi_case_prod, rule wpi_if, simp add: host_wp)
  apply (rule wp_mono [OF performs_wp [OF octets_performs(3)]], auto)
  done

lemma segmentedDownload_performs: "performs (segmentedDownloadCase M fx) (octets_downloaded kSegmentedSize kSegmentedSeed kNoFlags)"
  unfolding segmentedDownloadCase_def
  by (rule performsI, rule wpi_bind, rule wp_mono [OF octets_performs(2)]) (auto simp: host_wp)

lemma resetCase_performs: "performs (resetCase M) reset_cancelled"
proof (rule performsI)
  fix w
  have started: "performs (andM (submitRequest M request s) (waitActivePending M s t))
      (stages [stored (request_writes request s), request_active s])" for request s t
    by (rule performs_andM [OF submitRequest_performs waitActivePending_performs]) auto
  have reset: "wp (andM (issueNmtCommand M RESET_COMM CANOPEN_SLAVE_NODE_ID) (waitForBootCompletion M t))
      (\<lambda>ok w'. ok \<longrightarrow> commanded RESET_COMM u w') v" if "hist v = hist u" for t u v
    unfolding wp_andM
    by (rule wp_mono [OF issueNmtCommand_does])
       (use that in \<open>auto simp: commanded_def does_def intro!: wp_does_quiet [OF _ waitForBootCompletion_touches(1)]\<close>)
  show "wp (resetCase M) (\<lambda>ok w'. ok \<longrightarrow> reset_cancelled w w') w"
    unfolding resetCase_def client_index_defs kCompleteSeqSub_def prepareBootWait_def
    apply (rule wpi_bind, rule wp_mono [OF nextRequestSequence_displays], rule wpi_case_prod, rule wpi_if, simp add: host_wp)
    apply (rule wpi_bind, rule wp_mono [OF performs_wp [OF started]], rule wpi_if, simp add: host_wp)
    apply (rule wpi_bind, rule wpi_update_mem, rule wpi_bind)
    subgoal for r ok s v started u
      apply (rule wp_mono [OF reset [of _ u]], simp, rule wpi_if, simp add: host_wp)
      apply (rule wpi_bind, rule wp_mono [OF performs_wp [OF waitSequence_performs]], rule wpi_if, simp add: host_wp)
      apply (rule wpi_bind, rule wp_mono [OF readStatus_snapshot])
      apply (auto simp: host_wp reset_cancelled_def; blast)
      done
    done
qed

section \<open>The fixture\<close>

definition called :: "od_call \<Rightarrow> phase" where
  "called c w w' \<longleftrightarrow> hist w' = EvOdCall c True # hist w"

definition valued :: "u16 \<Rightarrow> sdo_value \<Rightarrow> nat \<Rightarrow> phase" where
  "valued i v n w w' \<longleftrightarrow> hist w' = EvOdSet i v n # hist w"

definition created :: "u16 \<Rightarrow> od_type \<Rightarrow> od_access \<Rightarrow> sdo_value \<Rightarrow> nat \<Rightarrow> phase" where
  "created i T access v n = stages [called (OdCreate i), called (OdCreateSub i 0 T), called (OdSetAccess i access),
     called (OdInsertSub i), valued i v n]"

text \<open>Nothing was there, the three objects were built with their values, and inserted.\<close>

definition placed :: phase where
  "placed = stages [(\<lambda>w w'. hist w' = [EvOdQuery (OdFind 0x2F02) False, EvOdQuery (OdFind 0x2F01) False,
       EvOdQuery (OdFind 0x2F00) False, EvOdQuery OdServer True, EvOdQuery OdDevice True] @ hist w),
     created 0x2F00 UNSIGNED32 ACCESS_RW (V32 0x13579BDF) 4, created 0x2F01 OCTET_STRING ACCESS_RW (VOctets [0x5A]) 1,
     created 0x2F02 UNSIGNED32 ACCESS_RO (V32 0xA5A55A5A) 4,
     stages [called (OdInsert 0x2F00), called (OdInsert 0x2F01), called (OdInsert 0x2F02)]]"

definition removed :: phase where
  "removed w w' \<longleftrightarrow> does w [Od (OdDestroy 0x2F02), Od (OdDestroy 0x2F01), Od (OdDestroy 0x2F00)] w'"

lemma called_performs: "performs (od_do M c) (called c)"
  unfolding performs_def called_def by (intro allI wpi_objects) simp

lemma creates_perform:
  "performs (createU32Object M i access v) (created i UNSIGNED32 access (V32 v) 4)"
  "performs (createOctetObject M) (created 0x2F01 OCTET_STRING ACCESS_RW (VOctets [0x5A]) 1)"
proof -
  have sub: "performs (createSub M i T access)
      (stages [called (OdCreateSub i 0 T), called (OdSetAccess i access), called (OdInsertSub i)])" for i T access
    unfolding createSub_def kSubindex_def
    apply (rule performsI, rule wpi_bind, rule wp_mono [OF performs_wp [OF called_performs]], rule wpi_bind, rule wpi_if)
    subgoal by (auto simp: host_wp intro!: wpI)
    subgoal
      by (rule wp_mono [OF performs_wp [OF performs_andM [OF called_performs called_performs,
              where S = "\<lambda>u w'. stages [called (OdSetAccess i access), called (OdInsertSub i)] u w'"]]], simp)
         (auto simp: host_wp intro!: wpI split: prod.splits)
    done
  show "performs (createU32Object M i access v) (created i UNSIGNED32 access (V32 v) 4)"
    unfolding createU32Object_def created_def
    apply (rule performsI, rule wpi_bind, rule wp_mono [OF performs_wp [OF called_performs]], rule wpi_if, simp add: host_wp)
    apply (rule wpi_bind, rule wp_mono [OF performs_wp [OF sub]], rule wpi_if, simp add: host_wp)
    apply (rule wpi_bind, rule wpi_objects, rule wpi_case_prod, rule wpi_if)
     apply (auto simp: host_wp valued_def intro!: wpI)
    done
  show "performs (createOctetObject M) (created 0x2F01 OCTET_STRING ACCESS_RW (VOctets [0x5A]) 1)"
    unfolding createOctetObject_def created_def kOctetsIndex_def kInitialOctet_def
    apply (rule performsI, rule wpi_bind, rule wp_mono [OF performs_wp [OF called_performs]], rule wpi_if, simp add: host_wp)
    apply (rule wpi_bind, rule wp_mono [OF performs_wp [OF sub]], rule wpi_if, simp add: host_wp)
    apply (rule wpi_bind, rule wpi_objects, rule wpi_case_prod, rule wpi_if)
     apply (auto simp: host_wp valued_def intro!: wpI)
    done
qed

lemma fixture_performs:
  "wp (install M newFixture) (\<lambda>(ok, fx) w'. ok \<longrightarrow> placed w w' \<and> u32_object fx \<and> octets_object fx \<and> readonly_object fx) w"
proof -
  have inserts: "performs (allM [od_do M (OdInsert kU32Index), od_do M (OdInsert kOctetsIndex), od_do M (OdInsert kReadOnlyIndex)])
      (stages [called (OdInsert 0x2F00), called (OdInsert 0x2F01), called (OdInsert 0x2F02)])"
    unfolding fixture_const_defs by (intro performs_all called_performs)
  have available: "performs (andM (od_ask M OdDevice) (od_ask M OdServer))
      (\<lambda>w w'. hist w' = [EvOdQuery OdServer True, EvOdQuery OdDevice True] @ hist w)"
    unfolding performs_def wp_andM by (intro allI wpi_objects) (auto intro!: wpi_objects)
  have unused: "wp (anyFound M) (\<lambda>used w'. \<not> used \<longrightarrow> hist w' = [EvOdQuery (OdFind 0x2F02) False,
      EvOdQuery (OdFind 0x2F01) False, EvOdQuery (OdFind 0x2F00) False] @ hist v) v" for v
    unfolding anyFound_def fixture_const_defs by (intro wpi_bind wpi_objects wpi_if wpi_return) auto
  have build: "wp (buildObjects M fx) (\<lambda>(ok, fx') w'. ok \<longrightarrow> u32_object fx' \<and> octets_object fx' \<and> readonly_object fx' \<and>
      stages [created 0x2F00 UNSIGNED32 ACCESS_RW (V32 0x13579BDF) 4, created 0x2F01 OCTET_STRING ACCESS_RW (VOctets [0x5A]) 1,
        created 0x2F02 UNSIGNED32 ACCESS_RO (V32 0xA5A55A5A) 4,
        stages [called (OdInsert 0x2F00), called (OdInsert 0x2F01), called (OdInsert 0x2F02)]] v w') v" for fx v
    unfolding buildObjects_def Let_def
    apply (rule wpi_bind, rule wp_mono [OF performs_wp [OF creates_perform(1)]], rule wpi_if, simp add: host_wp)
    apply (rule wpi_bind, rule wp_mono [OF performs_wp [OF creates_perform(2)]], rule wpi_if, simp add: host_wp)
    apply (rule wpi_bind, rule wp_mono [OF performs_wp [OF creates_perform(1)]], rule wpi_if, simp add: host_wp)
    apply (rule wpi_bind, rule wp_mono [OF performs_wp [OF inserts]])
    apply (simp add: host_wp fixture_const_defs del: stages.simps)
    apply (simp, blast)
    done
  show ?thesis
    unfolding install_def
    apply (rule wpi_if, simp add: host_wp newFixture_def)
    apply (rule wpi_bind, rule wp_mono [OF performs_wp [OF available]], rule wpi_if, simp add: host_wp)
    apply (rule wpi_bind, rule wp_mono [OF unused], rule wpi_if, simp add: host_wp)
    apply (rule wpi_bind, rule wp_mono [OF build])
    apply (auto simp: host_wp placed_def intro!: wpI split: prod.splits simp del: stages.simps)
    apply (simp, blast)
    done
qed

lemma uninstall_removes:
  assumes "u32_object fx" "octets_object fx" "readonly_object fx"
  shows "wp (uninstall M fx) (\<lambda>_ w'. removed w w') w"
  unfolding uninstall_def uninstallLocked_def destroyObject_def fixture_const_defs removed_def
  using assms by (simp, intro wp_intro) (auto intro: does_short(3))

section \<open>A successful run\<close>

definition node_missing :: "lely \<Rightarrow> phase" where
  "node_missing M w w' \<longleftrightarrow> (\<exists>r. hist w' = EvUpload (sdoRequest Normal 126 0x1000 0 500) r # hist w \<and> outcome M r = SDO_TIMEOUT)"

definition local_phases :: "u32 \<Rightarrow> phase list" where
  "local_phases v = [uploaded CANOPEN_SLAVE_NODE_ID 0x2200 v, local_download v,
     stages [failed_upload CANOPEN_SLAVE_NODE_ID 0x2FFF McuABORT kAbortNotExist, uploaded CANOPEN_SLAVE_NODE_ID 0x2200 v]]"

definition remote_phases :: "u32 \<Rightarrow> phase list" where
  "remote_phases x = [uploaded CANOPEN_MASTER_NODE_ID 0x2F00 x, remote_download x,
     octets_uploaded kSegmentedSize kSegmentedSeed kNoFlags, octets_downloaded kSegmentedSize kSegmentedSeed kNoFlags,
     stages [refused_download, uploaded CANOPEN_MASTER_NODE_ID 0x2F00 x],
     stages [failed_upload 126 0x2F00 McuTIMEOUT kAbortTimeout, uploaded CANOPEN_MASTER_NODE_ID 0x2F00 x],
     reset_cancelled, uploaded CANOPEN_MASTER_NODE_ID 0x2F00 x]"

definition block_phases :: "bool \<Rightarrow> phase list" where
  "block_phases block = (if block then [octets_uploaded kBlockRegressionSize kBlockRegressionSeed kBlockFlag,
     octets_downloaded kBlockRegressionSize kBlockRegressionSeed kBlockFlag,
     octets_uploaded kSegmentedSize kSegmentedSeed kNoFlags] else [])"

definition client_run :: "lely \<Rightarrow> bool \<Rightarrow> phase" where
  "client_run M block w w' \<longleftrightarrow> (\<exists>v x. stages [node_missing M, placed, displays 0x2200 0 (V32 v), stages (local_phases v),
     fixture_shows 0x2F00 (V32 x), stages (remote_phases x), stages (block_phases block), removed] w w')"

lemma outcome_map [simp]: "outcome M (map_submission f r) = outcome M r"
  by (cases "(M, r)" rule: outcome.cases) auto

lemma stages_append: "stages (Ps @ Rs) w w' \<longleftrightarrow> (\<exists>v. stages Ps w v \<and> stages Rs v w')"
  by (induction Ps arbitrary: w) auto

lemma stages_chain:
  "A w a \<Longrightarrow> B a b \<Longrightarrow> C b c \<Longrightarrow> stages Ps c w' \<Longrightarrow> stages (A # B # C # Ps) w w'"
  "A w a \<Longrightarrow> B a b \<Longrightarrow> stages Ps b c \<Longrightarrow> R c w' \<Longrightarrow> stages (A # B # (Ps @ [R])) w w'"
  by (auto simp: stages_append)

lemma missing_performs: "performs (verifyMissingNodePrecondition M) (node_missing M)"
  unfolding verifyMissingNodePrecondition_def kMissingNodeId_def kDeviceTypeIndex_def kMissingNodeProbeTimeoutMs_def
  by (intro performsI wpi_bind wpi_readRemoteSdoFor wpi_case_prod wpi_return)
     (auto simp: node_missing_def intro!: exI)

lemma cases_perform:
  "performs (allM [uploadCase M CANOPEN_SLAVE_NODE_ID kLocalControlIndex v, localDownloadCase M v, localAbortCase M v])
     (stages (local_phases v))"
  "performs (remoteCases M fx block x) (\<lambda>w w'. stages [stages (remote_phases x), stages (block_phases block)] w w')"
proof -
  show "performs (allM [uploadCase M CANOPEN_SLAVE_NODE_ID kLocalControlIndex v, localDownloadCase M v, localAbortCase M v])
     (stages (local_phases v))"
    unfolding local_phases_def kLocalControlIndex_def by (intro performs_all local_performs)
  have block: "performs (if block then blockRegression M fx else return True) (stages (block_phases block))"
    using blockRegression_performs by (auto simp: block_phases_def performs_def host_wp)
  have join: "stages (Ps @ [R]) w w' \<Longrightarrow> stages [stages Ps, R] w w'" for Ps R w w'
    by (simp add: stages_append)
  have "performs (remoteCases M fx block x) (stages (remote_phases x @ [stages (block_phases block)]))"
    unfolding remoteCases_def remote_phases_def append.simps
    by (intro performs_all remote_performs octets_performs segmentedDownload_performs resetCase_performs block)
  then show "performs (remoteCases M fx block x) (\<lambda>w w'. stages [stages (remote_phases x), stages (block_phases block)] w w')"
    by (rule performs_weaken) (rule join)
qed

lemma clientCases_performs:
  "performs (clientCases M fx block) (\<lambda>w w'. \<exists>v x. stages [displays 0x2200 0 (V32 v), stages (local_phases v),
     fixture_shows 0x2F00 (V32 x), stages (remote_phases x), stages (block_phases block)] w w')"
  unfolding clientCases_def
  apply (rule performsI, rule wpi_bind, unfold kLocalControlIndex_def, rule wpi_readLocal, rule wpi_case_prod, rule wpi_if,
      simp add: host_wp)
  apply (rule wpi_bind, rule wp_mono [OF performs_wp [OF cases_perform(1) [unfolded kLocalControlIndex_def]]], rule wpi_if,
      simp add: host_wp)
  apply (rule wpi_bind, rule wp_mono [OF fixture_reads(1)], rule wpi_case_prod, rule wpi_if, simp add: host_wp)
  apply (rule wp_mono [OF performs_wp [OF cases_perform(2)]])
  apply (clarsimp simp del: stages.simps)
  apply (intro exI, rule stages_chain(1), assumption+)
  done

text \<open>The process succeeds only through all its phases.\<close>

lemma sdoClientProcess_run: "wp (sdoClientProcess M block) (\<lambda>r w'. r = 0 \<and> client_run M block w w' \<or> r = 1) w"
proof -
  have last: "wp (do { fx \<leftarrow> uninstall M fx; return (if passed then 0 else (1::int)) }) (\<lambda>r w'. r = 0 \<and> client_run M block w w' \<or> r = 1) v"
    if "passed \<longrightarrow> u32_object fx \<and> octets_object fx \<and> readonly_object fx \<and> (\<forall>w'. removed v w' \<longrightarrow> client_run M block w w')"
    for passed fx v
  proof (cases passed)
    case True
    with that show ?thesis
      by (simp add: wp_bind) (rule wp_mono [OF uninstall_removes], auto simp: host_wp)
  qed (auto simp: host_wp intro: wpI)
  show ?thesis
    unfolding sdoClientProcess_def
    apply (rule wpi_bind, rule wp_mono [OF performs_wp [OF missing_performs]], rule wpi_if, simp add: host_wp)
    apply (rule wpi_bind, rule wp_mono [OF fixture_performs], rule wpi_case_prod, rule wpi_bind, rule wpi_if)
     apply (rule wpi_return, rule last, simp)
    apply (rule wp_mono [OF performs_wp [OF clientCases_performs]], rule last)
    apply (clarsimp simp: client_run_def simp del: stages.simps)
    apply (intro exI, rule stages_chain(2) [where Ps = "[A, B, C, D, E]" for A B C D E, unfolded append.simps], assumption+)
    done
qed

section \<open>Restoration\<close>

text \<open>The last change of a run.\<close>

definition last_change :: "mutation \<Rightarrow> phase" where
  "last_change x w w' \<longleftrightarrow> (\<exists>u. later w u \<and> does u [x] w')"

text \<open>The last change puts a value back, or the newest event is a query that found no object to put it in.\<close>

definition value_put_back :: "u16 \<Rightarrow> sdo_value \<Rightarrow> phase" where
  "value_put_back i v w w' \<longleftrightarrow> last_change (OdSet i v) w w' \<or> (\<exists>q. hd (hist w') = EvOdQuery q False)"

lemma last_change_later: "later w u \<Longrightarrow> last_change x u w' \<Longrightarrow> last_change x w w'"
  unfolding last_change_def using later_trans by blast

lemma value_put_back_later: "later w u \<Longrightarrow> value_put_back i v u w' \<Longrightarrow> value_put_back i v w w'"
  unfolding value_put_back_def using last_change_later by blast

lemma last_change_quiet: "last_change x w u \<Longrightarrow> quiet u v \<Longrightarrow> last_change x w v"
  unfolding last_change_def does_quiet by (metis append_Nil2 does_trans)

lemma restoreLocal_always: "wp (restoreLocalControl M v) (\<lambda>_ w'. last_change (RemoteWrite CANOPEN_SLAVE_NODE_ID 0x2200 0 (V32 v)) w w') w"
proof -
  have written: "wp m (\<lambda>_ w'. last_change (RemoteWrite CANOPEN_SLAVE_NODE_ID 0x2200 0 (V32 v)) w w') u"
    if "hist u = EvDownload (sdoRequest Normal CANOPEN_SLAVE_NODE_ID 0x2200 0 t) (V32 v) r # hist w" "read_only m" for u t r m
  proof (rule wp_quiet [OF that(2)])
    fix a w' assume "quiet u w'"
    moreover have "does w [RemoteWrite CANOPEN_SLAVE_NODE_ID 0x2200 0 (V32 v)] u" using that(1) by (auto intro: does_short)
    then have "last_change (RemoteWrite CANOPEN_SLAVE_NODE_ID 0x2200 0 (V32 v)) w u" by (auto simp: last_change_def)
    ultimately show "last_change (RemoteWrite CANOPEN_SLAVE_NODE_ID 0x2200 0 (V32 v)) w w'" by (rule last_change_quiet [rotated])
  qed
  show ?thesis
    unfolding restoreLocalControl_def kLocalControlIndex_def
    by (rule wpi_bind, rule wpi_writeRemoteSdoFor, rule written, assumption, intro emits_intro)
qed

lemma restoreFixture_always:
  assumes "installed fx"
  shows "wp (restoreFixtureU32 M fx v) (\<lambda>_ w'. value_put_back 0x2F00 (V32 v) w w') w"
    and "wp (restoreFixtureOctets M fx bs) (\<lambda>_ w'. value_put_back 0x2F01 (VOctets bs) w w') w"
proof -
  have found: "wp (do { sub \<leftarrow> findFixtureSub M fx i; if \<not> sub then return False
      else do { (written, clear) \<leftarrow> od_set M i x; return (P written clear) } })
    (\<lambda>ok w'. last_change (OdSet i x) w w' \<or> \<not> ok \<and> (\<exists>q. hd (hist w') = EvOdQuery q False)) w" for i x and P :: "nat \<Rightarrow> bool \<Rightarrow> bool"
    unfolding findFixtureSub_def using assms
    by (auto intro!: wpi_bind wpi_objects wpi_if wpi_return wpi_case_prod simp: last_change_def)
       (auto simp: does_def intro!: exI [of _ w])
  have ends: "wp (do { written \<leftarrow> m; if \<not> written then return False else n }) (\<lambda>_ w'. value_put_back i x w w') w"
    if "wp m (\<lambda>ok w'. last_change (OdSet i x) w w' \<or> \<not> ok \<and> (\<exists>q. hd (hist w') = EvOdQuery q False)) w" "read_only n"
    for i x m and n :: "bool host"
    by (rule wpi_bind, rule wp_mono [OF that(1)], rule wpi_if, rule wpi_return, auto simp: value_put_back_def)
       (rule wp_quiet [OF that(2)], auto intro: last_change_quiet)
  show "wp (restoreFixtureU32 M fx v) (\<lambda>_ w'. value_put_back 0x2F00 (V32 v) w w') w"
    unfolding restoreFixtureU32_def writeU32_def kU32Index_def by (rule ends [OF found]) (intro emits_intro)
  show "wp (restoreFixtureOctets M fx bs) (\<lambda>_ w'. value_put_back 0x2F01 (VOctets bs) w w') w"
    unfolding restoreFixtureOctets_def writeOctets_def kOctetsIndex_def by (rule ends [OF found]) (intro emits_intro)
qed

text \<open>Whatever a case did before, it ends with the restoration.\<close>

lemma restoring_last:
  assumes "touches S m" "touches S n" and "\<And>u. wp r (\<lambda>_ w'. R u w') u"
    and "\<And>u w'. later w u \<Longrightarrow> R u w' \<Longrightarrow> R w w'"
  shows "wp (do { a \<leftarrow> m; b \<leftarrow> (if a then n else return False); c \<leftarrow> r; if \<not> c then return False else return b }) (\<lambda>_ w'. R w w') w"
proof (rule wpi_bind, rule wp_later [OF assms(1)], rule wpi_bind)
  fix a v assume v: "later w v"
  have last: "wp (do { c \<leftarrow> r; if \<not> c then return False else return b }) (\<lambda>_ w'. R w w') u" if "later w u" for b u
    by (rule wpi_bind, rule wp_mono [OF assms(3)]) (use assms(4) [OF that] in \<open>auto simp: host_wp\<close>)
  show "wp (if a then n else return False) (\<lambda>b. wp (do { c \<leftarrow> r; if \<not> c then return False else return b }) (\<lambda>_ w'. R w w')) v"
    by (rule wpi_if, rule wp_later [OF assms(2)], rule last, rule later_trans [OF v], assumption, rule wpi_return, rule last, rule v)
qed

lemma octetsUpload_restores:
  assumes "installed fx"
  shows "wp (octetsUpload M fx bs n payload flags) (\<lambda>_ w'. value_put_back 0x2F01 (VOctets bs) w w') w"
  unfolding octetsUpload_def
  by (rule wpi_bind, rule wp_later [OF transaction_touches(3)], rule wpi_bind, rule wp_mono [OF restoreFixture_always(2) [OF assms]])
     (auto simp: host_wp intro: value_put_back_later)

lemma readOctets_installed:
  "wp (readOctets M fx bs0) (\<lambda>(ok, bs) w'. quiet w w' \<and> (ok \<longrightarrow> installed fx \<and> fixture_shows 0x2F01 (VOctets bs) w w')) w"
proof -
  have shows_it: "wp (readOctets M fx bs0) (\<lambda>(ok, bs) w'. ok \<longrightarrow> installed fx \<and> fixture_shows 0x2F01 (VOctets bs) w w') w"
    by (cases "installed fx")
       (use fixture_reads(2) [of M fx bs0 w] in \<open>auto simp: readOctets_def findFixtureSub_def host_wp elim: wp_mono\<close>)
  show ?thesis by (rule wp_read_only [OF _ shows_it]) (auto intro: emits_intro)
qed

text \<open>An octets case either could not read the original, and changed nothing, or it ends by putting it back.\<close>

definition octets_kept :: "bool \<Rightarrow> phase" where
  "octets_kept ok w w' \<longleftrightarrow> \<not> ok \<and> quiet w w' \<or>
     (\<exists>bs v. fixture_shows 0x2F01 (VOctets bs) w v \<and> value_put_back 0x2F01 (VOctets bs) v w')"

lemma cases_restore:
  "wp (localDownloadCase M v) (\<lambda>_ w'. last_change (RemoteWrite CANOPEN_SLAVE_NODE_ID 0x2200 0 (V32 v)) w w') w"
  "installed fx \<Longrightarrow> wp (remoteDownloadCase M fx v) (\<lambda>_ w'. value_put_back 0x2F00 (V32 v) w w') w"
  "wp (uploadOctetsCase M fx n seed flags) (\<lambda>ok w'. octets_kept ok w w') w"
  "wp (downloadOctetsCase M fx before n seed flags) (\<lambda>(ok, bs) w'. octets_kept ok w w') w"
proof -
  show "wp (localDownloadCase M v) (\<lambda>_ w'. last_change (RemoteWrite CANOPEN_SLAVE_NODE_ID 0x2200 0 (V32 v)) w w') w"
    unfolding localDownloadCase_def Let_def
    by (rule restoring_last [where S = case_objects], rule transaction_touches, intro emits_intro, rule restoreLocal_always,
        rule last_change_later)
  show "wp (remoteDownloadCase M fx v) (\<lambda>_ w'. value_put_back 0x2F00 (V32 v) w w') w" if "installed fx"
    unfolding remoteDownloadCase_def Let_def
    by (rule restoring_last [where S = case_objects], rule transaction_touches, intro emits_intro,
        rule restoreFixture_always [OF that], rule value_put_back_later)
  show "wp (uploadOctetsCase M fx n seed flags) (\<lambda>ok w'. octets_kept ok w w') w"
    unfolding uploadOctetsCase_def Let_def
    apply (rule wpi_bind, rule wp_mono [OF readOctets_installed], rule wpi_case_prod, rule wpi_if)
     apply (simp add: host_wp octets_kept_def)
    apply (clarsimp, rule wpi_bind, rule wp_later [OF restoration_touches(4)], rule wpi_if)
     apply (rule wpi_bind, rule wp_mono [OF restoreFixture_always(2)], assumption)
     apply (auto simp: host_wp octets_kept_def intro: value_put_back_later; fail)
    apply (rule wp_mono [OF octetsUpload_restores], assumption)
    apply (auto simp: octets_kept_def intro: value_put_back_later)
    done
  have download: "wp (octetsDownload M fx bs n seed flags) (\<lambda>_ w'. value_put_back 0x2F01 (VOctets bs) u w') u" if "installed fx" for bs u
    unfolding octetsDownload_def Let_def
    by (rule restoring_last [where S = case_objects], rule transaction_touches, intro emits_intro,
        rule restoreFixture_always [OF that], rule value_put_back_later)
  show "wp (downloadOctetsCase M fx before n seed flags) (\<lambda>(ok, bs) w'. octets_kept ok w w') w"
    unfolding downloadOctetsCase_def
    apply (rule wpi_bind, rule wp_mono [OF readOctets_installed], rule wpi_case_prod, rule wpi_if)
     apply (simp add: host_wp octets_kept_def)
    apply (clarsimp, rule wpi_bind, rule wp_mono [OF download], assumption)
    apply (auto simp: host_wp octets_kept_def)
    done
qed

section \<open>The checksum\<close>

text \<open>The multiplier is odd, so each step can be undone: two payloads that differ in one byte have different checksums.\<close>

lemma fnvStep_eq: "fnvStep v x = fnvStep u y \<longleftrightarrow> v XOR ucast x = u XOR ucast y"
proof -
  have inverse: "(16777619 :: u32) * 899433627 = 1" by simp
  have undo: "a * 16777619 * 899433627 = a" for a :: u32
    unfolding mult.assoc inverse by (rule mult_1_right)
  show ?thesis
    unfolding fnvStep_def kFnvPrime_client_def by (metis undo)
qed

lemma checksum_injective_in_seed: "foldl fnvStep v xs = foldl fnvStep u xs \<longleftrightarrow> v = u"
  by (induction xs arbitrary: v u) (simp_all add: fnvStep_eq)

lemma checksum_detects: "checksum_client (xs @ x # ys) = checksum_client (xs @ y # ys) \<longleftrightarrow> x = y"
proof -
  have "x = y" if "(v XOR ucast x :: u32) = v XOR ucast y" for v
  proof -
    have "v XOR (v XOR ucast x) = v XOR (v XOR (ucast y :: u32))" using that by simp
    then have "ucast (ucast x :: u32) = (ucast (ucast y :: u32) :: u8)" by (simp add: xor.assoc [symmetric])
    then show ?thesis by (simp add: ucast_up_ucast_id is_up)
  qed
  then show ?thesis by (auto simp: checksum_client_def checksum_injective_in_seed fnvStep_eq)
qed

end
