(* ===== verification/Heartbeat_Process.thy ===== *)
theory Heartbeat_Process
  imports Object_Access
begin

text \<open>
  Bidirectional Heartbeat validation, the process part of \<open>src/nmt_heartbeat.cpp\<close>; the Boot
  and Heartbeat observers of that file are in \<open>Nmt_Observer\<close> and \<open>Observers\<close>.  Constants
  that other files of the program also declare carry the suffix \<open>_nh\<close>.
\<close>

definition kHeartbeatIndex_nh :: u16 where [const_defs]: "kHeartbeatIndex_nh = 0x1017"
definition kHeartbeatSubindex :: u8 where [const_defs]: "kHeartbeatSubindex = 0x00"
definition kHeartbeatTimeoutMs :: nat where [const_defs]: "kHeartbeatTimeoutMs = 3000"
definition kHeartbeatSampleCount :: nat where [const_defs]: "kHeartbeatSampleCount = 5"
definition kHeartbeatPeriodMs :: u16 where [const_defs]: "kHeartbeatPeriodMs = 500"
definition kSlaveAssignmentIndex :: u16 where [const_defs]: "kSlaveAssignmentIndex = 0x1F81"
definition kSlaveAssignmentSubindex :: u8 where
  [const_defs]: "kSlaveAssignmentSubindex = CANOPEN_SLAVE_NODE_ID"
definition kSlaveAssignmentEnabled :: u32 where
  [const_defs]: "kSlaveAssignmentEnabled = 0x00000005"
definition kSlaveAssignmentDisabled :: u32 where
  [const_defs]: "kSlaveAssignmentDisabled = 0x00000000"
definition kHeartbeatConsumerEmcyCode_nh :: u16 where
  [const_defs]: "kHeartbeatConsumerEmcyCode_nh = 0x8130"
definition kEmcyResetCode_nh :: u16 where [const_defs]: "kEmcyResetCode_nh = 0x0000"

definition writeSlaveProducerHeartbeat :: "lely \<Rightarrow> u16 \<Rightarrow> bool host" where
  "writeSlaveProducerHeartbeat M period_ms = do {
     result \<leftarrow> writeRemoteSdoFor M CANOPEN_SLAVE_NODE_ID kHeartbeatIndex_nh kHeartbeatSubindex
                 (V16 period_ms) kHeartbeatTimeoutMs 0;
     if result \<noteq> SUCCESS then return False else return True
   }"

definition writeSlaveAssignment :: "lely \<Rightarrow> u32 \<Rightarrow> bool host" where
  "writeSlaveAssignment M assignment = do {
     error \<leftarrow> local_write M kSlaveAssignmentIndex kSlaveAssignmentSubindex (V32 assignment);
     if failed error then return False else return True
   }"

definition testSlaveProducerHeartbeat :: "lely \<Rightarrow> int host" where
  "testSlaveProducerHeartbeat M = do {
     disabled \<leftarrow> writeSlaveAssignment M kSlaveAssignmentDisabled;
     if \<not> disabled then return 1
     else do {
       prepareHeartbeatWait True;
       stopped \<leftarrow> writeSlaveProducerHeartbeat M 0;
       if \<not> stopped then do {
         _ \<leftarrow> writeSlaveAssignment M kSlaveAssignmentEnabled;
         return 1
       }
       else do {
         timed_out \<leftarrow> waitForHeartbeat M kHeartbeatTimeoutMs;
         let result = (if \<not> timed_out then 1 else 0);
         prepareHeartbeatWait False;
         restored \<leftarrow> writeSlaveProducerHeartbeat M kHeartbeatPeriodMs;
         result \<leftarrow> (if \<not> restored then return 1
           else do {
             recovered \<leftarrow> waitForHeartbeat M kHeartbeatTimeoutMs;
             return (if \<not> recovered then 1 else result)
           });
         enabled \<leftarrow> writeSlaveAssignment M kSlaveAssignmentEnabled;
         return (if \<not> enabled then 1 else result)
       }
     }
   }"

definition heartbeatProcess :: "lely \<Rightarrow> int host" where
  "heartbeatProcess M = do {
     sleep_for M (ms (unat kHeartbeatPeriodMs * kHeartbeatSampleCount));
     fault_sequence \<leftarrow> snapshotCanopenEmcySequence;
     error \<leftarrow> local_write M kHeartbeatIndex_nh kHeartbeatSubindex (V16 0);
     if failed error then return 1
     else do {
       fault_event \<leftarrow> waitForCanopenEmcyEvent M fault_sequence CANOPEN_SLAVE_NODE_ID
                        kHeartbeatConsumerEmcyCode_nh kHeartbeatTimeoutMs;
       let result = (if fault_event = None then 1 else 0);
       recovery_sequence \<leftarrow> snapshotCanopenEmcySequence;
       error \<leftarrow> local_write M kHeartbeatIndex_nh kHeartbeatSubindex (V16 kHeartbeatPeriodMs);
       if failed error then return 1
       else do {
         recovery_event \<leftarrow> waitForCanopenEmcyEvent M recovery_sequence CANOPEN_SLAVE_NODE_ID
                            kEmcyResetCode_nh kHeartbeatTimeoutMs;
         if recovery_event = None then return 1
         else do {
           started \<leftarrow> issueNmtCommand M START CANOPEN_SLAVE_NODE_ID;
           if \<not> started then return 1
           else do {
             tested \<leftarrow> testSlaveProducerHeartbeat M;
             return (if tested \<noteq> 0 then 1 else result)
           }
         }
       }
     }
   }"

section \<open>What a run changes\<close>

abbreviation own_heartbeat :: "u16 \<Rightarrow> mutation" where
  "own_heartbeat p \<equiv> LocalWrite kHeartbeatIndex_nh kHeartbeatSubindex (V16 p)"

abbreviation device_heartbeat :: "u16 \<Rightarrow> mutation" where
  "device_heartbeat p \<equiv>
     RemoteWrite CANOPEN_SLAVE_NODE_ID kHeartbeatIndex_nh kHeartbeatSubindex (V16 p)"

abbreviation assignment :: "u32 \<Rightarrow> mutation" where
  "assignment a \<equiv> LocalWrite kSlaveAssignmentIndex kSlaveAssignmentSubindex (V32 a)"

text \<open>The steps of a complete run, oldest first.\<close>

definition heartbeat_steps :: "mutation list" where
  "heartbeat_steps =
     [own_heartbeat 0, own_heartbeat kHeartbeatPeriodMs, Nmt START CANOPEN_SLAVE_NODE_ID,
      assignment kSlaveAssignmentDisabled, device_heartbeat 0,
      device_heartbeat kHeartbeatPeriodMs, assignment kSlaveAssignmentEnabled]"

lemmas heartbeat_operation_defs = writeSlaveProducerHeartbeat_def writeSlaveAssignment_def
  prepareHeartbeatWait_def waitForHeartbeat_def snapshotCanopenEmcySequence_def
  waitForCanopenEmcyEvent_def issueNmtCommand_def

lemma testSlaveProducerHeartbeat_mutations:
  "wp (testSlaveProducerHeartbeat M) (\<lambda>r w'. \<exists>es. hist w' = es @ hist w \<and> (r = 0 \<or> r = 1) \<and>
     (rev (mutations es) = drop 3 heartbeat_steps \<or>
      r = 1 \<and> (rev (mutations es) = [assignment kSlaveAssignmentDisabled] \<or>
       rev (mutations es) = [assignment kSlaveAssignmentDisabled, device_heartbeat 0,
                             assignment kSlaveAssignmentEnabled]))) w"
  unfolding testSlaveProducerHeartbeat_def heartbeat_operation_defs Let_def
  by (intro wp_intro) (auto simp: heartbeat_steps_def)

lemma wpi_testSlaveProducerHeartbeat:
  assumes "\<And>r w' es. hist w' = es @ hist w \<Longrightarrow> (r = 0 \<or> r = 1) \<Longrightarrow>
     (rev (mutations es) = drop 3 heartbeat_steps \<or>
      r = 1 \<and> (rev (mutations es) = [assignment kSlaveAssignmentDisabled] \<or>
       rev (mutations es) = [assignment kSlaveAssignmentDisabled, device_heartbeat 0,
                             assignment kSlaveAssignmentEnabled])) \<Longrightarrow> Q r w'"
  shows "wp (testSlaveProducerHeartbeat M) Q w"
  by (rule wp_mono [OF testSlaveProducerHeartbeat_mutations]) (use assms in blast)

text \<open>
  The whole process takes its steps in order; it stops early only with a failure, and the
  slave assignment is switched back whenever it had been switched, unless that write itself was
  the one refused.
\<close>

definition heartbeat_trace :: "int \<Rightarrow> mutation list \<Rightarrow> bool" where
  "heartbeat_trace r steps \<longleftrightarrow> (r = 0 \<or> r = 1) \<and> steps = heartbeat_steps \<or>
     r = 1 \<and> (steps = take 1 heartbeat_steps \<or> steps = take 2 heartbeat_steps \<or>
       steps = take 3 heartbeat_steps \<or> steps = take 4 heartbeat_steps \<or>
       steps = take 5 heartbeat_steps @ [assignment kSlaveAssignmentEnabled])"

lemma heartbeatProcess_mutations:
  "wp (heartbeatProcess M) (\<lambda>r w'. \<exists>es. hist w' = es @ hist w \<and>
     heartbeat_trace r (rev (mutations es))) w"
  unfolding heartbeatProcess_def snapshotCanopenEmcySequence_def
    waitForCanopenEmcyEvent_def issueNmtCommand_def Let_def
  by (intro wp_intro wpi_testSlaveProducerHeartbeat) (auto simp: heartbeat_steps_def heartbeat_trace_def)

text \<open>Success needs an answer of every kind: both EMCYs fresh in the log, both heartbeat events.\<close>

lemma testSlaveProducerHeartbeat_success:
  "wp (testSlaveProducerHeartbeat M) (\<lambda>r w'. r = 0 \<longrightarrow> (\<exists>a1 a2 t1 t2 e1 e2.
     hist w' = [a2, EvWait t2 True, e2, EvWait t1 True, e1, a1] @ hist w \<and>
     local_wrote kSlaveAssignmentIndex kSlaveAssignmentSubindex (V32 kSlaveAssignmentDisabled) a1 \<and>
     wrote CANOPEN_SLAVE_NODE_ID kHeartbeatIndex_nh kHeartbeatSubindex (V16 0) e1 \<and>
     wrote CANOPEN_SLAVE_NODE_ID kHeartbeatIndex_nh kHeartbeatSubindex (V16 kHeartbeatPeriodMs) e2 \<and>
     local_wrote kSlaveAssignmentIndex kSlaveAssignmentSubindex (V32 kSlaveAssignmentEnabled) a2)) w"
  unfolding testSlaveProducerHeartbeat_def heartbeat_operation_defs Let_def
  by (intro wp_intro) (auto simp: outcome_SUCCESS_iff)

lemma heartbeatProcess_touches [emits_intro]:
  "touches (\<lambda>m. m \<in> set heartbeat_steps) (heartbeatProcess M)"
  unfolding heartbeatProcess_def testSlaveProducerHeartbeat_def writeSlaveProducerHeartbeat_def
    writeSlaveAssignment_def
  by ((intro emits_intro; simp add: heartbeat_steps_def))

end
