(* ===== verification/Sdo_Process.thy ===== *)
theory Sdo_Process
  imports Observers
begin

text \<open>
  SDO object-access validation, \<open>src/sdo_process.cpp\<close>: save 0x2200:00, write a probe, read it
  back, restore the saved value and verify the restoration.
\<close>

definition kTestObjectIndex :: u16 where [const_defs]: "kTestObjectIndex = 0x2200"
definition kTestObjectSubindex :: u8 where [const_defs]: "kTestObjectSubindex = 0x00"
definition kProbeValue :: u32 where [const_defs]: "kProbeValue = 0x12345678"
definition kAlternateProbeValue :: u32 where [const_defs]: "kAlternateProbeValue = 0x87654321"

definition readControlValue :: "lely \<Rightarrow> u32 \<Rightarrow> (SdoOperationResult \<times> u32) host" where
  "readControlValue M value =
     readRemoteSdo tU32 M CANOPEN_SLAVE_NODE_ID kTestObjectIndex kTestObjectSubindex value"

definition writeControlValue :: "lely \<Rightarrow> u32 \<Rightarrow> SdoOperationResult host" where
  "writeControlValue M value =
     writeRemoteSdo M CANOPEN_SLAVE_NODE_ID kTestObjectIndex kTestObjectSubindex (V32 value)"

definition restoreControlValue :: "lely \<Rightarrow> u32 \<Rightarrow> SdoOperationResult host" where
  "restoreControlValue M original_value = do {
     write_result \<leftarrow> writeControlValue M original_value;
     if write_result = WAIT_TIMEOUT \<or> write_result = FAILED then return write_result
     else do {
       (read_result, restored_value) \<leftarrow> readControlValue M 0;
       if read_result \<noteq> SUCCESS then return read_result
       else if restored_value \<noteq> original_value then return FAILED
       else return SUCCESS
     }
   }"

definition sdoProcess :: "lely \<Rightarrow> int host" where
  "sdoProcess M = do {
     (initial_read_result, original_value) \<leftarrow> readControlValue M 0;
     if initial_read_result \<noteq> SUCCESS then return 1
     else do {
       let test_value = (if original_value = kProbeValue then kAlternateProbeValue else kProbeValue);
       test_write_result \<leftarrow> writeControlValue M test_value;
       if test_write_result = WAIT_TIMEOUT then return 1
       else if test_write_result = SDO_TIMEOUT then do {
         _ \<leftarrow> restoreControlValue M original_value;
         return 1
       }
       else if test_write_result \<noteq> SUCCESS then return 1
       else do {
         (read_back_result, read_back_value) \<leftarrow> readControlValue M 0;
         let completion_wait_timed_out = (read_back_result = WAIT_TIMEOUT);
         let result = (if read_back_result = SUCCESS \<and> read_back_value = test_value
                       then 0 else 1);
         if completion_wait_timed_out then return 1
         else do {
           restore_result \<leftarrow> restoreControlValue M original_value;
           if restore_result \<noteq> SUCCESS then return 1 else return result
         }
       }
     }
   }"

abbreviation control_write :: "u32 \<Rightarrow> mutation" where
  "control_write v \<equiv>
     RemoteWrite CANOPEN_SLAVE_NODE_ID kTestObjectIndex kTestObjectSubindex (V32 v)"

lemmas sdo_process_defs = sdoProcess_def restoreControlValue_def readControlValue_def
  writeControlValue_def

section \<open>Every run\<close>

text \<open>
  The possible runs: nothing written; the test value written and the process stopped because a
  transaction was left open or the write was refused; or the test value written and then the
  value read at the start written back, whatever happened in between.
\<close>

definition control_request :: sdo_request where
  "control_request = sdoRequest Normal CANOPEN_SLAVE_NODE_ID kTestObjectIndex kTestObjectSubindex
     CANOPEN_SDO_TIMEOUT_MS"

lemma wpi_readControlValue:
  "(\<And>r w'. r = up32 M (hist w) control_request \<Longrightarrow>
      hist w' = EvUpload control_request (map_submission V32 r) # hist w \<Longrightarrow>
      Q (outcome M r, answer_value v0 r) w') \<Longrightarrow>
     wp (readControlValue M v0) Q w"
  unfolding readControlValue_def control_request_def
  by (intro wp_intro) (simp add: tU32_def)

lemma wpi_writeControlValue:
  "(\<And>r w'. hist w' = EvDownload control_request (V32 v) r # hist w \<Longrightarrow> Q (outcome M r) w') \<Longrightarrow>
     wp (writeControlValue M v) Q w"
  unfolding writeControlValue_def control_request_def by (intro wp_intro) simp

lemma control_request_sel [simp]:
  "rq_node control_request = CANOPEN_SLAVE_NODE_ID" "rq_index control_request = kTestObjectIndex"
  "rq_sub control_request = kTestObjectSubindex"
  by (simp_all add: control_request_def)

lemmas control_wps = wpi_readControlValue wpi_writeControlValue wp_intro

text \<open>What the restoration leaves behind, on every branch.\<close>

lemma restoreControlValue_events:
  "wp (restoreControlValue M v0) (\<lambda>r w'. \<exists>es. hist w' = es @ hist w \<and>
     mutations es = [control_write v0] \<and> list_all sdo_traffic es \<and> stops_when_unknown es \<and>
     (list_ex unknown_state es \<longleftrightarrow> r = WAIT_TIMEOUT)) w"
  unfolding restoreControlValue_def
  by (intro control_wps) (auto simp: outcome_WAIT_TIMEOUT_iff)

lemma restoreControlValue_device:
  assumes "sdo_server plain M dev" and "plain (address control_request)"
  shows "wp (restoreControlValue M v0) (\<lambda>r w'. r = SUCCESS \<longrightarrow>
     dev (hist w') = (dev (hist w))(address control_request := V32 v0)) w"
proof -
  have written: "dev (EvDownload control_request (V32 v0) a # h)
      = (dev h)(address control_request := V32 v0)"
    if "outcome M (up32 M (EvDownload control_request (V32 v0) a # h) control_request) = SUCCESS"
      and "answer_value 0 (up32 M (EvDownload control_request (V32 v0) a # h) control_request) = v0"
    for a h
    using sdo_serverD(3) [OF assms(1), of control_request "V32 v0" a h]
      sdo_server_upload(3) [OF assms that(1), of 0] that(2)
    by (auto simp: fun_upd_idem)
  show ?thesis
    unfolding restoreControlValue_def
    by (intro control_wps) (auto simp: sdo_serverD(1) [OF assms(1)] written)
qed

lemma wpi_restoreControlValue:
  assumes "\<And>r w' es. hist w' = es @ hist w \<Longrightarrow> mutations es = [control_write v0] \<Longrightarrow>
     list_all sdo_traffic es \<Longrightarrow> stops_when_unknown es \<Longrightarrow>
     (list_ex unknown_state es \<longleftrightarrow> r = WAIT_TIMEOUT) \<Longrightarrow> Q r w'"
  shows "wp (restoreControlValue M v0) Q w"
  by (rule wp_mono [OF restoreControlValue_events]) (use assms in blast)

text \<open>The value read first, and the probe chosen for it.\<close>

definition original_value :: "lely \<Rightarrow> world \<Rightarrow> u32" where
  "original_value M w = answer_value 0 (up32 M (hist w) control_request)"

definition probe_for :: "u32 \<Rightarrow> u32" where
  "probe_for v = (if v = kProbeValue then kAlternateProbeValue else kProbeValue)"

lemma probe_for_neq: "probe_for v \<noteq> v"
  by (simp add: probe_for_def const_defs)

text \<open>
  One run, newest event first: nothing written and a failure reported; the probe written and the
  original value written back; or the probe written and the process stopped with a failure, which
  only happens when a transaction was left open or the device refused the probe.
\<close>

definition sdo_run :: "lely \<Rightarrow> u32 \<Rightarrow> int \<Rightarrow> history \<Rightarrow> bool" where
  "sdo_run M v0 r es \<longleftrightarrow> (r = 0 \<or> r = 1) \<and> (list_ex unknown_state es \<longrightarrow> r = 1) \<and>
     (let t = probe_for v0 in
        mutations es = [] \<and> r = 1 \<or>
        mutations es = [control_write v0, control_write t] \<or>
        mutations es = [control_write t] \<and> r = 1 \<and>
          (list_ex unknown_state es \<or>
           (\<exists>a h. es = EvDownload control_request (V32 t) a # h \<and>
              outcome M a \<noteq> SUCCESS \<and> outcome M a \<noteq> SDO_TIMEOUT)))"

lemma sdoProcess_events:
  "wp (sdoProcess M) (\<lambda>r w'. \<exists>es. hist w' = es @ hist w \<and> stops_when_unknown es \<and>
     sdo_run M (original_value M w) r es) w"
  unfolding sdoProcess_def Let_def probe_for_def [symmetric] original_value_def sdo_run_def
  by (intro control_wps wpi_restoreControlValue) (auto simp: outcome_WAIT_TIMEOUT_iff)

lemma sdoProcess_restores:
  assumes "sdo_server plain M dev" and "plain (address control_request)"
  shows "wp (sdoProcess M) (\<lambda>r w'. r = 1 \<or> r = 0 \<and> dev (hist w') = dev (hist w)) w"
proof -
  let ?a = "address control_request"
  have idem: "(dev h)(?a := V32 (answer_value 0 (up32 M h control_request))) = dev h"
    if "outcome M (up32 M h control_request) = SUCCESS" for h
    using sdo_server_upload(3) [OF assms that, of 0] by (auto simp: fun_upd_idem)
  have written: "dev (EvDownload rq v a # h) = (dev h)(address rq := v)"
    if "outcome M a = SUCCESS" for rq v a h
    using that by (simp add: outcome_SUCCESS_iff sdo_serverD(2) [OF assms(1)])
  show ?thesis
    unfolding sdoProcess_def Let_def probe_for_def [symmetric]
    by (intro control_wps wp_mono [OF restoreControlValue_device [OF assms]])
       (auto simp: sdo_serverD(1) [OF assms(1)] written idem split: if_splits)
qed

end
