(* ===== verification/Host_Progress.thy ===== *)
theory Host_Progress
  imports Heartbeat_Process Sdo_Process
begin

text \<open>
  What every run keeps, the invariant of the shared memory and the order of the clock, and the progress of the
  Boot wait of \<open>src/nmt_heartbeat.cpp\<close>: when the callbacks of the slave's boot arrive, from the
  reset on until the wait, the final reset of \<open>src/shutdown_process.cpp\<close> ends well.
\<close>

section \<open>The shared memory\<close>

text \<open>A program of any footprint keeps the invariant.\<close>

lemma wp_memory:
  assumes "touches S m" and "memory_wf (mem w)"
  shows "wp m (\<lambda>r w'. memory_wf (mem w') \<and> clock w \<le> clock w') w"
  by (rule wpI) (use assms in \<open>auto dest: emits_steps simp: steps_to_def\<close>)

lemma sdoProcess_any: "touches (\<lambda>_. True) (sdoProcess M)"
  unfolding sdoProcess_def restoreControlValue_def readControlValue_def writeControlValue_def by (intro emits_intro; simp)

lemma finalResetProcess_any: "touches (\<lambda>_. True) (finalResetProcess M)"
  unfolding finalResetProcess_def by (intro emits_intro; simp)

section \<open>The boot callbacks among those delivered\<close>

definition boot_passes :: "char \<Rightarrow> bool" where
  "boot_passes status \<longleftrightarrow> status = CHR 0x00 \<or> status = CHR ''L''"

fun boots :: "callback list \<Rightarrow> char list" where
  "boots [] = []"
| "boots (CbBoot node state status # cs) = (if node = CANOPEN_SLAVE_NODE_ID then [status] else []) @ boots cs"
| "boots (_ # cs) = boots cs"

text \<open>Where the memory stands: the callback is registered, and a recorded boot has succeeded.\<close>

definition expecting :: "memory \<Rightarrow> bool" where
  "expecting m \<longleftrightarrow> on_boot m \<and> (g_boot_received (boot m) \<longrightarrow> g_boot_succeeded (boot m))"

lemma dispatch_expecting:
  assumes "expecting m" and "list_all boot_passes (boots [c])"
  shows "expecting (dispatch t c m)"
    and "g_boot_received (boot (dispatch t c m)) \<longleftrightarrow> g_boot_received (boot m) \<or> boots [c] \<noteq> []"
  using assms by (cases c; auto simp: expecting_def bootCallback_def boot_passes_def Let_def split: if_splits)+

lemma boots_Cons: "boots (c # cs) = boots [c] @ boots cs"
  by (cases c) auto

lemma boots_append [simp]: "boots (cs @ cs') = boots cs @ boots cs'"
proof (induction cs)
  case (Cons c cs)
  then show ?case by (simp add: boots_Cons [of c "cs @ cs'"] boots_Cons [of c cs])
qed simp

lemma callbacks_expecting:
  "expecting m \<Longrightarrow> list_all boot_passes (boots cs) \<Longrightarrow> expecting (fold (dispatch t) cs m) \<and>
     (g_boot_received (boot (fold (dispatch t) cs m)) \<longleftrightarrow> g_boot_received (boot m) \<or> boots cs \<noteq> [])"
proof (induction cs arbitrary: m)
  case (Cons c cs)
  have cs: "list_all boot_passes (boots [c])" "list_all boot_passes (boots cs)"
    using Cons.prems(2) by (simp_all add: boots_Cons [of c cs])
  show ?case
    using Cons.IH [OF dispatch_expecting(1) [OF Cons.prems(1) cs(1)] cs(2)] dispatch_expecting(2) [OF Cons.prems(1) cs(1), of t]
    by (auto simp: boots_Cons [of c cs])
qed simp

text \<open>A wait for a boot that is recorded or arrives ends with it.\<close>

lemma wait_run_expecting:
  assumes "expecting m" "list_all boot_passes (boots cs)" and "g_boot_received (boot m) \<or> boots cs \<noteq> []"
  shows "\<exists>m'. wait_run t (\<lambda>m. g_boot_received (boot m)) cs m = (True, m') \<and> g_boot_succeeded (boot m')"
  using assms
proof (induction cs arbitrary: m)
  case (Cons c cs)
  show ?case
  proof (cases "g_boot_received (boot m)")
    case True
    with Cons.prems(1) show ?thesis by (simp add: expecting_def)
  next
    case False
    have cs: "list_all boot_passes (boots [c])" "list_all boot_passes (boots cs)"
      using Cons.prems(2) by (simp_all add: boots_Cons [of c cs])
    have "g_boot_received (boot (dispatch t c m)) \<or> boots cs \<noteq> []"
      using Cons.prems(3) False dispatch_expecting(2) [OF Cons.prems(1) cs(1), of t] by (auto simp: boots_Cons [of c cs])
    from Cons.IH [OF dispatch_expecting(1) [OF Cons.prems(1) cs(1)] cs(2) this] False show ?thesis by simp
  qed
qed (auto simp: expecting_def)

lemma waitForBootCompletion_live:
  assumes "expecting (mem w)" "list_all boot_passes (boots (callbacks M (hist w)))"
    and "g_boot_received (boot (mem w)) \<or> boots (callbacks M (hist w)) \<noteq> []"
  shows "wp (waitForBootCompletion M t) (\<lambda>ok w'. ok) w"
proof -
  obtain m where m: "wait_run (clock w) (\<lambda>m. g_boot_received (boot m)) (callbacks M (hist w)) (mem w) = (True, m)"
    "g_boot_succeeded (boot m)"
    using wait_run_expecting [OF assms] by blast
  have "wp (wait_for M (ms t) (\<lambda>m. g_boot_received (boot m))) (\<lambda>ok w'. ok \<and> g_boot_succeeded (boot (mem w'))) w"
    using m by (simp add: wp_def wait_for_def)
  then show ?thesis
    unfolding waitForBootCompletion_def waitForBootResult_def
    by (intro wpi_bind) (erule wp_mono, auto simp: host_wp)
qed

section \<open>The final reset\<close>

text \<open>The command is accepted, and between the command and the wait the slave boots, each time well.\<close>

definition slave_reboots :: "lely \<Rightarrow> history \<Rightarrow> bool" where
  "slave_reboots M h \<longleftrightarrow> (let h' = EvCommand RESET_COMM CANOPEN_SLAVE_NODE_ID True # h;
      arriving = boots (callbacks M h) @ boots (callbacks M h')
    in command M h RESET_COMM CANOPEN_SLAVE_NODE_ID \<and> arriving \<noteq> [] \<and> list_all boot_passes arriving)"

lemma finalReset_live:
  assumes "on_boot (mem w)" and "slave_reboots M (hist w)"
  shows "wp (finalResetProcess M) (\<lambda>r w'. r = 0) w"
proof -
  let ?v = "w\<lparr>mem := (mem w)\<lparr>boot := clearBoot (boot (mem w))\<rparr>\<rparr>"
  let ?u = "occur M (EvCommand RESET_COMM CANOPEN_SLAVE_NODE_ID True) 0 ?v"
  have start: "expecting (mem ?v)" "\<not> g_boot_received (boot (mem ?v))"
    using assms(1) by (simp_all add: expecting_def clearBoot_def)
  have reboots: "command M (hist w) RESET_COMM CANOPEN_SLAVE_NODE_ID"
    "list_all boot_passes (boots (callbacks M (hist w)))" "list_all boot_passes (boots (callbacks M (hist ?u)))"
    "boots (callbacks M (hist w)) \<noteq> [] \<or> boots (callbacks M (hist ?u)) \<noteq> []"
    using assms(2) by (auto simp: slave_reboots_def Let_def)
  have u: "expecting (mem ?u)" "g_boot_received (boot (mem ?u)) \<longleftrightarrow> boots (callbacks M (hist w)) \<noteq> []"
    using callbacks_expecting [OF start(1) reboots(2), of "clock w"] start(2) by (simp_all add: occur_def)
  have "wp (waitForBootCompletion M CANOPEN_WAIT_TIMEOUT_MS) (\<lambda>ok w'. ok) ?u"
    by (rule waitForBootCompletion_live [OF u(1) reboots(3)]) (use u(2) reboots(4) in blast)
  moreover have "run_state (submit_command M RESET_COMM CANOPEN_SLAVE_NODE_ID) ?v = (True, ?u)"
    using reboots(1) by (simp add: run_submit_command)
  ultimately show ?thesis
    unfolding finalResetProcess_def prepareBootWait_def issueNmtCommand_def
    by (simp add: host_wp wp_def [of "submit_command M RESET_COMM CANOPEN_SLAVE_NODE_ID"]) (erule wp_mono, simp add: host_wp)
qed

end
