(* ===== verification/Emcy_Process.thy ===== *)
theory Emcy_Process
  imports Object_Access
begin

text \<open>
  EMCY producer validation, \<open>src/emcy_process.cpp\<close>: COB-ID and history-entry decoding, the
  fault injection through the master's own heartbeat, the guarded change of the EMCY
  COB-ID on both sides, and the capture, validation and restoration phases.
\<close>

section \<open>Constants\<close>

definition kErrorRegisterIndex :: u16 where [const_defs]: "kErrorRegisterIndex = 0x1001"
definition kErrorHistoryIndex :: u16 where [const_defs]: "kErrorHistoryIndex = 0x1003"
definition kEmcyCobIdIndex :: u16 where [const_defs]: "kEmcyCobIdIndex = 0x1014"
definition kEmcyInhibitIndex :: u16 where [const_defs]: "kEmcyInhibitIndex = 0x1015"
definition kHeartbeatIndex :: u16 where [const_defs]: "kHeartbeatIndex = 0x1017"
definition kEmcyConsumerIndex :: u16 where [const_defs]: "kEmcyConsumerIndex = 0x1028"
definition kScalarSubindex :: u8 where [const_defs]: "kScalarSubindex = 0x00"
definition kEmcyConsumerSubindex :: u8 where
  [const_defs]: "kEmcyConsumerSubindex = CANOPEN_SLAVE_NODE_ID"
definition kCobIdInvalidMask :: u32 where [const_defs]: "kCobIdInvalidMask = 0x80000000"
definition kStandardCanIdMask :: u32 where [const_defs]: "kStandardCanIdMask = 0x000007FF"
definition kTestEmcyCobId :: u32 where [const_defs]: "kTestEmcyCobId = 0x00000681"
definition kHeartbeatConsumerEmcyCode :: u16 where
  [const_defs]: "kHeartbeatConsumerEmcyCode = 0x8130"
definition kEmcyResetCode :: u16 where [const_defs]: "kEmcyResetCode = 0x0000"
definition kCommunicationErrorRegisterBit :: u8 where
  [const_defs]: "kCommunicationErrorRegisterBit = 0x10"
definition kHeartbeatConsumerErrorBit :: u8 where
  [const_defs]: "kHeartbeatConsumerErrorBit = 0x1B"
definition kErrorHistoryCapacity :: u8 where [const_defs]: "kErrorHistoryCapacity = 16"
definition kEmcyWaitTimeoutMs :: nat where [const_defs]: "kEmcyWaitTimeoutMs = 5000"
definition kHeartbeatSettleMs :: nat where [const_defs]: "kHeartbeatSettleMs = 2500"
definition kDuplicateGuardMs :: nat where [const_defs]: "kDuplicateGuardMs = 1000"
definition kTestInhibitTime100us :: u16 where [const_defs]: "kTestInhibitTime100us = 15000"
definition kInhibitToleranceMs :: nat where [const_defs]: "kInhibitToleranceMs = 100"
definition kInhibitUpperMarginMs :: nat where [const_defs]: "kInhibitUpperMarginMs = 1000"
definition kCleanupPollIntervalMs :: nat where [const_defs]: "kCleanupPollIntervalMs = 100"

section \<open>Data\<close>

record EmcySavedState =
  master_heartbeat :: u16
  master_consumer_cob_id :: u32
  slave_emcy_cob_id :: u32
  slave_inhibit_time :: u16

definition default_saved_state :: EmcySavedState where
  "default_saved_state = \<lparr>master_heartbeat = 0, master_consumer_cob_id = 0,
     slave_emcy_cob_id = 0, slave_inhibit_time = 0\<rparr>"

record ErrorHistorySnapshot =
  error_register :: u8
  count :: u8
  newest :: u32
  previous :: u32

definition default_history :: ErrorHistorySnapshot where
  "default_history = \<lparr>error_register = 0, count = 0, newest = 0, previous = 0\<rparr>"

section \<open>Decoding\<close>

definition cobIdEnabled :: "u32 \<Rightarrow> bool" where
  "cobIdEnabled cob_id \<longleftrightarrow>
     cob_id AND kCobIdInvalidMask = 0 \<and> cob_id AND kStandardCanIdMask \<noteq> 0"

definition standardCanId :: "u32 \<Rightarrow> u32" where
  "standardCanId cob_id = cob_id AND kStandardCanIdMask"

definition historyErrorCode :: "u32 \<Rightarrow> u16" where
  "historyErrorCode entry = ucast (entry AND 0x0000FFFF)"

definition historyErrorRegister :: "u32 \<Rightarrow> u8" where
  "historyErrorRegister entry = ucast (drop_bit 16 entry AND 0xFF)"

definition historyErrorBit :: "u32 \<Rightarrow> u8" where
  "historyErrorBit entry = ucast (drop_bit 24 entry AND 0xFF)"

definition expectedHistoryCount :: "u8 \<Rightarrow> u8 \<Rightarrow> u8" where
  "expectedHistoryCount baseline added_events =
     (let total = unat baseline + unat added_events
      in of_nat (min total (unat kErrorHistoryCapacity)))"

definition validateHistoryEntry :: "u32 \<Rightarrow> u16 \<Rightarrow> u8 \<Rightarrow> bool" where
  "validateHistoryEntry entry expected_code expected_register =
     (let code = historyErrorCode entry;
          reg = historyErrorRegister entry;
          error_bit = historyErrorBit entry
      in \<not> (code \<noteq> expected_code \<or> reg \<noteq> expected_register
            \<or> error_bit \<noteq> kHeartbeatConsumerErrorBit))"

definition validateHeartbeatEmcyData :: "CanopenEmcyEvent \<Rightarrow> u16 \<Rightarrow> bool" where
  "validateHeartbeatEmcyData event expected_code =
     (if ev_error_code event \<noteq> expected_code then False
      else \<not> (ev_manufacturer_data event ! 0 \<noteq> kHeartbeatConsumerErrorBit
              \<or> ev_manufacturer_data event ! 1 \<noteq> 0 \<or> ev_manufacturer_data event ! 2 \<noteq> 0
              \<or> ev_manufacturer_data event ! 3 \<noteq> 0 \<or> ev_manufacturer_data event ! 4 \<noteq> 0))"

section \<open>Device and master objects\<close>

definition readErrorHistory ::
    "lely \<Rightarrow> ErrorHistorySnapshot \<Rightarrow> (bool \<times> ErrorHistorySnapshot) host" where
  "readErrorHistory M snapshot = do {
     (ok, reg) \<leftarrow> readRemoteObject tU8 M kErrorRegisterIndex kScalarSubindex
                      (error_register snapshot);
     let snapshot = snapshot\<lparr>error_register := reg\<rparr>;
     if \<not> ok then return (False, snapshot)
     else do {
       (ok, n) \<leftarrow> readRemoteObject tU8 M kErrorHistoryIndex kScalarSubindex (count snapshot);
       let snapshot = snapshot\<lparr>count := n\<rparr>;
       if \<not> ok then return (False, snapshot)
       else if count snapshot > kErrorHistoryCapacity then return (False, snapshot)
       else do {
         (ok, entry) \<leftarrow> (if count snapshot > 0
            then readRemoteObject tU32 M kErrorHistoryIndex 0x01 (newest snapshot)
            else return (True, newest snapshot));
         let snapshot = snapshot\<lparr>newest := entry\<rparr>;
         if \<not> ok then return (False, snapshot)
         else do {
           (ok, entry) \<leftarrow> (if count snapshot > 1
              then readRemoteObject tU32 M kErrorHistoryIndex 0x02 (previous snapshot)
              else return (True, previous snapshot));
           let snapshot = snapshot\<lparr>previous := entry\<rparr>;
           if \<not> ok then return (False, snapshot) else return (True, snapshot)
         }
       }
     }
   }"

definition validateErrorRegister :: "lely \<Rightarrow> CanopenEmcyEvent \<Rightarrow> bool \<Rightarrow> bool host" where
  "validateErrorRegister M event communication_error_expected = do {
     (ok, reg) \<leftarrow> readRemoteObject tU8 M kErrorRegisterIndex kScalarSubindex 0;
     if \<not> ok then return False
     else if reg \<noteq> ev_error_register event then return False
     else if communication_error_expected
       then return (reg AND kCommunicationErrorRegisterBit \<noteq> 0)
     else return (reg = 0)
   }"

definition writeMasterHeartbeat :: "lely \<Rightarrow> u16 \<Rightarrow> bool host" where
  "writeMasterHeartbeat M heartbeat_ms =
     writeLocalObject lU16 M kHeartbeatIndex kScalarSubindex heartbeat_ms"

definition triggerHeartbeatFault :: "lely \<Rightarrow> CanopenEmcyEvent option host" where
  "triggerHeartbeatFault M = do {
     sequence \<leftarrow> snapshotCanopenEmcySequence;
     written \<leftarrow> writeMasterHeartbeat M 0;
     if \<not> written then return None
     else waitForCanopenEmcyEvent M sequence CANOPEN_SLAVE_NODE_ID kHeartbeatConsumerEmcyCode
            kEmcyWaitTimeoutMs
   }"

definition recoverHeartbeatFault :: "lely \<Rightarrow> u16 \<Rightarrow> nat \<Rightarrow> CanopenEmcyEvent option host" where
  "recoverHeartbeatFault M heartbeat_ms timeout = do {
     sequence \<leftarrow> snapshotCanopenEmcySequence;
     written \<leftarrow> writeMasterHeartbeat M heartbeat_ms;
     if \<not> written then return None
     else waitForCanopenEmcyEvent M sequence CANOPEN_SLAVE_NODE_ID kEmcyResetCode timeout
   }"

definition disableRemoteEmcyProducer :: "lely \<Rightarrow> bool host" where
  "disableRemoteEmcyProducer M = do {
     (ok, current) \<leftarrow> readRemoteObject tU32 M kEmcyCobIdIndex kScalarSubindex 0;
     if \<not> ok then return False
     else if \<not> cobIdEnabled current then return True
     else do {
       let disabled = current OR kCobIdInvalidMask;
       written \<leftarrow> writeRemoteObject tU32 M kEmcyCobIdIndex kScalarSubindex disabled;
       if \<not> written then return False
       else do {
         (ok, readback) \<leftarrow> readRemoteObject tU32 M kEmcyCobIdIndex kScalarSubindex 0;
         if \<not> ok then return False
         else if readback \<noteq> disabled then return False else return True
       }
     }
   }"

definition switchLocalEmcyConsumerCobId :: "lely \<Rightarrow> u32 \<Rightarrow> bool host" where
  "switchLocalEmcyConsumerCobId M target = do {
     (ok, current) \<leftarrow> readLocalObject lU32 M kEmcyConsumerIndex kEmcyConsumerSubindex 0;
     if \<not> ok then return False
     else if current = target then return True
     else do {
       disabled_ok \<leftarrow> (
         if cobIdEnabled current \<and> standardCanId current \<noteq> standardCanId target
         then writeLocalObject lU32 M kEmcyConsumerIndex kEmcyConsumerSubindex
                (current OR kCobIdInvalidMask)
         else return True);
       if \<not> disabled_ok then return False
       else do {
         written \<leftarrow> writeLocalObject lU32 M kEmcyConsumerIndex kEmcyConsumerSubindex target;
         if \<not> written then return False
         else do {
           (ok, readback) \<leftarrow> readLocalObject lU32 M kEmcyConsumerIndex kEmcyConsumerSubindex 0;
           if \<not> ok then return False
           else if readback \<noteq> target then return False else return True
         }
       }
     }
   }"

definition writeRemoteEmcyCobId :: "lely \<Rightarrow> u32 \<Rightarrow> bool host" where
  "writeRemoteEmcyCobId M target = do {
     written \<leftarrow> writeRemoteObject tU32 M kEmcyCobIdIndex kScalarSubindex target;
     if \<not> written then return False
     else do {
       (ok, readback) \<leftarrow> readRemoteObject tU32 M kEmcyCobIdIndex kScalarSubindex 0;
       if \<not> ok then return False
       else if readback \<noteq> target then return False else return True
     }
   }"

section \<open>Phases\<close>

definition captureSavedState :: "lely \<Rightarrow> EmcySavedState \<Rightarrow> (bool \<times> EmcySavedState) host" where
  "captureSavedState M st = do {
     (ok, v) \<leftarrow> readLocalObject lU16 M kHeartbeatIndex kScalarSubindex (master_heartbeat st);
     let st = st\<lparr>master_heartbeat := v\<rparr>;
     if \<not> ok then return (False, st)
     else do {
       (ok, v) \<leftarrow> readLocalObject lU32 M kEmcyConsumerIndex kEmcyConsumerSubindex
                    (master_consumer_cob_id st);
       let st = st\<lparr>master_consumer_cob_id := v\<rparr>;
       if \<not> ok then return (False, st)
       else do {
         (ok, v) \<leftarrow> readRemoteObject tU32 M kEmcyCobIdIndex kScalarSubindex
                      (slave_emcy_cob_id st);
         let st = st\<lparr>slave_emcy_cob_id := v\<rparr>;
         if \<not> ok then return (False, st)
         else do {
           (ok, v) \<leftarrow> readRemoteObject tU16 M kEmcyInhibitIndex kScalarSubindex
                        (slave_inhibit_time st);
           let st = st\<lparr>slave_inhibit_time := v\<rparr>;
           if \<not> ok then return (False, st)
           else if master_heartbeat st = 0 then return (False, st)
           else if \<not> cobIdEnabled (master_consumer_cob_id st)
                   \<or> \<not> cobIdEnabled (slave_emcy_cob_id st) then return (False, st)
           else if standardCanId (master_consumer_cob_id st)
                   \<noteq> standardCanId (slave_emcy_cob_id st) then return (False, st)
           else if standardCanId (slave_emcy_cob_id st) = standardCanId kTestEmcyCobId
             then return (False, st)
           else return (True, st)
         }
       }
     }
   }"

definition validateHistoryAfterPair ::
    "lely \<Rightarrow> u8 \<Rightarrow> CanopenEmcyEvent \<Rightarrow> CanopenEmcyEvent \<Rightarrow> bool host" where
  "validateHistoryAfterPair M baseline_count fault reset = do {
     (ok, hst) \<leftarrow> readErrorHistory M default_history;
     if \<not> ok then return False
     else if count hst \<noteq> expectedHistoryCount baseline_count 2 then return False
     else if count hst < 2 then return False
     else if \<not> validateHistoryEntry (newest hst) kEmcyResetCode (ev_error_register reset)
       then return False
     else if \<not> validateHistoryEntry (previous hst) kHeartbeatConsumerEmcyCode
                 (ev_error_register fault)
       then return False
     else return True
   }"

text \<open>
  Checks that clear a local \<open>result\<close> and go on are evaluated here as operations that give the
  value the check contributes; \<open>andM\<close> keeps the short circuit of the \<open>||\<close> chains.
\<close>

definition runDefaultEmcyValidation :: "lely \<Rightarrow> EmcySavedState \<Rightarrow> bool host" where
  "runDefaultEmcyValidation M st = do {
     (ok, baseline) \<leftarrow> readErrorHistory M default_history;
     if \<not> ok then return False
     else if error_register baseline \<noteq> 0 then return False
     else do {
       written \<leftarrow> writeRemoteObject tU16 M kEmcyInhibitIndex kScalarSubindex 0;
       if \<not> written then return False
       else do {
         (ok, inhibit_readback) \<leftarrow> readRemoteObject tU16 M kEmcyInhibitIndex kScalarSubindex 0;
         if \<not> ok then return False
         else if inhibit_readback \<noteq> 0 then return False
         else do {
           sleep_for M (ms kHeartbeatSettleMs);
           triggered \<leftarrow> triggerHeartbeatFault M;
           case triggered of
             None \<Rightarrow> return False
           | Some fault \<Rightarrow> do {
               result1 \<leftarrow> andM (return (validateHeartbeatEmcyData fault kHeartbeatConsumerEmcyCode))
                                (validateErrorRegister M fault True);
               (ok, fault_history) \<leftarrow> readErrorHistory M default_history;
               let result2 = (
                 if \<not> ok then False
                 else if count fault_history \<noteq> expectedHistoryCount (count baseline) 1 then False
                 else \<not> (count fault_history = 0
                          \<or> \<not> validateHistoryEntry (newest fault_history)
                                kHeartbeatConsumerEmcyCode (ev_error_register fault)));
               sleep_for M (ms kDuplicateGuardMs);
               unexpected \<leftarrow> getCanopenEmcyEventsAfter (ev_sequence fault) CANOPEN_SLAVE_NODE_ID;
               let result3 = (unexpected = []);
               recovered \<leftarrow> recoverHeartbeatFault M (master_heartbeat st) kEmcyWaitTimeoutMs;
               case recovered of
                 None \<Rightarrow> return False
               | Some reset \<Rightarrow> do {
                   result4 \<leftarrow> andM (return (validateHeartbeatEmcyData reset kEmcyResetCode))
                     (andM (validateErrorRegister M reset False)
                           (validateHistoryAfterPair M (count baseline) fault reset));
                   return (result1 \<and> result2 \<and> result3 \<and> result4)
                 }
             }
         }
       }
     }
   }"

definition configureTestEmcyCobId :: "lely \<Rightarrow> bool host" where
  "configureTestEmcyCobId M = do {
     ok \<leftarrow> disableRemoteEmcyProducer M;
     if \<not> ok then return False
     else do {
       ok \<leftarrow> switchLocalEmcyConsumerCobId M kTestEmcyCobId;
       if \<not> ok then return False
       else do {
         ok \<leftarrow> writeRemoteEmcyCobId M kTestEmcyCobId;
         if \<not> ok then return False
         else do {
           (ok, master_cob_id) \<leftarrow> readLocalObject lU32 M kEmcyConsumerIndex kEmcyConsumerSubindex 0;
           if \<not> ok then return False
           else do {
             (ok, slave_cob_id) \<leftarrow> readRemoteObject tU32 M kEmcyCobIdIndex kScalarSubindex 0;
             if \<not> ok then return False
             else if master_cob_id \<noteq> kTestEmcyCobId \<or> slave_cob_id \<noteq> kTestEmcyCobId
               then return False
             else return True
           }
         }
       }
     }
   }"

definition inhibitIntervalOk :: "int \<Rightarrow> bool" where
  "inhibitIntervalOk interval_ms =
     (let inhibit_ms = int (unat kTestInhibitTime100us) div 10;
          minimum_ms = inhibit_ms - int kInhibitToleranceMs;
          maximum_ms = inhibit_ms + int kInhibitUpperMarginMs
      in \<not> (interval_ms < minimum_ms \<or> interval_ms > maximum_ms))"

definition runConfigurableInhibitValidation :: "lely \<Rightarrow> EmcySavedState \<Rightarrow> bool host" where
  "runConfigurableInhibitValidation M st = do {
     written \<leftarrow> writeRemoteObject tU16 M kEmcyInhibitIndex kScalarSubindex kTestInhibitTime100us;
     if \<not> written then return False
     else do {
       (ok, inhibit_readback) \<leftarrow> readRemoteObject tU16 M kEmcyInhibitIndex kScalarSubindex 0;
       if \<not> ok then return False
       else if inhibit_readback \<noteq> kTestInhibitTime100us then return False
       else do {
         (ok, baseline) \<leftarrow> readErrorHistory M default_history;
         if \<not> ok \<or> error_register baseline \<noteq> 0 then return False
         else do {
           sleep_for M (ms kHeartbeatSettleMs);
           triggered \<leftarrow> triggerHeartbeatFault M;
           case triggered of
             None \<Rightarrow> return False
           | Some fault \<Rightarrow> do {
               result1 \<leftarrow> andM (return (validateHeartbeatEmcyData fault kHeartbeatConsumerEmcyCode))
                                (validateErrorRegister M fault True);
               recovered \<leftarrow> recoverHeartbeatFault M (master_heartbeat st) kEmcyWaitTimeoutMs;
               case recovered of
                 None \<Rightarrow> return False
               | Some reset \<Rightarrow> do {
                   result2 \<leftarrow> andM (return (validateHeartbeatEmcyData reset kEmcyResetCode))
                                    (validateErrorRegister M reset False);
                   let result3 = inhibitIntervalOk
                                   (intervalMs (ev_timestamp reset) (ev_timestamp fault));
                   result4 \<leftarrow> validateHistoryAfterPair M (count baseline) fault reset;
                   return (result1 \<and> result2 \<and> result3 \<and> result4)
                 }
             }
         }
       }
     }
   }"

definition clearErrorRegisterBody :: "lely \<Rightarrow> unit \<Rightarrow> (unit + unit) host" where
  "clearErrorRegisterBody M u = do {
     (ok, reg) \<leftarrow> readRemoteObject tU8 M kErrorRegisterIndex kScalarSubindex 0;
     if ok \<and> reg = 0 then return (Inr ())
     else do {
       sleep_for M (ms kCleanupPollIntervalMs);
       return (Inl ())
     }
   }"

text \<open>A \<open>do ... while (now < deadline)\<close> loop: the body once, then the loop.\<close>

definition waitForClearErrorRegister :: "lely \<Rightarrow> bool host" where
  "waitForClearErrorRegister M = do {
     start \<leftarrow> steady_now M;
     let deadline = start + ms kEmcyWaitTimeoutMs;
     first \<leftarrow> clearErrorRegisterBody M ();
     case first of
       Inr _ \<Rightarrow> return True
     | Inl _ \<Rightarrow> do {
         rest \<leftarrow> deadline_loop M deadline (clearErrorRegisterBody M) ();
         case rest of Inr _ \<Rightarrow> return True | Inl _ \<Rightarrow> return False
       }
   }"

definition verifyRestored :: "lely \<Rightarrow> EmcySavedState \<Rightarrow> bool host" where
  "verifyRestored M st = do {
     (ok, hb) \<leftarrow> readLocalObject lU16 M kHeartbeatIndex kScalarSubindex 0;
     if \<not> ok then return False
     else do {
       (ok, master_cob_id) \<leftarrow> readLocalObject lU32 M kEmcyConsumerIndex kEmcyConsumerSubindex 0;
       if \<not> ok then return False
       else do {
         (ok, slave_cob_id) \<leftarrow> readRemoteObject tU32 M kEmcyCobIdIndex kScalarSubindex 0;
         if \<not> ok then return False
         else do {
           (ok, inhibit) \<leftarrow> readRemoteObject tU16 M kEmcyInhibitIndex kScalarSubindex 0;
           if \<not> ok then return False
           else return (\<not> (hb \<noteq> master_heartbeat st
                            \<or> master_cob_id \<noteq> master_consumer_cob_id st
                            \<or> slave_cob_id \<noteq> slave_emcy_cob_id st
                            \<or> inhibit \<noteq> slave_inhibit_time st))
         }
       }
     }
   }"

definition restoreEmcyConfiguration :: "lely \<Rightarrow> EmcySavedState \<Rightarrow> bool host" where
  "restoreEmcyConfiguration M st = do {
     r1 \<leftarrow> writeMasterHeartbeat M (master_heartbeat st);
     r2 \<leftarrow> waitForClearErrorRegister M;
     r3 \<leftarrow> writeRemoteObject tU16 M kEmcyInhibitIndex kScalarSubindex (slave_inhibit_time st);
     r4 \<leftarrow> disableRemoteEmcyProducer M;
     r5 \<leftarrow> switchLocalEmcyConsumerCobId M (master_consumer_cob_id st);
     r6 \<leftarrow> writeRemoteEmcyCobId M (slave_emcy_cob_id st);
     r7 \<leftarrow> verifyRestored M st;
     return (r1 \<and> r2 \<and> r3 \<and> r4 \<and> r5 \<and> r6 \<and> r7)
   }"

text \<open>
  The saved inhibit time rounded up to milliseconds and the recovery wait built from it, in
  32-bit unsigned arithmetic as the code computes them.
\<close>

definition savedInhibitMs :: "u16 \<Rightarrow> u32" where
  "savedInhibitMs slave_inhibit = (ucast slave_inhibit + 9) div 10"

definition recoveryTimeoutMs :: "EmcySavedState \<Rightarrow> u32" where
  "recoveryTimeoutMs st = max (of_nat kEmcyWaitTimeoutMs)
     (savedInhibitMs (slave_inhibit_time st) + ucast (master_heartbeat st)
        + of_nat kInhibitUpperMarginMs)"

definition runRestoredPathSmoke :: "lely \<Rightarrow> EmcySavedState \<Rightarrow> bool host" where
  "runRestoredPathSmoke M st = do {
     sleep_for M (ms kHeartbeatSettleMs);
     triggered \<leftarrow> triggerHeartbeatFault M;
     case triggered of
       None \<Rightarrow> return False
     | Some fault \<Rightarrow> do {
         let result1 = validateHeartbeatEmcyData fault kHeartbeatConsumerEmcyCode;
         recovered \<leftarrow> recoverHeartbeatFault M (master_heartbeat st)
                        (unat (recoveryTimeoutMs st));
         case recovered of
           None \<Rightarrow> return False
         | Some reset \<Rightarrow> do {
             result2 \<leftarrow> andM (return (validateHeartbeatEmcyData reset kEmcyResetCode))
                              (validateErrorRegister M reset False);
             (ok, device_type) \<leftarrow> readRemoteObject tU32 M 0x1000 kScalarSubindex 0;
             return (result1 \<and> result2 \<and> ok)
           }
       }
   }"

definition emcyProcess :: "lely \<Rightarrow> int host" where
  "emcyProcess M = do {
     (captured, st) \<leftarrow> captureSavedState M default_saved_state;
     if \<not> captured then return 1
     else do {
       (ok, initial) \<leftarrow> readErrorHistory M default_history;
       if \<not> ok then return 1
       else if error_register initial \<noteq> 0 then return 1
       else do {
         default_ok \<leftarrow> runDefaultEmcyValidation M st;
         configured \<leftarrow> (if default_ok then configureTestEmcyCobId M else return False);
         validated \<leftarrow> (if configured then runConfigurableInhibitValidation M st else return False);
         restored \<leftarrow> restoreEmcyConfiguration M st;
         smoke \<leftarrow> (if \<not> restored then return False
                   else if validated then runRestoredPathSmoke M st else return False);
         final_restored \<leftarrow> restoreEmcyConfiguration M st;
         return (if smoke \<and> final_restored then 0 else 1)
       }
     }
   }"

section \<open>Decoding is exact\<close>

definition encodeHistoryEntry :: "u16 \<Rightarrow> u8 \<Rightarrow> u8 \<Rightarrow> u32" where
  "encodeHistoryEntry code reg error_bit =
     ucast code OR push_bit 16 (ucast reg) OR push_bit 24 (ucast error_bit)"

lemma low_masks: "(0xFFFF :: u32) = mask 16" "(0xFF :: u32) = mask 8"
  by (simp_all add: mask_eq_exp_minus_1)

lemma history_bits:
  "bit (historyErrorCode e) n \<longleftrightarrow> n < 16 \<and> bit e n"
  "bit (historyErrorRegister e) n \<longleftrightarrow> n < 8 \<and> bit e (n + 16)"
  "bit (historyErrorBit e) n \<longleftrightarrow> n < 8 \<and> bit e (n + 24)"
  unfolding historyErrorCode_def historyErrorRegister_def historyErrorBit_def low_masks
  by (auto simp: bit_simps ac_simps dest: bit_imp_le_length)

lemma encode_bits:
  "bit (encodeHistoryEntry c r b) n \<longleftrightarrow>
     n < 32 \<and> (if n < 16 then bit c n else if n < 24 then bit r (n - 16) else bit b (n - 24))"
  unfolding encodeHistoryEntry_def by (auto simp: bit_simps dest: bit_imp_le_length)

lemma history_decode_encode:
  "historyErrorCode (encodeHistoryEntry c r b) = c"
  "historyErrorRegister (encodeHistoryEntry c r b) = r"
  "historyErrorBit (encodeHistoryEntry c r b) = b"
  by (rule bit_word_eqI, simp add: history_bits encode_bits)+

lemma history_encode_decode:
  "encodeHistoryEntry (historyErrorCode e) (historyErrorRegister e) (historyErrorBit e) = e"
  by (rule bit_word_eqI) (auto simp: history_bits encode_bits)

lemma expectedHistoryCount_unat:
  "unat (expectedHistoryCount b a) = min (unat b + unat a) 16"
  by (simp add: expectedHistoryCount_def Let_def kErrorHistoryCapacity_def unsigned_of_nat take_bit_eq_mod)

lemma savedInhibitMs_unat: "unat (savedInhibitMs t) = (unat t + 9) div 10"
proof -
  have "unat (ucast t + 9 :: u32) = unat t + 9"
    using unat_u16_less [of t] by (simp add: unat_word_ariths)
  then show ?thesis by (simp add: savedInhibitMs_def unat_div)
qed

lemma recoveryTimeoutMs_unat:
  "unat (recoveryTimeoutMs st) = max 5000
     ((unat (slave_inhibit_time st) + 9) div 10 + unat (master_heartbeat st) + 1000)"
proof -
  have "unat (savedInhibitMs (slave_inhibit_time st)) < 6555"
    using unat_u16_less [of "slave_inhibit_time st"]
    by (simp add: savedInhibitMs_unat div_less_iff_less_mult)
  then have "unat (savedInhibitMs (slave_inhibit_time st) + ucast (master_heartbeat st) + 1000)
     = (unat (slave_inhibit_time st) + 9) div 10 + unat (master_heartbeat st) + 1000"
    using unat_u16_less [of "master_heartbeat st"]
    by (simp add: unat_word_ariths savedInhibitMs_unat)
  then show ?thesis
    by (simp add: recoveryTimeoutMs_def const_defs max_def word_le_nat_alt)
qed

section \<open>Footprints\<close>

text \<open>The objects the process may write: two of the master's own, two of the device's.\<close>

fun emcy_objects :: "mutation \<Rightarrow> bool" where
  "emcy_objects (LocalWrite index sub v) =
     (index = kHeartbeatIndex \<and> sub = kScalarSubindex \<or>
      index = kEmcyConsumerIndex \<and> sub = kEmcyConsumerSubindex)"
| "emcy_objects (RemoteWrite node index sub v) =
     (node = CANOPEN_SLAVE_NODE_ID \<and> sub = kScalarSubindex \<and>
      (index = kEmcyCobIdIndex \<or> index = kEmcyInhibitIndex))"
| "emcy_objects _ = False"

lemma emcy_reads_touch [emits_intro]:
  "touches S (readErrorHistory M s)" "touches S (validateErrorRegister M e b)"
  "touches S (validateHistoryAfterPair M c f r)" "touches S (captureSavedState M st)"
  "touches S (waitForClearErrorRegister M)" "touches S (verifyRestored M st)"
  unfolding validateHistoryAfterPair_def readErrorHistory_def validateErrorRegister_def
    captureSavedState_def waitForClearErrorRegister_def clearErrorRegisterBody_def
    verifyRestored_def
  by (intro emits_intro)+

lemma emcy_objects_touch [emits_intro]:
  "touches emcy_objects (writeMasterHeartbeat M h)"
  "touches emcy_objects (disableRemoteEmcyProducer M)"
  "touches emcy_objects (switchLocalEmcyConsumerCobId M t)"
  "touches emcy_objects (writeRemoteEmcyCobId M t)"
  unfolding writeMasterHeartbeat_def disableRemoteEmcyProducer_def
    switchLocalEmcyConsumerCobId_def writeRemoteEmcyCobId_def
  by ((intro emits_intro; simp))+

lemma emcy_faults_touch [emits_intro]:
  "touches emcy_objects (triggerHeartbeatFault M)"
  "touches emcy_objects (recoverHeartbeatFault M h t)"
  unfolding triggerHeartbeatFault_def recoverHeartbeatFault_def by (intro emits_intro)+

lemma emcy_phases_touch [emits_intro]:
  "touches emcy_objects (runDefaultEmcyValidation M st)"
  "touches emcy_objects (configureTestEmcyCobId M)"
  "touches emcy_objects (runConfigurableInhibitValidation M st)"
  "touches emcy_objects (restoreEmcyConfiguration M st)"
  "touches emcy_objects (runRestoredPathSmoke M st)"
  unfolding runDefaultEmcyValidation_def configureTestEmcyCobId_def
    runConfigurableInhibitValidation_def restoreEmcyConfiguration_def runRestoredPathSmoke_def
  by ((intro emits_intro; simp?))+

section \<open>Phases\<close>

text \<open>A captured state is one the process can test and later restore.\<close>

definition testable :: "EmcySavedState \<Rightarrow> bool" where
  "testable st \<longleftrightarrow> master_heartbeat st \<noteq> 0 \<and> cobIdEnabled (master_consumer_cob_id st) \<and>
     cobIdEnabled (slave_emcy_cob_id st) \<and>
     standardCanId (master_consumer_cob_id st) = standardCanId (slave_emcy_cob_id st) \<and>
     standardCanId (slave_emcy_cob_id st) \<noteq> standardCanId kTestEmcyCobId"

text \<open>Four events, oldest first in the code and newest first in the history, that read the
  four configuration values of a state.\<close>

definition config_read :: "EmcySavedState \<Rightarrow> history \<Rightarrow> bool" where
  "config_read st es \<longleftrightarrow> (\<exists>e1 e2 e3 e4. es = [e4, e3, e2, e1] \<and>
     local_saw kHeartbeatIndex kScalarSubindex (V16 (master_heartbeat st)) e1 \<and>
     local_saw kEmcyConsumerIndex kEmcyConsumerSubindex (V32 (master_consumer_cob_id st)) e2 \<and>
     saw CANOPEN_SLAVE_NODE_ID kEmcyCobIdIndex kScalarSubindex (V32 (slave_emcy_cob_id st)) e3 \<and>
     saw CANOPEN_SLAVE_NODE_ID kEmcyInhibitIndex kScalarSubindex (V16 (slave_inhibit_time st)) e4)"

definition starts_reading :: "EmcySavedState \<Rightarrow> world \<Rightarrow> world \<Rightarrow> bool" where
  "starts_reading st w u \<longleftrightarrow> (\<exists>es. hist u = es @ hist w \<and> config_read st es)"

definition ends_reading :: "EmcySavedState \<Rightarrow> world \<Rightarrow> world \<Rightarrow> bool" where
  "ends_reading st w w' \<longleftrightarrow> (\<exists>v. later w v \<and> starts_reading st v w')"

lemma ends_reading_back: "ends_reading st w w' \<Longrightarrow> later u w \<Longrightarrow> ends_reading st u w'"
  unfolding ends_reading_def by (blast intro: later_trans)

lemma captureSavedState_reads:
  "wp (captureSavedState M st0) (\<lambda>(ok, st) w'. ok \<longrightarrow> testable st \<and> starts_reading st w w') w"
  unfolding captureSavedState_def Let_def
  by (intro wp_intro) (auto simp: testable_def config_read_def starts_reading_def)

lemma verifyRestored_reads:
  "wp (verifyRestored M st) (\<lambda>ok w'. ok \<longrightarrow> ends_reading st w w') w"
  unfolding verifyRestored_def Let_def
  by (intro wp_intro) (auto simp: config_read_def ends_reading_def starts_reading_def)

lemma restoreEmcyConfiguration_reads:
  "wp (restoreEmcyConfiguration M st) (\<lambda>ok w'. ok \<longrightarrow> ends_reading st w w') w"
  unfolding restoreEmcyConfiguration_def
  by (intro wpi_bind wpi_return emcy_objects_touch [THEN wp_later] wp_mono [OF verifyRestored_reads]
        wpi_writeRemoteObject wp_quiet [OF emcy_reads_touch(5)])
     (clarsimp, (assumption | rule later_refl | erule ends_reading_back later_back
        later_back_quiet later_back_Cons)+)

lemma wpi_captureSavedState:
  assumes "\<And>ok st w'. quiet w w' \<Longrightarrow> (ok \<Longrightarrow> testable st) \<Longrightarrow> (ok \<Longrightarrow> starts_reading st w w') \<Longrightarrow>
     Q (ok, st) w'"
  shows "wp (captureSavedState M st0) Q w"
proof (rule wp_quiet [OF emcy_reads_touch(4)])
  fix r w'
  assume run: "run_state (captureSavedState M st0) w = (r, w')" and q: "quiet w w'"
  show "Q r w'"
    using wpD [OF captureSavedState_reads run] assms [OF q] by (cases r) simp
qed

lemma wpi_restoreEmcyConfiguration:
  assumes "\<And>ok w'. later w w' \<Longrightarrow> run_state (restoreEmcyConfiguration M st) w = (ok, w') \<Longrightarrow>
     (ok \<Longrightarrow> ends_reading st w w') \<Longrightarrow> Q ok w'"
  shows "wp (restoreEmcyConfiguration M st) Q w"
  by (rule wp_later [OF emcy_phases_touch(4)])
     (use assms wpD [OF restoreEmcyConfiguration_reads] in blast)

section \<open>The whole process\<close>

lemmas emcy_stage_wps = wpi_return wpi_bind wpi_if wpi_case_prod wpi_captureSavedState
  wpi_restoreEmcyConfiguration wp_quiet [OF emcy_reads_touch(1)]
  emcy_phases_touch(1,2,3,5) [THEN wp_later]

text \<open>Success is framed by two readings of the same configuration.\<close>

definition framed :: "world \<Rightarrow> world \<Rightarrow> bool" where
  "framed w w' \<longleftrightarrow> (\<exists>st u. testable st \<and> starts_reading st w u \<and> ends_reading st u w')"

lemma emcyProcess_frame: "wp (emcyProcess M) (\<lambda>r w'. r = 1 \<or> r = 0 \<and> framed w w') w"
  unfolding emcyProcess_def framed_def
  by (intro emcy_stage_wps)
     ((clarsimp split: if_splits; fail) |
      (clarsimp, intro exI conjI, assumption, assumption,
        (assumption | rule later_refl | erule ends_reading_back later_back later_back_quiet)+))+

text \<open>Once anything may have been changed, the run ends with the restoration of the captured
  state, and it can only succeed if that restoration did.\<close>

definition cleaned_up :: "lely \<Rightarrow> world \<Rightarrow> int \<Rightarrow> world \<Rightarrow> bool" where
  "cleaned_up M w r w' \<longleftrightarrow> (\<exists>st u v ok. testable st \<and> starts_reading st w u \<and> later u v \<and>
     run_state (restoreEmcyConfiguration M st) v = (ok, w') \<and> (r = 0 \<longrightarrow> ok))"

lemma cleaned_upI:
  "run_state (restoreEmcyConfiguration M st) v = (ok, w') \<Longrightarrow> testable st \<Longrightarrow>
   starts_reading st w u \<Longrightarrow> later u v \<Longrightarrow> (r = 0 \<longrightarrow> ok) \<Longrightarrow> cleaned_up M w r w'"
  unfolding cleaned_up_def by blast

lemma emcyProcess_cleanup:
  "wp (emcyProcess M) (\<lambda>r w'. quiet w w' \<and> r = 1 \<or> cleaned_up M w r w') w"
  unfolding emcyProcess_def
  by (intro emcy_stage_wps)
     ((clarsimp split: if_splits; fail) |
      (rule disjI1, intro conjI, (assumption | rule refl | erule quiet_back)+; fail) |
      (rule disjI2, clarsimp split del: if_split, rule cleaned_upI, assumption, assumption, assumption,
        (rule later_refl | erule later_back later_back_quiet)+, simp split: if_splits))+

section \<open>Properties of single phases\<close>

lemma disabled_cob_id: "\<not> cobIdEnabled (c OR kCobIdInvalidMask)"
proof -
  have "bit ((c OR kCobIdInvalidMask) AND kCobIdInvalidMask) 31"
    by (simp add: bit_simps kCobIdInvalidMask_def)
  then show ?thesis by (auto simp: cobIdEnabled_def)
qed

lemma triggerHeartbeatFault_fresh:
  "wp (triggerHeartbeatFault M) (\<lambda>r w'. case r of None \<Rightarrow> True | Some e \<Rightarrow>
     g_emcy_sequence (emcy (mem w)) < ev_sequence e \<and> ev_node_id e = CANOPEN_SLAVE_NODE_ID \<and>
     ev_error_code e = kHeartbeatConsumerEmcyCode \<and> e \<in> set (g_emcy_events (emcy (mem w'))) \<and>
     (\<exists>e1 t. hist w' = EvWait t True # e1 # hist w \<and>
        local_wrote kHeartbeatIndex kScalarSubindex (V16 0) e1)) w"
  unfolding triggerHeartbeatFault_def waitForCanopenEmcyEvent_def snapshotCanopenEmcySequence_def
    writeMasterHeartbeat_def
  by (intro wp_intro) (auto dest: findEmcyEventLocked_SomeD split: option.splits)

lemma emcyProcess_touches: "touches emcy_objects (emcyProcess M)"
  unfolding emcyProcess_def by (intro emits_intro)

section \<open>The producer is disabled before its COB-ID changes\<close>

abbreviation emcy_cob_address :: "u8 \<times> u16 \<times> u8" where
  "emcy_cob_address \<equiv> (CANOPEN_SLAVE_NODE_ID, kEmcyCobIdIndex, kScalarSubindex)"

definition producer_disabled :: "dictionary \<Rightarrow> bool" where
  "producer_disabled od = (case od emcy_cob_address of V32 c \<Rightarrow> \<not> cobIdEnabled c | _ \<Rightarrow> False)"

fun enables_producer :: "event \<Rightarrow> bool" where
  "enables_producer (EvDownload rq (V32 c) r) = (address rq = emcy_cob_address \<and> cobIdEnabled c)"
| "enables_producer _ = False"

text \<open>Every download that enables the producer finds it disabled on the device.\<close>

fun guarded_enables :: "(history \<Rightarrow> dictionary) \<Rightarrow> history \<Rightarrow> history \<Rightarrow> bool" where
  "guarded_enables dev [] h = True"
| "guarded_enables dev (e # es) h =
     ((enables_producer e \<longrightarrow> producer_disabled (dev (es @ h))) \<and> guarded_enables dev es h)"

definition guarded_since :: "(history \<Rightarrow> dictionary) \<Rightarrow> world \<Rightarrow> world \<Rightarrow> bool" where
  "guarded_since dev w w' \<longleftrightarrow> (\<exists>es. hist w' = es @ hist w \<and> guarded_enables dev es (hist w))"

lemma guarded_append:
  "guarded_enables dev (es' @ es) h = (guarded_enables dev es' (es @ h) \<and> guarded_enables dev es h)"
  by (induction es') auto

lemma guarded_refl [simp, intro]: "guarded_since dev w w"
  by (auto simp: guarded_since_def)

lemma guarded_back: "guarded_since dev v w \<Longrightarrow> guarded_since dev u v \<Longrightarrow> guarded_since dev u w"
  unfolding guarded_since_def by (metis append_assoc guarded_append)

lemma guarded_Cons:
  "hist w' = e # hist w \<Longrightarrow> (enables_producer e \<longrightarrow> producer_disabled (dev (hist w))) \<Longrightarrow>
     guarded_since dev w w'"
  unfolding guarded_since_def by (intro exI [of _ "[e]"]) simp

lemma wpi_guarded_read:
  assumes "sdo_server plain M dev" "plain emcy_cob_address"
    and "\<And>ok v w'. guarded_since dev w w' \<Longrightarrow> dev (hist w') = dev (hist w) \<Longrightarrow>
           (ok \<Longrightarrow> dev (hist w) emcy_cob_address = V32 v) \<Longrightarrow> Q (ok, v) w'"
  shows "wp (readRemoteObject tU32 M kEmcyCobIdIndex kScalarSubindex v0) Q w"
proof -
  have "wp (readRemoteObject tU32 M kEmcyCobIdIndex kScalarSubindex v0) (\<lambda>r. guarded_since dev w) w"
    by (intro wpi_readRemoteObject) (rule guarded_Cons, assumption, (case_tac e; simp))
  then have "wp (readRemoteObject tU32 M kEmcyCobIdIndex kScalarSubindex v0) (\<lambda>r w'. guarded_since dev w w' \<and>
      (case r of (ok, v) \<Rightarrow> dev (hist w') = dev (hist w) \<and> (ok \<longrightarrow> dev (hist w) emcy_cob_address = V32 v))) w"
    using server_readRemoteObject(3) [OF assms(1,2), of v0 w] by (simp add: wp_def split: prod.splits)
  then show ?thesis by (rule wp_mono) (use assms(3) in auto)
qed

lemma wpi_guarded_write:
  assumes "sdo_server plain M dev" "cobIdEnabled c \<longrightarrow> producer_disabled (dev (hist w))"
    and "\<And>ok w'. guarded_since dev w w' \<Longrightarrow> (ok \<Longrightarrow> dev (hist w') emcy_cob_address = V32 c) \<Longrightarrow> Q ok w'"
  shows "wp (writeRemoteObject tU32 M kEmcyCobIdIndex kScalarSubindex c) Q w"
proof -
  have "wp (writeRemoteObject tU32 M kEmcyCobIdIndex kScalarSubindex c) (\<lambda>r. guarded_since dev w) w"
    unfolding writeRemoteObject_def
    by (intro wp_intro) (rule guarded_Cons, assumption, use assms(2) in simp)
  moreover have "wp (writeRemoteObject tU32 M kEmcyCobIdIndex kScalarSubindex c)
      (\<lambda>ok w'. ok \<longrightarrow> dev (hist w') emcy_cob_address = V32 c) w"
    by (rule wp_mono [OF server_writeRemoteObject [OF assms(1)]]) auto
  ultimately have "wp (writeRemoteObject tU32 M kEmcyCobIdIndex kScalarSubindex c)
      (\<lambda>ok w'. guarded_since dev w w' \<and> (ok \<longrightarrow> dev (hist w') emcy_cob_address = V32 c)) w"
    by (simp add: wp_conj)
  then show ?thesis by (rule wp_mono) (use assms(3) in auto)
qed

text \<open>Reads and writes of the master's own dictionary do not concern the device.\<close>

lemma wpi_guarded_local:
  assumes "sdo_server plain M dev"
  shows "(\<And>ok v w'. guarded_since dev w w' \<Longrightarrow> dev (hist w') = dev (hist w) \<Longrightarrow> Q (ok, v) w') \<Longrightarrow>
     wp (readLocalObject T M i s v0) Q w"
    and "(\<And>ok w'. guarded_since dev w w' \<Longrightarrow> dev (hist w') = dev (hist w) \<Longrightarrow> Q' ok w') \<Longrightarrow>
     wp (writeLocalObject T M i s v) Q' w"
  unfolding readLocalObject_def writeLocalObject_def
  by (intro wp_intro; (simp add: sdo_serverD [OF assms] guarded_Cons)?)+

lemma wpi_disableRemoteEmcyProducer:
  assumes "sdo_server plain M dev" "plain emcy_cob_address"
    and "\<And>ok w'. guarded_since dev w w' \<Longrightarrow> (ok \<Longrightarrow> producer_disabled (dev (hist w'))) \<Longrightarrow> Q ok w'"
  shows "wp (disableRemoteEmcyProducer M) Q w"
  unfolding disableRemoteEmcyProducer_def Let_def
  by (intro wpi_return wpi_bind wpi_if wpi_case_prod wpi_guarded_read [OF assms(1,2)]
      wpi_guarded_write [OF assms(1)] assms(3))
     (auto simp: disabled_cob_id producer_disabled_def split: if_splits intro: guarded_back)

lemma wpi_switchLocalEmcyConsumerCobId:
  assumes "sdo_server plain M dev"
    and "\<And>ok w'. guarded_since dev w w' \<Longrightarrow> dev (hist w') = dev (hist w) \<Longrightarrow> Q ok w'"
  shows "wp (switchLocalEmcyConsumerCobId M t) Q w"
  unfolding switchLocalEmcyConsumerCobId_def
  by (intro wpi_return wpi_bind wpi_if wpi_case_prod wpi_guarded_local [OF assms(1)] assms(2))
     (auto intro: guarded_back)

lemma configureTestEmcyCobId_guarded:
  assumes "sdo_server plain M dev" "plain emcy_cob_address"
  shows "wp (configureTestEmcyCobId M) (\<lambda>ok. guarded_since dev w) w"
  unfolding configureTestEmcyCobId_def writeRemoteEmcyCobId_def
  by (intro wpi_return wpi_bind wpi_if wpi_case_prod wpi_disableRemoteEmcyProducer [OF assms]
      wpi_switchLocalEmcyConsumerCobId [OF assms(1)] wpi_guarded_read [OF assms]
      wpi_guarded_write [OF assms(1)] wpi_guarded_local [OF assms(1)];
      (clarsimp; fail)?; (clarsimp, (assumption | erule guarded_back)+))

section \<open>History entries and timeouts\<close>

lemma validateHistoryEntry_encode:
  "validateHistoryEntry e c r \<longleftrightarrow> e = encodeHistoryEntry c r kHeartbeatConsumerErrorBit"
  using history_encode_decode [of e] by (auto simp: validateHistoryEntry_def Let_def history_decode_encode)

section \<open>Polling and verified writes\<close>

lemma clearErrorRegisterBody_saw:
  "wp (clearErrorRegisterBody M u) (\<lambda>r w'. (\<exists>es. hist w' = es @ hist w) \<and> (r = Inr () \<longrightarrow>
     (\<exists>e es. hist w' = e # es @ hist w \<and>
        saw CANOPEN_SLAVE_NODE_ID kErrorRegisterIndex kScalarSubindex (V8 0) e))) w"
  unfolding clearErrorRegisterBody_def by (intro wp_intro) auto

lemma waitForClearErrorRegister_bounded:
  "wp (waitForClearErrorRegister M) (\<lambda>ok w'. if ok
     then (\<exists>e es. hist w' = e # es @ hist w \<and>
        saw CANOPEN_SLAVE_NODE_ID kErrorRegisterIndex kScalarSubindex (V8 0) e)
     else clock w + ms kEmcyWaitTimeoutMs \<le> clock w') w"
proof -
  let ?clear = "\<lambda>w'. \<exists>e es. hist w' = e # es @ hist w \<and>
        saw CANOPEN_SLAVE_NODE_ID kErrorRegisterIndex kScalarSubindex (V8 0) e"
  have body: "touches (\<lambda>_. False) (clearErrorRegisterBody M u)" for u
    unfolding clearErrorRegisterBody_def by (intro emits_intro)
  have step: "wp (clearErrorRegisterBody M u) (\<lambda>r w'. case r of Inl s \<Rightarrow> (\<exists>es. hist w' = es @ hist w)
      | Inr a \<Rightarrow> ?clear w') v" if "\<exists>es. hist v = es @ hist w" for u v
    by (rule wp_mono [OF clearErrorRegisterBody_saw]) (use that in \<open>fastforce split: sum.splits\<close>)
  have loop: "wp (deadline_loop M d (clearErrorRegisterBody M) ())
      (\<lambda>r w'. case r of Inl s \<Rightarrow> d \<le> clock w' | Inr a \<Rightarrow> ?clear w') v"
    if "\<exists>es. hist v = es @ hist w" for d v
  proof -
    have "wp (deadline_loop M d (clearErrorRegisterBody M) ())
      (\<lambda>r w'. case r of Inl s \<Rightarrow> (\<exists>es. hist w' = es @ hist w) | Inr a \<Rightarrow> ?clear w') v"
      by (rule wp_deadline_loop [where I = "\<lambda>s v. \<exists>es. hist v = es @ hist w"])
         (use that in \<open>auto intro!: wp_mono [OF step] split: sum.splits\<close>)
    moreover have "wp (deadline_loop M d (clearErrorRegisterBody M) ())
      (\<lambda>r w'. case r of Inl s \<Rightarrow> d \<le> clock w' | Inr a \<Rightarrow> True) v"
      by (rule wpi_deadline_loop_clock [OF body]) (auto split: sum.splits)
    ultimately have "wp (deadline_loop M d (clearErrorRegisterBody M) ())
      (\<lambda>r w'. (case r of Inl s \<Rightarrow> (\<exists>es. hist w' = es @ hist w) | Inr a \<Rightarrow> ?clear w') \<and>
              (case r of Inl s \<Rightarrow> d \<le> clock w' | Inr a \<Rightarrow> True)) v"
      by (simp add: wp_conj)
    then show ?thesis by (rule wp_mono) (auto split: sum.splits)
  qed
  show ?thesis
    unfolding waitForClearErrorRegister_def Let_def
    by (intro wpi_bind wpi_steady_now wp_mono [OF step] wpi_case_sum wpi_return wp_mono [OF loop])
       (auto split: sum.splits)
qed

lemma writeRemoteEmcyCobId_is_verified:
  "writeRemoteEmcyCobId M t =
     writeVerified (writeRemoteObject tU32 M kEmcyCobIdIndex kScalarSubindex)
       (readRemoteObject tU32 M kEmcyCobIdIndex kScalarSubindex) t 0"
  unfolding writeRemoteEmcyCobId_def writeVerified_def
  by (intro arg_cong2 [where f = State_Monad.bind] refl ext) (auto split: prod.splits
      intro!: arg_cong2 [where f = State_Monad.bind])

lemma writeRemoteEmcyCobId_stored:
  "wp (writeRemoteEmcyCobId M t) (\<lambda>ok w'. ok \<longrightarrow> (\<exists>e1 e2. hist w' = e2 # e1 # hist w \<and>
     wrote CANOPEN_SLAVE_NODE_ID kEmcyCobIdIndex kScalarSubindex (V32 t) e1 \<and>
     saw CANOPEN_SLAVE_NODE_ID kEmcyCobIdIndex kScalarSubindex (V32 t) e2)) w"
  unfolding writeRemoteEmcyCobId_is_verified by (rule device_u32.write_verified)

end
