(* ===== verification/Host_Program.thy ===== *)
theory Host_Program
  imports Process_Runner Host_Progress Emcy_Process Emcy_Consumer_Process Storage_Process Time_Process
    Nmt_Master_Process Gfc_Process Sdo_Block_Process Pdo_Process Sync_Pdo_Process Srdo_Checks Sdo_Client_Process
begin

text \<open>
  The program around the processes, \<open>src/main.cpp\<close>: the table of the enabled processes, the master and the
  slave role and the entry.  The objects of the stack, the threads and the logger have no definition here; what
  the control thread learns of them, that the event loop started, still runs, or that a signal asked to stop, is
  answered by a \<open>session\<close>, and what the entry finds when it opens the interface by a \<open>launch\<close>.
\<close>

section \<open>Build options and environment\<close>

record options =
  role_master :: bool
  enable_heartbeat :: bool
  enable_sdo :: bool
  enable_sdo_block :: bool
  enable_sdo_client :: bool
  block_regression :: bool
  enable_storage :: bool
  enable_pdo :: bool
  enable_sync_pdo :: bool
  enable_time :: bool
  enable_emcy :: bool
  enable_emcy_consumer :: bool
  enable_gfc :: bool
  enable_srdo :: bool
  enable_nmt_master :: bool
  enable_final_reset :: bool

record session =
  loop_starts :: "history \<Rightarrow> bool"
  stop_flag :: "history \<Rightarrow> bool"
  loop_flag :: "history \<Rightarrow> bool"

text \<open>The storage mode is the value of the environment variable that the storage process reads.\<close>

record launch =
  signals_installed :: bool
  bitrate_answer :: "int \<times> ecode"
  channel_error :: ecode
  safety_error :: ecode
  storage_mode :: "string option"

definition CANOPEN_LOOP_START_TIMEOUT_MS :: nat where "CANOPEN_LOOP_START_TIMEOUT_MS = 1000"
definition CANOPEN_EXPECTED_BITRATE :: int where "CANOPEN_EXPECTED_BITRATE = 1000000"

section \<open>The process table\<close>

definition kCanopenProcessCount :: "options \<Rightarrow> nat" where
  "kCanopenProcessCount opt = of_bool (enable_heartbeat opt) + of_bool (enable_sdo opt) + of_bool (enable_sdo_block opt) +
     of_bool (enable_sdo_client opt) + of_bool (enable_storage opt) + of_bool (enable_pdo opt) +
     of_bool (enable_sync_pdo opt) + of_bool (enable_time opt) + of_bool (enable_emcy opt) +
     of_bool (enable_emcy_consumer opt) + of_bool (enable_gfc opt) + of_bool (enable_srdo opt)"

definition processEntry :: "bool \<Rightarrow> string \<Rightarrow> int host \<Rightarrow> CanopenProcessEntry list" where
  "processEntry enabled name handler = (if enabled then [\<lparr>pe_name = Some name, pe_handler = Some handler\<rparr>] else [])"

definition makeCanopenProcesses :: "options \<Rightarrow> string option \<Rightarrow> lely \<Rightarrow> CanopenProcessEntry list" where
  "makeCanopenProcesses opt mode M =
     processEntry (enable_heartbeat opt) ''Heartbeat validation'' (heartbeatProcess M) @
     processEntry (enable_sdo opt) ''SDO object-access validation'' (sdoProcess M) @
     processEntry (enable_sdo_block opt) ''SDO server block-transfer validation'' (sdoBlockProcess M) @
     processEntry (enable_storage opt) ''Storage persistence validation'' (storageProcess M mode) @
     processEntry (enable_sdo_client opt) ''MCU SDO client validation'' (sdoClientProcess M (block_regression opt)) @
     processEntry (enable_pdo opt) ''PDO validation'' (pdoProcess M) @
     processEntry (enable_sync_pdo opt) ''SYNC/synchronous PDO validation'' (syncPdoProcess M) @
     processEntry (enable_time opt) ''TIME consumer validation'' (timeProcess M) @
     processEntry (enable_emcy opt) ''EMCY producer validation'' (emcyProcess M) @
     processEntry (enable_emcy_consumer opt) ''EMCY consumer validation'' (emcyConsumerProcess M) @
     processEntry (enable_gfc opt) ''GFC protocol validation'' (gfcProcess M) @
     processEntry (enable_srdo opt) ''SRDO protocol validation'' (srdoProcess M)"

section \<open>The event loop\<close>

definition startCanopenWorker :: "session \<Rightarrow> lely \<Rightarrow> bool host" where
  "startCanopenWorker E M = State (\<lambda>w. let ok = loop_starts E (hist w)
     in (ok, occur M (EvSession (LoopStart ok)) (if ok then 0 else ms CANOPEN_LOOP_START_TIMEOUT_MS) w))"

definition stopCanopenWorker :: "lely \<Rightarrow> unit host" where
  "stopCanopenWorker M = session_call M LoopStop 0"

definition stop_requested :: "session \<Rightarrow> lely \<Rightarrow> bool host" where
  "stop_requested E M = State (\<lambda>w. let b = stop_flag E (hist w) in (b, occur M (EvSession (StopFlag b)) 0 w))"

definition loop_running :: "session \<Rightarrow> lely \<Rightarrow> bool host" where
  "loop_running E M = State (\<lambda>w. let b = loop_flag E (hist w) in (b, occur M (EvSession (LoopFlag b)) 0 w))"

text \<open>\<open>g_stop_requested == 0 && g_canopen_loop_running\<close>, and the same with the loop not running.\<close>

definition still_waiting :: "session \<Rightarrow> lely \<Rightarrow> bool host" where
  "still_waiting E M = do { stop \<leftarrow> stop_requested E M; if stop then return False else loop_running E M }"

definition loop_lost :: "session \<Rightarrow> lely \<Rightarrow> bool host" where
  "loop_lost E M = do {
     stop \<leftarrow> stop_requested E M;
     if stop then return False else do { running \<leftarrow> loop_running E M; return (\<not> running) } }"

text \<open>The wait for a signal or the end of the event loop may last forever: \<open>None\<close> is a run that does not return.\<close>

partial_function (option) idle :: "session \<Rightarrow> lely \<Rightarrow> world \<Rightarrow> world option" where
  "idle E M w = (case run_state (still_waiting E M) w of (go, v) \<Rightarrow>
     if go then idle E M (snd (run_state (sleep_for M (ms 100)) v)) else Some v)"

section \<open>The roles\<close>

definition masterConnect :: "session \<Rightarrow> lely \<Rightarrow> bool host" where
  "masterConnect E M = do {
     registerNmtStateCallback;
     registerNmtHeartbeatCallbacks;
     registerCanopenEmcyCallback;
     startCanopenWorker E M }"

text \<open>Whether the slave booted, and the errors so far.\<close>

definition masterValidation :: "options \<Rightarrow> string option \<Rightarrow> lely \<Rightarrow> (bool \<times> int) host" where
  "masterValidation opt mode M = do {
     prepareBootWait;
     node_reset M;
     startup_boot_succeeded \<leftarrow> waitForBootCompletion M CANOPEN_WAIT_TIMEOUT_MS;
     if \<not> startup_boot_succeeded then return (False, 1)
     else do {
       let canopen_processes = makeCanopenProcesses opt mode M;
       errors \<leftarrow> canopenRunProcesses (Some canopen_processes) (kCanopenProcessCount opt);
       return (True, errors) } }"

definition masterShutdown :: "options \<Rightarrow> session \<Rightarrow> lely \<Rightarrow> bool \<Rightarrow> int \<Rightarrow> int host" where
  "masterShutdown opt E M booted error_count = do {
     lost \<leftarrow> loop_lost E M;
     let error_count = (if lost then error_count + 1 else error_count);
     error_count \<leftarrow> (if enable_final_reset opt then do {
         running \<leftarrow> loop_running E M;
         if running \<and> booted then do { r \<leftarrow> finalResetProcess M; return (error_count + r) } else return error_count }
       else return error_count);
     stopCanopenWorker M;
     return (if error_count = 0 then 0 else 1) }"

definition runCanopenMaster :: "options \<Rightarrow> string option \<Rightarrow> session \<Rightarrow> lely \<Rightarrow> world \<Rightarrow> (int \<times> world) option" where
  "runCanopenMaster opt mode E M w = (case run_state (masterConnect E M) w of (connected, v) \<Rightarrow>
     if \<not> connected then Some (run_state (do { stopCanopenWorker M; return 1 }) v)
     else case run_state (masterValidation opt mode M) v of ((booted, errors), u) \<Rightarrow>
       (case idle E M u of None \<Rightarrow> None | Some x \<Rightarrow> Some (run_state (masterShutdown opt E M booted errors) x)))"

definition slaveShutdown :: "session \<Rightarrow> lely \<Rightarrow> int \<Rightarrow> int host" where
  "slaveShutdown E M error_count = do {
     lost \<leftarrow> loop_lost E M;
     let error_count = (if lost then error_count + 1 else error_count);
     stopCanopenWorker M;
     return (if error_count = 0 then 0 else 1) }"

definition runCanopenSlave :: "options \<Rightarrow> session \<Rightarrow> lely \<Rightarrow> world \<Rightarrow> (int \<times> world) option" where
  "runCanopenSlave opt E M w = (case run_state (startCanopenWorker E M) w of (connected, v) \<Rightarrow>
     if \<not> connected then Some (run_state (do { stopCanopenWorker M; return 1 }) v)
     else case run_state (node_reset M) v of (_, u) \<Rightarrow>
       if enable_nmt_master opt then Some (run_state (do { r \<leftarrow> nmtMasterProcess M; slaveShutdown E M r }) u)
       else (case idle E M u of None \<Rightarrow> None | Some x \<Rightarrow> Some (run_state (slaveShutdown E M 0) x)))"

section \<open>The entry\<close>

definition validateCanBitrate :: "launch \<Rightarrow> bool" where
  "validateCanBitrate S = (case bitrate_answer S of (nominal, err) \<Rightarrow> \<not> failed err \<and> \<not> nominal \<noteq> CANOPEN_EXPECTED_BITRATE)"

definition mainProgram :: "options \<Rightarrow> launch \<Rightarrow> session \<Rightarrow> lely \<Rightarrow> world \<Rightarrow> (int \<times> world) option" where
  "mainProgram opt S E M w =
     (if \<not> signals_installed S then Some (1, w)
      else if \<not> validateCanBitrate S then Some (1, w)
      else if failed (channel_error S) then Some (1, w)
      else if (enable_gfc opt \<or> enable_srdo opt) \<and> role_master opt \<and> failed (safety_error S) then Some (1, w)
      else if role_master opt then runCanopenMaster opt (storage_mode S) E M w
      else runCanopenSlave opt E M w)"

section \<open>The table\<close>

lemma length_table [simp]: "length (makeCanopenProcesses opt mode M) = kCanopenProcessCount opt"
  by (simp add: makeCanopenProcesses_def kCanopenProcessCount_def processEntry_def)

lemma run_table: "canopenRunProcesses (Some (makeCanopenProcesses opt mode M)) (kCanopenProcessCount opt) =
    runEntries (makeCanopenProcesses opt mode M)"
proof (cases "kCanopenProcessCount opt = 0")
  case True
  then have "makeCanopenProcesses opt mode M = []" using length_table by (metis length_0_conv)
  with True show ?thesis by (simp add: canopenRunProcesses_def)
next
  case False
  then show ?thesis using length_table [of opt mode M] by (simp add: canopenRunProcesses_def del: length_table)
qed

section \<open>The wait\<close>

text \<open>One round of the wait, and when the wait ends.\<close>

definition wait_round :: "session \<Rightarrow> lely \<Rightarrow> world \<Rightarrow> world" where
  "wait_round E M w = snd (run_state (do { go \<leftarrow> still_waiting E M; sleep_for M (ms 100) }) w)"

definition keeps_waiting :: "session \<Rightarrow> lely \<Rightarrow> world \<Rightarrow> bool" where
  "keeps_waiting E M w = fst (run_state (still_waiting E M) w)"

lemma idle_step:
  "idle E M w = (if keeps_waiting E M w then idle E M (wait_round E M w) else Some (snd (run_state (still_waiting E M) w)))"
  by (subst idle.simps) (simp add: keeps_waiting_def wait_round_def split: prod.split)

lemma idle_ends: "\<not> keeps_waiting E M ((wait_round E M ^^ n) w) \<Longrightarrow> idle E M w \<noteq> None"
proof (induction n arbitrary: w)
  case (Suc n)
  then have "idle E M (wait_round E M w) \<noteq> None" by (simp only: funpow_Suc_right o_apply)
  then show ?case by (subst idle_step) simp
qed (subst idle_step, simp)

lemma session_reads [emits_intro]:
  "touches S (stop_requested E M)" "touches S (loop_running E M)" "touches S (startCanopenWorker E M)"
  "touches S (stopCanopenWorker M)"
  by (auto simp: emits_def stop_requested_def loop_running_def startCanopenWorker_def Let_def intro: steps_to_occur)
     (auto simp: stopCanopenWorker_def run_session intro: steps_to_occur)

lemma still_waiting_quiet [emits_intro]: "touches S (still_waiting E M)" "touches S (loop_lost E M)"
  unfolding still_waiting_def loop_lost_def by (intro emits_intro)+

text \<open>The wait changes nothing and ends with a check that failed.\<close>

lemma idle_Some:
  assumes "idle E M w = Some v"
  shows "(\<exists>n. \<not> keeps_waiting E M ((wait_round E M ^^ n) w)) \<and> (\<exists>u. quiet w u \<and> run_state (still_waiting E M) u = (False, v))"
proof -
  let ?ends = "\<lambda>E M w v. (\<exists>n. \<not> keeps_waiting E M ((wait_round E M ^^ n) w)) \<and>
      (\<exists>u. quiet w u \<and> run_state (still_waiting E M) u = (False, v))"
  show ?thesis
  proof (rule idle.raw_induct [where P = ?ends, OF _ assms])
    fix f E M and w v :: world
    assume again: "\<And>E M w v. f E M w = Some v \<Longrightarrow> ?ends E M w v"
      and run: "(case run_state (still_waiting E M) w of (go, v) \<Rightarrow>
        if go then f E M (snd (run_state (sleep_for M (ms 100)) v)) else Some v) = Some v"
    obtain go x where x: "run_state (still_waiting E M) w = (go, x)" by fastforce
    show "?ends E M w v"
    proof (cases go)
      case False
      with run x have "run_state (still_waiting E M) w = (False, v)" "\<not> keeps_waiting E M w"
        by (simp_all add: keeps_waiting_def)
      then show ?thesis by (intro conjI exI [of _ 0] exI [of _ w]) simp_all
    next
      case True
      let ?y = "snd (run_state (sleep_for M (ms 100)) x)"
      have y: "?y = wait_round E M w" using x by (simp add: wait_round_def)
      from run x True have "f E M ?y = Some v" by simp
      from again [OF this] obtain n u where n: "\<not> keeps_waiting E M ((wait_round E M ^^ Suc n) w)"
        and u: "quiet ?y u" "run_state (still_waiting E M) u = (False, v)"
        unfolding y by (auto simp only: funpow_Suc_right o_apply)
      have "wp (do { go \<leftarrow> still_waiting E M; sleep_for M (ms 100) }) (\<lambda>_ w'. quiet w w') w"
        by (rule wp_quiet, intro emits_intro)
      then have "quiet w ?y" unfolding y wait_round_def wp_def by (simp split: prod.splits)
      from quiet_trans [OF this u(1)] u(2) n show ?thesis by blast
    qed
  qed
qed

lemma idle_quiet: "idle E M u = Some x \<Longrightarrow> quiet u x"
proof -
  assume "idle E M u = Some x"
  then obtain y where "quiet u y" "run_state (still_waiting E M) y = (False, x)" using idle_Some by blast
  moreover from this(2) have "quiet y x"
    using touchesD [OF still_waiting_quiet(1) [of "\<lambda>_. False"]] by (fastforce simp: quiet_def)
  ultimately show ?thesis by (blast intro: quiet_trans)
qed

lemma idle_iff: "idle E M w \<noteq> None \<longleftrightarrow> (\<exists>n. \<not> keeps_waiting E M ((wait_round E M ^^ n) w))"
  using idle_ends idle_Some by blast

section \<open>Runs\<close>

text \<open>The slave booted: the loop started, the master was started and the wait ended with the boot.\<close>

definition slave_booted :: "world \<Rightarrow> world \<Rightarrow> bool" where
  "slave_booted w u \<longleftrightarrow>
     hist u = [EvWait (ms CANOPEN_WAIT_TIMEOUT_MS) True, EvNodeReset, EvSession (LoopStart True)] @ hist w"

text \<open>The program is told to stop, or the loop still runs.\<close>

definition not_lost :: "world \<Rightarrow> bool" where
  "not_lost w \<longleftrightarrow> hd (hist w) = EvSession (StopFlag True) \<or> hd (hist w) = EvSession (LoopFlag True)"

definition shut_down :: "options \<Rightarrow> lely \<Rightarrow> world \<Rightarrow> world \<Rightarrow> bool" where
  "shut_down opt M w w' \<longleftrightarrow> (if enable_final_reset opt
     then hist w' = [EvSession LoopStop, EvSession (LoopFlag False)] @ hist w \<or>
       (\<exists>x z. hist x = EvSession (LoopFlag True) # hist w \<and> run_state (finalResetProcess M) x = (0, z) \<and>
          hist w' = EvSession LoopStop # hist z)
     else hist w' = EvSession LoopStop # hist w)"

definition master_passed :: "options \<Rightarrow> string option \<Rightarrow> lely \<Rightarrow> world \<Rightarrow> world \<Rightarrow> bool" where
  "master_passed opt mode M w w' \<longleftrightarrow> (\<exists>u v y. slave_booted w u \<and> passes (makeCanopenProcesses opt mode M) u v \<and>
     quiet v y \<and> not_lost y \<and> shut_down opt M y w')"

definition slave_passed :: "options \<Rightarrow> lely \<Rightarrow> world \<Rightarrow> world \<Rightarrow> bool" where
  "slave_passed opt M w w' \<longleftrightarrow> (\<exists>u v y. hist u = [EvNodeReset, EvSession (LoopStart True)] @ hist w \<and>
     (if enable_nmt_master opt then run_state (nmtMasterProcess M) u = (0, v) else quiet u v) \<and>
     quiet v y \<and> not_lost y \<and> hist w' = EvSession LoopStop # hist y)"

lemma wpi_session_reads:
  "(\<And>ok w'. hist w' = EvSession (LoopStart ok) # hist w \<Longrightarrow> Q ok w') \<Longrightarrow> wp (startCanopenWorker E M) Q w"
  "(\<And>b w'. hist w' = EvSession (StopFlag b) # hist w \<Longrightarrow> Q b w') \<Longrightarrow> wp (stop_requested E M) Q w"
  "(\<And>b w'. hist w' = EvSession (LoopFlag b) # hist w \<Longrightarrow> Q b w') \<Longrightarrow> wp (loop_running E M) Q w"
  by (simp_all add: wp_def startCanopenWorker_def stop_requested_def loop_running_def Let_def)

lemma masterConnect_hist: "wp (masterConnect E M) (\<lambda>ok w'. hist w' = EvSession (LoopStart ok) # hist w) w"
  unfolding masterConnect_def registerNmtStateCallback_def registerNmtHeartbeatCallbacks_def registerCanopenEmcyCallback_def
  by (intro wpi_bind wpi_update_mem wpi_session_reads) simp

lemma waitForBoot_hist:
  "wp (waitForBootCompletion M t) (\<lambda>ok w'. \<exists>b. hist w' = EvWait (ms t) b # hist w \<and> (ok \<longrightarrow> b)) w"
  unfolding waitForBootCompletion_def waitForBootResult_def
  by (intro wpi_bind wpi_wait_for wpi_case_prod wpi_if wpi_return wpi_read_mem) auto

lemma masterValidation_runs:
  "wp (masterValidation opt mode M) (\<lambda>(booted, e) w'. if booted
     then \<exists>u. hist u = [EvWait (ms CANOPEN_WAIT_TIMEOUT_MS) True, EvNodeReset] @ hist w \<and>
       run_state (runEntries (makeCanopenProcesses opt mode M)) u = (e, w')
     else e = 1 \<and> does w [NodeReset] w') w"
  unfolding masterValidation_def prepareBootWait_def Let_def run_table
  apply (intro wpi_bind wpi_update_mem wpi_session)
  apply (rule wp_mono [OF waitForBoot_hist], rule wpi_if, rule wpi_return)
  subgoal by (clarsimp, rule does_short(2), assumption, simp)
  subgoal by (rule wpi_bind, rule wp_mono [OF wp_run], rule wpi_return) auto
  done

lemma finalReset_values: "run_state (finalResetProcess M) w = (r, w') \<Longrightarrow> r = 0 \<or> r = 1"
proof -
  have "wp (finalResetProcess M) (\<lambda>r w'. r = 0 \<or> r = 1) w"
    by (rule wp_mono [OF finalResetProcess_boot]) blast
  then show "run_state (finalResetProcess M) w = (r, w') \<Longrightarrow> r = 0 \<or> r = 1" by (rule wpD)
qed

lemma loop_lost_reads: "wp (loop_lost E M) (\<lambda>lost w'. quiet w w' \<and> (\<not> lost \<longrightarrow> not_lost w')) w"
  unfolding loop_lost_def
  by (intro wpi_bind wpi_session_reads wpi_if wpi_return) (auto simp: quiet_def not_lost_def)

lemma masterShutdown_runs:
  assumes "e = 0 \<or> e = 1"
  shows "wp (masterShutdown opt E M booted e) (\<lambda>r w'. (r = 0 \<or> r = 1) \<and> later w w' \<and> (\<not> booted \<longrightarrow> quiet w w') \<and>
     (r = 0 \<and> booted \<longrightarrow> e = 0 \<and> (\<exists>y. quiet w y \<and> not_lost y \<and> shut_down opt M y w')) \<and> (r = 0 \<longrightarrow> e = 0)) w"
proof -
  have stop: "wp (do { stopCanopenWorker M; return (if c = (0::int) then 0 else (1::int)) }) Q v"
    if "\<And>w'. hist w' = EvSession LoopStop # hist v \<Longrightarrow> Q (if c = 0 then 0 else 1) w'" for c Q v
    unfolding stopCanopenWorker_def by (intro wpi_bind wpi_session wpi_return that)
  have reset: "(r = 0 \<or> r = 1) \<and> later x z" if "run_state (finalResetProcess M) x = (r, z)" for r x z
    using finalReset_values [OF that] touchesD [OF finalResetProcess_any that] by (auto simp: later_def)
  have total: "(if (if lost then e + 1 else e) + r = 0 then 0 else 1 :: int) = 0 \<longleftrightarrow> \<not> lost \<and> e = 0 \<and> r = 0"
    if "r = 0 \<or> r = 1" for lost r
    using assms that by auto
  show ?thesis
    unfolding masterShutdown_def Let_def
    apply (rule wpi_bind, rule wp_mono [OF loop_lost_reads], rule wpi_bind, rule wpi_if)
    subgoal for lost y
      apply (rule wpi_bind, rule wpi_session_reads, rule wpi_if)
      subgoal for running x
        apply (rule wpi_bind, rule wp_mono [OF wp_run], rule wpi_return, rule stop)
        subgoal for r z w'
        proof -
          assume y: "quiet w y \<and> (\<not> lost \<longrightarrow> not_lost y)" and x: "hist x = EvSession (LoopFlag running) # hist y"
            and final: "enable_final_reset opt" and go: "running \<and> booted" and z: "run_state (finalResetProcess M) x = (r, z)"
            and w': "hist w' = EvSession LoopStop # hist z"
          have "later w w'"
            using y x reset [OF z] w' by (auto simp: quiet_def later_def)
          moreover have "shut_down opt M y w'" if "r = 0"
            using that x go z w' final by (auto simp: shut_down_def)
          ultimately show ?thesis
            using y go total [of r lost] reset [OF z] by auto
        qed
        done
      subgoal for running x
        apply (rule wpi_return, rule stop)
        subgoal for w'
          using total [of 0 lost] by (cases running) (auto simp: shut_down_def quiet_def not_lost_def later_def)
        done
      done
    subgoal for lost y
      apply (rule wpi_return, rule stop)
      subgoal for w'
        using total [of 0 lost] by (auto simp: shut_down_def quiet_def later_def)
      done
    done
qed

lemma slaveShutdown_runs:
  assumes "e = 0 \<or> e = 1"
  shows "wp (slaveShutdown E M e) (\<lambda>r w'. r = 0 \<and> e = 0 \<and>
     (\<exists>y. quiet w y \<and> not_lost y \<and> hist w' = EvSession LoopStop # hist y) \<or> r = 1) w"
  unfolding slaveShutdown_def stopCanopenWorker_def Let_def
  by (intro wpi_bind wp_mono [OF loop_lost_reads] wpi_session wpi_return) (use assms in auto)

text \<open>The outcomes of a run that returns.\<close>

definition returns :: "(int \<times> world) option \<Rightarrow> (int \<Rightarrow> world \<Rightarrow> bool) \<Rightarrow> bool" where
  "returns x P = (case x of None \<Rightarrow> True | Some (r, w') \<Rightarrow> P r w')"

lemma returns_simps [simp]: "returns None P" "returns (Some (r, w')) P = P r w'" "returns (Some (run_state m w)) P = wp m P w"
  by (simp_all add: returns_def wp_def)

text \<open>A master that fails: the loop did not start, the slave did not boot and nothing but the start of the
  node was done, or it booted and the table ran.\<close>

definition master_failed :: "options \<Rightarrow> string option \<Rightarrow> lely \<Rightarrow> world \<Rightarrow> world \<Rightarrow> bool" where
  "master_failed opt mode M w w' \<longleftrightarrow> hist w' = [EvSession LoopStop, EvSession (LoopStart False)] @ hist w \<or>
     does w [NodeReset] w' \<or> (\<exists>u v e. slave_booted w u \<and>
       run_state (runEntries (makeCanopenProcesses opt mode M)) u = (e, v) \<and> later v w')"

lemma runCanopenMaster_runs:
  "returns (runCanopenMaster opt mode E M w) (\<lambda>r w'. r = 0 \<and> master_passed opt mode M w w' \<or> r = 1 \<and> master_failed opt mode M w w')"
proof -
  obtain ok v where v: "run_state (masterConnect E M) w = (ok, v)" by fastforce
  have hv: "hist v = EvSession (LoopStart ok) # hist w" using wpD [OF masterConnect_hist v] .
  show ?thesis
  proof (cases ok)
    case False
    have "wp (do { stopCanopenWorker M; return 1 }) (\<lambda>r w'. r = 1 \<and> master_failed opt mode M w w') v"
      unfolding stopCanopenWorker_def by (intro wpi_bind wpi_session wpi_return) (simp add: master_failed_def hv False)
    then show ?thesis
      unfolding runCanopenMaster_def v prod.case using False
      by (simp only: if_True not_False_eq_True returns_simps) (erule wp_mono, blast)
  next
    case True
    obtain b e u where u: "run_state (masterValidation opt mode M) v = ((b, e), u)" by (metis prod.collapse)
    note validated = wpD [OF masterValidation_runs u, simplified]
    show ?thesis
    proof (cases "idle E M u")
      case None
      with v u True show ?thesis by (simp add: runCanopenMaster_def)
    next
      case (Some x)
      have e: "e = 0 \<or> e = 1" using validated runEntries_values by (auto split: if_splits)
      have ux: "quiet u x" using idle_quiet [OF Some] .
      have "wp (masterShutdown opt E M b e) (\<lambda>r w'. r = 0 \<and> master_passed opt mode M w w' \<or> r = 1 \<and> master_failed opt mode M w w') x"
      proof (rule wp_mono [OF masterShutdown_runs [OF e]], elim conjE)
        fix r w'
        assume r: "r = 0 \<or> r = 1" and "later x w'" "\<not> b \<longrightarrow> quiet x w'"
          and passed: "r = 0 \<and> b \<longrightarrow> e = 0 \<and> (\<exists>y. quiet x y \<and> not_lost y \<and> shut_down opt M y w')" "r = 0 \<longrightarrow> e = 0"
        show "r = 0 \<and> master_passed opt mode M w w' \<or> r = 1 \<and> master_failed opt mode M w w'"
        proof (cases b)
          case False
          with validated have "e = 1" "does v [NodeReset] u" by simp_all
          moreover have "does w [] v" by (rule does_event(2) [OF hv]) simp
          moreover have "does u [] w'" using ux \<open>\<not> b \<longrightarrow> quiet x w'\<close> False unfolding does_quiet [symmetric] by (blast intro: quiet_trans)
          ultimately have "does w ([] @ [NodeReset] @ []) w'" by (blast intro: does_trans)
          with r passed(2) \<open>e = 1\<close> show ?thesis by (auto simp: master_failed_def)
        next
          case True
          with validated obtain z where z: "hist z = [EvWait (ms CANOPEN_WAIT_TIMEOUT_MS) True, EvNodeReset] @ hist v"
            "run_state (runEntries (makeCanopenProcesses opt mode M)) z = (e, u)" by auto
          then have booted: "slave_booted w z" using hv \<open>ok\<close> by (simp add: slave_booted_def)
          show ?thesis
          proof (cases "r = 0")
            case True
            with passed \<open>b\<close> obtain y where "e = 0" "quiet x y" "not_lost y" "shut_down opt M y w'" by blast
            with booted z(2) ux have "master_passed opt mode M w w'"
              unfolding master_passed_def runEntries_zero_iff [symmetric] by (blast intro: quiet_trans)
            with True show ?thesis by simp
          next
            case False
            have "later u w'" using quiet_later [OF ux] \<open>later x w'\<close> by (rule later_trans)
            with False r booted z(2) show ?thesis by (auto simp: master_failed_def)
          qed
        qed
      qed
      then show ?thesis using v u True Some by (simp add: runCanopenMaster_def)
    qed
  qed
qed

lemma nmtMaster_values: "wp (nmtMasterProcess M) (\<lambda>r w'. r = 0 \<or> r = 1) w"
  unfolding nmtMasterProcess_def by (simp add: wp_def split: prod.splits)

lemma runCanopenSlave_runs:
  "returns (runCanopenSlave opt E M w) (\<lambda>r w'. r = 0 \<and> slave_passed opt M w w' \<or> r = 1)"
proof -
  obtain ok v where v: "run_state (startCanopenWorker E M) w = (ok, v)" by fastforce
  have hv: "hist v = EvSession (LoopStart ok) # hist w"
    using wpD [OF wpi_session_reads(1) v, of "\<lambda>ok w'. hist w' = EvSession (LoopStart ok) # hist w"] by simp
  obtain u where u: "run_state (node_reset M) v = ((), u)" by (simp add: run_session)
  have hu: "hist u = EvNodeReset # hist v" using u by (auto simp: run_session)
  have stop: "wp (do { stopCanopenWorker M; return 1 }) (\<lambda>r w'. r = 0 \<and> slave_passed opt M w w' \<or> r = 1) v"
    unfolding stopCanopenWorker_def by (intro wpi_bind wpi_session wpi_return) simp
  have ends: "wp (slaveShutdown E M e) (\<lambda>r w'. r = 0 \<and> slave_passed opt M w w' \<or> r = 1) x"
    if "ok" "e = 0 \<or> e = 1" "e = 0 \<Longrightarrow> if enable_nmt_master opt then run_state (nmtMasterProcess M) u = (0, x) else quiet u x" for e x
  proof -
    have "slave_passed opt M w w'" if "e = 0" "quiet x y" "not_lost y" "hist w' = EvSession LoopStop # hist y" for w' y
      unfolding slave_passed_def
      by (intro exI [of _ u] exI [of _ x] exI [of _ y]) (use that \<open>e = 0 \<Longrightarrow> _\<close> \<open>ok\<close> hu hv in simp)
    then show ?thesis by (intro wp_mono [OF slaveShutdown_runs [OF that(2)]]) blast
  qed
  show ?thesis
  proof (cases ok)
    case False
    show ?thesis
      unfolding runCanopenSlave_def v prod.case using False stop by (simp only: if_True not_False_eq_True returns_simps)
  next
    case True
    show ?thesis
    proof (cases "enable_nmt_master opt")
      case nmt: True
      have "wp (do { r \<leftarrow> nmtMasterProcess M; slaveShutdown E M r }) (\<lambda>r w'. r = 0 \<and> slave_passed opt M w w' \<or> r = 1) u"
      proof (rule wpi_bind, rule wpI)
        fix r x assume run: "run_state (nmtMasterProcess M) u = (r, x)"
        show "wp (slaveShutdown E M r) (\<lambda>r w'. r = 0 \<and> slave_passed opt M w w' \<or> r = 1) x"
          by (rule ends [OF True wpD [OF nmtMaster_values run]]) (use run nmt in simp)
      qed
      then show ?thesis
        unfolding runCanopenSlave_def v prod.case u using True nmt by (simp only: if_False not_True_eq_False if_True returns_simps)
    next
      case nmt: False
      show ?thesis
      proof (cases "idle E M u")
        case None
        then show ?thesis unfolding runCanopenSlave_def v prod.case u using True nmt by simp
      next
        case (Some x)
        have "wp (slaveShutdown E M 0) (\<lambda>r w'. r = 0 \<and> slave_passed opt M w w' \<or> r = 1) x"
          by (rule ends [OF True]) (use nmt idle_quiet [OF Some] in simp_all)
        then show ?thesis unfolding runCanopenSlave_def v prod.case u using True nmt Some by simp
      qed
    qed
  qed
qed

section \<open>The end of a run\<close>

text \<open>A master returns exactly when the loop did not start or, after the validation, the wait ends.\<close>

lemma runCanopenMaster_ends:
  "runCanopenMaster opt mode E M w \<noteq> None \<longleftrightarrow> (case run_state (masterConnect E M) w of (connected, v) \<Rightarrow>
     \<not> connected \<or> (\<exists>n. \<not> keeps_waiting E M ((wait_round E M ^^ n) (snd (run_state (masterValidation opt mode M) v)))))"
  unfolding idle_iff [symmetric]
  by (auto simp: runCanopenMaster_def split: prod.splits option.splits)

end
