(* ===== verification/Bench.thy ===== *)
theory Bench
  imports Emcy_Process Sdo_Process Heartbeat_Process Time_Process Storage_Process
    Nmt_Master_Process Gfc_Process
begin

text \<open>
  A concrete environment: a well-behaved device on an ideal bus.  Its dictionary, the master's
  own dictionary and the callbacks are functions of the history, as the record \<open>lely\<close> asks.  It
  shows that the hypotheses of the conditional theorems can hold and that the processes can
  report success, so the theorems about successful runs speak of runs that exist.
\<close>

section \<open>The device\<close>

definition bench_objects :: "u16 \<Rightarrow> u8 \<Rightarrow> sdo_value" where
  "bench_objects index sub =
     (if index = 0x2200 then V32 7
      else if index = 0x1014 then V32 0x81
      else if index = 0x1015 then V16 0
      else if index = 0x1000 then V32 0
      else if index = 0x2300 then (if sub = 3 then V16 1000 else V32 500)
      else V8 0)"

fun bench_dev :: "history \<Rightarrow> dictionary" where
  "bench_dev [] = (\<lambda>(n, i, s). bench_objects i s)"
| "bench_dev (EvDownload rq v r # h) =
     (if confirmed r then (bench_dev h)(address rq := v) else bench_dev h)"
| "bench_dev (e # h) = bench_dev h"

definition bench_local0 :: "u16 \<Rightarrow> u8 \<Rightarrow> sdo_value" where
  "bench_local0 index sub =
     (if index = 0x1017 then V16 500 else if index = 0x1028 then V32 0x81
      else if index = 0x1016 then V32 0x000103E8 else V8 0x7F)"

fun bench_local :: "history \<Rightarrow> u16 \<Rightarrow> u8 \<Rightarrow> sdo_value" where
  "bench_local [] i s = bench_local0 i s"
| "bench_local (EvLocalWrite i' s' v e # h) i s = (if i' = i \<and> s' = s then v else bench_local h i s)"
| "bench_local (e # h) i s = bench_local h i s"

text \<open>
  The error log the device keeps: an entry when the master's heartbeat stops and one when it
  resumes, newest first.
\<close>

fun bench_log :: "history \<Rightarrow> u32 list" where
  "bench_log [] = []"
| "bench_log (EvLocalWrite i s (V16 v) e # h) =
     (if i = 0x1017 \<and> (v = 0) \<noteq> (bench_local h 0x1017 0 = V16 0)
      then (if v = 0 then 0x1B108130 else 0x1B000000) # bench_log h else bench_log h)"
| "bench_log (e # h) = bench_log h"

definition bench_entry :: "u32 list \<Rightarrow> u8 \<Rightarrow> sdo_value" where
  "bench_entry log sub =
     (case log of
        [] \<Rightarrow> if sub = 0 then V8 0 else V32 0
      | e # es \<Rightarrow> if sub = 0 then V8 (of_nat (min 16 (length log)))
                  else if sub = 1 then V32 e else (case es of [] \<Rightarrow> V32 0 | e' # _ \<Rightarrow> V32 e'))"

definition bench_plain :: "u8 \<times> u16 \<times> u8 \<Rightarrow> bool" where
  "bench_plain = (\<lambda>(n, i, s). i \<noteq> 0x1001 \<and> i \<noteq> 0x1003)"

definition bench_value :: "history \<Rightarrow> u8 \<times> u16 \<times> u8 \<Rightarrow> sdo_value" where
  "bench_value h a = (case a of (n, i, s) \<Rightarrow>
     if i = 0x1001 then V8 (if bench_local h 0x1017 0 = V16 0 then 0x10 else 0)
     else if i = 0x1003 then bench_entry (bench_log h) s
     else bench_dev h a)"

text \<open>What the device and the master report during the call that follows an event.  A recovery
  is reported late by the configured inhibit time, in units of 100 microseconds.\<close>

definition bench_delay :: "history \<Rightarrow> nat" where
  "bench_delay h = (case bench_dev h (1, 0x1015, 0) of V16 t \<Rightarrow> unat t * 100000 | _ \<Rightarrow> 0)"

fun bench_callbacks :: "history \<Rightarrow> callback list" where
  "bench_callbacks (EvLocalWrite i s (V16 v) e # h) =
     (if i \<noteq> 0x1017 then []
      else if v = 0 then [CbEmcy 1 0x8130 0x10 [0x1B, 0, 0, 0, 0] 0]
      else if bench_local h 0x1017 0 = V16 0 then [CbEmcy 1 0 0 [0x1B, 0, 0, 0, 0] (bench_delay h)]
      else [])"
| "bench_callbacks (EvDownload rq (V16 v) r # h) =
     (if rq_index rq = 0x1017 then [CbHeartbeat 1 (v = 0)] else [])"
| "bench_callbacks (EvCommand cmd n ok # h) =
     (if cmd = RESET_COMM \<or> cmd = RESET_NODE then [CbBoot 1 nmt_PREOP (CHR 0x00)]
      else if cmd = START then [CbState n nmt_START] else [])"
| "bench_callbacks _ = []"

definition refused :: "'a submission" where "refused = Rejected (OtherCategory 1)"

definition bench :: lely where
  "bench = \<lparr>
     up8 = (\<lambda>h rq. case bench_value h (address rq) of V8 v \<Rightarrow> Accepted (Some (NoError, v)) | _ \<Rightarrow> refused),
     up16 = (\<lambda>h rq. case bench_value h (address rq) of V16 v \<Rightarrow> Accepted (Some (NoError, v)) | _ \<Rightarrow> refused),
     up32 = (\<lambda>h rq. case bench_value h (address rq) of V32 v \<Rightarrow> Accepted (Some (NoError, v)) | _ \<Rightarrow> refused),
     up64 = (\<lambda>h rq. refused),
     upI8 = (\<lambda>h rq. refused),
     upI32 = (\<lambda>h rq. case bench_value h (address rq) of VI32 v \<Rightarrow> Accepted (Some (NoError, v)) | _ \<Rightarrow> refused),
     upOctets = (\<lambda>h rq. refused),
     down = (\<lambda>h rq v. Accepted (Some (NoError, ()))),
     loc8 = (\<lambda>h i s. case bench_local h i s of V8 v \<Rightarrow> (v, NoError) | _ \<Rightarrow> (0, OtherCategory 1)),
     loc16 = (\<lambda>h i s. case bench_local h i s of V16 v \<Rightarrow> (v, NoError) | _ \<Rightarrow> (0, OtherCategory 1)),
     loc32 = (\<lambda>h i s. case bench_local h i s of V32 v \<Rightarrow> (v, NoError) | _ \<Rightarrow> (0, OtherCategory 1)),
     loc_write = (\<lambda>h i s v. NoError),
     command = (\<lambda>h c n. True),
     can_lock = (\<lambda>h. True), can_net = (\<lambda>h. True), can_send = (\<lambda>h f. True), can_unlock = (\<lambda>h. True),
     wire_write = (\<lambda>h f. NoError), wire_read = (\<lambda>h t. WireFault EAGAIN), wire_pending = (\<lambda>h. []),
     mapped_value = (\<lambda>h i s. (0, NoError)), mapped_set = (\<lambda>h i s v. NoError),
     mapped_trigger = (\<lambda>h i s. NoError), sdo_client = (\<lambda>h n. True), emcy_service = (\<lambda>h. True),
     emcy_top = (\<lambda>h. (0, 0)), emcy_depth = (\<lambda>h. Some 0), emcy_push = (\<lambda>h c r d. True),
     emcy_clear = (\<lambda>h. True),
     od_done = (\<lambda>h c. True), od_holds = (\<lambda>h q. q = OdDevice \<or> q = OdServer), od_written = (\<lambda>h i v. (4, True)),
     od_number = (\<lambda>h i. 0), od_octets = (\<lambda>h i. (1, Some [0])),
     sdo_errc = (\<lambda>e. 0), elapsed = (\<lambda>h. 0), callbacks = bench_callbacks\<rparr>"

lemma bench_sel [simp]:
  "down bench h rq v = Accepted (Some (NoError, ()))"
  "up8 bench h rq = (case bench_value h (address rq) of V8 v \<Rightarrow> Accepted (Some (NoError, v)) | _ \<Rightarrow> refused)"
  "up16 bench h rq = (case bench_value h (address rq) of V16 v \<Rightarrow> Accepted (Some (NoError, v)) | _ \<Rightarrow> refused)"
  "up32 bench h rq = (case bench_value h (address rq) of V32 v \<Rightarrow> Accepted (Some (NoError, v)) | _ \<Rightarrow> refused)"
  "upI32 bench h rq = (case bench_value h (address rq) of VI32 v \<Rightarrow> Accepted (Some (NoError, v)) | _ \<Rightarrow> refused)"
  "loc8 bench h i s = (case bench_local h i s of V8 x \<Rightarrow> (x, NoError) | _ \<Rightarrow> (0, OtherCategory 1))"
  "loc16 bench h i s = (case bench_local h i s of V16 x \<Rightarrow> (x, NoError) | _ \<Rightarrow> (0, OtherCategory 1))"
  "loc32 bench h i s = (case bench_local h i s of V32 x \<Rightarrow> (x, NoError) | _ \<Rightarrow> (0, OtherCategory 1))"
  "loc_write bench h i s v = NoError" "command bench h c n = True"
  "callbacks bench = bench_callbacks" "elapsed bench h = 0"
  "wire_write bench h f = NoError" "wire_read bench h t = WireFault EAGAIN" "wire_pending bench h = []"
  by (simp_all add: bench_def)

lemma bench_is_server: "sdo_server bench_plain bench bench_dev"
  unfolding sdo_server_def
proof (intro conjI allI impI)
  fix e h
  show "server_step e (bench_dev h) (bench_dev (e # h))"
    by (cases e) auto
qed (auto simp: reports_def refused_def bench_plain_def bench_value_def split: sdo_value.splits)

section \<open>Running a process on the bench\<close>

lemma wp_steady_now [simp]:
  "wp (steady_now M) Q w = (let t = clock w + elapsed M (hist w) + 1 in Q t (occur M (EvNow t) 0 w))"
  by (simp add: wp_def run_steady_now Let_def)

lemma bench_run [simp]:
  "confirmed (Accepted (Some (NoError, v)))" "address (sdoRequest m n i s t) = (n, i, s)"
  "t_upload tU8 = up8" "t_upload tU16 = up16" "t_upload tU32 = up32" "t_upload tI32 = upI32"
  "l_read lU8 = loc8" "l_read lU16 = loc16" "l_read lU32 = loc32"
  "mem (occur M ev d w) = fold (dispatch (clock w)) (callbacks M (hist w)) (mem w)"
  by (simp_all add: confirmed_def address_def tU8_def tU16_def tU32_def tI32_def lU8_def lU16_def
      lU32_def occur_def)

lemma wp_bench [simp]:
  "wp (local_write M i s v) Q0 w = Q0 (loc_write M (hist w) i s v)
     (occur M (EvLocalWrite i s v (loc_write M (hist w) i s v)) 0 w)"
  "wp (sleep_for M d) Q1 w = Q1 () (occur M (EvSleep d) d w)"
  "wp (submit_command M c n) Q2 w = Q2 (command M (hist w) c n)
     (occur M (EvCommand c n (command M (hist w) c n)) 0 w)"
  "wp (local_read T M i s) Q3 w = (let r = l_read T M (hist w) i s in
     Q3 r (occur M (EvLocalRead i s (l_value T (fst r)) (snd r)) 0 w))"
  "wp (wait_for M t pred) Q4 w =
     (case wait_run (clock w) pred (callbacks M (hist w)) (mem w) of (ok, m) \<Rightarrow>
        Q4 ok ((occur M (EvWait t ok) (if ok then 0 else t) w)\<lparr>mem := m\<rparr>))"
  by (simp_all add: wp_def run_local_write run_sleep_for run_submit_command run_local_read Let_def
      wait_for_def split: prod.splits)

text \<open>The world after start-up: every observer registered.\<close>

definition bench_world :: world where
  "bench_world = \<lparr>clock = 0, hist = [], mem = initial_memory\<lparr>
     nmt := registerNmtState initial_nmt_mem, on_emcy := True, on_state := True, on_boot := True,
     on_heartbeat := True\<rparr>\<rparr>"

lemma bench_world_sel [simp]:
  "hist bench_world = []" "clock bench_world = 0" "on_emcy (mem bench_world)"
  "on_state (mem bench_world)" "on_boot (mem bench_world)" "on_heartbeat (mem bench_world)"
  "emcy (mem bench_world) = initial_emcy_mem" "boot (mem bench_world) = initial_boot_mem"
  "heartbeat (mem bench_world) = initial_heartbeat_mem"
  "nmt (mem bench_world) = registerNmtState initial_nmt_mem"
  by (simp_all add: bench_world_def initial_memory_def)

lemmas bench_eval = host_wp op_wp const_defs Let_def bench_objects_def bench_local0_def
  bench_value_def bench_entry_def bench_delay_def CANOPEN_SLAVE_NODE_ID_def

lemma bench_sdoProcess: "wp (sdoProcess bench) (\<lambda>r w'. r = 0) bench_world"
  by (simp add: sdo_process_defs bench_eval)

lemma bench_finalReset: "wp (finalResetProcess bench) (\<lambda>r w'. r = 0) bench_world"
  by (simp add: finalResetProcess_def prepareBootWait_def issueNmtCommand_def
      waitForBootCompletion_def waitForBootResult_def bootCallback_def clearBoot_def bench_eval)

lemma bench_heartbeat: "wp (heartbeatProcess bench) (\<lambda>r w'. r = 0) bench_world"
  by (simp add: heartbeatProcess_def testSlaveProducerHeartbeat_def heartbeat_operation_defs
      emcyCallback_def initial_emcy_mem_def kEmcyEventCapacity_def heartbeatCallback_def
      expectHeartbeat_def bench_eval)


section \<open>EMCY operations\<close>

lemmas emcy_operation_defs = readRemoteObject_def writeRemoteObject_def readLocalObject_def
  writeLocalObject_def triggerHeartbeatFault_def recoverHeartbeatFault_def writeMasterHeartbeat_def
  snapshotCanopenEmcySequence_def waitForCanopenEmcyEvent_def getCanopenEmcyEventsAfter_def
  emcyCallback_def initial_emcy_mem_def kEmcyEventCapacity_def eventsAfter_def
  cobIdEnabled_def standardCanId_def


lemmas emcy_phase_defs = captureSavedState_def readErrorHistory_def runDefaultEmcyValidation_def
  validateHeartbeatEmcyData_def validateErrorRegister_def validateHistoryEntry_def
  historyErrorCode_def historyErrorRegister_def historyErrorBit_def expectedHistoryCount_def
  validateHistoryAfterPair_def configureTestEmcyCobId_def disableRemoteEmcyProducer_def
  switchLocalEmcyConsumerCobId_def writeRemoteEmcyCobId_def runConfigurableInhibitValidation_def
  inhibitIntervalOk_def intervalMs_def waitForClearErrorRegister_def clearErrorRegisterBody_def
  verifyRestored_def restoreEmcyConfiguration_def runRestoredPathSmoke_def recoveryTimeoutMs_def
  savedInhibitMs_def default_history_def default_saved_state_def

lemma bench_default_emcy:
  "wp (runDefaultEmcyValidation bench \<lparr>master_heartbeat = 500, master_consumer_cob_id = 0x81,
     slave_emcy_cob_id = 0x81, slave_inhibit_time = 0\<rparr>) (\<lambda>r w'. r) bench_world"
  by (simp add: emcy_phase_defs emcy_operation_defs ms_def bench_eval)

lemma bench_configure_emcy: "wp (configureTestEmcyCobId bench) (\<lambda>r w'. r) bench_world"
  by (simp add: emcy_phase_defs emcy_operation_defs ms_def bench_eval)

section \<open>TIME diagnostics and NMT commands\<close>

lemma bench_time_diagnostic:
  "wp (readTimeDiagnostic bench default_diagnostic False) (\<lambda>r w'. fst r) bench_world"
  by (simp add: readTimeDiagnostic_def readRxCount_def numeral_3_eq_3
      default_diagnostic_def bench_eval)

lemma bench_nmt_start:
  "wp (issueNmtCommandAndWaitForState bench START 1 nmt_START 1000) (\<lambda>ok w'. ok) bench_world"
  by (simp add: issueNmtCommandAndWaitForState_def readManagedNmtState_def issueNmtCommand_def
      freshState_def nmtStateCallback_slot [OF registerNmtState_wf] observeState_def
      kRequestNmtIndex_def nmt_START_def kNmtStateSlotCount_def bench_eval)

section \<open>A peer master\<close>

text \<open>A device under test that acts as the NMT master and sends the commands of the contract without
  auto-start.\<close>

definition peer_script :: "nmt_command list list" where
  "peer_script = [[], [], [START], [STOP], [ENTER_PREOP], [RESET_COMM], [ENTER_PREOP], [],
     [RESET_NODE], [RESET_COMM], [ENTER_PREOP], [], [START], [], [], []]"

definition peer :: lely where
  "peer = bench\<lparr>callbacks := (\<lambda>h. if length h < length peer_script
       then map CbCommand (peer_script ! length h) else []),
     loc32 := (\<lambda>h i s. (4, NoError)), loc16 := (\<lambda>h i s. (500, NoError))\<rparr>"

lemma peer_sel [simp]:
  "callbacks peer h = (if length h < 16 then map CbCommand (peer_script ! length h) else [])"
  "loc32 peer h i s = (4, NoError)" "loc16 peer h i s = (500, NoError)"
  "loc_write peer h i s v = NoError" "elapsed peer h = 0"
  by (simp_all add: peer_def peer_script_def)

lemmas nmt_master_eval = nmtMasterProcess_def nmtMasterSequence_def registerNmtCommandObserver_def
  peerAutoStartsAfterReset_def formalSequence_def configurePeerHeartbeat_def enterPreOperational_def
  waitForNmtMasterStep_def waitForNmtCommand_def waitForOptionalNmtCommand_def commandReady_def
  waitForFormalCommandAfterReset_def waitForFinalStartAfterReset_def keepPeerAliveForFinalHeartbeat_def
  unregisterNmtCommandObserver_def clearCommands_def nmtCommandCallback_def headCommand_def dropCommand_def
  CANOPEN_PEER_HEARTBEAT_MS_def kNmtCommandQueueCapacity_def initial_commands_def step_defs peer_script_def

lemma peer_passes: "wp (nmtMasterProcess peer) (\<lambda>r w'. r = 0) bench_world"
  by (simp add: nmt_master_eval bench_eval bench_world_def initial_memory_def)
section \<open>Sample data\<close>

text \<open>A layout with a 28 byte payload after a signature, and two TIME snapshots around the wrap of
  the day count.\<close>

definition example_layout :: StorageLayout where
  "example_layout = \<lparr>storage_offset = 256, eeprom_size = 16384, page_size = 64, addr_input = 1,
     signature_address = 256, data_address = 260, data_length = 28, raw_start = 256,
     raw_length = 32, signature_value = 0\<rparr>"

definition before_midnight :: TimeDiagnostic where
  "before_midnight = \<lparr>rx_count = 4, milliseconds = 86399900, days = 65535, sampled_at = 0\<rparr>"

definition after_midnight :: TimeDiagnostic where
  "after_midnight = \<lparr>rx_count = 5, milliseconds = 150, days = 0, sampled_at = 300000000\<rparr>"

end
