(* ===== verification/Spec2Isabelle.thy ===== *)
theory Spec2Isabelle
  imports Process_Runner Storage_Process Time_Process Nmt_Master_Process Gfc_Process Sdo_Block_Process Pdo_Process Sync_Pdo_Cleanup Emcy_Consumer_Process Srdo_Checks Sdo_Client_Runs Host_Program Bench
begin

text \<open>
  \<^bold>\<open>The program.\<close>  A host application tests a CANopen slave over the bus.  It opens a CANopen master
  (the Lely stack), boots the slave, and runs a table of validation processes one after the
  other; each process talks to the slave through SDO transactions, local objects of the master,
  NMT commands and raw CAN frames, listens to what the stack reports through callbacks, and
  must leave the slave configured as it found it.  All processes run on one control thread;
  callbacks run on the event-loop thread of the stack and publish into memory that the
  control thread waits on.

  \<^bold>\<open>The model.\<close>  The stack and the slave are not part of the sources.  They are the parameter
  \<open>M :: lely\<close> of every operation (theory \<open>Host_World\<close>): its fields answer each call from the
  history of all calls so far and say which callbacks each call lets through.  A program is a
  value of type \<open>'a host\<close>, a function on a \<open>world\<close>: the host clock, the history of calls (newest
  first) and the shared memory.  So every theorem quantifies over all behaviours of stack and
  slave, except where an SDO server is assumed by name (\<open>sdo_server\<close>).  Out-parameters are
  returned beside the result; an exception of the stack is a false or failed answer, as the
  sources catch it at the call; log output is left out.  \<open>std::uint8_t\<close> to \<open>std::uint64_t\<close>
  are words, except that the event sequence, the state generation and clock values (64 bits,
  one step per received frame or nanosecond) are natural numbers.

  \<^bold>\<open>Theories and sources.\<close>
  \<^item> \<open>Prelude\<close>: types, generic lemmas, theorem collections.
  \<^item> \<open>Emcy_Events\<close> (\<open>src/canopen_emcy.cpp\<close>): the bounded event log; locale \<open>publication_log\<close> is what
    a sequence-based wait relies on, interpreted for the log.
  \<^item> \<open>Nmt_Observer\<close> (\<open>src/canopen_nmt.cpp\<close>, \<open>src/nmt_heartbeat.cpp\<close>): the state cache, Boot and
    Heartbeat flags; locale \<open>generation_cell\<close>, interpreted for a cache slot.
  \<^item> \<open>Command_Queue\<close> (\<open>src/nmt_master_process.cpp\<close>): the ring of observed NMT commands; locale
    \<open>bounded_fifo\<close>, interpreted for the ring.
  \<^item> \<open>Wire_Workers\<close> (\<open>src/gfc_process.cpp\<close>, \<open>src/srdo_process.cpp\<close>): frames, the answers of the dedicated CAN
    channel and the memory shared with worker threads.
  \<^item> \<open>Pdo_Observers\<close> (\<open>src/pdo_process.cpp\<close>, \<open>src/sync_pdo_process.cpp\<close>): what the PDO and SYNC callbacks
    publish; \<open>generation_cell\<close> is interpreted for the received samples as well.
  \<^item> \<open>Host_World\<close>: environment, world, the primitive calls and the deadline loop.
  \<^item> \<open>World_Logic\<close>: weakest preconditions \<open>wp\<close> with one rule per primitive (collection \<open>wp_intro\<close>), the
    closure \<open>emits\<close>/\<open>touches\<close> for what a program may do, and the memory invariant \<open>memory_wf\<close>.
  \<^item> \<open>Sdo_Access\<close> (\<open>include/canopen_sdo.h\<close>): the SDO helpers, their outcome as a function of the
    submission, the assumption \<open>sdo_server\<close>.
  \<^item> \<open>Observers\<close> (\<open>src/canopen_emcy.cpp\<close>, \<open>src/canopen_nmt.cpp\<close>, \<open>src/nmt_heartbeat.cpp\<close>,
    \<open>src/shutdown_process.cpp\<close>): the waits and the final reset.
  \<^item> \<open>Object_Access\<close>: the object accessors of the processes and locale \<open>verified_object\<close> (write, then
    read back), interpreted for device and master objects.
  \<^item> \<open>Sdo_Channel\<close>: runs in which no transaction follows one whose completion was lost, with one rule per
    operation; operations without SDO traffic are \<open>silent\<close>.
  \<^item> \<open>Phases\<close>: runs as chains of phases (\<open>stages\<close>), what an operation \<open>performs\<close> when it succeeds and what it
    \<open>takes\<close> in any case; shared by the SRDO and the SDO client validation.
  \<^item> \<open>Process_Runner\<close> (\<open>src/canopen_process.cpp\<close>), \<open>Sdo_Process\<close> (\<open>src/sdo_process.cpp\<close>),
    \<open>Emcy_Process\<close> (\<open>src/emcy_process.cpp\<close>), \<open>Heartbeat_Process\<close> (\<open>src/nmt_heartbeat.cpp\<close>),
    \<open>Storage_Process\<close> (\<open>src/storage_process.cpp\<close>), \<open>Time_Process\<close> (\<open>src/time_process.cpp\<close>),
    \<open>Nmt_Master_Process\<close> (\<open>src/nmt_master_process.cpp\<close>), \<open>Gfc_Process\<close> (\<open>src/gfc_process.cpp\<close>),
    \<open>Sdo_Block_Process\<close> (\<open>src/sdo_block_process.cpp\<close>), \<open>Pdo_Process\<close> (\<open>src/pdo_process.cpp\<close>), \<open>Sync_Pdo_Process\<close>
    (\<open>src/sync_pdo_process.cpp\<close>), \<open>Emcy_Consumer_Process\<close> (\<open>src/emcy_consumer_process.cpp\<close> and the
    EMCY stack of \<open>include/canopen_master.h\<close>): one definition per function of the source under its name, plus parts of the longest functions.
    \<open>Srdo_Wire\<close>, \<open>Srdo_Process\<close> and \<open>Srdo_Faults\<close> (\<open>src/srdo_process.cpp\<close>) hold the wire side, the access and
    functional checks, and the fault cases with the process of the SRDO validation; \<open>Worker_Watch\<close> says what
    its helper threads report, as locale \<open>reporter\<close> interpreted for both, and \<open>Srdo_Runs\<close>, \<open>Srdo_Evidence\<close>,
    \<open>Srdo_Transmit\<close> and \<open>Srdo_Checks\<close> what its runs show.
    \<open>Host_Sdo_Server_Fixture\<close> (\<open>src/host_sdo_server_fixture.cpp\<close>) has the test objects of the master's own
    dictionary and who owns them, \<open>Sdo_Client_Process\<close> (\<open>src/sdo_client_process.cpp\<close>) the SDO client validation
    that uses them, and \<open>Sdo_Client_Runs\<close> what its runs show.
    \<open>Sync_Pdo_Cleanup\<close> has the invariants of every run of the SYNC process.
  \<^item> \<open>Host_Progress\<close>: the memory invariant along every run, and the progress of the Boot wait.
  \<^item> \<open>Host_Program\<close> (\<open>src/main.cpp\<close>): the process table, the master and the slave role, the entry, and their runs.
  \<^item> \<open>Bench\<close>: one concrete stack and slave on which the processes are evaluated; it shows that the
    assumptions can hold.

  \<^bold>\<open>What is proved.\<close>  Restoration and cleanup of each process, the order and extent of its changes,
  freshness of every confirmed result, the evidence a success rests on, ownership of the objects of
  the fixture, exactness of the encodings and bounds, well-formedness of the shared memory, progress of the
  final reset, the contract of the whole program.

  \<^bold>\<open>Loops and bounds.\<close>  A loop up to a deadline of the steady clock is \<open>deadline_loop\<close> or, where the test
  comes after the body, \<open>deadline_do_while\<close>.  In the model every call takes at least one nanosecond, so
  each pass brings the clock closer to the deadline and the loop is a total function with the remaining
  time as measure.  The drain of the dedicated channel runs over \<open>wire_pending\<close>, the finitely many frames
  that wait there.  Loops over a region or a counter recurse on what is left; the snapshot of the TIME
  process has three attempts as in the source.  Only the wait for a signal in \<open>main.cpp\<close> may run forever: \<open>idle\<close>
  is a \<open>partial_function (option)\<close>, and when it returns is proved.  No fuel is used.

  \<^bold>\<open>Not modelled.\<close>  The construction of the objects of the stack, the thread of the event loop, the
  signal handler and the logger of \<open>main.cpp\<close>: the control thread sees them through \<open>session\<close> (did the loop
  start, does it run, is a stop requested) and \<open>launch\<close> (handlers, bitrate, channels), both arguments of the
  program, as the build options are in \<open>options\<close>.  An exception of a constructor ends the program and is not in
  the model.  Of \<open>canopen_master.h\<close> the cancellation of client requests and the access to the local EMCY stack are
  modelled with the processes that use them.
\<close>

section \<open>Processes leave the device as they found it\<close>

text \<open>C1. Against a device that behaves as an SDO server for the control object, the SDO process
  either reports failure or leaves the device's dictionary exactly as it was.\<close>

theorem sdo_process_restores_device:
  assumes "sdo_server plain M dev" and "plain (address control_request)"
  shows "wp (sdoProcess M) (\<lambda>r w'. r = 1 \<or> r = 0 \<and> dev (hist w') = dev (hist w)) w"
  using assms by (rule sdoProcess_restores)

theorem sdo_process_restores_device_witness:
  "wp (sdoProcess bench) (\<lambda>r w'. r = 0 \<and> bench_dev (hist w') = bench_dev []) bench_world"
proof -
  have "bench_plain (address control_request)"
    by (simp add: bench_plain_def control_request_def const_defs)
  from sdo_process_restores_device [OF bench_is_server this, of bench_world] bench_sdoProcess
  have "wp (sdoProcess bench) (\<lambda>r w'. (r = 1 \<or> r = 0 \<and> bench_dev (hist w') = bench_dev []) \<and> r = 0)
      bench_world"
    unfolding wp_conj by simp
  then show ?thesis by (rule wp_mono) auto
qed

text \<open>C2. A run of the EMCY process that reports success started by reading four configuration
  values (master heartbeat, master consumer COB-ID, device producer COB-ID, device inhibit time)
  that are fit for the test, and ended by reading the same four values again.\<close>

theorem emcy_process_framed:
  "wp (emcyProcess M) (\<lambda>r w'. r = 1 \<or> r = 0 \<and> framed w w') w"
  by (rule emcyProcess_frame)

text \<open>C3. A run of the EMCY process changes nothing and reports failure, or its last action is the
  restoration of the configuration it captured first, and it reports success only if that
  restoration did.\<close>

theorem emcy_process_cleans_up:
  "wp (emcyProcess M) (\<lambda>r w'. quiet w w' \<and> r = 1 \<or> cleaned_up M w r w') w"
  by (rule emcyProcess_cleanup)

text \<open>C4. Every mode of the storage process either reports failure after harmless commands only, or
  has captured a complete baseline (layout accepted, raw image complete, CRC equal to the
  target's) before the first change and ends with the cleanup of that baseline, and success
  requires the success of the cleanup.\<close>

theorem storage_process_guarded:
  "wp (storageProcess M mode) (guarded M w) w"
  by (rule storageProcess_guarded)


text \<open>C6. A TIME run that reports success read the TIME COB-ID before changing anything and read
  the same value back after its last change; at most one NMT start follows.\<close>

theorem time_process_restores:
  "wp (timeProcess M) (\<lambda>r w'. r = 1 \<or> r = 0 \<and> time_restored w w') w"
  by (rule timeProcess_restores)

text \<open>C24. The heartbeat process performs its seven changes in order; it stops early only with a
  failure, and once the slave assignment has been switched off it is switched on again on every
  path but the one where switching it off was refused.\<close>

theorem heartbeat_process_steps:
  "wp (heartbeatProcess M) (\<lambda>r w'. \<exists>es. hist w' = es @ hist w \<and>
     heartbeat_trace r (rev (mutations es))) w"
  by (rule heartbeatProcess_mutations)


section \<open>Confirmed results\<close>

text \<open>C26. A confirmed NMT command was accepted by the master, and then either the managed state
  was the expected one both before and after the command, or the expected state was published
  during or after it: a publication from before the command never confirms it.\<close>

theorem nmt_command_confirmed:
  "wp (issueNmtCommandAndWaitForState M cmd n st t) (\<lambda>ok w'. ok \<longrightarrow> n \<noteq> 0 \<and> unat n < 128 \<and>
     (\<exists>e1 es. hist w' = es @ [EvCommand cmd n True, e1] @ hist w \<and>
        ((\<exists>e2. es = [e2] \<and> e1 = EvLocalRead kRequestNmtIndex n (V8 st) NoError \<and>
            e2 = EvLocalRead kRequestNmtIndex n (V8 st) NoError) \<or>
         CbState n st \<in> set (delivered M (es @ [EvCommand cmd n True]) (e1 # hist w))))) w"
  by (rule issueNmtCommandAndWaitForState_confirmed)

theorem nmt_command_confirmed_witness:
  "wp (issueNmtCommandAndWaitForState bench START 1 nmt_START 1000) (\<lambda>ok w'. ok \<and>
     (\<exists>e1 es. hist w' = es @ [EvCommand START 1 True, e1])) bench_world"
proof -
  from nmt_command_confirmed [of bench START 1 nmt_START 1000 bench_world] bench_nmt_start
  have "wp (issueNmtCommandAndWaitForState bench START 1 nmt_START 1000) (\<lambda>ok w'. ok \<and>
     (ok \<longrightarrow> (\<exists>e1 es. hist w' = es @ [EvCommand START 1 True, e1]))) bench_world"
    unfolding wp_conj by (auto elim!: wp_mono)
  then show ?thesis by (rule wp_mono) blast
qed

text \<open>C27. While the test COB-ID is configured, a download that enables the device's EMCY producer
  is only sent when the producer is disabled on the device, as CiA 301 requires of a change of
  the identifier.\<close>

theorem emcy_cob_id_guarded:
  assumes "sdo_server plain M dev" "plain emcy_cob_address"
  shows "wp (configureTestEmcyCobId M) (\<lambda>ok. guarded_since dev w) w"
  using assms by (rule configureTestEmcyCobId_guarded)

theorem emcy_cob_id_guarded_witness:
  "wp (configureTestEmcyCobId bench) (\<lambda>ok w'. ok \<and> guarded_since bench_dev bench_world w') bench_world"
proof -
  have "bench_plain emcy_cob_address" by (simp add: bench_plain_def const_defs)
  from emcy_cob_id_guarded [OF bench_is_server this, of bench_world] bench_configure_emcy
  show ?thesis unfolding wp_conj by simp
qed

section \<open>Footprints\<close>

section \<open>Storage image\<close>

text \<open>C37. Both checksums detect every change of a single byte, at any place: the CRC of the raw image and the FNV-1a
  checksum that the device reports for a transferred payload are equal for data that differ in at most
  one byte only if the data are equal.\<close>

theorem checksums_detect_one_byte:
  "(crc16Ccitt (xs @ x # ys) = crc16Ccitt (xs @ y # ys) \<longleftrightarrow> x = y) \<and>
   (checksum_client (xs @ x # ys) = checksum_client (xs @ y # ys) \<longleftrightarrow> x = y)"
  using crc16_one_byte checksum_detects by blast


section \<open>TIME\<close>

section \<open>EMCY\<close>

text \<open>C40. Waiting for a clear error register ends: with success right after a read of zero, or with
  failure once the timeout has passed on the host clock.\<close>

theorem wait_for_clear_bounded:
  "wp (waitForClearErrorRegister M) (\<lambda>ok w'. if ok
     then (\<exists>e es. hist w' = e # es @ hist w \<and>
        saw CANOPEN_SLAVE_NODE_ID kErrorRegisterIndex kScalarSubindex (V8 0) e)
     else clock w + ms kEmcyWaitTimeoutMs \<le> clock w') w"
  by (rule waitForClearErrorRegister_bounded)

section \<open>NMT observation and the runner\<close>

section \<open>NMT master\<close>





section \<open>GFC\<close>

text \<open>C8. Every GFC run either fails without changing anything, or reads the GFC parameter before its first
  change and ends by disabling the parameter and then, only when the producer's request and completion
  sequences were just read equal, writing the value read first; a run reports success only if that write
  was confirmed and read back.\<close>

theorem gfc_process_puts_back: "wp (gfcProcess M) (gfc_run_end w) w"
  by (rule gfcProcess_end)

text \<open>C9. A successful GFC run makes exactly these changes in this order: parameter and frames of the
  consumer cases (one of them the refused value 2, one the frame with a wrong length), the two producer
  requests with the parameter off and on, the communication reset with one more frame and, where needed,
  the parameter and the start command, and the restoration.\<close>

theorem gfc_process_changes:
  "wp (gfcProcess M) (\<lambda>r w'. r = 1 \<or> r = 0 \<and> (\<exists>v q enable start. does w (gfc_changes v q enable start) w')) w"
  by (rule gfcProcess_changes)

section \<open>SDO block transfers\<close>


section \<open>PDO\<close>

text \<open>C18. Every run of the PDO validation: it fails after starting the nodes without touching the test
  object; or it starts both nodes, reads the object, sends a probe that differs from what it read, and then
  puts the value read back over SDO, or as a PDO once the SDO channel is in an unknown state.  It reports
  success only if the probe was sent, the SDO write was the only restoration and the last call shows the
  value again.\<close>

theorem pdo_process_runs:
  "wp (pdoProcess M) (\<lambda>r w'.
     r = 1 \<and> (does w [Nmt START CANOPEN_MASTER_NODE_ID] w' \<or> does w starts w') \<or>
     (\<exists>u v original e0 ps bs. does w starts u \<and> hist v = e0 # hist u \<and> test_saw original e0 \<and>
        does v (ps @ bs) w' \<and> sends (probeValue original) ps \<and> probeValue original \<noteq> original \<and>
        puts_back original bs \<and>
        (r = 1 \<or> r = 0 \<and> ps = [MappedWrite 0x2200 0 (probeValue original), MappedSend 0x2200 0] \<and>
           bs = [test_write original] \<and> (\<exists>e h. hist w' = e # h \<and> test_saw original e)))) w"
proof -
  have "probeValue original \<noteq> original" for original
    by (simp add: probeValue_def kRpdoProbeValue_def kRpdoAlternateValue_def)
  then show ?thesis
    using pdoProcess_run [of M w] unfolding pdo_run_def by simp
qed


section \<open>SYNC and synchronous TPDO\<close>


text \<open>C23. Whatever happened before it, the cleanup of the SYNC validation starts the node only if no download
  was tried in the run, or if its last reading of the device showed the complete original snapshot and the
  original SYNC COB-ID, and then it does nothing more but restore the local period.\<close>

theorem sync_starts_safely:
  "wp (syncStimuli M) (\<lambda>s v. wp (syncCleanup M s) (\<lambda>r w'. keeps no_sdo_write w v \<or> keeps no_start v w' \<or>
     started_as_shown (sr_original s) (sr_remote_sync_cob_id s) v w') v) w"
  by (rule syncPdoProcess_safe)

text \<open>C38. The timing check accepts exactly the observations with five SYNCs and five TPDOs in which every TPDO
  lies between its SYNC and the next, the last one within 200 ms of its SYNC.\<close>

theorem sync_timing_exact:
  "wp validateSynchronousTiming (\<lambda>ok w'. w' = w \<and> (ok \<longleftrightarrow> so_sync_count (so (mem w)) = 5 \<and>
     so_tpdo_count (so (mem w)) = 5 \<and> alternating (so_sync_timestamps (so (mem w))) (so_tpdo_timestamps (so (mem w))))) w"
  by (rule validateSynchronousTiming_iff)

section \<open>EMCY consumer\<close>


text \<open>C21. Whenever the EMCY consumer validation clears the master's error stack, the two calls before it read
  the depth of the stack, no larger than the number of errors pushed since the last clear, and its top, one
  of the two errors of the test.\<close>

theorem emcy_clears_own_only:
  "wp (emcyConsumerProcess M) (\<lambda>r w'. \<exists>es. hist w' = es @ hist w \<and> clears_own es) w"
  by (rule emcyConsumerProcess_clears_own)

section \<open>Properties of several processes\<close>

text \<open>C28. What each process can change at all.  The EMCY process writes only the master's heartbeat and EMCY
  consumer entries and the device's EMCY COB-ID and inhibit time; the storage process only its diagnostic,
  probe and storage objects and the master's heartbeat consumer, with Reset Node as its only command; the
  TIME process only the TIME COB-ID, with well-formed frames and two commands; the GFC process only its two
  objects, two commands and two frames; the SYNC process only the COB-ID and type of TPDO1 and the master's
  SYNC period, with Start, Enter Pre-operational and Reset Communication; the EMCY consumer process only the
  master's own error stack, with its two errors, Start and Reset Communication; the SRDO process only the
  listed values of SRDO1, its mapping, checksum and request, receive frames and three commands, beside what the
  PDO and the SYNC process change; the SDO client process only the request fields of the control record, the
  device's local control object, the three test objects of the master's own dictionary, and one command.\<close>

theorem process_footprints:
  "touches emcy_objects (emcyProcess M) \<and> touches storage_objects (storageProcess M mode) \<and>
   touches time_objects (timeProcess M) \<and> touches gfc_objects (gfcProcess M) \<and>
   touches sync_objects (syncPdoProcess M) \<and> touches consumer_objects (emcyConsumerProcess M) \<and>
   touches srdo_objects (srdoProcess M) \<and> touches client_objects (sdoClientProcess M block)"
  by (intro conjI emcyProcess_touches storageProcess_touches timeProcess_touches gfcProcess_touches
      syncPdoProcess_touches emcyConsumerProcess_touches srdoProcess_touches sdoClientProcess_touches)

text \<open>C29. The SDO block, the PDO and the EMCY consumer validation never start a transaction after one whose completion was not
  observed in time, on any path, the cleanup included; the TIME process starts one while an earlier one is in an
  unknown state only after an accepted communication reset came in between.\<close>

theorem channel_discipline:
  "wp (sdoBlockProcess M) (\<lambda>r w'. \<exists>es. hist w' = es @ hist w \<and> stops_when_unknown es) w \<and>
   wp (pdoProcess M) (\<lambda>r w'. \<exists>es. hist w' = es @ hist w \<and> stops_when_unknown es) w \<and>
   wp (emcyConsumerProcess M) (\<lambda>r w'. \<exists>es. hist w' = es @ hist w \<and> stops_when_unknown es) w \<and>
   wp (timeProcess M) (\<lambda>r w'. \<exists>es. hist w' = es @ hist w \<and> orderly es) w"
proof (intro conjI)
  show "wp (timeProcess M) (\<lambda>r w'. \<exists>es. hist w' = es @ hist w \<and> orderly es) w"
    by (rule wp_mono [OF timeProcess_ordered]) (simp add: ordered_since_def)
qed (use sdoBlockProcess_orderly pdoProcess_orderly emcyConsumerProcess_orderly in blast)+


section \<open>SRDO\<close>

text \<open>C10. Every SRDO validation fails before it accepted a profile, having tried nothing but Enter
  Pre-operational, or it has shown the idle states and every value of a sound profile.  Then it succeeds
  exactly through all nineteen checks in order, each with its evidence, or it fails and ends with the
  restoration of the baseline: confirmed as a whole, or stopped at a step after every step before it was
  confirmed, with nothing but the process's own changes before.\<close>

theorem srdo_process_run:
  "wp (srdoProcess M) (\<lambda>r w'. r = 1 \<and> tries [Nmt ENTER_PREOP CANOPEN_SLAVE_NODE_ID] w w' \<or>
     (\<exists>p u v. idle_shown w u \<and> sound_profile p \<and> exhibits (profile_readings p) u v \<and>
        (r = 0 \<and> srdo_checked M v w' \<or>
         r = 1 \<and> (\<exists>x. keeps srdo_objects v x \<and> (clean x w' \<or> stops restoration_steps x w'))))) w"
  using srdoProcess_run unfolding srdo_run_def .


text \<open>C12. A delivered SRDO pair is exactly what was on the wire: the transmitted frames read during the call are
  the normal and then the inverted frame, after at most one inverted frame that a fresh synchroniser was
  allowed to discard, and the synchroniser is left between pairs.\<close>

theorem srdo_pair_exact:
  "wp (nextPair M timeout keep (newSynchronizer resync)) (\<lambda>(captured, y) w'. captured = None \<or>
     (\<exists>n i lead. captured = Some (n, i) \<and> can_id (wf_message n) = 0x103 \<and> can_id (wf_message i) = 0x104 \<and>
        captures w (lead @ [n, i]) w' \<and> (lead = [] \<or> resync \<and> (\<exists>f. lead = [f] \<and> can_id (wf_message f) = 0x104)) \<and>
        sync_state y = EXPECT_NORMAL \<and> synchronized y)) w"
proof -
  have "sync_state (newSynchronizer resync) = EXPECT_NORMAL" by (simp add: newSynchronizer_def)
  from nextPair_paired [OF this] show ?thesis
    by (rule wp_mono)
       (fastforce simp: paired_def discards_def newSynchronizer_def is_normal_def is_inverted_def split: option.splits)
qed

text \<open>C13. The cycle check passes only on 200 successive valid pairs with no transmitted frame between them, each at
  most 30 ms long, every cycle between 50 and 150 ms, and all 199 cycles together between 15.92 s and
  23.880199 s, with nothing changed and the transmit state shown as established at the end.\<close>

theorem srdo_cycles_bounded:
  "wp (validateTxCycles M) (\<lambda>ok w'. ok = False \<or> ok = True \<and> (\<exists>u v ps. quiet w u \<and> quiet u v \<and> reads_pairs ps u v \<and>
     length ps = 200 \<and> list_all pair_ok ps \<and> list_all (\<lambda>c. 50000 \<le> c \<and> c \<le> 150000) (gaps (normal_times ps)) \<and>
     15920000 \<le> sum_list (gaps (normal_times ps)) \<and> sum_list (gaps (normal_times ps)) < 23880199 \<and>
     tx_state_is 3 v w')) w"
proof (rule wp_mono [OF performs_wp [OF validateTxCycles_performs]])
  fix ok w' assume "ok \<longrightarrow> cycled w w'"
  moreover have "\<exists>u v ps. quiet w u \<and> quiet u v \<and> reads_pairs ps u v \<and> timed ps \<and> tx_state_is 3 v w'" if "cycled w w'"
    using that by (auto simp: cycled_def observes_cycles_def)
  ultimately show "ok = False \<or> ok = True \<and> (\<exists>u v ps. quiet w u \<and> quiet u v \<and> reads_pairs ps u v \<and>
     length ps = 200 \<and> list_all pair_ok ps \<and> list_all (\<lambda>c. 50000 \<le> c \<and> c \<le> 150000) (gaps (normal_times ps)) \<and>
     15920000 \<le> sum_list (gaps (normal_times ps)) \<and> sum_list (gaps (normal_times ps)) < 23880199 \<and>
     tx_state_is 3 v w')"
    using timed_total by (fastforce simp: timed_def)
qed

text \<open>C35. A captured pair is accepted exactly if both frames have their identifier, no flags and four bytes, the
  normal value is the expected one, the inverted value its complement, and the frames came in order.\<close>

theorem srdo_wire_pair_iff:
  "validateWirePair n i e \<longleftrightarrow> can_id (wf_message n) = 0x103 \<and> can_id (wf_message i) = 0x104 \<and>
     can_flags (wf_message n) = 0 \<and> can_flags (wf_message i) = 0 \<and> can_len (wf_message n) = 4 \<and> can_len (wf_message i) = 4 \<and>
     decodeU32 (wf_message n) = e \<and> decodeU32 (wf_message i) = NOT e \<and> wf_timestamp n \<le> wf_timestamp i"
  by (rule validateWirePair_iff)

text \<open>C36. The encoding of the process's frames and the decoding of captured ones are inverse: the frame of a value
  decodes to it, and of two encoded values the pair check accepts exactly a value with its complement.\<close>

theorem srdo_payload_round_trip:
  "decodeU32 (srdoFrame i (encodeU32 v) kPayloadLength) = v \<and>
     (validateWirePair \<lparr>wf_message = srdoFrame kTxNormalCanId (encodeU32 v) kPayloadLength, wf_timestamp = t\<rparr>
        \<lparr>wf_message = srdoFrame kTxInvertedCanId (encodeU32 v') kPayloadLength, wf_timestamp = t'\<rparr> e \<longleftrightarrow>
      v = e \<and> v' = NOT e \<and> t \<le> t')"
  by (auto simp: validateWirePair_iff wire_const_defs decode_encode)


section \<open>SDO client\<close>

text \<open>C14. The SDO client validation reports 0 only after the whole protocol: the missing node timed out, the three
  test objects were built where none existed, and every case followed in order.  A transaction in it stored
  all fields of its request before the fresh sequence, saw the device complete that sequence and then read a
  coherent status that carries it and passes the check of the case; a download was read back from its target
  independently and its original restored and shown again; the reset came while its request was active; at the
  end the objects were removed.  Every other run reports 1.\<close>

theorem sdo_client_run:
  "wp (sdoClientProcess M block) (\<lambda>r w'. r = 0 \<and>
     (\<exists>v x. stages [node_missing M, placed, displays 0x2200 0 (V32 v), stages (local_phases v),
        fixture_shows 0x2F00 (V32 x), stages (remote_phases x), stages (block_phases block), removed] w w') \<or> r = 1) w"
  using sdoClientProcess_run unfolding client_run_def .

text \<open>C15. The fixture leaks nothing and installs atomically: every run of the SDO client validation destroys each
  object as often as it creates it, whatever the stack answers; an installation succeeds with exactly the
  three objects owned, or fails with none left and the fixture as it was new.\<close>

theorem sdo_client_leaves_no_object:
  "wp (sdoClientProcess M block) (\<lambda>r w'. \<exists>es. hist w' = es @ hist w \<and> (\<forall>i. owned i es = 0)) w \<and>
   wp (install M newFixture) (\<lambda>(ok, fx) w'. \<exists>es. hist w' = es @ hist w \<and>
     (\<forall>i. owned i es = of_bool (ok \<and> i \<in> {0x2F00, 0x2F01, 0x2F02})) \<and> installed fx = ok \<and> (ok \<or> fx = newFixture)) w"
proof (intro conjI)
  have exact: "objects_of fx i = of_bool (ok \<and> i \<in> {0x2F00, 0x2F01, 0x2F02})"
    if "if ok then u32_object fx \<and> octets_object fx \<and> readonly_object fx else fx = newFixture" for ok fx i
    using that by (cases ok) (auto simp: objects_of_def fixture_const_defs newFixture_def)
  show "wp (sdoClientProcess M block) (\<lambda>r w'. \<exists>es. hist w' = es @ hist w \<and> (\<forall>i. owned i es = 0)) w"
    using sdoClientProcess_gains by (simp add: gains_def)
  show "wp (install M newFixture) (\<lambda>(ok, fx) w'. \<exists>es. hist w' = es @ hist w \<and>
     (\<forall>i. owned i es = of_bool (ok \<and> i \<in> {0x2F00, 0x2F01, 0x2F02})) \<and> installed fx = ok \<and> (ok \<or> fx = newFixture)) w"
  proof (rule wp_mono [OF install_gains])
    fix r w' assume "(case r of (ok, fx) \<Rightarrow> \<lambda>w'. gains w (objects_of fx) w' \<and> installed fx = ok \<and>
      (if ok then u32_object fx \<and> octets_object fx \<and> readonly_object fx else fx = newFixture)) w'"
    then show "(case r of (ok, fx) \<Rightarrow> \<lambda>w'. \<exists>es. hist w' = es @ hist w \<and>
      (\<forall>i. owned i es = of_bool (ok \<and> i \<in> {0x2F00, 0x2F01, 0x2F02})) \<and> installed fx = ok \<and> (ok \<or> fx = newFixture)) w'"
      by (auto simp only: gains_def exact prod.case split: prod.splits) (auto split: if_splits)
  qed
qed


section \<open>The shared memory and progress\<close>

text \<open>C30. The shared memory is well-formed at start-up and stays so, and the clock never goes back, in every run of
  every process: the event log within its bound and in sequence, the state cache with one slot per node, the
  command ring within its array, the workers' flags and received samples in their ranges, and a boot recorded
  as succeeded is recorded as received.\<close>

theorem memory_stays_well_formed:
  assumes "memory_wf (mem w)"
  shows "memory_wf initial_memory \<and>
    wp (sdoProcess M) (\<lambda>r w'. memory_wf (mem w') \<and> clock w \<le> clock w') w \<and>
    wp (heartbeatProcess M) (\<lambda>r w'. memory_wf (mem w') \<and> clock w \<le> clock w') w \<and>
    wp (emcyProcess M) (\<lambda>r w'. memory_wf (mem w') \<and> clock w \<le> clock w') w \<and>
    wp (emcyConsumerProcess M) (\<lambda>r w'. memory_wf (mem w') \<and> clock w \<le> clock w') w \<and>
    wp (storageProcess M mode) (\<lambda>r w'. memory_wf (mem w') \<and> clock w \<le> clock w') w \<and>
    wp (timeProcess M) (\<lambda>r w'. memory_wf (mem w') \<and> clock w \<le> clock w') w \<and>
    wp (nmtMasterProcess M) (\<lambda>r w'. memory_wf (mem w') \<and> clock w \<le> clock w') w \<and>
    wp (gfcProcess M) (\<lambda>r w'. memory_wf (mem w') \<and> clock w \<le> clock w') w \<and>
    wp (sdoBlockProcess M) (\<lambda>r w'. memory_wf (mem w') \<and> clock w \<le> clock w') w \<and>
    wp (pdoProcess M) (\<lambda>r w'. memory_wf (mem w') \<and> clock w \<le> clock w') w \<and>
    wp (syncPdoProcess M) (\<lambda>r w'. memory_wf (mem w') \<and> clock w \<le> clock w') w \<and>
    wp (srdoProcess M) (\<lambda>r w'. memory_wf (mem w') \<and> clock w \<le> clock w') w \<and>
    wp (sdoClientProcess M block) (\<lambda>r w'. memory_wf (mem w') \<and> clock w \<le> clock w') w \<and>
    wp (finalResetProcess M) (\<lambda>r w'. memory_wf (mem w') \<and> clock w \<le> clock w') w"
  by (intro conjI initial_memory_wf wp_memory [OF _ assms])
     (rule sdoProcess_any heartbeatProcess_touches emcyProcess_touches emcyConsumerProcess_touches storageProcess_touches
        timeProcess_touches nmtMasterProcess_touches gfcProcess_touches sdoBlockProcess_touches pdoProcess_touches
        syncPdoProcess_touches srdoProcess_touches sdoClientProcess_touches finalResetProcess_any)+

theorem memory_stays_well_formed_witness:
  "memory_wf (mem bench_world) \<and> wp (srdoProcess bench) (\<lambda>r w'. memory_wf (mem w') \<and> clock bench_world \<le> clock w') bench_world"
proof -
  have "memory_wf (mem bench_world)"
    using initial_memory_wf by (simp add: memory_wf_def bench_world_def initial_memory_def)
  with memory_stays_well_formed [of bench_world bench] show ?thesis by simp
qed

text \<open>C31. The final reset makes progress: when the stack accepts the reset command and the slave boots between the
  command and the end of the wait, each of its boots reported as passed, the process reports success.\<close>

theorem final_reset_live:
  assumes "on_boot (mem w)" and "slave_reboots M (hist w)"
  shows "wp (finalResetProcess M) (\<lambda>r w'. r = 0) w"
  using assms by (rule finalReset_live)

theorem final_reset_live_witness:
  "slave_reboots bench (hist bench_world) \<and> wp (finalResetProcess bench) (\<lambda>r w'. r = 0) bench_world"
proof -
  have "slave_reboots bench (hist bench_world)"
    by (simp add: slave_reboots_def boot_passes_def CANOPEN_SLAVE_NODE_ID_def)
  with final_reset_live [of bench_world bench] show ?thesis by simp
qed

section \<open>The program\<close>

text \<open>C32. A run of the program that returns reports 0 or 1.  It reports 0 only with the handlers installed, the
  bitrate as expected, and the whole contract of its role: the master started the event loop and the node, saw
  the slave boot, ran every enabled process in the order of the table and each passed, waited without changing
  anything, found at the end of the wait a stop requested or the loop still running, and, if enabled and the loop
  still ran, confirmed the final reset before it stopped the loop; the slave peer passed the NMT master validation,
  if enabled.  A master that fails left everything as it was, did nothing but start the node, or ran the table
  after the slave booted.\<close>

theorem program_runs:
  "returns (mainProgram opt S E M w) (\<lambda>r w'. r = 0 \<and> signals_installed S \<and> fst (bitrate_answer S) = 1000000 \<and>
       (if role_master opt then master_passed opt (storage_mode S) M w w' else slave_passed opt M w w') \<or>
     r = 1 \<and> (w' = w \<or> role_master opt = False \<or> master_failed opt (storage_mode S) M w w'))"
  using runCanopenMaster_runs [of opt "storage_mode S" E M w] runCanopenSlave_runs [of opt E M w]
  by (auto simp: mainProgram_def validateCanBitrate_def CANOPEN_EXPECTED_BITRATE_def returns_def split: option.splits prod.splits)


end
